(* ===== verification/Prelude.thy ===== *)
theory Prelude
  imports Main "HOL-Library.Word"
begin

text \<open>
  Shared vocabulary of the development. A database table is a list of row records in
  insertion order, so \<open>SELECT ... WHERE\<close> is \<open>List.find\<close> or \<open>filter\<close>, an
  \<open>UPDATE\<close> is \<open>upd_rows\<close>, a \<open>DELETE\<close> is \<open>del_rows\<close> and an \<open>INSERT\<close>
  appends. The lemmas here say how lookups, key lists and filters commute with those
  statements; they carry the invariant proofs of the components.
\<close>

named_theorems table_simps \<open>lookups, keys and filters after a statement\<close>
named_theorems op_defs \<open>definitions of the statements an operation runs\<close>

type_synonym uuid = "128 word"
type_synonym timestamp = int \<comment> \<open>microseconds since 1970, the resolution of PostgreSQL\<close>
type_synonym byte = "8 word"
type_synonym bytes = "8 word list"

section \<open>Tables as lists of rows\<close>

definition upd_rows :: "('r \<Rightarrow> bool) \<Rightarrow> ('r \<Rightarrow> 'r) \<Rightarrow> 'r list \<Rightarrow> 'r list" where
  "upd_rows P f rs = map (\<lambda>r. if P r then f r else r) rs"

definition del_rows :: "('r \<Rightarrow> bool) \<Rightarrow> 'r list \<Rightarrow> 'r list" where
  "del_rows P rs = filter (\<lambda>r. \<not> P r) rs"

definition count_rows :: "('r \<Rightarrow> bool) \<Rightarrow> 'r list \<Rightarrow> nat" where
  "count_rows P rs = length (filter P rs)"

definition distinct_on :: "('r \<Rightarrow> 'k) \<Rightarrow> 'r list \<Rightarrow> bool" where
  "distinct_on k rs = distinct (map k rs)"

lemma upd_rows_Nil [simp]: "upd_rows P f [] = []"
  by (simp add: upd_rows_def)

lemma upd_rows_Cons [simp]:
  "upd_rows P f (r # rs) = (if P r then f r else r) # upd_rows P f rs"
  by (simp add: upd_rows_def)

lemma upd_rows_append [simp]: "upd_rows P f (rs @ ss) = upd_rows P f rs @ upd_rows P f ss"
  by (simp add: upd_rows_def)

lemma length_upd_rows [simp]: "length (upd_rows P f rs) = length rs"
  by (simp add: upd_rows_def)

lemma set_upd_rows: "set (upd_rows P f rs) = (\<lambda>r. if P r then f r else r) ` set rs"
  by (simp add: upd_rows_def)

lemma upd_rowsE:
  assumes "x \<in> set (upd_rows P f rs)"
  obtains y where "y \<in> set rs" and "x = (if P y then f y else y)"
  using assms unfolding set_upd_rows by (elim imageE) (rule that)

lemma upd_rows_cong: "(\<And>r. r \<in> set rs \<Longrightarrow> P r = Q r) \<Longrightarrow> upd_rows P f rs = upd_rows Q f rs"
  by (simp add: upd_rows_def)

lemma upd_rows_hit: "r \<in> set rs \<Longrightarrow> P r \<Longrightarrow> f r \<in> set (upd_rows P f rs)"
  by (induction rs) auto

lemma upd_rows_miss: "r \<in> set rs \<Longrightarrow> \<not> P r \<Longrightarrow> r \<in> set (upd_rows P f rs)"
  by (induction rs) auto

lemma bex_upd_rows:
  "(\<And>r. P r \<Longrightarrow> Q (f r) = Q r) \<Longrightarrow>
     (\<exists>b\<in>set (upd_rows P f rs). Q b) \<longleftrightarrow> (\<exists>b\<in>set rs. Q b)"
  by (induction rs) auto

lemma ball_upd_rows:
  "(\<And>r. P r \<Longrightarrow> Q (f r) = Q r) \<Longrightarrow>
     (\<forall>b\<in>set (upd_rows P f rs). Q b) \<longleftrightarrow> (\<forall>b\<in>set rs. Q b)"
  by (induction rs) auto

lemma upd_rows_idle: "(\<And>r. r \<in> set rs \<Longrightarrow> \<not> P r) \<Longrightarrow> upd_rows P f rs = rs"
  by (induction rs) auto

lemma del_rows_Nil [simp]: "del_rows P [] = []"
  by (simp add: del_rows_def)

lemma del_rows_Cons [simp]:
  "del_rows P (r # rs) = (if P r then del_rows P rs else r # del_rows P rs)"
  by (simp add: del_rows_def)

lemma set_del_rows [simp]: "set (del_rows P rs) = {r \<in> set rs. \<not> P r}"
  by (simp add: del_rows_def)

lemma count_rows_Nil [simp]: "count_rows P [] = 0"
  by (simp add: count_rows_def)

lemma count_rows_Cons [simp]:
  "count_rows P (r # rs) = (if P r then Suc (count_rows P rs) else count_rows P rs)"
  by (simp add: count_rows_def)

lemma count_rows_append [simp]:
  "count_rows P (rs @ ss) = count_rows P rs + count_rows P ss"
  by (simp add: count_rows_def)

lemma count_rows_0: "count_rows P rs = 0 \<longleftrightarrow> (\<forall>r\<in>set rs. \<not> P r)"
  by (auto simp: count_rows_def filter_empty_conv)

subsection \<open>Keys\<close>

lemma distinct_on_Nil [simp]: "distinct_on k []"
  by (simp add: distinct_on_def)

lemma distinct_on_Cons [simp]:
  "distinct_on k (r # rs) \<longleftrightarrow> k r \<notin> k ` set rs \<and> distinct_on k rs"
  by (simp add: distinct_on_def)

lemma distinct_on_append [simp]:
  "distinct_on k (rs @ ss) \<longleftrightarrow>
     distinct_on k rs \<and> distinct_on k ss \<and> k ` set rs \<inter> k ` set ss = {}"
  by (simp add: distinct_on_def)

lemma distinct_on_upd_rows [table_simps]:
  "(\<And>r. P r \<Longrightarrow> k (f r) = k r) \<Longrightarrow> distinct_on k (upd_rows P f rs) = distinct_on k rs"
proof -
  assume "\<And>r. P r \<Longrightarrow> k (f r) = k r"
  then have "map k (upd_rows P f rs) = map k rs" by (simp add: upd_rows_def)
  then show ?thesis by (simp add: distinct_on_def)
qed

lemma distinct_on_filter: "distinct_on k rs \<Longrightarrow> distinct_on k (filter P rs)"
  by (simp add: distinct_on_def distinct_map_filter)

lemma distinct_on_del_rows: "distinct_on k rs \<Longrightarrow> distinct_on k (del_rows P rs)"
  by (simp add: del_rows_def distinct_on_filter)

lemma distinct_onD:
  "distinct_on k rs \<Longrightarrow> r \<in> set rs \<Longrightarrow> s \<in> set rs \<Longrightarrow> k r = k s \<Longrightarrow> r = s"
  by (auto simp: distinct_on_def distinct_map inj_on_def)

lemma image_upd_rows [table_simps]:
  "(\<And>r. P r \<Longrightarrow> k (f r) = k r) \<Longrightarrow> k ` set (upd_rows P f rs) = k ` set rs"
  by (induction rs) auto

subsection \<open>Lookups\<close>

lemma find_SomeD: "List.find P rs = Some r \<Longrightarrow> r \<in> set rs \<and> P r"
  by (induction rs) (auto split: if_splits)

lemma find_NoneD: "List.find P rs = None \<Longrightarrow> r \<in> set rs \<Longrightarrow> \<not> P r"
  by (auto simp: find_None_iff)

lemma find_append:
  "List.find P (rs @ ss) = (case List.find P rs of None \<Rightarrow> List.find P ss | Some r \<Rightarrow> Some r)"
  by (induction rs) auto

lemma find_append_Some: "List.find P rs = Some r \<Longrightarrow> List.find P (rs @ ss) = Some r"
  by (simp add: find_append)

lemma find_append_None: "List.find P rs = None \<Longrightarrow> List.find P (rs @ ss) = List.find P ss"
  by (simp add: find_append)

lemma find_eq_Some_key:
  assumes "distinct_on k rs" and "r \<in> set rs"
  shows "List.find (\<lambda>x. k x = k r) rs = Some r"
proof (cases "List.find (\<lambda>x. k x = k r) rs")
  case None
  with assms(2) show ?thesis by (auto dest: find_NoneD)
next
  case (Some x)
  then have "x \<in> set rs" and "k x = k r" by (auto dest: find_SomeD)
  with assms have "x = r" by (blast dest: distinct_onD)
  with Some show ?thesis by simp
qed

lemma find_key_and:
  assumes "distinct_on k rs" and "r \<in> set rs" and "k r = i" and "Q r"
  shows "List.find (\<lambda>x. k x = i \<and> Q x) rs = Some r"
proof (cases "List.find (\<lambda>x. k x = i \<and> Q x) rs")
  case None
  with assms(2-4) show ?thesis by (auto dest: find_NoneD)
next
  case (Some x)
  with assms show ?thesis by (auto dest!: find_SomeD dest: distinct_onD)
qed

lemma find_key_iff:
  assumes "distinct_on k rs"
  shows "List.find (\<lambda>x. k x = i) rs = Some r \<longleftrightarrow> r \<in> set rs \<and> k r = i"
  using assms by (auto dest: find_SomeD find_eq_Some_key)

text \<open>A lookup by key after an update of the rows with another or the same key.\<close>

lemma find_upd_rows:
  assumes "\<And>r. P r \<Longrightarrow> Q (f r) = Q r"
  shows "List.find Q (upd_rows P f rs) =
    map_option (\<lambda>r. if P r then f r else r) (List.find Q rs)"
  using assms by (induction rs) auto

lemma find_upd_rows_same:
  assumes "\<And>r. P r \<Longrightarrow> Q (f r) = Q r" and "List.find Q rs = Some r" and "P r"
  shows "List.find Q (upd_rows P f rs) = Some (f r)"
  using assms(2,3) by (simp add: find_upd_rows assms(1))

lemma filter_upd_rows:
  assumes "\<And>r. P r \<Longrightarrow> Q (f r) = Q r"
  shows "filter Q (upd_rows P f rs) = upd_rows P f (filter Q rs)"
  using assms by (induction rs) auto

lemma filter_upd_rows_other:
  assumes "\<And>r. P r \<Longrightarrow> \<not> Q r" and "\<And>r. P r \<Longrightarrow> \<not> Q (f r)"
  shows "filter Q (upd_rows P f rs) = filter Q rs"
  using assms by (induction rs) auto

lemma count_upd_rows:
  assumes "\<And>r. P r \<Longrightarrow> Q (f r) = Q r"
  shows "count_rows Q (upd_rows P f rs) = count_rows Q rs"
  using assms by (induction rs) auto

lemma count_del_rows_le: "count_rows Q (del_rows P rs) \<le> count_rows Q rs"
  by (induction rs) auto

section \<open>Calls that may fail\<close>

text \<open>
  Fallible code returns \<open>Inl\<close> an error or \<open>Inr\<close> a value; \<open>bindE\<close> is the
  \<^verbatim>\<open>if err != nil { return err }\<close> between two calls, \<open>wrap_err\<close> the translation of a
  database error to an error of the calling package.
\<close>

definition bindE :: "'e + 'a \<Rightarrow> ('a \<Rightarrow> 'e + 'b) \<Rightarrow> 'e + 'b" where
  "bindE m f = (case m of Inl e \<Rightarrow> Inl e | Inr x \<Rightarrow> f x)"

definition wrap_err :: "('e \<Rightarrow> 'f) \<Rightarrow> 'e + 'a \<Rightarrow> 'f + 'a" where
  "wrap_err g m = (case m of Inl e \<Rightarrow> Inl (g e) | Inr x \<Rightarrow> Inr x)"

lemma bindE_simps [simp]:
  "bindE (Inl e) f = Inl e"
  "bindE (Inr x) f = f x"
  by (simp_all add: bindE_def)

lemma wrap_err_simps [simp]:
  "wrap_err g (Inl e) = Inl (g e)"
  "wrap_err g (Inr x) = Inr x"
  by (simp_all add: wrap_err_def)

lemma wrap_err_Inr [simp]: "wrap_err g m = Inr x \<longleftrightarrow> m = Inr x"
  by (cases m) simp_all

lemma bindE_Inr: "bindE m f = Inr y \<longleftrightarrow> (\<exists>x. m = Inr x \<and> f x = Inr y)"
  by (cases m) simp_all

lemma bindE_Inl: "bindE m f = Inl e \<longleftrightarrow> m = Inl e \<or> (\<exists>x. m = Inr x \<and> f x = Inl e)"
  by (cases m) simp_all

lemma bindE_InrE [elim!]:
  assumes "bindE m f = Inr y"
  obtains x where "m = Inr x" and "f x = Inr y"
  using assms by (auto simp: bindE_Inr)

definition guardE :: "bool \<Rightarrow> 'e \<Rightarrow> 'e + unit" where
  "guardE b e = (if b then Inr () else Inl e)"

lemma guardE_Inr [simp]: "guardE b e = Inr u \<longleftrightarrow> b"
  by (simp add: guardE_def)

lemma guardE_True [simp]: "guardE True e = Inr ()"
  by (simp add: guardE_def)

lemma guardE_False [simp]: "guardE False e = Inl e"
  by (simp add: guardE_def)

definition from_option :: "'e \<Rightarrow> 'a option \<Rightarrow> 'e + 'a" where
  "from_option e m = (case m of None \<Rightarrow> Inl e | Some x \<Rightarrow> Inr x)"

lemma from_option_simps [simp]:
  "from_option e None = Inl e"
  "from_option e (Some x) = Inr x"
  by (simp_all add: from_option_def)

lemma from_option_Inr [simp]: "from_option e m = Inr x \<longleftrightarrow> m = Some x"
  by (cases m) simp_all

subsection \<open>Transactions\<close>

text \<open>
  An operation returns its result with the database it leaves. \<open>transact\<close> is
  \<^verbatim>\<open>BeginTx\<close>, the deferred \<^verbatim>\<open>Rollback\<close> and the final \<^verbatim>\<open>Commit\<close>: an error of the body
  discards what the body wrote. A list of calls runs them in order.
\<close>

type_synonym ('d, 'e, 'a) tx = "'d \<Rightarrow> ('e + 'a) \<times> 'd"

definition transact :: "('d \<Rightarrow> 'e + 'a \<times> 'd) \<Rightarrow> ('d, 'e, 'a) tx" where
  "transact body d = (case body d of Inl e \<Rightarrow> (Inl e, d) | Inr (v, d') \<Rightarrow> (Inr v, d'))"

text \<open>A statement or a query outside a transaction that cannot change the database.\<close>

definition query :: "('d \<Rightarrow> 'e + 'a) \<Rightarrow> ('d, 'e, 'a) tx" where
  "query q d = (q d, d)"

lemma transact_Inl: "transact body d = (Inl e, d') \<longleftrightarrow> body d = Inl e \<and> d' = d"
  by (auto simp: transact_def split: sum.splits prod.splits)

lemma transact_Inr: "transact body d = (Inr v, d') \<longleftrightarrow> body d = Inr (v, d')"
  by (auto simp: transact_def split: sum.splits prod.splits)

lemma query_eq: "query q d = (r, d') \<longleftrightarrow> q d = r \<and> d' = d"
  by (auto simp: query_def)

lemma snd_transact_cases:
  obtains "snd (transact body d) = d"
  | v d' where "body d = Inr (v, d')" and "snd (transact body d) = d'"
  by (cases "body d") (auto simp: transact_def split: prod.splits)

fun run_calls :: "('d, 'e, 'a) tx list \<Rightarrow> 'd \<Rightarrow> 'd" where
  "run_calls [] d = d"
| "run_calls (c # cs) d = run_calls cs (snd (c d))"

text \<open>
  The contract of a transaction: an error leaves the database as it was (the deferred
  \<open>Rollback\<close>), and on a valid argument the invariant survives whatever the outcome. What a
  valid argument is says the caller's side: the environment's fixed parts, a decoded Go map
  with each key once.
\<close>

locale transaction_contract =
  fixes run :: "'arg \<Rightarrow> ('d, 'e, 'a) tx"
    and valid :: "'arg \<Rightarrow> bool"
    and inv :: "'d \<Rightarrow> bool"
  assumes rollback: "valid x \<Longrightarrow> inv d \<Longrightarrow> run x d = (Inl e, d') \<Longrightarrow> d' = d"
    and preserves: "valid x \<Longrightarrow> inv d \<Longrightarrow> run x d = (Inr v, d') \<Longrightarrow> inv d'"
begin

lemma step_inv: "valid x \<Longrightarrow> inv d \<Longrightarrow> inv (snd (run x d))"
proof (cases "run x d")
  case (Pair r d')
  assume "valid x" "inv d"
  with Pair show ?thesis by (cases r) (auto dest: rollback intro: preserves)
qed

lemma run_calls_inv: "\<forall>x\<in>set xs. valid x \<Longrightarrow> inv d \<Longrightarrow> inv (run_calls (map run xs) d)"
  by (induction xs arbitrary: d) (auto intro: step_inv)

lemma changed_is_success:
  "valid x \<Longrightarrow> inv d \<Longrightarrow> snd (run x d) \<noteq> d \<Longrightarrow> \<exists>v. fst (run x d) = Inr v"
proof (cases "run x d")
  case (Pair r d')
  assume "valid x" "inv d" "snd (run x d) \<noteq> d"
  with Pair show ?thesis by (cases r) (auto dest: rollback)
qed

end

end
