(* ===== verification/GoStrings.thy ===== *)
theory GoStrings
  imports Prelude
begin

text \<open>
  The parts of Go's \<^verbatim>\<open>strings\<close> package the services use. A Go string is a sequence of
  bytes, and so is a \<open>string\<close> here; white space is recognised by the UTF-8 encodings of
  the runes for which \<^verbatim>\<open>unicode.IsSpace\<close> holds.
\<close>

section \<open>White space\<close>

definition space_runes :: "string list" where
  "space_runes =
    [[CHR 0x09], [CHR 0x0A], [CHR 0x0B], [CHR 0x0C], [CHR 0x0D], [CHR 0x20],
     [CHR 0xC2, CHR 0x85], [CHR 0xC2, CHR 0xA0], [CHR 0xE1, CHR 0x9A, CHR 0x80],
     [CHR 0xE2, CHR 0x80, CHR 0x80], [CHR 0xE2, CHR 0x80, CHR 0x81],
     [CHR 0xE2, CHR 0x80, CHR 0x82], [CHR 0xE2, CHR 0x80, CHR 0x83],
     [CHR 0xE2, CHR 0x80, CHR 0x84], [CHR 0xE2, CHR 0x80, CHR 0x85],
     [CHR 0xE2, CHR 0x80, CHR 0x86], [CHR 0xE2, CHR 0x80, CHR 0x87],
     [CHR 0xE2, CHR 0x80, CHR 0x88], [CHR 0xE2, CHR 0x80, CHR 0x89],
     [CHR 0xE2, CHR 0x80, CHR 0x8A], [CHR 0xE2, CHR 0x80, CHR 0xA8],
     [CHR 0xE2, CHR 0x80, CHR 0xA9], [CHR 0xE2, CHR 0x80, CHR 0xAF],
     [CHR 0xE2, CHR 0x81, CHR 0x9F], [CHR 0xE3, CHR 0x80, CHR 0x80]]"

fun strip_prefix :: "'a list \<Rightarrow> 'a list \<Rightarrow> 'a list option" where
  "strip_prefix [] ys = Some ys"
| "strip_prefix (x # xs) [] = None"
| "strip_prefix (x # xs) (y # ys) = (if x = y then strip_prefix xs ys else None)"

definition has_prefix :: "string \<Rightarrow> string \<Rightarrow> bool" where
  "has_prefix p s = (strip_prefix p s \<noteq> None)"

text \<open>\<^verbatim>\<open>strings.TrimPrefix\<close> leaves a string without the prefix unchanged.\<close>

definition trim_prefix :: "string \<Rightarrow> string \<Rightarrow> string" where
  "trim_prefix p s = (case strip_prefix p s of None \<Rightarrow> s | Some r \<Rightarrow> r)"

fun strip_first :: "'a list list \<Rightarrow> 'a list \<Rightarrow> 'a list option" where
  "strip_first [] s = None"
| "strip_first (w # ws) s = (case strip_prefix w s of Some r \<Rightarrow> Some r | None \<Rightarrow> strip_first ws s)"

lemma strip_prefix_Some: "strip_prefix p s = Some r \<longleftrightarrow> s = p @ r"
  by (induction p s rule: strip_prefix.induct) auto

lemma strip_prefix_append [simp]: "strip_prefix p (p @ r) = Some r"
  by (simp add: strip_prefix_Some)

lemma has_prefix_iff: "has_prefix p s \<longleftrightarrow> (\<exists>r. s = p @ r)"
  by (cases "strip_prefix p s") (auto simp: has_prefix_def strip_prefix_Some)

lemma has_prefix_append [simp]: "has_prefix p (p @ r)"
  by (simp add: has_prefix_iff)

lemma trim_prefix_append [simp]: "trim_prefix p (p @ r) = r"
  by (simp add: trim_prefix_def)

lemma strip_first_Some: "strip_first ws s = Some r \<Longrightarrow> \<exists>w\<in>set ws. s = w @ r"
  by (induction ws) (auto simp: strip_prefix_Some split: option.splits)

lemma strip_first_nonempty:
  assumes "strip_first (filter (\<lambda>w. w \<noteq> []) ws) s = Some r"
  obtains w where "w \<noteq> []" and "s = w @ r"
  using strip_first_Some [OF assms] by auto

lemma strip_first_append:
  "strip_first ws s = Some r \<Longrightarrow> strip_first ws (s @ t) \<noteq> None"
proof (induction ws)
  case Nil
  then show ?case by simp
next
  case (Cons w ws)
  then show ?case
    by (auto simp: strip_prefix_Some split: option.splits)
qed

section \<open>TrimSpace and Fields\<close>

text \<open>Strip items of \<open>ws\<close> from the front as long as one matches; \<open>ws\<close> has no empty item.\<close>

function trim_front :: "'a list list \<Rightarrow> 'a list \<Rightarrow> 'a list" where
  "trim_front ws s =
     (case strip_first (filter (\<lambda>w. w \<noteq> []) ws) s of None \<Rightarrow> s | Some r \<Rightarrow> trim_front ws r)"
  by pat_completeness auto
termination
proof (relation "measure (\<lambda>(ws, s). length s)")
  fix ws s and r :: "'a list"
  assume "strip_first (filter (\<lambda>w. w \<noteq> []) ws) s = Some r"
  then obtain w where "w \<noteq> []" and "s = w @ r" by (rule strip_first_nonempty)
  then show "((ws, r), (ws, s)) \<in> measure (\<lambda>(ws, s). length s)" by simp
qed simp

declare trim_front.simps [simp del]

definition trim_space_left :: "string \<Rightarrow> string" where
  "trim_space_left s = trim_front space_runes s"

definition trim_space_right :: "string \<Rightarrow> string" where
  "trim_space_right s = rev (trim_front (map rev space_runes) (rev s))"

definition trim_space :: "string \<Rightarrow> string" where
  "trim_space s = trim_space_right (trim_space_left s)"

text \<open>The number of words of \<^verbatim>\<open>strings.Fields\<close>: maximal runs without white space.\<close>

function count_fields :: "bool \<Rightarrow> string \<Rightarrow> nat" where
  "count_fields in_word s =
     (case strip_first (filter (\<lambda>w. w \<noteq> []) space_runes) s of
        Some r \<Rightarrow> count_fields False r
      | None \<Rightarrow> (case s of [] \<Rightarrow> 0
          | c # cs \<Rightarrow> (if in_word then 0 else 1) + count_fields True cs))"
  by pat_completeness auto
termination
proof (relation "measure (\<lambda>(b, s). length s)")
  fix s r :: string and b :: bool
  assume "strip_first (filter (\<lambda>w. w \<noteq> []) space_runes) s = Some r"
  then obtain w where "w \<noteq> []" and "s = w @ r" by (rule strip_first_nonempty)
  then show "((False, r), (b, s)) \<in> measure (\<lambda>(b, s). length s)" by simp
qed auto

declare count_fields.simps [simp del]

definition fields_count :: "string \<Rightarrow> nat" where
  "fields_count s = count_fields False s"

subsection \<open>TrimSpace is idempotent\<close>

lemma trim_front_suffix: "\<exists>p. s = p @ trim_front ws s"
proof (induction ws s rule: trim_front.induct)
  case (1 ws s)
  show ?case
  proof (cases "strip_first (filter (\<lambda>w. w \<noteq> []) ws) s")
    case None
    then show ?thesis by (subst trim_front.simps) simp
  next
    case (Some r)
    then obtain w where "s = w @ r" by (blast dest: strip_first_Some)
    moreover obtain p where "r = p @ trim_front ws r" using 1 [OF Some] by blast
    moreover have "trim_front ws s = trim_front ws r"
      using Some by (subst trim_front.simps) simp
    ultimately have "s = (w @ p) @ trim_front ws s" by (metis append_assoc)
    then show ?thesis by blast
  qed
qed

lemma trim_front_stops: "strip_first (filter (\<lambda>w. w \<noteq> []) ws) (trim_front ws s) = None"
proof (induction ws s rule: trim_front.induct)
  case (1 ws s)
  then show ?case
    by (subst trim_front.simps)
       (auto split: option.splits simp: trim_front.simps [of ws s])
qed

lemma trim_front_fix:
  "strip_first (filter (\<lambda>w. w \<noteq> []) ws) s = None \<Longrightarrow> trim_front ws s = s"
  by (subst trim_front.simps) simp

lemma trim_front_idem: "trim_front ws (trim_front ws s) = trim_front ws s"
  by (rule trim_front_fix) (rule trim_front_stops)

lemma trim_space_left_fix_prefix:
  assumes "trim_space_left (s @ t) = s @ t"
  shows "trim_space_left s = s"
proof -
  let ?ws = "filter (\<lambda>w. w \<noteq> []) space_runes"
  have "strip_first ?ws (s @ t) = None"
    using trim_front_stops [of space_runes "s @ t"] assms by (simp add: trim_space_left_def)
  then have "strip_first ?ws s = None"
    by (cases "strip_first ?ws s") (auto dest: strip_first_append [where t = t])
  then show ?thesis by (simp add: trim_space_left_def trim_front_fix)
qed

lemma trim_space_right_prefix: "\<exists>t. s = trim_space_right s @ t"
proof -
  obtain p where "rev s = p @ trim_front (map rev space_runes) (rev s)"
    using trim_front_suffix by blast
  then have "rev (rev s) = trim_space_right s @ rev p"
    by (metis rev_append trim_space_right_def)
  then show ?thesis by auto
qed

lemma trim_space_idem: "trim_space (trim_space s) = trim_space s"
proof -
  let ?l = "trim_space_left s"
  obtain t where t: "?l = trim_space_right ?l @ t" using trim_space_right_prefix by blast
  have "trim_space_left ?l = ?l" by (simp add: trim_space_left_def trim_front_idem)
  then have "trim_space_left (trim_space_right ?l) = trim_space_right ?l"
    using t trim_space_left_fix_prefix by metis
  moreover have "trim_space_right (trim_space_right ?l) = trim_space_right ?l"
    by (simp add: trim_space_right_def trim_front_idem)
  ultimately show ?thesis by (simp add: trim_space_def)
qed

section \<open>Split\<close>

text \<open>\<^verbatim>\<open>strings.Split\<close> at a one-byte separator: one part more than separators.\<close>

fun split_char :: "char \<Rightarrow> string \<Rightarrow> string list" where
  "split_char sep [] = [[]]"
| "split_char sep (c # s) =
     (if c = sep then [] # split_char sep s
      else (case split_char sep s of [] \<Rightarrow> [[c]] | p # ps \<Rightarrow> (c # p) # ps))"

lemma split_char_nonempty [simp]: "split_char sep s \<noteq> []"
  by (cases s) (simp_all split: list.split)

lemma split_char_parts: "p \<in> set (split_char sep s) \<Longrightarrow> sep \<notin> set p"
proof (induction s arbitrary: p)
  case (Cons x s)
  then show ?case by (cases "split_char sep s") (auto split: if_splits)
qed simp

lemma split_char_append: "split_char sep (a @ sep # b) = split_char sep a @ split_char sep b"
proof (induction a)
  case (Cons x a)
  then show ?case by (cases "split_char sep a") simp_all
qed simp

lemma split_char_atom: "sep \<notin> set s \<Longrightarrow> split_char sep s = [s]"
  by (induction s) auto

lemma length_split_char: "length (split_char sep s) = Suc (count_list s sep)"
proof (induction s)
  case (Cons x s)
  then show ?case by (cases "split_char sep s") auto
qed simp

section \<open>Lower case\<close>

definition ascii_lower :: "char \<Rightarrow> char" where
  "ascii_lower c =
     (if 65 \<le> (of_char c :: nat) \<and> (of_char c :: nat) \<le> 90
      then char_of ((of_char c :: nat) + 32) else c)"

text \<open>\<^verbatim>\<open>strings.ToLower\<close>: byte by byte on ASCII, the Unicode mapping \<open>u\<close> otherwise.\<close>

definition to_lower :: "(string \<Rightarrow> string) \<Rightarrow> string \<Rightarrow> string" where
  "to_lower u s =
     (if list_all (\<lambda>c. (of_char c :: nat) < 128) s then map ascii_lower s else u s)"

section \<open>UTF-8\<close>

definition in_range :: "nat \<Rightarrow> nat \<Rightarrow> char \<Rightarrow> bool" where
  "in_range lo hi c = (lo \<le> of_char c \<and> of_char c \<le> hi)"

definition tail_bits :: "char \<Rightarrow> nat" where
  "tail_bits c = of_char c mod 64"

text \<open>The first rune of a string and the rest, \<open>None\<close> where the encoding is invalid.\<close>

fun decode_rune :: "string \<Rightarrow> (nat \<times> string) option" where
  "decode_rune [] = None"
| "decode_rune (a # s) =
     (if in_range 0 0x7F a then Some (of_char a, s)
      else if in_range 0xC2 0xDF a then (case s of
          b # t \<Rightarrow> if in_range 0x80 0xBF b
            then Some ((of_char a mod 32) * 64 + tail_bits b, t) else None
        | _ \<Rightarrow> None)
      else if in_range 0xE0 0xEF a then (case s of
          b # c # t \<Rightarrow>
            if in_range (if of_char a = (0xE0::nat) then 0xA0 else 0x80)
                 (if of_char a = (0xED::nat) then 0x9F else 0xBF) b \<and> in_range 0x80 0xBF c
            then Some (((of_char a mod 16) * 64 + tail_bits b) * 64 + tail_bits c, t) else None
        | _ \<Rightarrow> None)
      else if in_range 0xF0 0xF4 a then (case s of
          b # c # d # t \<Rightarrow>
            if in_range (if of_char a = (0xF0::nat) then 0x90 else 0x80)
                 (if of_char a = (0xF4::nat) then 0x8F else 0xBF) b \<and>
               in_range 0x80 0xBF c \<and> in_range 0x80 0xBF d
            then Some ((((of_char a mod 8) * 64 + tail_bits b) * 64 + tail_bits c) * 64
                 + tail_bits d, t) else None
        | _ \<Rightarrow> None)
      else None)"

lemma decode_rune_shorter: "decode_rune s = Some (r, t) \<Longrightarrow> length t < length s"
  by (cases s) (auto split: if_splits list.splits)

text \<open>\<^verbatim>\<open>utf8.ValidString\<close> is \<open>utf8_runes s \<noteq> None\<close>; the list is what \<^verbatim>\<open>range\<close> visits.\<close>

function utf8_runes :: "string \<Rightarrow> nat list option" where
  "utf8_runes s =
     (if s = [] then Some []
      else (case decode_rune s of None \<Rightarrow> None
        | Some (r, t) \<Rightarrow> map_option ((#) r) (utf8_runes t)))"
  by pat_completeness auto
termination
  by (relation "measure length") (auto dest: decode_rune_shorter)

declare utf8_runes.simps [simp del]

definition is_control :: "nat \<Rightarrow> bool" where
  "is_control r = (r \<le> 0x1F \<or> (0x7F \<le> r \<and> r \<le> 0x9F))"

section \<open>Integers\<close>

fun digits :: "nat \<Rightarrow> string" where
  "digits n = (if n < 10 then [char_of (48 + n)] else digits (n div 10) @ [char_of (48 + n mod 10)])"

declare digits.simps [simp del]

definition itoa :: "int \<Rightarrow> string" where
  "itoa i = (if i < 0 then CHR ''-'' # digits (nat (- i)) else digits (nat i))"

end
