(* ===== verification/Forms.thy ===== *)
theory Forms
  imports GoStrings
begin

text \<open>
  The pure half of \<^verbatim>\<open>applications/service.go\<close>: what a published form document is, when
  \<^verbatim>\<open>parsePublishedForm\<close> accepts one, and when \<^verbatim>\<open>validateAnswers\<close> accepts an answer map
  for it. A JSON document is the value \<^verbatim>\<open>encoding/json\<close> decodes it to; \<open>None\<close> stands for
  bytes that do not decode. \<^verbatim>\<open>mail.ParseAddress\<close> is the parameter \<open>parse_address\<close>: the
  address it extracts, or \<open>None\<close> for an error.
\<close>

section \<open>Documents and errors\<close>

datatype json =
    JNull
  | JBool bool
  | JNumber string
  | JString string
  | JArray "json list"
  | JObject "(string \<times> json) list"

text \<open>\<^verbatim>\<open>json.RawMessage\<close>: the single JSON value its bytes hold, if they hold exactly one.\<close>

type_synonym raw_message = "json option"
type_synonym answers = "(string \<times> raw_message) list"

datatype app_error =
    AppNoCurrentForm
  | AppNotFound
  | AppConflict int
  | AppWindowClosed
  | AppInvalidAnswers
  | AppIncomplete
  | AppInvalidPublishedForm
  | AppInternal

record question_condition =
  qc_key :: string
  qc_equals :: bool

record question =
  q_key :: string
  q_label :: string
  q_type :: string
  q_required :: bool
  q_help :: "string option"
  q_section :: "string option"
  q_control :: "string option"
  q_options :: "string list"
  q_max_words :: "int option"
  q_show_when :: "question_condition option"

record condition_document =
  cd_key :: "string option"
  cd_equals :: "bool option"

record question_document =
  qd_key :: "string option"
  qd_label :: "string option"
  qd_type :: "string option"
  qd_required :: "bool option"
  qd_help :: "string option"
  qd_section :: "string option"
  qd_control :: "string option"
  qd_options :: "string list"
  qd_max_words :: "int option"
  qd_show_when :: "condition_document option"

record form_document =
  fd_resume_required :: bool
  fd_resume_after :: "string option"
  fd_questions :: "question_document list option"

record published_form =
  pf_resume_required :: bool
  pf_resume_after :: "string option"
  pf_questions :: "question list"

section \<open>parsePublishedForm\<close>

text \<open>The option checks: a select needs distinct, trimmed, nonblank options; nothing else has any.\<close>

fun options_check :: "string list \<Rightarrow> string list \<Rightarrow> bool" where
  "options_check seen [] = True"
| "options_check seen (x # xs) =
     (if trim_space x = [] \<or> trim_space x \<noteq> x then False
      else if x \<in> set seen then False
      else options_check (x # seen) xs)"

definition control_check :: "string \<Rightarrow> string option \<Rightarrow> bool" where
  "control_check typ control =
     (case control of None \<Rightarrow> True
      | Some c \<Rightarrow> \<not> (typ \<noteq> ''string'' \<or>
          (c \<noteq> ''text'' \<and> c \<noteq> ''email'' \<and> c \<noteq> ''textarea'' \<and> c \<noteq> ''select'')))"

definition choice_check :: "string \<Rightarrow> string option \<Rightarrow> string list \<Rightarrow> bool" where
  "choice_check typ control opts =
     (if length opts > 0
      then (if typ \<noteq> ''string'' \<or> control = None \<or> control \<noteq> Some ''select'' then False
            else options_check [] opts)
      else \<not> (control = Some ''select''))"

definition parse_condition ::
    "condition_document option \<Rightarrow> app_error + question_condition option" where
  "parse_condition doc =
     (case doc of None \<Rightarrow> Inr None
      | Some c \<Rightarrow> (case (cd_key c, cd_equals c) of
          (Some key, Some eq) \<Rightarrow>
            if trim_space key = [] then Inl AppInvalidPublishedForm
            else Inr (Some \<lparr>qc_key = key, qc_equals = eq\<rparr>)
        | _ \<Rightarrow> Inl AppInvalidPublishedForm))"

text \<open>One iteration of the question loop; \<open>keys\<close> are the keys met so far.\<close>

definition parse_question :: "string list \<Rightarrow> question_document \<Rightarrow> app_error + question" where
  "parse_question keys d =
     (case (qd_key d, qd_label d, qd_type d, qd_required d) of
        (Some key, Some label, Some typ, Some req) \<Rightarrow>
          if key = [] \<or> trim_space key \<noteq> key \<or> trim_space label = []
          then Inl AppInvalidPublishedForm
          else if typ \<noteq> ''string'' \<and> typ \<noteq> ''number'' \<and> typ \<noteq> ''boolean''
          then Inl AppInvalidPublishedForm
          else if (case qd_section d of None \<Rightarrow> False | Some s \<Rightarrow> trim_space s = [])
          then Inl AppInvalidPublishedForm
          else if \<not> control_check typ (qd_control d) then Inl AppInvalidPublishedForm
          else if \<not> choice_check typ (qd_control d) (qd_options d) then Inl AppInvalidPublishedForm
          else if (case qd_max_words d of None \<Rightarrow> False | Some m \<Rightarrow> typ \<noteq> ''string'' \<or> m \<le> 0)
          then Inl AppInvalidPublishedForm
          else if key \<in> set keys then Inl AppInvalidPublishedForm
          else (case parse_condition (qd_show_when d) of
              Inl e \<Rightarrow> Inl e
            | Inr cond \<Rightarrow> Inr \<lparr>q_key = key, q_label = label, q_type = typ, q_required = req,
                q_help = qd_help d, q_section = qd_section d, q_control = qd_control d,
                q_options = qd_options d, q_max_words = qd_max_words d, q_show_when = cond\<rparr>)
      | _ \<Rightarrow> Inl AppInvalidPublishedForm)"

fun parse_questions ::
    "string list \<Rightarrow> question_document list \<Rightarrow> app_error + question list" where
  "parse_questions keys [] = Inr []"
| "parse_questions keys (d # ds) =
     (case parse_question keys d of
        Inl e \<Rightarrow> Inl e
      | Inr q \<Rightarrow> (case parse_questions (q_key q # keys) ds of
          Inl e \<Rightarrow> Inl e
        | Inr qs \<Rightarrow> Inr (q # qs)))"

text \<open>The second loop: a condition names another question of the form, and a boolean one.\<close>

definition condition_target_check :: "question list \<Rightarrow> question \<Rightarrow> bool" where
  "condition_target_check qs q =
     (case q_show_when q of None \<Rightarrow> True
      | Some c \<Rightarrow>
          \<not> (qc_key c \<notin> q_key ` set qs \<or> qc_key c = q_key q) \<and>
          list_all (\<lambda>cand. \<not> (q_key cand = qc_key c \<and> q_type cand \<noteq> ''boolean'')) qs)"

definition parse_published_form :: "form_document option \<Rightarrow> app_error + published_form" where
  "parse_published_form raw =
     (case raw of None \<Rightarrow> Inl AppInvalidPublishedForm
      | Some doc \<Rightarrow> (case fd_questions doc of
          None \<Rightarrow> Inl AppInvalidPublishedForm
        | Some ds \<Rightarrow>
            if length ds = 0 then Inl AppInvalidPublishedForm
            else (case parse_questions [] ds of
                Inl e \<Rightarrow> Inl e
              | Inr qs \<Rightarrow>
                  if \<not> list_all (condition_target_check qs) qs then Inl AppInvalidPublishedForm
                  else if (case fd_resume_after doc of None \<Rightarrow> False
                           | Some k \<Rightarrow> k \<notin> q_key ` set qs)
                  then Inl AppInvalidPublishedForm
                  else Inr \<lparr>pf_resume_required = fd_resume_required doc,
                            pf_resume_after = fd_resume_after doc, pf_questions = qs\<rparr>)))"

section \<open>validateAnswers\<close>

definition by_key :: "question list \<Rightarrow> string \<Rightarrow> question option" where
  "by_key qs = map_of (rev (map (\<lambda>q. (q_key q, q)) qs))"

definition decode_scalar :: "raw_message \<Rightarrow> json option" where
  "decode_scalar raw = raw"

definition condition_matches ::
    "question_condition \<Rightarrow> (string \<Rightarrow> json option) \<Rightarrow> bool" where
  "condition_matches c decoded =
     (case decoded (qc_key c) of Some (JBool b) \<Rightarrow> b = qc_equals c | _ \<Rightarrow> False)"

definition shown :: "question \<Rightarrow> (string \<Rightarrow> json option) \<Rightarrow> bool" where
  "shown q decoded =
     (case q_show_when q of None \<Rightarrow> True | Some c \<Rightarrow> condition_matches c decoded)"

text \<open>The \<^verbatim>\<open>case "string"\<close> branch for the string \<open>s\<close> the answer decodes to.\<close>

definition string_answer_check ::
    "(string \<Rightarrow> string option) \<Rightarrow> question \<Rightarrow> string \<Rightarrow> bool" where
  "string_answer_check parse_address q s =
     (if (case q_max_words q of None \<Rightarrow> False | Some m \<Rightarrow> int (fields_count s) > m) then False
      else if length (q_options q) > 0 \<and> s \<notin> set (q_options q) then False
      else if q_control q = Some ''email'' \<and> trim_space s \<noteq> [] then
        parse_address (trim_space s) = Some (trim_space s)
      else True)"

definition typed_answer_check ::
    "(string \<Rightarrow> string option) \<Rightarrow> question \<Rightarrow> json \<Rightarrow> bool" where
  "typed_answer_check parse_address q v =
     (if q_type q = ''string'' then
        (case v of JString s \<Rightarrow> string_answer_check parse_address q s | _ \<Rightarrow> False)
      else if q_type q = ''number'' then (case v of JNumber n \<Rightarrow> True | _ \<Rightarrow> False)
      else if q_type q = ''boolean'' then (case v of JBool b \<Rightarrow> True | _ \<Rightarrow> False)
      else True)"

text \<open>The first loop of \<^verbatim>\<open>validateAnswers\<close>: it fills \<open>decoded\<close> or stops at a bad entry.\<close>

fun decode_answers ::
    "(string \<Rightarrow> string option) \<Rightarrow> question list \<Rightarrow> answers \<Rightarrow> (string \<Rightarrow> json option)
      \<Rightarrow> app_error + (string \<Rightarrow> json option)" where
  "decode_answers pa qs [] decoded = Inr decoded"
| "decode_answers pa qs ((key, raw) # rest) decoded =
     (case by_key qs key of None \<Rightarrow> Inl AppInvalidAnswers
      | Some q \<Rightarrow> (case decode_scalar raw of None \<Rightarrow> Inl AppInvalidAnswers
          | Some v \<Rightarrow>
              if typed_answer_check pa q v
              then decode_answers pa qs rest (decoded(key \<mapsto> v))
              else Inl AppInvalidAnswers))"

definition nonempty_string :: "json option \<Rightarrow> bool" where
  "nonempty_string v = (case v of Some (JString s) \<Rightarrow> trim_space s \<noteq> [] | _ \<Rightarrow> False)"

definition required_met :: "(string \<Rightarrow> json option) \<Rightarrow> question \<Rightarrow> bool" where
  "required_met decoded q =
     (if \<not> q_required q \<or> \<not> shown q decoded then True
      else \<not> (decoded (q_key q) = None \<or>
              (q_type q = ''string'' \<and> \<not> nonempty_string (decoded (q_key q)))))"

definition validate_answers ::
    "(string \<Rightarrow> string option) \<Rightarrow> published_form \<Rightarrow> answers option \<Rightarrow> bool \<Rightarrow> app_error + unit" where
  "validate_answers pa form answers require_required =
     (case answers of None \<Rightarrow> Inl AppInvalidAnswers
      | Some entries \<Rightarrow>
        (case decode_answers pa (pf_questions form) entries Map.empty of
           Inl e \<Rightarrow> Inl e
         | Inr decoded \<Rightarrow>
             if \<not> list_all (\<lambda>q. \<not> (\<not> shown q decoded \<and> q_key q \<in> fst ` set entries))
                  (pf_questions form)
             then Inl AppInvalidAnswers
             else if require_required \<and> \<not> list_all (required_met decoded) (pf_questions form)
             then Inl AppIncomplete
             else Inr ()))"

section \<open>What an accepted form looks like\<close>

definition valid_type :: "string \<Rightarrow> bool" where
  "valid_type t \<longleftrightarrow> t \<in> {''string'', ''number'', ''boolean''}"

text \<open>The declarative contract of one published question.\<close>

definition question_ok :: "question \<Rightarrow> bool" where
  "question_ok q \<longleftrightarrow>
     q_key q \<noteq> [] \<and> trim_space (q_key q) = q_key q \<and> trim_space (q_label q) \<noteq> [] \<and>
     valid_type (q_type q) \<and>
     (q_control q \<noteq> None \<longrightarrow> q_type q = ''string'') \<and>
     (q_control q = Some ''select'' \<longleftrightarrow> q_options q \<noteq> []) \<and>
     distinct (q_options q) \<and>
     (\<forall>x\<in>set (q_options q). x \<noteq> [] \<and> trim_space x = x) \<and>
     (\<forall>m. q_max_words q = Some m \<longrightarrow> q_type q = ''string'' \<and> 0 < m)"

definition form_ok :: "published_form \<Rightarrow> bool" where
  "form_ok f \<longleftrightarrow>
     pf_questions f \<noteq> [] \<and> distinct (map q_key (pf_questions f)) \<and>
     (\<forall>q\<in>set (pf_questions f). question_ok q) \<and>
     (\<forall>q\<in>set (pf_questions f). \<forall>c. q_show_when q = Some c \<longrightarrow>
        (\<exists>p\<in>set (pf_questions f). q_key p = qc_key c \<and> p \<noteq> q \<and> q_type p = ''boolean'')) \<and>
     (\<forall>k. pf_resume_after f = Some k \<longrightarrow> k \<in> q_key ` set (pf_questions f))"

lemma trim_space_Nil [simp]: "trim_space [] = []"
proof -
  have [simp]: "strip_first (filter (\<lambda>w. w \<noteq> []) ws) [] = None" for ws :: "'a list list"
  proof (induction ws)
    case (Cons w ws)
    then show ?case by (cases w) auto
  qed simp
  have [simp]: "trim_front ws [] = []" for ws :: "char list list"
    by (rule trim_front_fix) simp
  show ?thesis by (simp add: trim_space_def trim_space_left_def trim_space_right_def)
qed

lemma options_check_iff:
  "options_check seen xs \<longleftrightarrow>
     distinct xs \<and> set xs \<inter> set seen = {} \<and> (\<forall>x\<in>set xs. x \<noteq> [] \<and> trim_space x = x)"
  by (induction xs arbitrary: seen) auto

lemma control_check_typ: "control_check typ c \<Longrightarrow> c \<noteq> None \<Longrightarrow> typ = ''string''"
  by (auto simp: control_check_def)

lemma choice_check_iff:
  "choice_check typ c xs \<longleftrightarrow>
     (c = Some ''select'' \<longleftrightarrow> xs \<noteq> []) \<and> (xs \<noteq> [] \<longrightarrow> typ = ''string'') \<and> options_check [] xs"
  by (cases xs) (auto simp: choice_check_def)

lemma parse_question_checks:
  assumes "parse_question keys d = Inr q"
  shows "q_key q \<noteq> [] \<and> trim_space (q_key q) = q_key q \<and> trim_space (q_label q) \<noteq> []"
    and "valid_type (q_type q)"
    and "control_check (q_type q) (q_control q)"
    and "choice_check (q_type q) (q_control q) (q_options q)"
    and "q_max_words q = Some m \<Longrightarrow> q_type q = ''string'' \<and> 0 < m"
    and "q_key q \<notin> set keys"
  using assms unfolding parse_question_def valid_type_def insert_iff
  by (auto split: option.split_asm if_split_asm sum.split_asm)

lemma parse_question_Inr:
  assumes "parse_question keys d = Inr q"
  shows "question_ok q" and "q_key q \<notin> set keys"
  using parse_question_checks [OF assms] control_check_typ
  by (simp_all add: question_ok_def choice_check_iff options_check_iff)

lemma parse_questions_Inr:
  "parse_questions keys ds = Inr qs \<Longrightarrow>
     distinct (map q_key qs) \<and> q_key ` set qs \<inter> set keys = {} \<and>
     (\<forall>q\<in>set qs. question_ok q) \<and> length qs = length ds"
proof (induction keys ds arbitrary: qs rule: parse_questions.induct)
  case (1 keys)
  then show ?case by simp
next
  case (2 keys d ds)
  from "2.prems" obtain q rest where q: "parse_question keys d = Inr q"
    and rest: "parse_questions (q_key q # keys) ds = Inr rest" and qs: "qs = q # rest"
    by (auto split: sum.splits)
  note IH = "2.IH" [OF q rest]
  show ?case using IH parse_question_Inr [OF q] unfolding qs by auto
qed

lemma condition_target_check_iff:
  assumes "distinct (map q_key qs)" and "q \<in> set qs"
  shows "condition_target_check qs q \<longleftrightarrow>
    (\<forall>c. q_show_when q = Some c \<longrightarrow>
       (\<exists>p\<in>set qs. q_key p = qc_key c \<and> p \<noteq> q \<and> q_type p = ''boolean''))"
proof (cases "q_show_when q")
  case None
  then show ?thesis by (simp add: condition_target_check_def)
next
  case (Some c)
  have same: "x = y" if "x \<in> set qs" "y \<in> set qs" "q_key x = q_key y" for x y
    using assms(1) that by (auto simp: distinct_map inj_on_def)
  show ?thesis
    using Some assms(2) same
    by (auto simp: condition_target_check_def list_all_iff image_iff) metis+
qed

lemma parsed_form_ok:
  assumes "parse_published_form raw = Inr f"
  shows "form_ok f"
proof -
  obtain doc where doc: "raw = Some doc"
    using assms by (auto simp: parse_published_form_def split: option.splits)
  obtain ds where fd: "fd_questions doc = Some ds"
    using assms by (auto simp: parse_published_form_def doc split: option.splits)
  obtain qs where ds: "ds \<noteq> []" "parse_questions [] ds = Inr qs"
    using assms by (auto simp: parse_published_form_def doc fd split: sum.splits if_splits)
  have targets: "list_all (condition_target_check qs) qs"
    and after: "\<forall>k. fd_resume_after doc = Some k \<longrightarrow> k \<in> q_key ` set qs"
    and f: "pf_questions f = qs" "pf_resume_after f = fd_resume_after doc"
    using assms
    by (auto simp: parse_published_form_def doc fd ds split: option.splits if_splits)
  note qs = parse_questions_Inr [OF ds(2)]
  then have "qs \<noteq> []" using ds(1) by auto
  with qs targets after show ?thesis
    unfolding form_ok_def f by (auto simp: list_all_iff condition_target_check_iff)
qed

text \<open>C1. A form document that \<^verbatim>\<open>parsePublishedForm\<close> accepts is well formed: at least one
  question, distinct nonblank trimmed keys, only the three types, options exactly on select
  controls and pairwise distinct, positive word limits on strings only, every
  \<^verbatim>\<open>showWhen\<close> naming another boolean question of the form, and the resume anchor naming a
  question.\<close>

theorem parse_published_form_ok: "parse_published_form raw = Inr f \<Longrightarrow> form_ok f"
  by (rule parsed_form_ok)

definition sample_document :: form_document where
  "sample_document = \<lparr>fd_resume_required = True, fd_resume_after = Some ''team'',
     fd_questions = Some
      [\<lparr>qd_key = Some ''team'', qd_label = Some ''Team?'', qd_type = Some ''boolean'',
        qd_required = Some True, qd_help = None, qd_section = None, qd_control = None,
        qd_options = [], qd_max_words = None, qd_show_when = None\<rparr>,
       \<lparr>qd_key = Some ''name'', qd_label = Some ''Name'', qd_type = Some ''string'',
        qd_required = Some True, qd_help = None, qd_section = None, qd_control = None,
        qd_options = [], qd_max_words = None,
        qd_show_when = Some \<lparr>cd_key = Some ''team'', cd_equals = Some True\<rparr>\<rparr>]\<rparr>"

definition sample_form :: published_form where
  "sample_form = \<lparr>pf_resume_required = True, pf_resume_after = Some ''team'',
     pf_questions =
      [\<lparr>q_key = ''team'', q_label = ''Team?'', q_type = ''boolean'', q_required = True,
        q_help = None, q_section = None, q_control = None, q_options = [],
        q_max_words = None, q_show_when = None\<rparr>,
       \<lparr>q_key = ''name'', q_label = ''Name'', q_type = ''string'', q_required = True,
        q_help = None, q_section = None, q_control = None, q_options = [],
        q_max_words = None, q_show_when = Some \<lparr>qc_key = ''team'', qc_equals = True\<rparr>\<rparr>]\<rparr>"

lemma sample_document_parses: "parse_published_form (Some sample_document) = Inr sample_form"
  by code_simp

theorem parse_published_form_ok_witness: "form_ok sample_form"
  by (rule parse_published_form_ok [OF sample_document_parses])

section \<open>What an accepted answer map looks like\<close>

text \<open>The value the entries give a key, and the declarative acceptance condition.\<close>

definition answer_value :: "answers \<Rightarrow> string \<Rightarrow> json option" where
  "answer_value entries k = (case map_of entries k of None \<Rightarrow> None | Some raw \<Rightarrow> raw)"

definition answers_fit :: "(string \<Rightarrow> string option) \<Rightarrow> question list \<Rightarrow> answers \<Rightarrow> bool" where
  "answers_fit pa qs entries \<longleftrightarrow>
     (\<forall>k raw. (k, raw) \<in> set entries \<longrightarrow>
        (\<exists>q\<in>set qs. \<exists>v. q_key q = k \<and> raw = Some v \<and> typed_answer_check pa q v \<and>
            shown q (answer_value entries)))"

definition answers_complete :: "question list \<Rightarrow> answers \<Rightarrow> bool" where
  "answers_complete qs entries \<longleftrightarrow>
     (\<forall>q\<in>set qs. q_required q \<longrightarrow> shown q (answer_value entries) \<longrightarrow>
        (\<exists>v. answer_value entries (q_key q) = Some v \<and>
             (q_type q = ''string'' \<longrightarrow> nonempty_string (Some v))))"

lemma by_key_eq:
  assumes "distinct (map q_key qs)"
  shows "by_key qs k = Some q \<longleftrightarrow> q \<in> set qs \<and> q_key q = k"
proof -
  have "map fst (map (\<lambda>q. (q_key q, q)) qs) = map q_key qs" by simp
  then have "distinct (map fst (rev (map (\<lambda>q. (q_key q, q)) qs)))"
    using assms by (metis distinct_rev rev_map)
  then show ?thesis by (auto simp: by_key_def map_of_eq_Some_iff)
qed

lemma by_key_None: "by_key qs k = None \<longleftrightarrow> k \<notin> q_key ` set qs"
  by (simp add: by_key_def map_of_eq_None_iff image_image)

text \<open>What the first loop computes, from any starting \<open>decoded\<close>.\<close>

definition entry_typed ::
    "(string \<Rightarrow> string option) \<Rightarrow> question list \<Rightarrow> string \<Rightarrow> raw_message \<Rightarrow> bool" where
  "entry_typed pa qs k raw \<longleftrightarrow>
     (\<exists>q\<in>set qs. \<exists>v. q_key q = k \<and> raw = Some v \<and> typed_answer_check pa q v)"

lemma decode_answers_step:
  assumes "distinct (map q_key qs)"
  shows "decode_answers pa qs ((k, raw) # es) dec =
    (if entry_typed pa qs k raw then decode_answers pa qs es (dec(k := raw))
     else Inl AppInvalidAnswers)"
proof (cases "by_key qs k")
  case None
  then have "\<not> entry_typed pa qs k raw" by (auto simp: entry_typed_def by_key_None)
  with None show ?thesis by simp
next
  case (Some q)
  then have q: "q \<in> set qs" "q_key q = k" using by_key_eq [OF assms] by auto
  have "q' = q" if "q' \<in> set qs" "q_key q' = k" for q'
    using q that assms by (auto simp: distinct_map inj_on_def)
  then have "entry_typed pa qs k raw \<longleftrightarrow> (\<exists>v. raw = Some v \<and> typed_answer_check pa q v)"
    using q unfolding entry_typed_def by blast
  with Some show ?thesis by (cases raw) (simp_all add: decode_scalar_def)
qed

lemma decode_answers_iff:
  assumes "distinct (map q_key qs)"
  shows "distinct (map fst es) \<Longrightarrow>
    decode_answers pa qs es dec =
      (if \<forall>(k, raw)\<in>set es. entry_typed pa qs k raw
       then Inr (\<lambda>k. case map_of es k of None \<Rightarrow> dec k | Some raw \<Rightarrow> raw)
       else Inl AppInvalidAnswers)"
proof (induction es arbitrary: dec)
  case Nil
  then show ?case by simp
next
  case (Cons e es)
  obtain key raw where e: "e = (key, raw)" by (cases e)
  have fresh: "map_of es key = None" using Cons.prems e by (simp add: map_of_eq_None_iff)
  have "(\<lambda>k. case map_of es k of None \<Rightarrow> (dec(key := raw)) k | Some raw \<Rightarrow> raw) =
      (\<lambda>k. case map_of (e # es) k of None \<Rightarrow> dec k | Some raw \<Rightarrow> raw)"
    using fresh by (auto simp: fun_eq_iff e split: option.split)
  then show ?case
    using Cons
    by (simp add: e decode_answers_step [OF assms] del: decode_answers.simps(2))
qed

lemma required_met_one:
  "required_met dec q \<longleftrightarrow> (q_required q \<longrightarrow> shown q dec \<longrightarrow>
     (\<exists>v. dec (q_key q) = Some v \<and> (q_type q = ''string'' \<longrightarrow> nonempty_string (Some v))))"
  by (cases "dec (q_key q)") (auto simp: required_met_def)

lemma required_met_iff:
  "list_all (required_met (answer_value es)) qs \<longleftrightarrow> answers_complete qs es"
  by (simp add: list_all_iff answers_complete_def required_met_one)

text \<open>The whole validator as a decision on the declarative conditions.\<close>

lemma validate_answers_eq:
  assumes "distinct (map q_key (pf_questions f))" and "distinct (map fst es)"
  shows "validate_answers pa f (Some es) req =
    (if \<not> answers_fit pa (pf_questions f) es then Inl AppInvalidAnswers
     else if req \<and> \<not> answers_complete (pf_questions f) es then Inl AppIncomplete
     else Inr ())"
proof -
  let ?qs = "pf_questions f"
  let ?typed = "\<forall>(k, raw)\<in>set es. entry_typed pa ?qs k raw"
  have dec: "decode_answers pa ?qs es Map.empty =
      (if ?typed then Inr (answer_value es) else Inl AppInvalidAnswers)"
    by (subst decode_answers_iff [OF assms]) (simp add: answer_value_def [abs_def])
  have same: "q = q'" if "q \<in> set ?qs" "q' \<in> set ?qs" "q_key q = q_key q'" for q q'
    using assms(1) that by (auto simp: distinct_map inj_on_def)
  have hidden: "list_all (\<lambda>q. shown q (answer_value es) \<or> q_key q \<notin> fst ` set es) ?qs
      \<longleftrightarrow> answers_fit pa ?qs es" if typed: ?typed
  proof
    assume all: "list_all (\<lambda>q. shown q (answer_value es) \<or> q_key q \<notin> fst ` set es) ?qs"
    show "answers_fit pa ?qs es"
      unfolding answers_fit_def
    proof (intro allI impI)
      fix k r assume kr: "(k, r) \<in> set es"
      then obtain q v where q: "q \<in> set ?qs" "q_key q = k" "r = Some v" "typed_answer_check pa q v"
        using typed unfolding entry_typed_def by blast
      moreover have "shown q (answer_value es)"
        using all kr q(1,2) by (force simp: list_all_iff)
      ultimately show "\<exists>q\<in>set ?qs. \<exists>v. q_key q = k \<and> r = Some v \<and>
          typed_answer_check pa q v \<and> shown q (answer_value es)" by blast
    qed
  next
    assume fit: "answers_fit pa ?qs es"
    show "list_all (\<lambda>q. shown q (answer_value es) \<or> q_key q \<notin> fst ` set es) ?qs"
      using fit same unfolding answers_fit_def list_all_iff by force
  qed
  show ?thesis
  proof (cases ?typed)
    case True
    then show ?thesis by (simp add: validate_answers_def dec hidden required_met_iff)
  next
    case False
    then have "\<not> answers_fit pa ?qs es" unfolding answers_fit_def entry_typed_def by blast
    moreover have "decode_answers pa ?qs es Map.empty = Inl AppInvalidAnswers"
      unfolding dec using False by (rule if_not_P)
    ultimately show ?thesis by (simp add: validate_answers_def)
  qed
qed

text \<open>C2. On a parsed form, \<^verbatim>\<open>validateAnswers\<close> accepts an answer map at submission exactly
  when every entry answers a question of the form that is currently shown, with a value of the
  question's type and within its options, word limit and e-mail syntax, and every required
  question that is shown has an answer, which is not blank if it is a string. Hidden questions
  are never required and never answered.\<close>

theorem validate_answers_submission_iff:
  assumes "parse_published_form raw = Inr f" and "distinct (map fst es)"
  shows "validate_answers pa f (Some es) True = Inr () \<longleftrightarrow>
    answers_fit pa (pf_questions f) es \<and> answers_complete (pf_questions f) es"
proof -
  have "form_ok f" by (rule parsed_form_ok [OF assms(1)])
  then have "distinct (map q_key (pf_questions f))" by (simp add: form_ok_def)
  then show ?thesis using assms(2) by (simp add: validate_answers_eq)
qed

theorem validate_answers_submission_iff_witness:
  "answers_fit (\<lambda>a. None) (pf_questions sample_form)
      [(''team'', Some (JBool False))] \<and>
   answers_complete (pf_questions sample_form) [(''team'', Some (JBool False))]"
proof -
  have d: "distinct (map fst [(''team'', Some (JBool False))])" by simp
  have "validate_answers (\<lambda>a. None) sample_form (Some [(''team'', Some (JBool False))]) True
      = Inr ()"
    by code_simp
  then show ?thesis
    using validate_answers_submission_iff [OF sample_document_parses d] by simp
qed

end
