(* ===== verification/Schema.thy ===== *)
theory Schema
  imports Forms
begin

text \<open>
  The database: one record per table of the \<^verbatim>\<open>ats\<close> schema, field by field as
  \<^verbatim>\<open>api/internal/database/sqlc/models.go\<close> declares the row types, and the record \<open>db\<close> of
  all tables. A \<^verbatim>\<open>text\<close> column under a \<^verbatim>\<open>CHECK (... IN ...)\<close> is a datatype; a nullable
  column is an option; a \<^verbatim>\<open>jsonb\<close> column is the value it decodes to; an \<^verbatim>\<open>int4\<close> column is an
  integer whose increments are range-checked, as PostgreSQL checks them. The ids of audit
  events and outbox rows, which no code reads, are left out.
\<close>

section \<open>Errors of the database\<close>

datatype db_error =
    UniqueViolation
  | ForeignKeyViolation
  | CheckViolation
  | RaisedException
  | IntegerOutOfRange
  | DataException

definition int4_ok :: "int \<Rightarrow> bool" where
  "int4_ok n = (- (2 ^ 31) \<le> n \<and> n < 2 ^ 31)"

section \<open>Column types\<close>

datatype role =
    RoleApplicant
  | RoleAdmin
  | RoleReviewer
  | RoleOrganizer
  | RoleScanner
  | RoleOther string

datatype app_status =
    StDraft
  | StSubmitted
  | StWithdrawn
  | StAccepted
  | StWaitlisted
  | StRejected

datatype outcome = OutAccepted | OutWaitlisted | OutRejected
datatype review_status = RevDraft | RevSubmitted
datatype rsvp_status = RsvpConfirmed | RsvpDeclined
datatype pass_status = PassActive | PassRevoked | PassReplaced
datatype volunteer_status = VolPending | VolApproved | VolRejected | VolRevoked
datatype attendee_role = AttHacker | AttMentor | AttJudge | AttSponsor

datatype scan_outcome =
    Redeemed
  | AlreadyExhausted
  | NotEntitled
  | OutsideWindow
  | InvalidPass
  | RevokedPass

section \<open>Rows\<close>

record user_row =
  u_id :: uuid
  u_clerk :: string
  u_email :: string
  u_name :: "string option"
  u_created :: timestamp
  u_updated :: timestamp

record user_role_row =
  ur_user :: uuid
  ur_role :: role
  ur_created :: timestamp
  ur_by :: "uuid option"

record admin_row =
  ae_email :: string
  ae_by :: "uuid option"

record cycle_row =
  cy_id :: uuid
  cy_slug :: string
  cy_name :: string
  cy_opens :: timestamp
  cy_closes :: timestamp
  cy_active :: bool

record form_row =
  fm_id :: uuid
  fm_cycle :: uuid
  fm_version :: int
  fm_schema :: "form_document option"
  fm_published :: "timestamp option"
  fm_by :: uuid

record application_row =
  ap_id :: uuid
  ap_cycle :: uuid
  ap_form :: uuid
  ap_applicant :: uuid
  ap_status :: app_status
  ap_submitted :: "timestamp option"
  ap_withdrawn :: "timestamp option"
  ap_decision :: "outcome option"
  ap_decision_id :: "uuid option"
  ap_released :: "timestamp option"
  ap_email :: "string option"
  ap_lock :: int
  ap_created :: timestamp
  ap_updated :: timestamp

record answer_row =
  an_application :: uuid
  an_key :: string
  an_value :: json
  an_updated :: timestamp

record resume_row =
  rs_application :: uuid
  rs_object :: string
  rs_filename :: string
  rs_media :: string
  rs_size :: int
  rs_sha :: bytes
  rs_uploaded :: timestamp
  rs_updated :: timestamp

record assignment_row =
  ra_application :: uuid
  ra_reviewer :: uuid
  ra_by :: uuid
  ra_at :: timestamp

record review_row =
  rv_id :: uuid
  rv_application :: uuid
  rv_reviewer :: uuid
  rv_status :: review_status
  rv_score :: json
  rv_recommendation :: "string option"
  rv_notes :: "string option"
  rv_submitted :: "timestamp option"
  rv_lock :: int
  rv_created :: timestamp
  rv_updated :: timestamp

record decision_row =
  de_id :: uuid
  de_application :: uuid
  de_outcome :: outcome
  de_reason :: "string option"
  de_by :: uuid
  de_at :: timestamp
  de_released_by :: "uuid option"
  de_released_at :: "timestamp option"
  de_supersedes :: "uuid option"
  de_created :: timestamp

record attendance_row =
  at_decision :: uuid
  at_status :: rsvp_status
  at_lock :: int
  at_by :: uuid
  at_at :: timestamp

record attendee_row =
  ad_id :: uuid
  ad_cycle :: uuid
  ad_application :: uuid
  ad_user :: uuid
  ad_name :: string
  ad_email :: string
  ad_created :: timestamp
  ad_updated :: timestamp

record attendee_role_row =
  ao_attendee :: uuid
  ao_role :: attendee_role

record pass_row =
  pa_id :: uuid
  pa_attendee :: uuid
  pa_qr :: bytes
  pa_claim :: bytes
  pa_status :: pass_status
  pa_issued :: timestamp
  pa_revoked :: "timestamp option"
  pa_replaced_by :: "uuid option"

record staff_pass_row =
  sp_id :: uuid
  sp_user :: uuid
  sp_event :: string
  sp_qr :: bytes
  sp_issued :: timestamp
  sp_expires :: timestamp

record activity_row =
  ac_id :: uuid
  ac_cycle :: uuid
  ac_slug :: string
  ac_name :: string
  ac_starts :: "timestamp option"
  ac_ends :: "timestamp option"
  ac_created :: timestamp
  ac_updated :: timestamp

record checkpoint_row =
  ck_id :: uuid
  ck_cycle :: uuid
  ck_activity :: "uuid option"
  ck_slug :: string
  ck_name :: string
  ck_opens :: "timestamp option"
  ck_closes :: "timestamp option"
  ck_allowed :: bool
  ck_max :: int
  ck_active :: bool
  ck_created :: timestamp
  ck_updated :: timestamp

record entitlement_row =
  en_attendee :: uuid
  en_checkpoint :: uuid
  en_cycle :: uuid
  en_allowed :: bool
  en_max :: int
  en_created :: timestamp
  en_updated :: timestamp

record request_row =
  rq_id :: uuid
  rq_key :: uuid
  rq_scanner :: uuid
  rq_checkpoint :: uuid
  rq_qr :: bytes
  rq_pass :: "uuid option"
  rq_attendee :: "uuid option"
  rq_outcome :: scan_outcome
  rq_name :: "string option"
  rq_pass_status :: "string option"
  rq_checkpoint_name :: string
  rq_redemption :: "uuid option"
  rq_created :: timestamp

record redemption_row =
  rd_id :: uuid
  rd_pass :: uuid
  rd_attendee :: uuid
  rd_checkpoint :: uuid
  rd_cycle :: uuid
  rd_ordinal :: int
  rd_scanner :: uuid
  rd_key :: uuid
  rd_at :: timestamp

record volunteer_row =
  vo_user :: uuid
  vo_name :: string
  vo_status :: volunteer_status
  vo_created :: timestamp
  vo_reviewed_at :: "timestamp option"
  vo_reviewed_by :: "uuid option"

record audit_row =
  au_actor :: "uuid option"
  au_event :: string
  au_subject_type :: string
  au_subject :: uuid
  au_metadata :: json
  au_created :: timestamp

record outbox_row =
  ob_event :: string
  ob_recipient :: "uuid option"
  ob_email :: string
  ob_template :: string
  ob_data :: json
  ob_dedupe :: string
  ob_created :: timestamp

record db =
  users :: "user_row list"
  user_roles :: "user_role_row list"
  admin_emails :: "admin_row list"
  cycles :: "cycle_row list"
  forms :: "form_row list"
  applications :: "application_row list"
  answers_table :: "answer_row list"
  resumes :: "resume_row list"
  assignments :: "assignment_row list"
  reviews :: "review_row list"
  decisions :: "decision_row list"
  attendance :: "attendance_row list"
  attendees :: "attendee_row list"
  attendee_roles :: "attendee_role_row list"
  passes :: "pass_row list"
  staff_passes :: "staff_pass_row list"
  activities :: "activity_row list"
  checkpoints :: "checkpoint_row list"
  entitlements :: "entitlement_row list"
  requests :: "request_row list"
  redemptions :: "redemption_row list"
  volunteers :: "volunteer_row list"
  audit :: "audit_row list"
  outbox :: "outbox_row list"

definition empty_db :: db where
  "empty_db = \<lparr>users = [], user_roles = [], admin_emails = [], cycles = [], forms = [],
     applications = [], answers_table = [], resumes = [], assignments = [], reviews = [],
     decisions = [], attendance = [], attendees = [], attendee_roles = [], passes = [],
     staff_passes = [], activities = [], checkpoints = [], entitlements = [], requests = [],
     redemptions = [], volunteers = [], audit = [], outbox = []\<rparr>"

section \<open>What a call sees of the outside\<close>

text \<open>
  The parameters of one call: \<^verbatim>\<open>pgtype.UUID\<close>'s \<^verbatim>\<open>Scan\<close> and \<^verbatim>\<open>String\<close>, the transaction's
  \<^verbatim>\<open>CURRENT_TIMESTAMP\<close> and \<^verbatim>\<open>clock_timestamp()\<close>, the process clock \<^verbatim>\<open>time.Now\<close>, the random
  UUIDs the call draws (\<^verbatim>\<open>gen_random_uuid()\<close>, in order), lower casing of strings with
  non-ASCII runes, PostgreSQL's \<^verbatim>\<open>lower(btrim(..))\<close>, \<^verbatim>\<open>mail.ParseAddress\<close>, and the input
  conversion of \<^verbatim>\<open>jsonb\<close>: the value as the column keeps it, or no value when PostgreSQL refuses
  it (a NUL in a string, a number out of range). Texts that Go decodes to one value are one
  value here, also where only PostgreSQL tells them apart (a lone surrogate from U+FFFD).
\<close>

record env =
  parse_uuid :: "string \<Rightarrow> uuid option"
  uuid_text :: "uuid \<Rightarrow> string"
  now :: timestamp
  clock :: timestamp
  fresh :: "nat \<Rightarrow> uuid"
  unicode_lower :: "string \<Rightarrow> string"
  sql_lower_trim :: "string \<Rightarrow> string"
  parse_address :: "string \<Rightarrow> string option"
  jsonb :: "json \<Rightarrow> json option"

text \<open>What PostgreSQL documents of the conversion: strings and booleans are kept as they are, and a
  number stays a number, in a normal form of its own.\<close>

definition jsonb_keeps_scalars :: "env \<Rightarrow> bool" where
  "jsonb_keeps_scalars e \<longleftrightarrow>
     (\<forall>v w. jsonb e v = Some w \<longrightarrow>
        (case v of JString s \<Rightarrow> w = JString s | JBool b \<Rightarrow> w = JBool b
         | JNumber n \<Rightarrow> (\<exists>m. w = JNumber m) | _ \<Rightarrow> True))"

section \<open>Statements every package uses\<close>

definition user_exists :: "uuid \<Rightarrow> db \<Rightarrow> bool" where
  "user_exists i d = list_ex (\<lambda>u. u_id u = i) (users d)"

lemma user_exists_iff: "user_exists i d \<longleftrightarrow> i \<in> u_id ` set (users d)"
  by (auto simp: user_exists_def list_ex_iff)

text \<open>An audit event; its actor is a foreign key.\<close>

definition insert_audit ::
    "env \<Rightarrow> uuid option \<Rightarrow> string \<Rightarrow> string \<Rightarrow> uuid \<Rightarrow> json \<Rightarrow> db \<Rightarrow> db_error + db" where
  "insert_audit e actor event subject_type subject metadata d =
     (if (case actor of None \<Rightarrow> False | Some a \<Rightarrow> \<not> user_exists a d)
      then Inl ForeignKeyViolation
      else Inr (d\<lparr>audit := audit d @ [\<lparr>au_actor = actor, au_event = event,
          au_subject_type = subject_type, au_subject = subject, au_metadata = metadata,
          au_created = now e\<rparr>]\<rparr>))"

lemma insert_audit_Inr:
  "insert_audit e actor event st sub md d = Inr d' \<longleftrightarrow>
     (\<forall>a. actor = Some a \<longrightarrow> user_exists a d) \<and>
     d' = d\<lparr>audit := audit d @ [\<lparr>au_actor = actor, au_event = event, au_subject_type = st,
          au_subject = sub, au_metadata = md, au_created = now e\<rparr>]\<rparr>"
  by (auto simp: insert_audit_def split: option.splits)

section \<open>A concrete environment\<close>

text \<open>
  For evaluation at concrete inputs: the text of the id \<open>n\<close> is \<open>n\<close> letters x, an address
  parses to itself when it has no blank, and lower casing is the ASCII one.
\<close>

definition unary_uuid :: "string \<Rightarrow> uuid option" where
  "unary_uuid s =
     (if list_all (\<lambda>c. c = CHR ''x'') s then Some (word_of_nat (length s)) else None)"

definition unary_text :: "uuid \<Rightarrow> string" where
  "unary_text i = replicate (unat i) (CHR ''x'')"

text \<open>A conversion that refuses the NUL character and normalises one number.\<close>

definition sample_jsonb :: "json \<Rightarrow> json option" where
  "sample_jsonb v =
     (case v of JString s \<Rightarrow> if CHR 0x00 \<in> set s then None else Some v
      | JNumber n \<Rightarrow> Some (JNumber (if n = ''1e2'' then ''100'' else n))
      | _ \<Rightarrow> Some v)"

definition sample_env :: env where
  "sample_env = \<lparr>parse_uuid = unary_uuid, uuid_text = unary_text, now = 50, clock = 51,
     fresh = (\<lambda>n. word_of_nat (100 + n)), unicode_lower = (\<lambda>s. s),
     sql_lower_trim = map ascii_lower, parse_address = Some, jsonb = sample_jsonb\<rparr>"

lemma sample_jsonb_keeps [simp]: "jsonb_keeps_scalars sample_env"
  by (auto simp: jsonb_keeps_scalars_def sample_env_def sample_jsonb_def split: json.splits if_splits)

lemma unary_roundtrip [simp]: "unary_uuid (unary_text i) = Some i"
  by (simp add: unary_uuid_def unary_text_def list_all_iff)

lemma sample_env_roundtrip [simp]: "parse_uuid sample_env (uuid_text sample_env i) = Some i"
  by (simp add: sample_env_def)

definition sample_user :: "nat \<Rightarrow> string \<Rightarrow> user_row" where
  "sample_user n clerk = \<lparr>u_id = word_of_nat n, u_clerk = clerk, u_email = clerk @ ''@x.ca'',
     u_name = None, u_created = 1, u_updated = 1\<rparr>"

end
