(* ===== verification/Users.thy ===== *)
theory Users
  imports Schema
begin

text \<open>
  Package \<^verbatim>\<open>users\<close>: identities, authorization roles, the organizer bootstrap, the scanner
  role, the volunteer requests and the profile sources, over the statements of
  \<^verbatim>\<open>sqlc/identity.sql.go\<close>.
\<close>

section \<open>Users, roles and errors\<close>

datatype user_error =
    UserForbidden
  | UserInvalidRole
  | UserNotFound
  | UserInvalidEmail
  | UserAmbiguousEmail
  | UserProfileUnavailable
  | UserOrganizerExists
  | UserVolunteerInvalid
  | UserVolunteerConflict
  | UserInternal

record user =
  user_id :: string
  user_clerk :: string
  user_email :: string
  user_name :: "string option"
  user_role_set :: "role set"

definition has_role :: "user \<Rightarrow> role \<Rightarrow> bool" where
  "has_role u r =
     (if r \<in> user_role_set u then True
      else RoleAdmin \<in> user_role_set u \<and> (r = RoleReviewer \<or> r = RoleOrganizer \<or> r = RoleScanner))"

record profile =
  pr_clerk :: string
  pr_email :: string
  pr_name :: "string option"

section \<open>Statements of identity.sql\<close>

definition stored_role :: "role \<Rightarrow> bool" where
  "stored_role r = (r \<in> {RoleApplicant, RoleReviewer, RoleOrganizer, RoleScanner})"

definition has_role_row :: "uuid \<Rightarrow> role \<Rightarrow> db \<Rightarrow> bool" where
  "has_role_row i r d = list_ex (\<lambda>x. ur_user x = i \<and> ur_role x = r) (user_roles d)"

text \<open>\<^verbatim>\<open>INSERT INTO ats.user_roles ... ON CONFLICT (user_id, role) DO NOTHING\<close>: whether a row
  was inserted, and the database.\<close>

definition insert_role ::
    "env \<Rightarrow> uuid \<Rightarrow> role \<Rightarrow> uuid option \<Rightarrow> db \<Rightarrow> db_error + bool \<times> db" where
  "insert_role e i r by d =
     (if \<not> stored_role r then Inl CheckViolation
      else if has_role_row i r d then Inr (False, d)
      else if \<not> user_exists i d \<or> (case by of None \<Rightarrow> False | Some b \<Rightarrow> \<not> user_exists b d)
      then Inl ForeignKeyViolation
      else Inr (True, d\<lparr>user_roles := user_roles d @
          [\<lparr>ur_user = i, ur_role = r, ur_created = now e, ur_by = by\<rparr>]\<rparr>))"

definition assign_user_role ::
    "env \<Rightarrow> uuid \<Rightarrow> role \<Rightarrow> uuid option \<Rightarrow> db \<Rightarrow> db_error + db" where
  "assign_user_role e i r by d = bindE (insert_role e i r by d) (\<lambda>(changed, d'). Inr d')"

definition ensure_applicant_role :: "env \<Rightarrow> uuid \<Rightarrow> db \<Rightarrow> db_error + db" where
  "ensure_applicant_role e i d =
     bindE (insert_role e i RoleApplicant None d) (\<lambda>(changed, d'). Inr d')"

definition grant_scanner_role :: "env \<Rightarrow> uuid \<Rightarrow> uuid \<Rightarrow> db \<Rightarrow> db_error + bool \<times> db" where
  "grant_scanner_role e i by d = insert_role e i RoleScanner (Some by) d"

definition revoke_scanner_role :: "uuid \<Rightarrow> db \<Rightarrow> bool \<times> db" where
  "revoke_scanner_role i d =
     (has_role_row i RoleScanner d,
      d\<lparr>user_roles := del_rows (\<lambda>x. ur_user x = i \<and> ur_role x = RoleScanner) (user_roles d)\<rparr>)"

definition list_user_roles :: "uuid \<Rightarrow> db \<Rightarrow> role list" where
  "list_user_roles i d = map ur_role (filter (\<lambda>x. ur_user x = i) (user_roles d))"

definition count_organizer_roles :: "db \<Rightarrow> nat" where
  "count_organizer_roles d = count_rows (\<lambda>x. ur_role x = RoleOrganizer) (user_roles d)"

definition user_has_organizer_role :: "uuid \<Rightarrow> db \<Rightarrow> bool" where
  "user_has_organizer_role i d = has_role_row i RoleOrganizer d"

definition get_user_id_by_clerk :: "string \<Rightarrow> db \<Rightarrow> uuid option" where
  "get_user_id_by_clerk c d = map_option u_id (List.find (\<lambda>u. u_clerk u = c) (users d))"

definition identity_user_exists :: "uuid \<Rightarrow> db \<Rightarrow> bool" where
  "identity_user_exists i d = user_exists i d"

definition user_email_is_admin :: "env \<Rightarrow> string \<Rightarrow> db \<Rightarrow> bool" where
  "user_email_is_admin e email d = list_ex (\<lambda>a. ae_email a = sql_lower_trim e email) (admin_emails d)"

definition upsert_clerk_user ::
    "env \<Rightarrow> string \<Rightarrow> string \<Rightarrow> string option \<Rightarrow> db \<Rightarrow> db_error + user_row \<times> db" where
  "upsert_clerk_user e clerk email name d =
     (if email = [] then Inl CheckViolation
      else case List.find (\<lambda>u. u_clerk u = clerk) (users d) of
        Some u \<Rightarrow>
          let u' = u\<lparr>u_email := email, u_name := name, u_updated := now e\<rparr>
          in Inr (u', d\<lparr>users := upd_rows (\<lambda>x. u_clerk x = clerk)
               (\<lambda>x. x\<lparr>u_email := email, u_name := name, u_updated := now e\<rparr>) (users d)\<rparr>)
      | None \<Rightarrow>
          if user_exists (fresh e 0) d then Inl UniqueViolation
          else let u = \<lparr>u_id = fresh e 0, u_clerk = clerk, u_email = email, u_name = name,
                        u_created = now e, u_updated = now e\<rparr>
               in Inr (u, d\<lparr>users := users d @ [u]\<rparr>))"

definition insert_scanner_role_audit ::
    "env \<Rightarrow> uuid \<Rightarrow> string \<Rightarrow> uuid \<Rightarrow> db \<Rightarrow> db_error + db" where
  "insert_scanner_role_audit e actor event subject d =
     insert_audit e (Some actor) event ''user'' subject
       (JObject [(''role'', JString ''scanner'')]) d"

definition insert_bootstrap_organizer_audit :: "env \<Rightarrow> uuid \<Rightarrow> db \<Rightarrow> db_error + db" where
  "insert_bootstrap_organizer_audit e subject d =
     insert_audit e None ''organizer_bootstrapped'' ''user'' subject (JObject []) d"

record scanner_match =
  sm_id :: uuid
  sm_clerk :: string
  sm_scanner :: bool
  sm_admin :: bool

text \<open>\<^verbatim>\<open>ORDER BY u.id LIMIT 2\<close>.\<close>

definition lookup_scanner_user_by_email :: "env \<Rightarrow> string \<Rightarrow> db \<Rightarrow> scanner_match list" where
  "lookup_scanner_user_by_email e email d =
     map (\<lambda>u. \<lparr>sm_id = u_id u, sm_clerk = u_clerk u,
              sm_scanner = has_role_row (u_id u) RoleScanner d,
              sm_admin = user_email_is_admin e (u_email u) d\<rparr>)
       (take 2 (sort_key u_id (filter (\<lambda>u. sql_lower_trim e (u_email u) = email) (users d))))"

section \<open>Profile sources\<close>

type_synonym profile_source = "string \<Rightarrow> profile option"

record clerk_address =
  ca_id :: string
  ca_address :: string
  ca_status :: string

record clerk_user =
  cu_id :: string
  cu_first :: string
  cu_last :: string
  cu_username :: "string option"
  cu_primary :: string
  cu_addresses :: "clerk_address list"

text \<open>The Clerk source over \<open>fetch\<close>, the decoded body of a \<^verbatim>\<open>200\<close> response for a subject.\<close>

definition verified_primary :: "clerk_user \<Rightarrow> string" where
  "verified_primary c =
     (case List.find (\<lambda>a. ca_id a = cu_primary c \<and> ca_status a = ''verified'') (cu_addresses c) of
        None \<Rightarrow> [] | Some a \<Rightarrow> ca_address a)"

definition clerk_display_name :: "clerk_user \<Rightarrow> string" where
  "clerk_display_name c =
     (let n = trim_space (cu_first c @ '' '' @ cu_last c)
      in if n = [] then (case cu_username c of None \<Rightarrow> n | Some u \<Rightarrow> trim_space u) else n)"

definition clerk_profile :: "(string \<Rightarrow> clerk_user option) \<Rightarrow> profile_source" where
  "clerk_profile fetch subject =
     (case fetch subject of None \<Rightarrow> None
      | Some c \<Rightarrow>
          if cu_id c \<noteq> subject then None
          else if verified_primary c = [] then None
          else let n = clerk_display_name c
               in Some \<lparr>pr_clerk = subject, pr_email = verified_primary c,
                        pr_name = (if n = [] then None else Some n)\<rparr>)"

definition load_test_prefix :: string where
  "load_test_prefix = ''hat_load_''"

definition valid_load_test_subject :: "string \<Rightarrow> bool" where
  "valid_load_test_subject s =
     (if length s \<le> length load_test_prefix then False
      else list_all (\<lambda>c. in_range 97 122 c \<or> in_range 48 57 c \<or> c = CHR ''_'') s)"

definition load_test_profile :: "profile_source \<Rightarrow> profile_source" where
  "load_test_profile delegate subject =
     (if \<not> has_prefix load_test_prefix subject then delegate subject
      else if length subject > 180 \<or> \<not> valid_load_test_subject subject then None
      else Some \<lparr>pr_clerk = subject, pr_email = subject @ ''@loadtest.invalid'',
                 pr_name = Some ''Synthetic load user''\<rparr>)"

section \<open>Operations\<close>

abbreviation u_db :: "db_error + 'a \<Rightarrow> user_error + 'a" where
  "u_db \<equiv> wrap_err (\<lambda>_. UserInternal)"

text \<open>\<^verbatim>\<open>Service.Resolve\<close>. The roles of the result are the stored ones, with admin when the
  verified e-mail is on the allowlist.\<close>

definition resolve_body :: "env \<Rightarrow> profile \<Rightarrow> db \<Rightarrow> user_error + user \<times> db" where
  "resolve_body e p d =
     bindE (u_db (upsert_clerk_user e (pr_clerk p) (pr_email p) (pr_name p) d)) (\<lambda>(record, d1).
     bindE (u_db (ensure_applicant_role e (u_id record) d1)) (\<lambda>d2.
     let stored = set (list_user_roles (u_id record) d2);
         roles = (if user_email_is_admin e (pr_email p) d2 then insert RoleAdmin stored else stored)
     in Inr (\<lparr>user_id = uuid_text e (u_id record), user_clerk = u_clerk record,
              user_email = u_email record, user_name = u_name record,
              user_role_set = roles\<rparr>, d2)))"

definition resolve :: "env \<Rightarrow> profile_source \<Rightarrow> string \<Rightarrow> (db, user_error, user) tx" where
  "resolve e profiles clerk d =
     (if clerk = [] then (Inl UserInternal, d)
      else case profiles clerk of None \<Rightarrow> (Inl UserInternal, d)
      | Some p \<Rightarrow>
          if pr_clerk p \<noteq> clerk \<or> pr_email p = [] then (Inl UserInternal, d)
          else transact (resolve_body e p) d)"

definition assign_privileged_role ::
    "env \<Rightarrow> user \<Rightarrow> string \<Rightarrow> role \<Rightarrow> (db, user_error, unit) tx" where
  "assign_privileged_role e actor target r = transact (\<lambda>d.
     if \<not> has_role actor RoleOrganizer \<or> user_id actor = target then Inl UserForbidden
     else if r \<noteq> RoleReviewer \<and> r \<noteq> RoleOrganizer \<and> r \<noteq> RoleScanner then Inl UserInvalidRole
     else bindE (from_option UserInternal (parse_uuid e target)) (\<lambda>target_id.
          bindE (from_option UserInternal (parse_uuid e (user_id actor))) (\<lambda>actor_id.
          bindE (u_db (assign_user_role e target_id r (Some actor_id) d)) (\<lambda>d1.
          Inr ((), d1)))))"

text \<open>\<^verbatim>\<open>changeScannerRole\<close>: the change, and the audit event when it changed something.\<close>

definition audit_role_change ::
    "env \<Rightarrow> uuid \<Rightarrow> string \<Rightarrow> uuid \<Rightarrow> bool \<Rightarrow> db \<Rightarrow> user_error + db" where
  "audit_role_change e actor event target changed d =
     (if changed then u_db (insert_scanner_role_audit e actor event target d) else Inr d)"

definition change_scanner_role ::
    "env \<Rightarrow> user \<Rightarrow> string \<Rightarrow> bool \<Rightarrow> (db, user_error, unit) tx" where
  "change_scanner_role e actor target grant = transact (\<lambda>d.
     if \<not> has_role actor RoleOrganizer \<or> user_id actor = target then Inl UserForbidden
     else bindE (from_option UserNotFound (parse_uuid e target)) (\<lambda>target_id.
          bindE (from_option UserInternal (parse_uuid e (user_id actor))) (\<lambda>actor_id.
          if \<not> identity_user_exists target_id d then Inl UserNotFound
          else bindE (if grant then u_db (grant_scanner_role e target_id actor_id d)
                      else Inr (revoke_scanner_role target_id d)) (\<lambda>(changed, d1).
               bindE (audit_role_change e actor_id
                       (if grant then ''scanner_role_assigned'' else ''scanner_role_revoked'')
                       target_id changed d1) (\<lambda>d2.
               Inr ((), d2))))))"

definition grant_scanner :: "env \<Rightarrow> user \<Rightarrow> string \<Rightarrow> (db, user_error, unit) tx" where
  "grant_scanner e actor target = change_scanner_role e actor target True"

definition revoke_scanner :: "env \<Rightarrow> user \<Rightarrow> string \<Rightarrow> (db, user_error, unit) tx" where
  "revoke_scanner e actor target = change_scanner_role e actor target False"

definition bootstrap_first_organizer :: "env \<Rightarrow> string \<Rightarrow> (db, user_error, bool) tx" where
  "bootstrap_first_organizer e clerk = transact (\<lambda>d.
     if clerk = [] then Inl UserInternal
     else bindE (from_option UserInternal (get_user_id_by_clerk clerk d)) (\<lambda>target.
       if count_organizer_roles d > 0
       then (if \<not> user_has_organizer_role target d then Inl UserOrganizerExists
             else Inr (False, d))
       else bindE (u_db (assign_user_role e target RoleOrganizer None d)) (\<lambda>d1.
            bindE (u_db (insert_bootstrap_organizer_audit e target d1)) (\<lambda>d2.
            Inr (True, d2)))))"

subsection \<open>Scanner lookup\<close>

definition normalize_lookup_email :: "env \<Rightarrow> string \<Rightarrow> user_error + string" where
  "normalize_lookup_email e value =
     (let email = to_lower (unicode_lower e) (trim_space value)
      in if parse_address e email \<noteq> Some email \<or> length email > 254 then Inl UserInvalidEmail
         else Inr email)"

record scanner_access_user =
  sa_id :: string
  sa_email :: string
  sa_name :: "string option"
  sa_scanner :: bool
  sa_can_manage :: bool

definition lookup_scanner_user ::
    "env \<Rightarrow> profile_source \<Rightarrow> user \<Rightarrow> string \<Rightarrow> (db, user_error, scanner_access_user) tx" where
  "lookup_scanner_user e profiles actor value = query (\<lambda>d.
     if \<not> has_role actor RoleAdmin then Inl UserForbidden
     else bindE (normalize_lookup_email e value) (\<lambda>email.
       (case lookup_scanner_user_by_email e email d of
          [] \<Rightarrow> Inl UserNotFound
        | [m] \<Rightarrow>
            (case profiles (sm_clerk m) of None \<Rightarrow> Inl UserProfileUnavailable
             | Some p \<Rightarrow>
                 if pr_clerk p \<noteq> sm_clerk m \<or>
                    to_lower (unicode_lower e) (trim_space (pr_email p)) \<noteq> email
                 then Inl UserNotFound
                 else Inr \<lparr>sa_id = uuid_text e (sm_id m), sa_email = pr_email p,
                           sa_name = pr_name p, sa_scanner = sm_scanner m \<or> sm_admin m,
                           sa_can_manage = \<not> sm_admin m \<and> uuid_text e (sm_id m) \<noteq> user_id actor\<rparr>)
        | _ \<Rightarrow> Inl UserAmbiguousEmail)))"

subsection \<open>Volunteer requests\<close>

definition normalize_volunteer_name :: "string \<Rightarrow> user_error + string" where
  "normalize_volunteer_name raw =
     (let name = trim_space raw
      in case utf8_runes name of None \<Rightarrow> Inl UserVolunteerInvalid
         | Some rs \<Rightarrow>
             if length rs < 2 \<or> length rs > 100 then Inl UserVolunteerInvalid
             else if list_ex is_control rs then Inl UserVolunteerInvalid
             else Inr name)"

record volunteer_request =
  vr_user :: string
  vr_name :: string
  vr_status :: volunteer_status
  vr_created :: timestamp
  vr_reviewed :: "timestamp option"
  vr_scanner :: bool
  vr_email :: string

text \<open>\<^verbatim>\<open>volunteerSelect\<close> joins the request with its user; a row of it.\<close>

definition volunteer_view :: "env \<Rightarrow> db \<Rightarrow> volunteer_row \<Rightarrow> volunteer_request list" where
  "volunteer_view e d r =
     map (\<lambda>u. \<lparr>vr_user = uuid_text e (vo_user r), vr_name = vo_name r, vr_status = vo_status r,
              vr_created = vo_created r, vr_reviewed = vo_reviewed_at r,
              vr_scanner = has_role_row (vo_user r) RoleScanner d, vr_email = u_email u\<rparr>)
       (filter (\<lambda>u. u_id u = vo_user r) (users d))"

definition get_volunteer_request ::
    "env \<Rightarrow> user \<Rightarrow> (db, user_error, volunteer_request option) tx" where
  "get_volunteer_request e actor = query (\<lambda>d.
     if user_id actor = [] then Inl UserForbidden
     else bindE (from_option UserInternal (parse_uuid e (user_id actor))) (\<lambda>i.
       (case concat (map (volunteer_view e d) (filter (\<lambda>r. vo_user r = i) (volunteers d))) of
          [] \<Rightarrow> Inr None
        | r # _ \<Rightarrow> Inr (Some (r\<lparr>vr_email := [], vr_scanner := has_role actor RoleScanner\<rparr>)))))"

text \<open>\<^verbatim>\<open>INSERT INTO ats.volunteer_requests ... ON CONFLICT (user_id) DO NOTHING\<close>.\<close>

definition insert_volunteer_request :: "env \<Rightarrow> uuid \<Rightarrow> string \<Rightarrow> db \<Rightarrow> db_error + db" where
  "insert_volunteer_request e i name d =
     (if (case utf8_runes name of None \<Rightarrow> True
          | Some rs \<Rightarrow> length rs < 2 \<or> length rs > 100) then Inl CheckViolation
      else if list_ex (\<lambda>r. vo_user r = i) (volunteers d) then Inr d
      else if \<not> user_exists i d then Inl ForeignKeyViolation
      else Inr (d\<lparr>volunteers := volunteers d @
          [\<lparr>vo_user = i, vo_name = name, vo_status = VolPending, vo_created = now e,
            vo_reviewed_at = None, vo_reviewed_by = None\<rparr>]\<rparr>))"

definition request_volunteer_access ::
    "env \<Rightarrow> user \<Rightarrow> string \<Rightarrow> (db, user_error, volunteer_request option) tx" where
  "request_volunteer_access e actor raw d =
     (if user_id actor = [] then (Inl UserForbidden, d)
      else case normalize_volunteer_name raw of
        Inl err \<Rightarrow> (Inl err, d)
      | Inr name \<Rightarrow>
        (case bindE (from_option UserInternal (parse_uuid e (user_id actor)))
                (\<lambda>i. u_db (insert_volunteer_request e i name d)) of
           Inl err \<Rightarrow> (Inl err, d)
         | Inr d1 \<Rightarrow> get_volunteer_request e actor d1))"

text \<open>\<^verbatim>\<open>ORDER BY (r.status='pending') DESC, r.created_at, r.user_id LIMIT 50 OFFSET $1\<close>.\<close>

definition list_volunteer_requests ::
    "env \<Rightarrow> user \<Rightarrow> int \<Rightarrow> (db, user_error, volunteer_request list) tx" where
  "list_volunteer_requests e actor offset = query (\<lambda>d.
     if \<not> has_role actor RoleAdmin then Inl UserForbidden
     else if offset < 0 \<or> offset > 100000 then Inl UserVolunteerInvalid
     else Inr (take 50 (drop (nat offset) (concat (map (volunteer_view e d)
       (sort_key (\<lambda>r. vo_status r \<noteq> VolPending)
         (sort_key vo_created (sort_key vo_user (volunteers d)))))))))"

definition volunteer_status_of_string :: "string \<Rightarrow> volunteer_status option" where
  "volunteer_status_of_string s =
     (if s = ''pending'' then Some VolPending
      else if s = ''approved'' then Some VolApproved
      else if s = ''rejected'' then Some VolRejected
      else if s = ''revoked'' then Some VolRevoked
      else None)"

definition valid_volunteer_review :: "string \<Rightarrow> string \<Rightarrow> bool" where
  "valid_volunteer_review status expected =
     (if status = ''approved'' then expected = ''pending''
      else if status = ''rejected'' then expected = ''pending''
      else if status = ''revoked'' then expected = ''approved''
      else False)"

definition get_volunteer_status :: "uuid \<Rightarrow> db \<Rightarrow> volunteer_status option" where
  "get_volunteer_status i d = map_option vo_status (List.find (\<lambda>r. vo_user r = i) (volunteers d))"

text \<open>\<^verbatim>\<open>lower(u.primary_email)=a.normalized_email\<close> is the parameter \<open>sql_lower\<close>.\<close>

definition target_is_admin :: "(string \<Rightarrow> string) \<Rightarrow> uuid \<Rightarrow> db \<Rightarrow> bool" where
  "target_is_admin sql_lower i d =
     list_ex (\<lambda>a. list_ex (\<lambda>u. u_id u = i \<and> sql_lower (u_email u) = ae_email a) (users d))
       (admin_emails d)"

definition update_volunteer_status ::
    "env \<Rightarrow> uuid \<Rightarrow> volunteer_status \<Rightarrow> uuid \<Rightarrow> db \<Rightarrow> db_error + db" where
  "update_volunteer_status e i status by d =
     (if \<not> user_exists by d then Inl ForeignKeyViolation
      else if status = VolPending then Inl CheckViolation
      else Inr (d\<lparr>volunteers := upd_rows (\<lambda>r. vo_user r = i)
        (\<lambda>r. r\<lparr>vo_status := status, vo_reviewed_by := Some by, vo_reviewed_at := Some (clock e)\<rparr>)
        (volunteers d)\<rparr>))"

definition volunteer_role_change ::
    "env \<Rightarrow> volunteer_status \<Rightarrow> uuid \<Rightarrow> uuid \<Rightarrow> db \<Rightarrow> user_error + bool \<times> db" where
  "volunteer_role_change e status target actor d =
     (if status = VolApproved then u_db (grant_scanner_role e target actor d)
      else if status = VolRevoked then Inr (revoke_scanner_role target d)
      else Inr (False, d))"

definition volunteer_writes ::
    "env \<Rightarrow> string \<Rightarrow> volunteer_status \<Rightarrow> uuid \<Rightarrow> uuid \<Rightarrow> db \<Rightarrow> user_error + unit \<times> db" where
  "volunteer_writes e status st target actor d =
     bindE (volunteer_role_change e st target actor d) (\<lambda>(changed, d1).
     bindE (audit_role_change e actor
             (if st = VolRevoked then ''scanner_role_revoked'' else ''scanner_role_assigned'')
             target changed d1) (\<lambda>d2.
     bindE (u_db (update_volunteer_status e target st actor d2)) (\<lambda>d3.
     bindE (u_db (insert_audit e (Some actor) ''volunteer_request_reviewed'' ''user''
             target (JObject [(''status'', JString status)]) d3)) (\<lambda>d4.
     Inr ((), d4)))))"

definition review_volunteer_request ::
    "env \<Rightarrow> (string \<Rightarrow> string) \<Rightarrow> user \<Rightarrow> string \<Rightarrow> string \<Rightarrow> string
      \<Rightarrow> (db, user_error, unit) tx" where
  "review_volunteer_request e sql_lower actor target status expected = transact (\<lambda>d.
     if \<not> has_role actor RoleAdmin \<or> user_id actor = target then Inl UserForbidden
     else if \<not> valid_volunteer_review status expected then Inl UserVolunteerInvalid
     else bindE (from_option UserNotFound (parse_uuid e target)) (\<lambda>target_id.
          bindE (from_option UserForbidden (parse_uuid e (user_id actor))) (\<lambda>actor_id.
          bindE (from_option UserNotFound (get_volunteer_status target_id d)) (\<lambda>current.
          bindE (from_option UserInternal (volunteer_status_of_string status)) (\<lambda>st.
          if volunteer_status_of_string expected \<noteq> Some current then Inl UserVolunteerConflict
          else if target_is_admin sql_lower target_id d then Inl UserForbidden
          else volunteer_writes e status st target_id actor_id d)))))"

section \<open>Roles as pairs\<close>

definition role_pairs :: "db \<Rightarrow> (uuid \<times> role) set" where
  "role_pairs d = (\<lambda>x. (ur_user x, ur_role x)) ` set (user_roles d)"

definition users_inv :: "db \<Rightarrow> bool" where
  "users_inv d \<longleftrightarrow>
     distinct_on u_id (users d) \<and> distinct_on u_clerk (users d) \<and>
     (\<forall>u\<in>set (users d). u_email u \<noteq> []) \<and>
     distinct_on (\<lambda>x. (ur_user x, ur_role x)) (user_roles d) \<and>
     (\<forall>x\<in>set (user_roles d). stored_role (ur_role x) \<and> user_exists (ur_user x) d) \<and>
     distinct_on vo_user (volunteers d) \<and>
     (\<forall>r\<in>set (volunteers d). user_exists (vo_user r) d \<and>
        (vo_status r = VolPending \<longleftrightarrow> vo_reviewed_by r = None) \<and>
        (vo_reviewed_by r = None \<longleftrightarrow> vo_reviewed_at r = None))"

lemma has_role_row_iff: "has_role_row i r d \<longleftrightarrow> (i, r) \<in> role_pairs d"
  by (auto simp: has_role_row_def role_pairs_def list_ex_iff image_iff)

lemma list_user_roles_set: "set (list_user_roles i d) = {r. (i, r) \<in> role_pairs d}"
  by (auto simp: list_user_roles_def role_pairs_def)

lemma insert_role_Inr:
  assumes "insert_role e i r by d = Inr (changed, d')"
  shows "role_pairs d' = insert (i, r) (role_pairs d)"
    and "changed \<longleftrightarrow> (i, r) \<notin> role_pairs d"
    and "d' = d\<lparr>user_roles := user_roles d'\<rparr>"
    and "stored_role r"
    and "users_inv d \<Longrightarrow> users_inv d'"
  using assms
  by (auto simp: insert_role_def has_role_row_iff users_inv_def user_exists_def role_pairs_def
      split: if_splits)

lemma revoke_scanner_role_eq:
  assumes "revoke_scanner_role i d = (changed, d')"
  shows "role_pairs d' = role_pairs d - {(i, RoleScanner)}"
    and "changed \<longleftrightarrow> (i, RoleScanner) \<in> role_pairs d"
    and "d' = d\<lparr>user_roles := user_roles d'\<rparr>"
    and "users_inv d \<Longrightarrow> users_inv d'"
  using assms
  by (auto simp: revoke_scanner_role_def has_role_row_iff users_inv_def user_exists_def
      role_pairs_def distinct_on_del_rows)

lemma role_pairs_audit [simp]: "role_pairs (d\<lparr>audit := a\<rparr>) = role_pairs d"
  by (simp add: role_pairs_def)

lemma role_pairs_volunteers [simp]: "role_pairs (d\<lparr>volunteers := a\<rparr>) = role_pairs d"
  by (simp add: role_pairs_def)

lemma role_pairs_users [simp]: "role_pairs (d\<lparr>users := a\<rparr>) = role_pairs d"
  by (simp add: role_pairs_def)

lemma users_inv_audit [simp]: "users_inv (d\<lparr>audit := a\<rparr>) = users_inv d"
  by (simp add: users_inv_def user_exists_def)

lemma user_exists_frame [simp]:
  "user_exists i (d\<lparr>audit := a\<rparr>) = user_exists i d"
  "user_exists i (d\<lparr>user_roles := b\<rparr>) = user_exists i d"
  "user_exists i (d\<lparr>volunteers := c\<rparr>) = user_exists i d"
  by (simp_all add: user_exists_def)

text \<open>The audit rows of the package.\<close>

definition scanner_audit_row :: "env \<Rightarrow> uuid \<Rightarrow> string \<Rightarrow> uuid \<Rightarrow> audit_row" where
  "scanner_audit_row e actor event subject =
     \<lparr>au_actor = Some actor, au_event = event, au_subject_type = ''user'', au_subject = subject,
      au_metadata = JObject [(''role'', JString ''scanner'')], au_created = now e\<rparr>"

lemma audit_role_change_Inr:
  "audit_role_change e actor event target changed d = Inr d' \<Longrightarrow>
     d' = d\<lparr>audit := audit d @ (if changed then [scanner_audit_row e actor event target] else [])\<rparr>"
  by (auto simp: audit_role_change_def insert_scanner_role_audit_def insert_audit_Inr
      scanner_audit_row_def split: if_splits)

section \<open>Scanner grants and revocations\<close>

text \<open>What a successful change has done: exactly one pair of \<open>user_roles\<close> and, if that pair
  was not already so, one audit event.\<close>

definition scanner_change_effect ::
    "env \<Rightarrow> bool \<Rightarrow> uuid \<Rightarrow> uuid \<Rightarrow> db \<Rightarrow> db \<Rightarrow> bool" where
  "scanner_change_effect e grant actor target d d' \<longleftrightarrow>
     (let changed = (grant \<longleftrightarrow> (target, RoleScanner) \<notin> role_pairs d);
          event = (if grant then ''scanner_role_assigned'' else ''scanner_role_revoked'')
      in role_pairs d' = (if grant then insert (target, RoleScanner) (role_pairs d)
                          else role_pairs d - {(target, RoleScanner)}) \<and>
         audit d' = audit d @ (if changed then [scanner_audit_row e actor event target] else []) \<and>
         d' = d\<lparr>user_roles := user_roles d', audit := audit d'\<rparr>)"

lemma role_change_step:
  assumes "(if grant then u_db (grant_scanner_role e target actor d)
            else Inr (revoke_scanner_role target d)) = Inr (changed, d1)"
  shows "role_pairs d1 = (if grant then insert (target, RoleScanner) (role_pairs d)
                          else role_pairs d - {(target, RoleScanner)})"
    and "changed = (grant \<longleftrightarrow> (target, RoleScanner) \<notin> role_pairs d)"
    and "d1 = d\<lparr>user_roles := user_roles d1\<rparr>"
    and "users_inv d \<Longrightarrow> users_inv d1"
proof -
  have g: "insert_role e target RoleScanner (Some actor) d = Inr (changed, d1)" if grant
    using assms that by (simp add: grant_scanner_role_def)
  have r: "revoke_scanner_role target d = (changed, d1)" if "\<not> grant"
    using assms that by simp
  show "role_pairs d1 = (if grant then insert (target, RoleScanner) (role_pairs d)
                          else role_pairs d - {(target, RoleScanner)})"
    by (cases grant) (simp_all add: insert_role_Inr(1) [OF g] revoke_scanner_role_eq(1) [OF r])
  show "changed = (grant \<longleftrightarrow> (target, RoleScanner) \<notin> role_pairs d)"
    by (cases grant) (simp_all add: insert_role_Inr(2) [OF g] revoke_scanner_role_eq(2) [OF r])
  show "d1 = d\<lparr>user_roles := user_roles d1\<rparr>"
    by (cases grant) (rule insert_role_Inr(3) [OF g] revoke_scanner_role_eq(3) [OF r], assumption)+
  show "users_inv d \<Longrightarrow> users_inv d1"
    by (cases grant) (rule insert_role_Inr(5) [OF g] revoke_scanner_role_eq(4) [OF r], assumption+)+
qed

lemma change_scanner_role_Inr:
  assumes "change_scanner_role e actor target grant d = (Inr (), d')"
  obtains tid aid where
    "has_role actor RoleOrganizer" and "user_id actor \<noteq> target"
    and "parse_uuid e target = Some tid" and "parse_uuid e (user_id actor) = Some aid"
    and "user_exists tid d" and "scanner_change_effect e grant aid tid d d'"
    and "users_inv d \<Longrightarrow> users_inv d'"
proof -
  from assms obtain tid aid changed d1 where
    g: "has_role actor RoleOrganizer" "user_id actor \<noteq> target"
      "parse_uuid e target = Some tid" "parse_uuid e (user_id actor) = Some aid"
      "user_exists tid d" and
    r: "(if grant then u_db (grant_scanner_role e tid aid d)
         else Inr (revoke_scanner_role tid d)) = Inr (changed, d1)" and
    a: "audit_role_change e aid
          (if grant then ''scanner_role_assigned'' else ''scanner_role_revoked'') tid changed d1
          = Inr d'"
    unfolding change_scanner_role_def transact_Inr identity_user_exists_def
    by (auto split: if_split_asm prod.split_asm)
  note r' = role_change_step [OF r]
  note a' = audit_role_change_Inr [OF a]
  obtain R where d1: "d1 = d\<lparr>user_roles := R\<rparr>" using r'(3) by blast
  have "scanner_change_effect e grant aid tid d d'"
    unfolding scanner_change_effect_def Let_def
    using r'(1,2) by (simp add: a' d1)
  moreover have "users_inv d \<Longrightarrow> users_inv d'" using r'(4) by (simp add: a')
  ultimately show thesis by (rule that [OF g])
qed

lemma change_scanner_role_total:
  assumes ids: "parse_uuid e target = Some tid" "parse_uuid e (user_id actor) = Some aid"
    and exists: "user_exists aid d" "user_exists tid d"
    and guard: "has_role actor RoleOrganizer" "user_id actor \<noteq> target"
  shows "\<exists>d'. change_scanner_role e actor target grant d = (Inr (), d')"
proof -
  have "\<exists>changed d1. (if grant then u_db (grant_scanner_role e tid aid d)
      else Inr (revoke_scanner_role tid d)) = Inr (changed, d1) \<and> user_exists aid d1"
    using exists
    by (auto simp: grant_scanner_role_def insert_role_def stored_role_def revoke_scanner_role_def
        bindE_Inr)
  then obtain changed d1 where r: "(if grant then u_db (grant_scanner_role e tid aid d)
      else Inr (revoke_scanner_role tid d)) = Inr (changed, d1)" and a: "user_exists aid d1"
    by blast
  have "\<exists>d2. audit_role_change e aid ev tid changed d1 = Inr d2" for ev
    using a by (auto simp: audit_role_change_def insert_scanner_role_audit_def insert_audit_def)
  then show ?thesis
    using r ids exists guard
    by (auto simp: change_scanner_role_def transact_Inr identity_user_exists_def bindE_Inr)
qed

lemma change_scanner_role_char:
  assumes ids: "parse_uuid e target = Some tid" "parse_uuid e (user_id actor) = Some aid"
    and exists: "user_exists aid d"
  shows "if has_role actor RoleOrganizer \<and> user_id actor \<noteq> target \<and> user_exists tid d
    then \<exists>d'. change_scanner_role e actor target grant d = (Inr (), d') \<and>
           scanner_change_effect e grant aid tid d d'
    else change_scanner_role e actor target grant d =
           (Inl (if has_role actor RoleOrganizer \<and> user_id actor \<noteq> target
                 then UserNotFound else UserForbidden), d)"
proof (cases "has_role actor RoleOrganizer \<and> user_id actor \<noteq> target \<and> user_exists tid d")
  case True
  then obtain d' where run: "change_scanner_role e actor target grant d = (Inr (), d')"
    using change_scanner_role_total [OF ids exists] by blast
  then have "scanner_change_effect e grant aid tid d d'"
    by (rule change_scanner_role_Inr) (use ids in auto)
  with run True show ?thesis by auto
next
  case False
  then show ?thesis
    by (auto simp: change_scanner_role_def transact_def identity_user_exists_def ids)
qed

text \<open>C3. Granting or revoking scanner access succeeds exactly for an organizer acting on
  another, existing user. It then changes one pair of the role table and nothing else, and
  writes one audit event if the pair was not already as asked: repeating it is a no-op. In
  every other case, the caller's own account included, it reports forbidden or not found and
  changes nothing. The caller's own id is taken to arrive as the API prints it; the lemma
  \<open>self_grant_by_respelling\<close> below is about other spellings.\<close>

theorem change_scanner_role_spec:
  assumes "parse_uuid e target = Some tid" and "parse_uuid e (user_id actor) = Some aid"
    and "user_exists aid d" and "tid = aid \<longrightarrow> target = user_id actor"
  shows "if has_role actor RoleOrganizer \<and> tid \<noteq> aid \<and> user_exists tid d
    then \<exists>d'. change_scanner_role e actor target grant d = (Inr (), d') \<and>
           scanner_change_effect e grant aid tid d d'
    else change_scanner_role e actor target grant d =
           (Inl (if has_role actor RoleOrganizer \<and> tid \<noteq> aid then UserNotFound else UserForbidden), d)"
proof -
  have "user_id actor \<noteq> target \<longleftrightarrow> tid \<noteq> aid" using assms(1,2,4) by auto
  with change_scanner_role_char [OF assms(1-3), of grant] show ?thesis by simp
qed

definition sample_organizer :: user where
  "sample_organizer = \<lparr>user_id = ''x'', user_clerk = ''a'', user_email = ''a@x.ca'',
     user_name = None, user_role_set = {RoleOrganizer}\<rparr>"

definition sample_users_db :: db where
  "sample_users_db = empty_db\<lparr>users := [sample_user 1 ''a'', sample_user 2 ''b'']\<rparr>"

theorem change_scanner_role_spec_witness:
  "\<exists>d'. change_scanner_role sample_env sample_organizer ''xx'' True sample_users_db = (Inr (), d') \<and>
     scanner_change_effect sample_env True 1 2 sample_users_db d'"
proof -
  have "parse_uuid sample_env ''xx'' = Some 2"
    and "parse_uuid sample_env (user_id sample_organizer) = Some 1"
    and "user_exists 1 sample_users_db" and "2 = (1 :: uuid) \<longrightarrow> ''xx'' = user_id sample_organizer"
    by code_simp+
  note spec = change_scanner_role_spec [OF this, of True]
  have "has_role sample_organizer RoleOrganizer \<and> 2 \<noteq> (1 :: uuid) \<and> user_exists 2 sample_users_db"
    by code_simp
  with spec show ?thesis by simp
qed

text \<open>
  The self-assignment guard compares the target's text with the actor's id, but
  \<^verbatim>\<open>pgtype.UUID.Scan\<close> reads several spellings of one UUID: an organizer who spells the own
  id differently passes the guard and is granted the role.
\<close>

lemma self_grant_by_respelling:
  assumes "has_role actor RoleOrganizer" and "parse_uuid e (user_id actor) = Some aid"
    and "parse_uuid e target = Some aid" and "target \<noteq> user_id actor" and "user_exists aid d"
  shows "\<exists>d'. grant_scanner e actor target d = (Inr (), d') \<and>
    (aid, RoleScanner) \<in> role_pairs d'"
  using change_scanner_role_char [of e target aid actor aid d True] assms
  by (auto simp: grant_scanner_def scanner_change_effect_def Let_def)

section \<open>Resolve\<close>

lemma upsert_clerk_user_Inr:
  assumes "upsert_clerk_user e clerk email name d = Inr (u, d')" and "users_inv d"
  shows "u \<in> set (users d')" and "u_clerk u = clerk" and "u_email u = email"
    and "u_name u = name"
    and "\<forall>x. u_clerk x \<noteq> clerk \<longrightarrow> (x \<in> set (users d') \<longleftrightarrow> x \<in> set (users d))"
    and "d' = d\<lparr>users := users d'\<rparr>" and "users_inv d'"
    and "\<forall>x\<in>set (users d). u_clerk x = clerk \<longrightarrow> u_id x = u_id u"
proof -
  have inv: "distinct_on u_id (users d)" "distinct_on u_clerk (users d)"
    using assms(2) by (simp_all add: users_inv_def)
  let ?upd = "\<lambda>x. x\<lparr>u_email := email, u_name := name, u_updated := now e\<rparr>"
  have email: "email \<noteq> []" using assms(1) by (auto simp: upsert_clerk_user_def split: if_splits)
  have goal: "u \<in> set (users d') \<and> u_clerk u = clerk \<and> u_email u = email \<and> u_name u = name \<and>
      (\<forall>x. u_clerk x \<noteq> clerk \<longrightarrow> (x \<in> set (users d') \<longleftrightarrow> x \<in> set (users d))) \<and>
      d' = d\<lparr>users := users d'\<rparr> \<and> users_inv d' \<and>
      (\<forall>x\<in>set (users d). u_clerk x = clerk \<longrightarrow> u_id x = u_id u)"
  proof (cases "List.find (\<lambda>u. u_clerk u = clerk) (users d)")
    case None
    then have new: "\<forall>x\<in>set (users d). u_clerk x \<noteq> clerk" by (auto dest: find_NoneD)
    with None show ?thesis
      using assms email
      by (auto simp: upsert_clerk_user_def Let_def users_inv_def user_exists_iff
          split: if_splits)
  next
    case (Some v)
    then have v: "v \<in> set (users d)" "u_clerk v = clerk" by (auto dest: find_SomeD)
    have u: "u = ?upd v"
      and d': "d' = d\<lparr>users := upd_rows (\<lambda>x. u_clerk x = clerk) ?upd (users d)\<rparr>"
      using assms(1) Some email by (auto simp: upsert_clerk_user_def Let_def)
    have ids: "\<forall>x\<in>set (users d). u_clerk x = clerk \<longrightarrow> u_id x = u_id v"
      using v inv by (auto dest: distinct_onD)
    have ex: "user_exists i d' = user_exists i d" for i
      by (simp add: user_exists_iff d' image_upd_rows)
    have "users_inv d'"
      using assms(2) email ex
      by (auto simp: users_inv_def d' distinct_on_upd_rows set_upd_rows)
    moreover have "u \<in> set (users d')"
      using v by (auto simp: d' set_upd_rows u image_iff intro!: bexI [of _ v])
    moreover have "\<forall>x. u_clerk x \<noteq> clerk \<longrightarrow> (x \<in> set (users d') \<longleftrightarrow> x \<in> set (users d))"
      by (auto simp: d' set_upd_rows image_iff)
    moreover have "d' = d\<lparr>users := users d'\<rparr>" by (simp add: d')
    moreover have "u_clerk u = clerk \<and> u_email u = email \<and> u_name u = name \<and> u_id u = u_id v"
      by (simp add: u v)
    ultimately show ?thesis using ids by simp
  qed
  then show "u \<in> set (users d')" and "u_clerk u = clerk" and "u_email u = email"
    and "u_name u = name"
    and "\<forall>x. u_clerk x \<noteq> clerk \<longrightarrow> (x \<in> set (users d') \<longleftrightarrow> x \<in> set (users d))"
    and "d' = d\<lparr>users := users d'\<rparr>" and "users_inv d'"
    and "\<forall>x\<in>set (users d). u_clerk x = clerk \<longrightarrow> u_id x = u_id u"
    by blast+
qed

text \<open>What \<open>resolve\<close> promises of the user \<open>v\<close> it returns.\<close>

definition resolve_effect :: "env \<Rightarrow> profile \<Rightarrow> db \<Rightarrow> user \<Rightarrow> db \<Rightarrow> bool" where
  "resolve_effect e p d v d' \<longleftrightarrow>
     (\<exists>u\<in>set (users d').
        u_clerk u = pr_clerk p \<and> u_email u = pr_email p \<and> u_name u = pr_name p \<and>
        (\<forall>x\<in>set (users d). u_clerk x = pr_clerk p \<longrightarrow> u_id x = u_id u) \<and>
        user_id v = uuid_text e (u_id u) \<and> user_email v = pr_email p \<and>
        role_pairs d' = insert (u_id u, RoleApplicant) (role_pairs d) \<and>
        user_role_set v = {RoleApplicant} \<union> {r. (u_id u, r) \<in> role_pairs d} \<union>
          (if user_email_is_admin e (pr_email p) d then {RoleAdmin} else {})) \<and>
     (\<forall>x. u_clerk x \<noteq> pr_clerk p \<longrightarrow> (x \<in> set (users d') \<longleftrightarrow> x \<in> set (users d))) \<and>
     d' = d\<lparr>users := users d', user_roles := user_roles d'\<rparr>"

lemma resolve_body_Inr:
  assumes "resolve_body e p d = Inr (v, d')" and "users_inv d"
  shows "resolve_effect e p d v d'" and "users_inv d'"
proof -
  obtain u d1 where up: "upsert_clerk_user e (pr_clerk p) (pr_email p) (pr_name p) d = Inr (u, d1)"
    and role: "ensure_applicant_role e (u_id u) d1 = Inr d'"
    and v: "v = \<lparr>user_id = uuid_text e (u_id u), user_clerk = u_clerk u, user_email = u_email u,
        user_name = u_name u, user_role_set = (if user_email_is_admin e (pr_email p) d'
          then insert RoleAdmin (set (list_user_roles (u_id u) d'))
          else set (list_user_roles (u_id u) d'))\<rparr>"
    using assms(1) by (auto simp: resolve_body_def Let_def split: prod.split_asm)
  note u = upsert_clerk_user_Inr [OF up assms(2)]
  obtain ch where ins: "insert_role e (u_id u) RoleApplicant None d1 = Inr (ch, d')"
    using role by (auto simp: ensure_applicant_role_def split: prod.split_asm)
  note i = insert_role_Inr [OF ins]
  obtain U where d1: "d1 = d\<lparr>users := U\<rparr>" using u(6) by blast
  obtain R where d': "d' = d1\<lparr>user_roles := R\<rparr>" using i(3) by blast
  have adm: "user_email_is_admin e (pr_email p) d' = user_email_is_admin e (pr_email p) d"
    by (simp add: user_email_is_admin_def d' d1)
  have us: "users d' = users d1" by (simp add: d')
  have rp: "role_pairs d' = insert (u_id u, RoleApplicant) (role_pairs d)"
    using i(1) by (simp add: d1)
  have "\<exists>w\<in>set (users d').
      u_clerk w = pr_clerk p \<and> u_email w = pr_email p \<and> u_name w = pr_name p \<and>
      (\<forall>x\<in>set (users d). u_clerk x = pr_clerk p \<longrightarrow> u_id x = u_id w) \<and>
      user_id v = uuid_text e (u_id w) \<and> user_email v = pr_email p \<and>
      role_pairs d' = insert (u_id w, RoleApplicant) (role_pairs d) \<and>
      user_role_set v = {RoleApplicant} \<union> {r. (u_id w, r) \<in> role_pairs d} \<union>
        (if user_email_is_admin e (pr_email p) d then {RoleAdmin} else {})"
    by (rule bexI [of _ u])
       (use u(1-4) u(8) in \<open>auto simp: us v rp adm list_user_roles_set\<close>)
  moreover have "d' = d\<lparr>users := users d', user_roles := user_roles d'\<rparr>"
    by (simp add: d' d1)
  ultimately show "resolve_effect e p d v d'"
    using u(5) unfolding resolve_effect_def us by simp
  show "users_inv d'" by (rule i(5)) (rule u(7))
qed

text \<open>C4. Signing in never grants a privilege: \<^verbatim>\<open>Resolve\<close> adds at most the applicant role to
  the subject's user and changes no other user and no other table. The user it returns has
  that role, the roles stored for it before, and admin exactly when the verified e-mail is on
  the allowlist; a known subject keeps its id.\<close>

theorem resolve_spec:
  assumes "resolve e profiles clerk d = (Inr v, d')" and "users_inv d"
  shows "\<exists>p. profiles clerk = Some p \<and> pr_clerk p = clerk \<and> resolve_effect e p d v d'"
proof -
  obtain p where "profiles clerk = Some p" "pr_clerk p = clerk" "resolve_body e p d = Inr (v, d')"
    using assms(1) by (auto simp: resolve_def transact_Inr split: if_splits option.splits)
  then show ?thesis using resolve_body_Inr(1) assms(2) by blast
qed

definition sample_profiles :: profile_source where
  "sample_profiles = load_test_profile (\<lambda>s. Some \<lparr>pr_clerk = s, pr_email = s @ ''@x.ca'', pr_name = None\<rparr>)"

theorem resolve_spec_witness:
  "\<exists>v d' p. resolve sample_env sample_profiles ''b'' sample_users_db = (Inr v, d') \<and>
     sample_profiles ''b'' = Some p \<and> resolve_effect sample_env p sample_users_db v d'"
proof -
  have inv: "users_inv sample_users_db"
    by (auto simp: users_inv_def sample_users_db_def empty_db_def sample_user_def)
  have "\<not> isl (fst (resolve sample_env sample_profiles ''b'' sample_users_db))"
    by code_simp
  then obtain v d' where r: "resolve sample_env sample_profiles ''b'' sample_users_db = (Inr v, d')"
    by (metis isl_def prod.collapse sum.collapse(2))
  with resolve_spec [OF r inv] show ?thesis by blast
qed

section \<open>The first organizer\<close>

lemma count_organizer_pos: "count_organizer_roles d > 0 \<longleftrightarrow> (\<exists>i. (i, RoleOrganizer) \<in> role_pairs d)"
proof -
  have "count_organizer_roles d = 0 \<longleftrightarrow> \<not> (\<exists>i. (i, RoleOrganizer) \<in> role_pairs d)"
    by (force simp: count_organizer_roles_def count_rows_0 role_pairs_def)
  then show ?thesis by auto
qed

lemma get_user_id_by_clerk_Some:
  "get_user_id_by_clerk c d = Some i \<Longrightarrow> \<exists>u\<in>set (users d). u_clerk u = c \<and> u_id u = i"
  by (auto simp: get_user_id_by_clerk_def dest: find_SomeD)

lemma bootstrap_Inr:
  assumes "bootstrap_first_organizer e clerk d = (Inr b, d')"
  shows "\<exists>i. get_user_id_by_clerk clerk d = Some i \<and> (i, RoleOrganizer) \<in> role_pairs d' \<and>
      (if b then (\<forall>j. (j, RoleOrganizer) \<notin> role_pairs d) \<and>
              role_pairs d' = insert (i, RoleOrganizer) (role_pairs d) \<and>
              length (audit d') = Suc (length (audit d)) \<and>
              d' = d\<lparr>user_roles := user_roles d', audit := audit d'\<rparr>
       else d' = d)"
    and "users_inv d \<Longrightarrow> users_inv d'"
proof -
  obtain i where i: "get_user_id_by_clerk clerk d = Some i"
    using assms by (auto simp: bootstrap_first_organizer_def transact_Inr split: if_splits)
  have "(\<exists>i. get_user_id_by_clerk clerk d = Some i \<and> (i, RoleOrganizer) \<in> role_pairs d' \<and>
      (if b then (\<forall>j. (j, RoleOrganizer) \<notin> role_pairs d) \<and>
              role_pairs d' = insert (i, RoleOrganizer) (role_pairs d) \<and>
              length (audit d') = Suc (length (audit d)) \<and>
              d' = d\<lparr>user_roles := user_roles d', audit := audit d'\<rparr>
       else d' = d)) \<and> (users_inv d \<longrightarrow> users_inv d')"
  proof (cases "count_organizer_roles d > 0")
    case True
    then have "b = False" "d' = d" "(i, RoleOrganizer) \<in> role_pairs d"
      using assms i
      by (auto simp: bootstrap_first_organizer_def transact_Inr user_has_organizer_role_def
          has_role_row_iff split: if_splits)
    then show ?thesis using i by auto
  next
    case False
    then obtain ch d1 where ins: "insert_role e i RoleOrganizer None d = Inr (ch, d1)"
      and aud: "insert_bootstrap_organizer_audit e i d1 = Inr d'" and b: "b = True"
      using assms i
      by (auto simp: bootstrap_first_organizer_def transact_Inr assign_user_role_def
          split: if_splits prod.split_asm)
    note r = insert_role_Inr [OF ins]
    obtain R where d1: "d1 = d\<lparr>user_roles := R\<rparr>" using r(3) by blast
    obtain a where d': "d' = d1\<lparr>audit := audit d1 @ [a]\<rparr>"
      using aud by (auto simp: insert_bootstrap_organizer_audit_def insert_audit_Inr)
    have "\<forall>j. (j, RoleOrganizer) \<notin> role_pairs d" using False count_organizer_pos by auto
    then show ?thesis using i b r(1,5) by (auto simp: d' d1)
  qed
  then show "\<exists>i. get_user_id_by_clerk clerk d = Some i \<and> (i, RoleOrganizer) \<in> role_pairs d' \<and>
      (if b then (\<forall>j. (j, RoleOrganizer) \<notin> role_pairs d) \<and>
              role_pairs d' = insert (i, RoleOrganizer) (role_pairs d) \<and>
              length (audit d') = Suc (length (audit d)) \<and>
              d' = d\<lparr>user_roles := user_roles d', audit := audit d'\<rparr>
       else d' = d)"
    and "users_inv d \<Longrightarrow> users_inv d'" by blast+
qed

lemma bootstrap_Inl: "bootstrap_first_organizer e clerk d = (Inl err, d') \<Longrightarrow> d' = d"
  by (simp add: bootstrap_first_organizer_def transact_Inl)

lemma bootstrap_no_second:
  assumes "(i, RoleOrganizer) \<in> role_pairs d"
  shows "snd (bootstrap_first_organizer e clerk d) = d \<and>
    fst (bootstrap_first_organizer e clerk d) \<noteq> Inr True"
proof (cases "bootstrap_first_organizer e clerk d")
  case (Pair r d')
  show ?thesis
  proof (cases r)
    case (Inl err)
    with Pair bootstrap_Inl show ?thesis by force
  next
    case (Inr b)
    with Pair bootstrap_Inr(1) [of e clerk d b d'] assms show ?thesis by (cases b) auto
  qed
qed

text \<open>C5. The bootstrap makes an organizer once: when it reports success the target of an
  existing subject holds the organizer role, granted by this call (with one audit event) only
  if nobody held it before, and from then on no bootstrap, of whatever subject, changes
  anything or reports a new assignment.\<close>

theorem bootstrap_once:
  assumes "bootstrap_first_organizer e clerk d = (Inr b, d')"
  shows "\<exists>i. get_user_id_by_clerk clerk d = Some i \<and> (i, RoleOrganizer) \<in> role_pairs d' \<and>
      (if b then (\<forall>j. (j, RoleOrganizer) \<notin> role_pairs d) \<and>
              role_pairs d' = insert (i, RoleOrganizer) (role_pairs d) \<and>
              length (audit d') = Suc (length (audit d)) \<and>
              d' = d\<lparr>user_roles := user_roles d', audit := audit d'\<rparr>
       else d' = d) \<and>
      (\<forall>e2 clerk2. snd (bootstrap_first_organizer e2 clerk2 d') = d' \<and>
         fst (bootstrap_first_organizer e2 clerk2 d') \<noteq> Inr True)"
  using bootstrap_Inr(1) [OF assms] bootstrap_no_second by blast

theorem bootstrap_once_witness:
  "\<exists>d'. bootstrap_first_organizer sample_env ''a'' sample_users_db = (Inr True, d') \<and>
     (1, RoleOrganizer) \<in> role_pairs d' \<and>
     fst (bootstrap_first_organizer sample_env ''b'' d') \<noteq> Inr True"
proof -
  have "fst (bootstrap_first_organizer sample_env ''a'' sample_users_db) = Inr True"
    and i: "get_user_id_by_clerk ''a'' sample_users_db = Some 1"
    by code_simp+
  then obtain d' where r: "bootstrap_first_organizer sample_env ''a'' sample_users_db = (Inr True, d')"
    by (metis prod.collapse)
  with bootstrap_once [OF r] i show ?thesis by auto
qed

section \<open>Volunteer requests\<close>

text \<open>The transitions of a request and what they do to the scanner role.\<close>

definition volunteer_transition :: "volunteer_status \<Rightarrow> volunteer_status \<Rightarrow> bool" where
  "volunteer_transition old new \<longleftrightarrow>
     (old, new) \<in> {(VolPending, VolApproved), (VolPending, VolRejected), (VolApproved, VolRevoked)}"

definition review_effect ::
    "volunteer_status \<Rightarrow> uuid \<Rightarrow> db \<Rightarrow> db \<Rightarrow> bool" where
  "review_effect st target d d' \<longleftrightarrow>
     role_pairs d' = (case st of
         VolApproved \<Rightarrow> insert (target, RoleScanner) (role_pairs d)
       | VolRevoked \<Rightarrow> role_pairs d - {(target, RoleScanner)}
       | _ \<Rightarrow> role_pairs d) \<and>
     (\<forall>i. get_volunteer_status i d' =
        (if i = target then Some st else get_volunteer_status i d)) \<and>
     length (audit d') = length (audit d) + (if role_pairs d' = role_pairs d then 1 else 2) \<and>
     d' = d\<lparr>user_roles := user_roles d', volunteers := volunteers d', audit := audit d'\<rparr>"

lemma volunteer_role_change_Inr:
  assumes "volunteer_role_change e st target actor d = Inr (changed, d')"
  shows "role_pairs d' = (case st of
         VolApproved \<Rightarrow> insert (target, RoleScanner) (role_pairs d)
       | VolRevoked \<Rightarrow> role_pairs d - {(target, RoleScanner)}
       | _ \<Rightarrow> role_pairs d)"
    and "changed \<longleftrightarrow> role_pairs d' \<noteq> role_pairs d"
    and "d' = d\<lparr>user_roles := user_roles d'\<rparr>"
    and "users_inv d \<Longrightarrow> users_inv d'"
proof -
  have "role_pairs d' = (case st of
         VolApproved \<Rightarrow> insert (target, RoleScanner) (role_pairs d)
       | VolRevoked \<Rightarrow> role_pairs d - {(target, RoleScanner)}
       | _ \<Rightarrow> role_pairs d) \<and> (changed \<longleftrightarrow> role_pairs d' \<noteq> role_pairs d) \<and>
     d' = d\<lparr>user_roles := user_roles d'\<rparr> \<and> (users_inv d \<longrightarrow> users_inv d')"
  proof (cases "st = VolApproved")
    case True
    then have "insert_role e target RoleScanner (Some actor) d = Inr (changed, d')"
      using assms by (simp add: volunteer_role_change_def grant_scanner_role_def)
    from insert_role_Inr [OF this] True show ?thesis by auto
  next
    case False
    note nA = this
    show ?thesis
    proof (cases "st = VolRevoked")
      case True
      then have "revoke_scanner_role target d = (changed, d')"
        using assms nA by (simp add: volunteer_role_change_def)
      from revoke_scanner_role_eq [OF this] True show ?thesis by auto
    next
      case False
      then show ?thesis
        using assms nA by (cases st) (auto simp: volunteer_role_change_def)
    qed
  qed
  then show "role_pairs d' = (case st of
         VolApproved \<Rightarrow> insert (target, RoleScanner) (role_pairs d)
       | VolRevoked \<Rightarrow> role_pairs d - {(target, RoleScanner)}
       | _ \<Rightarrow> role_pairs d)"
    and "changed \<longleftrightarrow> role_pairs d' \<noteq> role_pairs d"
    and "d' = d\<lparr>user_roles := user_roles d'\<rparr>"
    and "users_inv d \<Longrightarrow> users_inv d'" by blast+
qed

lemma get_volunteer_status_update:
  "update_volunteer_status e target st actor d = Inr d' \<Longrightarrow>
   get_volunteer_status i d' =
     (if i = target then map_option (\<lambda>_. st) (get_volunteer_status i d)
      else get_volunteer_status i d)"
  by (cases "List.find (\<lambda>r. vo_user r = i) (volunteers d)")
     (auto simp: update_volunteer_status_def get_volunteer_status_def find_upd_rows
      split: if_splits dest: find_SomeD)

lemma update_volunteer_status_inv:
  "update_volunteer_status e target st actor d = Inr d' \<Longrightarrow> users_inv d \<Longrightarrow> users_inv d'"
  by (auto simp: update_volunteer_status_def users_inv_def set_upd_rows distinct_on_upd_rows
      split: if_splits)

lemma review_volunteer_request_Inr:
  assumes "review_volunteer_request e low actor target status expected d = (Inr (), d')"
  obtains st old tid aid where
    "has_role actor RoleAdmin" and "user_id actor \<noteq> target"
    and "parse_uuid e target = Some tid" and "parse_uuid e (user_id actor) = Some aid"
    and "valid_volunteer_review status expected"
    and "volunteer_status_of_string status = Some st"
    and "volunteer_status_of_string expected = Some old"
    and "get_volunteer_status tid d = Some old" and "\<not> target_is_admin low tid d"
    and "review_effect st tid d d'" and "users_inv d \<Longrightarrow> users_inv d'"
proof -
  from assms obtain st old tid aid where
    g: "has_role actor RoleAdmin" "user_id actor \<noteq> target"
      "parse_uuid e target = Some tid" "parse_uuid e (user_id actor) = Some aid"
      "valid_volunteer_review status expected"
      "volunteer_status_of_string status = Some st"
      "volunteer_status_of_string expected = Some old"
      "get_volunteer_status tid d = Some old" "\<not> target_is_admin low tid d" and
    writes: "volunteer_writes e status st tid aid d = Inr ((), d')"
    unfolding review_volunteer_request_def transact_Inr by (auto split: if_split_asm)
  from writes obtain changed d1 d2 d3 where
    r: "volunteer_role_change e st tid aid d = Inr (changed, d1)" and
    a: "audit_role_change e aid
          (if st = VolRevoked then ''scanner_role_revoked'' else ''scanner_role_assigned'')
          tid changed d1 = Inr d2" and
    v: "update_volunteer_status e tid st aid d2 = Inr d3" and
    w: "insert_audit e (Some aid) ''volunteer_request_reviewed'' ''user'' tid
          (JObject [(''status'', JString status)]) d3 = Inr d'"
    unfolding volunteer_writes_def by (auto split: prod.split_asm)
  note r' = volunteer_role_change_Inr [OF r]
  obtain R where d1: "d1 = d\<lparr>user_roles := R\<rparr>" using r'(3) by blast
  note d2 = audit_role_change_Inr [OF a]
  obtain V where d3: "d3 = d2\<lparr>volunteers := V\<rparr>"
    using v by (auto simp: update_volunteer_status_def split: if_splits)
  obtain x where d': "d' = d3\<lparr>audit := audit d3 @ [x]\<rparr>"
    using w by (auto simp: insert_audit_Inr)
  have rp: "role_pairs d' = role_pairs d1" by (simp add: d' d3 d2)
  have gs: "get_volunteer_status i d2 = get_volunteer_status i d"
      "get_volunteer_status i d' = get_volunteer_status i d3" for i
    by (simp_all add: get_volunteer_status_def d' d2 d1)
  have status: "\<forall>i. get_volunteer_status i d' =
      (if i = tid then Some st else get_volunteer_status i d)"
    using get_volunteer_status_update [OF v] g(8) by (auto simp: gs)
  have len: "length (audit d') =
      length (audit d) + (if role_pairs d' = role_pairs d then 1 else 2)"
    using r'(2) unfolding rp by (simp add: d' d3 d2 d1)
  have frame: "d' = d\<lparr>user_roles := user_roles d', volunteers := volunteers d', audit := audit d'\<rparr>"
    by (simp add: d' d3 d2 d1)
  have "review_effect st tid d d'"
    unfolding review_effect_def using r'(1) rp status len frame by simp
  moreover have "users_inv d'" if "users_inv d"
    using update_volunteer_status_inv [OF v] r'(4) [OF that] by (simp add: d' d2)
  ultimately show thesis by (rule that [OF g])
qed

lemma valid_volunteer_review_iff:
  "valid_volunteer_review s x \<longleftrightarrow>
     (s = ''approved'' \<and> x = ''pending'') \<or> (s = ''rejected'' \<and> x = ''pending'') \<or>
     (s = ''revoked'' \<and> x = ''approved'')"
  by (auto simp: valid_volunteer_review_def)

lemma volunteer_transition_valid:
  assumes "valid_volunteer_review s x" and st: "volunteer_status_of_string s = Some st"
    and old: "volunteer_status_of_string x = Some old"
  shows "volunteer_transition old st"
proof -
  consider "s = ''approved''" "x = ''pending''" | "s = ''rejected''" "x = ''pending''"
    | "s = ''revoked''" "x = ''approved''"
    using assms(1) unfolding valid_volunteer_review_iff by blast
  then show ?thesis
  proof cases
    case 1
    with st old show ?thesis by (simp add: volunteer_status_of_string_def volunteer_transition_def)
  next
    case 2
    with st old show ?thesis by (simp add: volunteer_status_of_string_def volunteer_transition_def)
  next
    case 3
    with st old show ?thesis by (simp add: volunteer_status_of_string_def volunteer_transition_def)
  qed
qed

lemma review_volunteer_replay:
  assumes "review_volunteer_request e low actor target status expected d = (Inr (), d')"
  shows "review_volunteer_request e low actor target status expected d' =
    (Inl UserVolunteerConflict, d')"
proof (rule review_volunteer_request_Inr [OF assms])
  fix st old tid aid
  assume g: "has_role actor RoleAdmin" "user_id actor \<noteq> target"
      "parse_uuid e target = Some tid" "parse_uuid e (user_id actor) = Some aid"
      "valid_volunteer_review status expected"
      "volunteer_status_of_string status = Some st"
      "volunteer_status_of_string expected = Some old"
    and eff: "review_effect st tid d d'"
  have "volunteer_transition old st" by (rule volunteer_transition_valid [OF g(5-7)])
  then have "st \<noteq> old" by (auto simp: volunteer_transition_def)
  moreover have "get_volunteer_status tid d' = Some st"
    using eff by (simp add: review_effect_def)
  ultimately show ?thesis
    using g by (simp add: review_volunteer_request_def transact_def)
qed

text \<open>C6. A volunteer review that succeeds moves the stored request along an edge of its state
  machine (pending to approved or rejected, approved to revoked), gives or removes exactly the
  scanner role that edge stands for, never touches an admin's access or another request,
  records its audit events in the same transaction, and cannot be replayed: the same call on
  the resulting state reports a conflict and changes nothing.\<close>

theorem review_volunteer_request_spec:
  assumes "review_volunteer_request e low actor target status expected d = (Inr (), d')"
  shows "(\<exists>tid old st. parse_uuid e target = Some tid \<and> has_role actor RoleAdmin \<and>
      get_volunteer_status tid d = Some old \<and> volunteer_transition old st \<and>
      \<not> target_is_admin low tid d \<and> review_effect st tid d d') \<and>
    review_volunteer_request e low actor target status expected d' =
      (Inl UserVolunteerConflict, d')"
proof (rule conjI)
  show "review_volunteer_request e low actor target status expected d' =
      (Inl UserVolunteerConflict, d')"
    by (rule review_volunteer_replay [OF assms])
  show "\<exists>tid old st. parse_uuid e target = Some tid \<and> has_role actor RoleAdmin \<and>
      get_volunteer_status tid d = Some old \<and> volunteer_transition old st \<and>
      \<not> target_is_admin low tid d \<and> review_effect st tid d d'"
    by (rule review_volunteer_request_Inr [OF assms]) (blast intro: volunteer_transition_valid)
qed

definition sample_admin :: user where
  "sample_admin = \<lparr>user_id = ''x'', user_clerk = ''a'', user_email = ''a@x.ca'',
     user_name = None, user_role_set = {RoleAdmin}\<rparr>"

definition sample_volunteer_db :: db where
  "sample_volunteer_db = sample_users_db\<lparr>volunteers :=
     [\<lparr>vo_user = 2, vo_name = ''Bo'', vo_status = VolPending, vo_created = 3,
       vo_reviewed_at = None, vo_reviewed_by = None\<rparr>]\<rparr>"

theorem review_volunteer_request_spec_witness:
  "\<exists>d'. review_volunteer_request sample_env (\<lambda>s. s) sample_admin ''xx'' ''approved'' ''pending''
       sample_volunteer_db = (Inr (), d') \<and>
     review_volunteer_request sample_env (\<lambda>s. s) sample_admin ''xx'' ''approved'' ''pending'' d' =
       (Inl UserVolunteerConflict, d')"
proof -
  have "fst (review_volunteer_request sample_env (\<lambda>s. s) sample_admin ''xx'' ''approved'' ''pending''
       sample_volunteer_db) = Inr ()"
    by code_simp
  then obtain d' where r: "review_volunteer_request sample_env (\<lambda>s. s) sample_admin ''xx''
      ''approved'' ''pending'' sample_volunteer_db = (Inr (), d')"
    by (metis prod.collapse)
  with review_volunteer_request_spec [OF r] show ?thesis by blast
qed

section \<open>Every operation keeps the invariant\<close>

lemma assign_privileged_role_inv:
  "users_inv d \<Longrightarrow> assign_privileged_role e actor target r d = (Inr v, d') \<Longrightarrow> users_inv d'"
  by (auto simp: assign_privileged_role_def transact_Inr assign_user_role_def
      split: if_split_asm prod.split_asm dest: insert_role_Inr(5))

lemma user_rollbacks:
  "assign_privileged_role e actor target r d = (Inl err, d') \<Longrightarrow> d' = d"
  "change_scanner_role e actor target grant d = (Inl err, d') \<Longrightarrow> d' = d"
  "review_volunteer_request e low actor target status expected d = (Inl err, d') \<Longrightarrow> d' = d"
  by (simp_all add: assign_privileged_role_def change_scanner_role_def
      review_volunteer_request_def transact_Inl)

lemma resolve_inv: "users_inv d \<Longrightarrow> resolve e profiles clerk d = (Inr v, d') \<Longrightarrow> users_inv d'"
  by (auto simp: resolve_def transact_Inr split: if_splits option.splits
      dest: resolve_body_Inr(2))

lemma resolve_Inl: "resolve e profiles clerk d = (Inl err, d') \<Longrightarrow> d' = d"
  by (auto simp: resolve_def transact_Inl split: if_splits option.splits)

lemma get_volunteer_request_snd: "get_volunteer_request e actor d = (r, d') \<Longrightarrow> d' = d"
  by (simp add: get_volunteer_request_def query_eq)

lemma get_volunteer_request_total:
  assumes "user_id actor \<noteq> []" and "parse_uuid e (user_id actor) = Some i"
  shows "\<exists>v. get_volunteer_request e actor d = (Inr v, d)"
  using assms by (auto simp: get_volunteer_request_def query_def split: list.splits)

lemma request_volunteer_access_Inl:
  assumes "request_volunteer_access e actor name d = (Inl err, d')"
  shows "d' = d"
proof (rule ccontr)
  assume "d' \<noteq> d"
  with assms obtain i d1 where "user_id actor \<noteq> []" "parse_uuid e (user_id actor) = Some i"
    and g: "get_volunteer_request e actor d1 = (Inl err, d')"
    by (auto simp: request_volunteer_access_def split: if_splits sum.splits)
  then show False using get_volunteer_request_total [of actor e i d1] by auto
qed

lemma insert_volunteer_request_inv:
  "insert_volunteer_request e i name d = Inr d' \<Longrightarrow> users_inv d \<Longrightarrow> users_inv d'"
  by (auto simp: insert_volunteer_request_def users_inv_def list_ex_iff split: if_splits option.splits)

lemma request_volunteer_access_inv:
  "users_inv d \<Longrightarrow> request_volunteer_access e actor name d = (Inr v, d') \<Longrightarrow> users_inv d'"
  by (auto simp: request_volunteer_access_def split: if_splits sum.splits
      dest!: get_volunteer_request_snd dest: insert_volunteer_request_inv)

interpretation assign_role: transaction_contract
  "\<lambda>(e, actor, target, r). assign_privileged_role e actor target r" "\<lambda>_. True" users_inv
  by unfold_locales
     (auto dest: user_rollbacks intro: assign_privileged_role_inv split: prod.splits)

interpretation scanner_role: transaction_contract
  "\<lambda>(e, actor, target, grant). change_scanner_role e actor target grant" "\<lambda>_. True" users_inv
  by unfold_locales
     (auto dest: user_rollbacks split: prod.splits elim: change_scanner_role_Inr)

interpretation bootstrap: transaction_contract
  "\<lambda>(e, clerk). bootstrap_first_organizer e clerk" "\<lambda>_. True" users_inv
  by unfold_locales (auto dest: bootstrap_Inl bootstrap_Inr(2) split: prod.splits)

interpretation volunteer_review: transaction_contract
  "\<lambda>(e, low, actor, target, status, expected).
     review_volunteer_request e low actor target status expected" "\<lambda>_. True" users_inv
  by unfold_locales
     (auto dest: user_rollbacks split: prod.splits elim: review_volunteer_request_Inr)

interpretation volunteer_request: transaction_contract
  "\<lambda>(e, actor, name). request_volunteer_access e actor name" "\<lambda>_. True" users_inv
  by unfold_locales
     (auto dest: request_volunteer_access_Inl intro: request_volunteer_access_inv
      split: prod.splits)

interpretation resolution: transaction_contract
  "\<lambda>(e, profiles, clerk). resolve e profiles clerk" "\<lambda>_. True" users_inv
  by unfold_locales (auto dest: resolve_Inl intro: resolve_inv split: prod.splits)

end
