(* ===== verification/Applications.thy ===== *)
theory Applications
  imports Users
begin

text \<open>
  Package \<^verbatim>\<open>applications\<close>: the current form, drafts under an optimistic lock, and
  submission with its confirmation mail, over the statements of
  \<^verbatim>\<open>sqlc/applications.sql.go\<close>.
\<close>

section \<open>Statements of applications.sql\<close>

definition window_open :: "timestamp \<Rightarrow> cycle_row \<Rightarrow> bool" where
  "window_open t c = (cy_active c \<and> cy_opens c \<le> t \<and> t < cy_closes c)"

record current_form_row =
  cf_form :: uuid
  cf_version :: int
  cf_schema :: "form_document option"
  cf_cycle :: uuid

definition get_current_application_form :: "env \<Rightarrow> db \<Rightarrow> current_form_row option" where
  "get_current_application_form e d =
     (case sort_key (\<lambda>f. - fm_version f)
        (concat (map (\<lambda>c. filter (\<lambda>f. fm_cycle f = cy_id c \<and> fm_published f \<noteq> None) (forms d))
          (filter (window_open (now e)) (cycles d)))) of
        [] \<Rightarrow> None
      | f # _ \<Rightarrow> Some \<lparr>cf_form = fm_id f, cf_version = fm_version f, cf_schema = fm_schema f,
                       cf_cycle = fm_cycle f\<rparr>)"

text \<open>The \<^verbatim>\<open>INSERT ... SELECT\<close>: the cycle the form offers, the row already there, or a new draft.
  No value means that the \<^verbatim>\<open>SELECT\<close> is empty.\<close>

definition open_cycle_of_form :: "env \<Rightarrow> uuid \<Rightarrow> db \<Rightarrow> uuid option" where
  "open_cycle_of_form e form d =
     (case List.find (\<lambda>f. fm_id f = form \<and> fm_published f \<noteq> None) (forms d) of
        None \<Rightarrow> None
      | Some f \<Rightarrow> map_option cy_id
          (List.find (\<lambda>c. cy_id c = fm_cycle f \<and> window_open (now e) c) (cycles d)))"

definition new_application :: "env \<Rightarrow> uuid \<Rightarrow> uuid \<Rightarrow> uuid \<Rightarrow> application_row" where
  "new_application e cycle form applicant =
     \<lparr>ap_id = fresh e 0, ap_cycle = cycle, ap_form = form, ap_applicant = applicant,
      ap_status = StDraft, ap_submitted = None, ap_withdrawn = None, ap_decision = None,
      ap_decision_id = None, ap_released = None, ap_email = None, ap_lock = 0,
      ap_created = now e, ap_updated = now e\<rparr>"

definition create_application ::
    "env \<Rightarrow> uuid \<Rightarrow> uuid \<Rightarrow> db \<Rightarrow> db_error + (uuid \<times> db) option" where
  "create_application e applicant form d =
     (case open_cycle_of_form e form d of None \<Rightarrow> Inr None
      | Some cycle \<Rightarrow>
        (case List.find (\<lambda>a. ap_cycle a = cycle \<and> ap_applicant a = applicant) (applications d) of
           Some a \<Rightarrow> Inr (Some (ap_id a, d))
         | None \<Rightarrow>
             if fresh e 0 \<in> ap_id ` set (applications d) then Inl UniqueViolation
             else if \<not> user_exists applicant d then Inl ForeignKeyViolation
             else Inr (Some (fresh e 0, d\<lparr>applications := applications d @
                    [new_application e cycle form applicant]\<rparr>))))"

text \<open>What an applicant sees of an application: a decision is not visible in the status.\<close>

definition projected_status :: "app_status \<Rightarrow> app_status" where
  "projected_status s =
     (if s = StAccepted \<or> s = StWaitlisted \<or> s = StRejected then StSubmitted else s)"

definition answers_of :: "uuid \<Rightarrow> db \<Rightarrow> (string \<times> json) list" where
  "answers_of i d = map (\<lambda>r. (an_key r, an_value r))
     (filter (\<lambda>r. an_application r = i) (answers_table d))"

record applicant_row =
  av_id :: uuid
  av_cycle :: uuid
  av_form :: uuid
  av_applicant :: uuid
  av_status :: app_status
  av_submitted :: "timestamp option"
  av_lock :: int
  av_created :: timestamp
  av_updated :: timestamp
  av_form_version :: int
  av_schema :: "form_document option"
  av_answers :: "(string \<times> json) list"

definition applicant_view :: "db \<Rightarrow> application_row \<Rightarrow> form_row \<Rightarrow> applicant_row" where
  "applicant_view d a f =
     \<lparr>av_id = ap_id a, av_cycle = ap_cycle a, av_form = ap_form a,
      av_applicant = ap_applicant a, av_status = projected_status (ap_status a),
      av_submitted = ap_submitted a, av_lock = ap_lock a, av_created = ap_created a,
      av_updated = ap_updated a, av_form_version = fm_version f, av_schema = fm_schema f,
      av_answers = answers_of (ap_id a) d\<rparr>"

definition get_application_for_applicant :: "uuid \<Rightarrow> uuid \<Rightarrow> db \<Rightarrow> applicant_row option" where
  "get_application_for_applicant i applicant d =
     (case List.find (\<lambda>a. ap_id a = i \<and> ap_applicant a = applicant) (applications d) of
        None \<Rightarrow> None
      | Some a \<Rightarrow> map_option (applicant_view d a)
                   (List.find (\<lambda>f. fm_id f = ap_form a) (forms d)))"

definition list_applications_for_applicant :: "uuid \<Rightarrow> db \<Rightarrow> applicant_row list" where
  "list_applications_for_applicant applicant d =
     concat (map (\<lambda>a. map (applicant_view d a) (filter (\<lambda>f. fm_id f = ap_form a) (forms d)))
       (sort_key (\<lambda>a. - ap_created a) (filter (\<lambda>a. ap_applicant a = applicant) (applications d))))"

text \<open>\<^verbatim>\<open>UPDATE ... RETURNING id\<close>: no value when no row qualifies.\<close>

definition draft_row :: "uuid \<Rightarrow> uuid \<Rightarrow> int \<Rightarrow> application_row \<Rightarrow> bool" where
  "draft_row i applicant lock a =
     (ap_id a = i \<and> ap_applicant a = applicant \<and> ap_status a = StDraft \<and> ap_lock a = lock)"

definition update_application_draft ::
    "env \<Rightarrow> uuid \<Rightarrow> uuid \<Rightarrow> int \<Rightarrow> db \<Rightarrow> db_error + db option" where
  "update_application_draft e i applicant lock d =
     (if \<not> list_ex (draft_row i applicant lock) (applications d) then Inr None
      else if \<not> int4_ok (lock + 1) then Inl IntegerOutOfRange
      else Inr (Some (d\<lparr>applications := upd_rows (draft_row i applicant lock)
        (\<lambda>a. a\<lparr>ap_lock := ap_lock a + 1, ap_updated := now e\<rparr>) (applications d)\<rparr>)))"

definition cycle_open :: "env \<Rightarrow> uuid \<Rightarrow> db \<Rightarrow> bool" where
  "cycle_open e c d = list_ex (\<lambda>x. cy_id x = c \<and> window_open (now e) x) (cycles d)"

definition update_application_submission ::
    "env \<Rightarrow> uuid \<Rightarrow> uuid \<Rightarrow> int \<Rightarrow> string \<Rightarrow> db \<Rightarrow> db_error + db option" where
  "update_application_submission e i applicant lock email d =
     (let hit = (\<lambda>a. draft_row i applicant lock a \<and> cycle_open e (ap_cycle a) d)
      in if \<not> list_ex hit (applications d) then Inr None
         else if \<not> int4_ok (lock + 1) then Inl IntegerOutOfRange
         else Inr (Some (d\<lparr>applications := upd_rows hit
           (\<lambda>a. a\<lparr>ap_status := StSubmitted, ap_submitted := Some (now e), ap_email := Some email,
                  ap_lock := ap_lock a + 1, ap_updated := now e\<rparr>) (applications d)\<rparr>)))"

definition is_submission_window_open :: "env \<Rightarrow> uuid \<Rightarrow> uuid \<Rightarrow> db \<Rightarrow> bool" where
  "is_submission_window_open e i applicant d =
     list_ex (\<lambda>a. ap_id a = i \<and> ap_applicant a = applicant \<and> cycle_open e (ap_cycle a) d)
       (applications d)"

definition application_has_resume :: "uuid \<Rightarrow> db \<Rightarrow> bool" where
  "application_has_resume i d = list_ex (\<lambda>r. rs_application r = i) (resumes d)"

text \<open>The trigger \<^verbatim>\<open>application_answers_editable_only\<close>, fired for each row written or deleted.\<close>

definition answers_editable :: "uuid \<Rightarrow> db \<Rightarrow> bool" where
  "answers_editable i d =
     (case List.find (\<lambda>a. ap_id a = i) (applications d) of
        None \<Rightarrow> False | Some a \<Rightarrow> ap_status a = StDraft)"

definition delete_application_answers :: "uuid \<Rightarrow> db \<Rightarrow> db_error + db" where
  "delete_application_answers i d =
     (if list_ex (\<lambda>r. an_application r = i) (answers_table d) \<and> \<not> answers_editable i d
      then Inl RaisedException
      else Inr (d\<lparr>answers_table := del_rows (\<lambda>r. an_application r = i) (answers_table d)\<rparr>))"

text \<open>\<open>ReplaceApplicationAnswers\<close>: the conversion of the parameter to \<^verbatim>\<open>jsonb\<close>, then the upsert of
  its entries.\<close>

fun jsonb_entries :: "env \<Rightarrow> (string \<times> json) list \<Rightarrow> (string \<times> json) list option" where
  "jsonb_entries e [] = Some []"
| "jsonb_entries e ((k, v) # kvs) =
     (case jsonb e v of None \<Rightarrow> None
      | Some w \<Rightarrow> map_option ((#) (k, w)) (jsonb_entries e kvs))"

fun upsert_answers ::
    "env \<Rightarrow> uuid \<Rightarrow> (string \<times> json) list \<Rightarrow> db \<Rightarrow> db_error + db" where
  "upsert_answers e i [] d = Inr d"
| "upsert_answers e i ((k, v) # kvs) d =
     (if \<not> answers_editable i d then Inl RaisedException
      else if k = [] then Inl CheckViolation
      else upsert_answers e i kvs
        (if list_ex (\<lambda>r. an_application r = i \<and> an_key r = k) (answers_table d)
         then d\<lparr>answers_table := upd_rows (\<lambda>r. an_application r = i \<and> an_key r = k)
                (\<lambda>r. r\<lparr>an_value := v, an_updated := now e\<rparr>) (answers_table d)\<rparr>
         else d\<lparr>answers_table := answers_table d @
                [\<lparr>an_application = i, an_key = k, an_value = v, an_updated = now e\<rparr>]\<rparr>))"

definition replace_application_answers ::
    "env \<Rightarrow> uuid \<Rightarrow> (string \<times> json) list \<Rightarrow> db \<Rightarrow> db_error + db" where
  "replace_application_answers e i kvs d =
     (case jsonb_entries e kvs of None \<Rightarrow> Inl DataException
      | Some rows \<Rightarrow> upsert_answers e i rows d)"

text \<open>\<^verbatim>\<open>INSERT INTO ats.email_outbox ... ON CONFLICT (dedupe_key) DO NOTHING\<close>.\<close>

definition insert_outbox ::
    "env \<Rightarrow> string \<Rightarrow> uuid \<Rightarrow> string \<Rightarrow> string \<Rightarrow> json \<Rightarrow> string \<Rightarrow> db \<Rightarrow> db_error + db" where
  "insert_outbox e event recipient email template data dedupe d =
     (if email = [] then Inl CheckViolation
      else if list_ex (\<lambda>x. ob_dedupe x = dedupe) (outbox d) then Inr d
      else if \<not> user_exists recipient d then Inl ForeignKeyViolation
      else Inr (d\<lparr>outbox := outbox d @
        [\<lparr>ob_event = event, ob_recipient = Some recipient, ob_email = email,
          ob_template = template, ob_data = data, ob_dedupe = dedupe, ob_created = now e\<rparr>]\<rparr>))"

definition insert_submission_confirmation ::
    "env \<Rightarrow> uuid \<Rightarrow> string \<Rightarrow> json \<Rightarrow> string \<Rightarrow> db \<Rightarrow> db_error + db" where
  "insert_submission_confirmation e recipient email data dedupe d =
     insert_outbox e ''submission_confirmation'' recipient email ''submission_confirmation''
       data dedupe d"

section \<open>Operations\<close>

abbreviation a_db :: "db_error + 'a \<Rightarrow> app_error + 'a" where
  "a_db \<equiv> wrap_err (\<lambda>_. AppInternal)"

record applicant =
  apl_id :: string
  apl_email :: string

record form_view =
  fv_id :: string
  fv_cycle :: string
  fv_version :: int
  fv_resume_required :: bool
  fv_resume_after :: "string option"
  fv_questions :: "question list"

record application_view =
  apv_id :: string
  apv_cycle :: string
  apv_form :: string
  apv_version :: int
  apv_status :: app_status
  apv_answers :: answers
  apv_lock :: int
  apv_submitted :: "timestamp option"
  apv_created :: timestamp
  apv_updated :: timestamp

record save_draft_input =
  sd_application :: string
  sd_lock :: int
  sd_answers :: "answers option"

record submit_input =
  si_application :: string
  si_lock :: int

definition answers_from_json :: "(string \<times> json) list \<Rightarrow> answers" where
  "answers_from_json kvs = map (\<lambda>(k, v). (k, Some v)) kvs"

definition application_from_row :: "env \<Rightarrow> applicant_row \<Rightarrow> application_view" where
  "application_from_row e r =
     \<lparr>apv_id = uuid_text e (av_id r), apv_cycle = uuid_text e (av_cycle r),
      apv_form = uuid_text e (av_form r), apv_version = av_form_version r,
      apv_status = av_status r, apv_answers = answers_from_json (av_answers r),
      apv_lock = av_lock r, apv_submitted = av_submitted r, apv_created = av_created r,
      apv_updated = av_updated r\<rparr>"

definition form_from_row :: "env \<Rightarrow> current_form_row \<Rightarrow> app_error + form_view" where
  "form_from_row e r =
     bindE (parse_published_form (cf_schema r)) (\<lambda>f.
     Inr \<lparr>fv_id = uuid_text e (cf_form r), fv_cycle = uuid_text e (cf_cycle r),
          fv_version = cf_version r, fv_resume_required = pf_resume_required f,
          fv_resume_after = pf_resume_after f, fv_questions = pf_questions f\<rparr>)"

definition current_form :: "env \<Rightarrow> (db, app_error, form_view) tx" where
  "current_form e = query (\<lambda>d.
     bindE (from_option AppNoCurrentForm (get_current_application_form e d)) (form_from_row e))"

definition application_for_applicant ::
    "uuid \<Rightarrow> uuid \<Rightarrow> db \<Rightarrow> app_error + applicant_row" where
  "application_for_applicant i applicant d =
     from_option AppNotFound (get_application_for_applicant i applicant d)"

text \<open>\<^verbatim>\<open>Service.Create\<close> runs outside a transaction: the draft stays when the read fails.\<close>

definition create :: "env \<Rightarrow> applicant \<Rightarrow> (db, app_error, application_view) tx" where
  "create e a d =
     (case bindE (from_option AppInternal (parse_uuid e (apl_id a))) (\<lambda>applicant_id.
           bindE (fst (current_form e d)) (\<lambda>form.
           bindE (from_option AppInternal (parse_uuid e (fv_id form))) (\<lambda>form_id.
           bindE (a_db (create_application e applicant_id form_id d)) (\<lambda>row.
           bindE (from_option AppNoCurrentForm row) (\<lambda>(i, d1).
           Inr (applicant_id, i, d1)))))) of
        Inl err \<Rightarrow> (Inl err, d)
      | Inr (applicant_id, i, d1) \<Rightarrow>
          query (\<lambda>d2. bindE (application_for_applicant i applicant_id d2)
                        (\<lambda>row. Inr (application_from_row e row))) d1)"

definition list_applications :: "env \<Rightarrow> applicant \<Rightarrow> (db, app_error, application_view list) tx" where
  "list_applications e a = query (\<lambda>d.
     bindE (from_option AppInternal (parse_uuid e (apl_id a))) (\<lambda>applicant_id.
     Inr (map (application_from_row e) (list_applications_for_applicant applicant_id d))))"

definition current_conflict :: "uuid \<Rightarrow> uuid \<Rightarrow> db \<Rightarrow> app_error" where
  "current_conflict i applicant d =
     (case application_for_applicant i applicant d of
        Inr row \<Rightarrow> AppConflict (av_lock row)
      | Inl err \<Rightarrow> if err = AppNotFound then AppNotFound else err)"

definition submission_conflict :: "env \<Rightarrow> uuid \<Rightarrow> uuid \<Rightarrow> int \<Rightarrow> db \<Rightarrow> app_error" where
  "submission_conflict e i applicant expected d =
     (case application_for_applicant i applicant d of
        Inl err \<Rightarrow> err
      | Inr row \<Rightarrow>
          if av_status row \<noteq> StDraft \<or> av_lock row \<noteq> expected then AppConflict (av_lock row)
          else if \<not> is_submission_window_open e i applicant d then AppWindowClosed
          else AppConflict (av_lock row))"

text \<open>The stored form of an accepted answer map: \<^verbatim>\<open>json.Marshal\<close> of values that decoded.\<close>

definition marshal_answers :: "answers \<Rightarrow> (string \<times> json) list" where
  "marshal_answers entries = concat (map (\<lambda>(k, raw). case raw of None \<Rightarrow> [] | Some v \<Rightarrow> [(k, v)]) entries)"

definition read_back :: "env \<Rightarrow> uuid \<Rightarrow> uuid \<Rightarrow> db \<Rightarrow> app_error + application_view \<times> db" where
  "read_back e i applicant d =
     bindE (application_for_applicant i applicant d) (\<lambda>row. Inr (application_from_row e row, d))"

definition save_draft_body ::
    "env \<Rightarrow> uuid \<Rightarrow> uuid \<Rightarrow> int \<Rightarrow> answers option \<Rightarrow> db \<Rightarrow> app_error + application_view \<times> db" where
  "save_draft_body e applicant i lock answers d =
     bindE (application_for_applicant i applicant d) (\<lambda>before.
     if av_status before \<noteq> StDraft \<or> av_lock before \<noteq> lock
     then Inl (AppConflict (av_lock before))
     else bindE (parse_published_form (av_schema before)) (\<lambda>form.
          bindE (validate_answers (parse_address e) form answers False) (\<lambda>_.
          bindE (a_db (update_application_draft e i applicant lock d)) (\<lambda>updated.
          (case updated of None \<Rightarrow> Inl (current_conflict i applicant d)
           | Some d1 \<Rightarrow>
               bindE (a_db (delete_application_answers i d1)) (\<lambda>d2.
               bindE (a_db (replace_application_answers e i
                       (marshal_answers (case answers of None \<Rightarrow> [] | Some xs \<Rightarrow> xs)) d2)) (\<lambda>d3.
               read_back e i applicant d3)))))))"

definition save_draft ::
    "env \<Rightarrow> applicant \<Rightarrow> save_draft_input \<Rightarrow> (db, app_error, application_view) tx" where
  "save_draft e a input = transact (\<lambda>d.
     bindE (from_option AppInternal (parse_uuid e (apl_id a))) (\<lambda>applicant_id.
     bindE (from_option AppNotFound (parse_uuid e (sd_application input))) (\<lambda>i.
     save_draft_body e applicant_id i (sd_lock input) (sd_answers input) d)))"

definition confirmation_key :: "env \<Rightarrow> uuid \<Rightarrow> string" where
  "confirmation_key e i = ''submission_confirmation:'' @ uuid_text e i"

definition record_submission ::
    "env \<Rightarrow> uuid \<Rightarrow> string \<Rightarrow> uuid \<Rightarrow> int \<Rightarrow> db \<Rightarrow> app_error + application_view \<times> db" where
  "record_submission e applicant email i lock d =
     bindE (a_db (update_application_submission e i applicant lock email d)) (\<lambda>updated.
     (case updated of None \<Rightarrow> Inl (submission_conflict e i applicant lock d)
      | Some d1 \<Rightarrow>
          bindE (a_db (insert_submission_confirmation e applicant email
                  (JObject [(''applicationId'', JString (uuid_text e i))])
                  (confirmation_key e i) d1)) (\<lambda>d2.
          read_back e i applicant d2)))"

definition submit_body ::
    "env \<Rightarrow> uuid \<Rightarrow> string \<Rightarrow> uuid \<Rightarrow> int \<Rightarrow> db \<Rightarrow> app_error + application_view \<times> db" where
  "submit_body e applicant email i lock d =
     bindE (application_for_applicant i applicant d) (\<lambda>before.
     if av_status before = StSubmitted then Inr (application_from_row e before, d)
     else if av_status before \<noteq> StDraft \<or> av_lock before \<noteq> lock
     then Inl (AppConflict (av_lock before))
     else bindE (parse_published_form (av_schema before)) (\<lambda>form.
          bindE (validate_answers (parse_address e) form
                  (Some (answers_from_json (av_answers before))) True) (\<lambda>_.
          if pf_resume_required form \<and> \<not> application_has_resume i d then Inl AppIncomplete
          else record_submission e applicant email i lock d)))"

definition submit ::
    "env \<Rightarrow> applicant \<Rightarrow> submit_input \<Rightarrow> (db, app_error, application_view) tx" where
  "submit e a input = transact (\<lambda>d.
     bindE (from_option AppInternal (parse_uuid e (apl_id a))) (\<lambda>applicant_id.
     bindE (from_option AppNotFound (parse_uuid e (si_application input))) (\<lambda>i.
     submit_body e applicant_id (apl_email a) i (si_lock input) d)))"

section \<open>The intake invariant\<close>

text \<open>
  Keys are unique, an applicant has at most one application per cycle, every application has
  its form, which belongs to its cycle, and the stored answers of an application answer
  questions of its form that are shown, with values of the right type; once submitted they
  are complete, and \<open>submitted_at\<close> is set exactly for the applications that left the draft
  state by a submission.
\<close>

definition stored_answers_ok :: "(string \<Rightarrow> string option) \<Rightarrow> db \<Rightarrow> application_row \<Rightarrow> bool" where
  "stored_answers_ok pa d a \<longleftrightarrow>
     distinct (map fst (answers_of (ap_id a) d)) \<and>
     (\<forall>f\<in>set (forms d). \<forall>pf. fm_id f = ap_form a \<longrightarrow> parse_published_form (fm_schema f) = Inr pf \<longrightarrow>
        answers_fit pa (pf_questions pf) (answers_from_json (answers_of (ap_id a) d)) \<and>
        (ap_submitted a \<noteq> None \<longrightarrow>
           answers_complete (pf_questions pf) (answers_from_json (answers_of (ap_id a) d))))"

definition intake_inv :: "(string \<Rightarrow> string option) \<Rightarrow> db \<Rightarrow> bool" where
  "intake_inv pa d \<longleftrightarrow>
     distinct_on ap_id (applications d) \<and>
     distinct_on (\<lambda>a. (ap_cycle a, ap_applicant a)) (applications d) \<and>
     distinct_on fm_id (forms d) \<and>
     (\<forall>a\<in>set (applications d). (ap_form a, ap_cycle a) \<in> (\<lambda>f. (fm_id f, fm_cycle f)) ` set (forms d)) \<and>
     (\<forall>a\<in>set (applications d). ap_status a = StDraft \<longrightarrow> ap_submitted a = None) \<and>
     (\<forall>r\<in>set (answers_table d). an_application r \<in> ap_id ` set (applications d)) \<and>
     distinct_on ob_dedupe (outbox d) \<and>
     (\<forall>a\<in>set (applications d). stored_answers_ok pa d a)"

section \<open>Lookups\<close>

lemma get_application_Some:
  assumes "get_application_for_applicant i applicant d = Some row"
  obtains a f where "a \<in> set (applications d)" and "ap_id a = i" and "ap_applicant a = applicant"
    and "f \<in> set (forms d)" and "fm_id f = ap_form a" and "row = applicant_view d a f"
  using assms by (auto simp: get_application_for_applicant_def split: option.splits dest: find_SomeD)

lemma projected_draft [simp]: "projected_status s = StDraft \<longleftrightarrow> s = StDraft"
  by (cases s) (simp_all add: projected_status_def)

lemma projected_submitted:
  "projected_status s = StSubmitted \<longleftrightarrow> s \<in> {StSubmitted, StAccepted, StWaitlisted, StRejected}"
  by (cases s) (simp_all add: projected_status_def)

lemma answers_of_cong: "answers_table d' = answers_table d \<Longrightarrow> answers_of i d' = answers_of i d"
  by (simp add: answers_of_def)

lemma answers_of_append [simp]:
  "answers_of i (d\<lparr>answers_table := ts @ us\<rparr>) =
     answers_of i (d\<lparr>answers_table := ts\<rparr>) @ answers_of i (d\<lparr>answers_table := us\<rparr>)"
  by (simp add: answers_of_def)

lemma answers_of_applications [simp]: "answers_of i (d\<lparr>applications := x\<rparr>) = answers_of i d"
  by (simp add: answers_of_def)

lemma answers_of_outbox [simp]: "answers_of i (d\<lparr>outbox := x\<rparr>) = answers_of i d"
  by (simp add: answers_of_def)

lemma answers_of_del:
  "answers_of j (d\<lparr>answers_table := del_rows (\<lambda>r. an_application r = i) ts\<rparr>) =
     (if j = i then [] else answers_of j (d\<lparr>answers_table := ts\<rparr>))"
  by (induction ts) (auto simp: answers_of_def)

lemma answers_of_keys:
  "k \<in> fst ` set (answers_of i d) \<longleftrightarrow>
     (\<exists>r\<in>set (answers_table d). an_application r = i \<and> an_key r = k)"
  by (force simp: answers_of_def)

lemma answers_editable_eq:
  assumes "distinct_on ap_id (applications d)" and "a \<in> set (applications d)"
  shows "answers_editable (ap_id a) d \<longleftrightarrow> ap_status a = StDraft"
  using find_eq_Some_key [OF assms] by (simp add: answers_editable_def)

section \<open>Replacing the answers\<close>

definition answer_rows :: "env \<Rightarrow> uuid \<Rightarrow> (string \<times> json) list \<Rightarrow> answer_row list" where
  "answer_rows e i kvs =
     map (\<lambda>(k, v). \<lparr>an_application = i, an_key = k, an_value = v, an_updated = now e\<rparr>) kvs"

lemma answers_of_answer_rows [simp]:
  "answers_of j (d\<lparr>answers_table := answer_rows e i kvs\<rparr>) = (if j = i then kvs else [])"
  by (induction kvs) (auto simp: answers_of_def answer_rows_def)

lemma answer_rows_application: "r \<in> set (answer_rows e i kvs) \<Longrightarrow> an_application r = i"
  by (auto simp: answer_rows_def)

lemma answers_of_same [simp]: "answers_of j (d\<lparr>answers_table := answers_table d\<rparr>) = answers_of j d"
  by (simp add: answers_of_def)

lemma answers_editable_answers [simp]:
  "answers_editable i (d\<lparr>answers_table := x\<rparr>) = answers_editable i d"
  by (simp add: answers_editable_def)

lemma upsert_answers_eq:
  assumes "distinct (map fst kvs)" and "fst ` set kvs \<inter> fst ` set (answers_of i d) = {}"
  shows "upsert_answers e i kvs d = Inr d' \<longleftrightarrow>
    (kvs \<noteq> [] \<longrightarrow> answers_editable i d) \<and> [] \<notin> fst ` set kvs \<and>
    d' = d\<lparr>answers_table := answers_table d @ answer_rows e i kvs\<rparr>"
  using assms
proof (induction e i kvs d rule: upsert_answers.induct)
  case (1 e i d)
  then show ?case by (auto simp: answer_rows_def)
next
  case (2 e i k v kvs d)
  let ?d1 = "d\<lparr>answers_table := answers_table d @ answer_rows e i [(k, v)]\<rparr>"
  have none: "\<not> list_ex (\<lambda>r. an_application r = i \<and> an_key r = k) (answers_table d)"
    using "2.prems"(2) by (auto simp: list_ex_iff answers_of_keys)
  have "distinct (map fst kvs)" "fst ` set kvs \<inter> fst ` set (answers_of i ?d1) = {}"
    using "2.prems" by auto
  with "2.IH" none show ?case by (auto simp: answer_rows_def)
qed

lemma delete_application_answers_Inr:
  "delete_application_answers i d = Inr d' \<longleftrightarrow>
     (answers_of i d \<noteq> [] \<longrightarrow> answers_editable i d) \<and>
     d' = d\<lparr>answers_table := del_rows (\<lambda>r. an_application r = i) (answers_table d)\<rparr>"
  by (auto simp: delete_application_answers_def answers_of_def list_ex_iff filter_empty_conv)

lemma marshal_round_trip:
  assumes "\<forall>(k, raw)\<in>set entries. raw \<noteq> None"
  shows "answers_from_json (marshal_answers entries) = entries"
    and "map fst (marshal_answers entries) = map fst entries"
  using assms
  by (induction entries) (auto simp: answers_from_json_def marshal_answers_def)

section \<open>Saving a draft\<close>

lemma answers_from_json_keys [simp]: "map fst (answers_from_json kvs) = map fst kvs"
  by (induction kvs) (auto simp: answers_from_json_def)

text \<open>The answers as \<^verbatim>\<open>jsonb\<close> keeps them: key by key, each value converted.\<close>

definition stored_as :: "env \<Rightarrow> answers \<Rightarrow> answers \<Rightarrow> bool" where
  "stored_as e entries stored \<longleftrightarrow>
     list_all2 (\<lambda>(k, raw) (l, kept). k = l \<and> kept \<noteq> None \<and> kept = Option.bind raw (jsonb e)) entries stored"

lemma stored_as_keys: "stored_as e entries stored \<Longrightarrow> map fst stored = map fst entries"
  unfolding stored_as_def by (induction rule: list_all2_induct) auto

lemma stored_as_in:
  assumes "stored_as e entries stored" and "(k, kept) \<in> set stored"
  obtains v w where "(k, Some v) \<in> set entries" and "jsonb e v = Some w" and "kept = Some w"
  using assms unfolding stored_as_def
  by (induction arbitrary: thesis rule: list_all2_induct) (auto simp: bind_eq_Some_conv, blast+)

lemma stored_as_value:
  assumes "stored_as e entries stored"
  shows "answer_value stored k = Option.bind (answer_value entries k) (jsonb e)"
  using assms unfolding stored_as_def
  by (induction rule: list_all2_induct) (auto simp: answer_value_def)

lemma jsonb_entries_stored:
  assumes "\<forall>(k, raw)\<in>set entries. raw \<noteq> None"
  shows "case jsonb_entries e (marshal_answers entries) of
      None \<Rightarrow> \<not> list_all (\<lambda>(k, raw). Option.bind raw (jsonb e) \<noteq> None) entries
    | Some rows \<Rightarrow> list_all (\<lambda>(k, raw). Option.bind raw (jsonb e) \<noteq> None) entries \<and>
        stored_as e entries (answers_from_json rows)"
  using assms
proof (induction entries)
  case Nil
  then show ?case by (simp add: marshal_answers_def stored_as_def answers_from_json_def)
next
  case (Cons x entries)
  obtain k v where x: "x = (k, Some v)" using Cons.prems by (cases x) auto
  have m: "marshal_answers ((k, Some v) # entries) = (k, v) # marshal_answers entries"
    by (simp add: marshal_answers_def)
  show ?case
    using Cons by (cases "jsonb e v"; cases "jsonb_entries e (marshal_answers entries)")
      (auto simp: m x stored_as_def answers_from_json_def)
qed

lemma typed_answer_kept:
  assumes "jsonb_keeps_scalars e" and "jsonb e v = Some w" and "typed_answer_check pa q v"
  shows "typed_answer_check pa q w"
proof -
  have "case v of JString s \<Rightarrow> w = JString s | JBool b \<Rightarrow> w = JBool b | JNumber n \<Rightarrow> (\<exists>m. w = JNumber m) | _ \<Rightarrow> True"
    using assms(1,2) by (simp add: jsonb_keeps_scalars_def)
  with assms(3) show ?thesis by (cases v) (auto simp: typed_answer_check_def split: if_split_asm)
qed

lemma shown_kept:
  assumes "jsonb_keeps_scalars e" and "stored_as e entries stored" and "shown q (answer_value entries)"
    and "\<forall>k v. answer_value entries k = Some v \<longrightarrow> jsonb e v \<noteq> None"
  shows "shown q (answer_value stored)"
proof -
  have kept: "answer_value stored k = Some (JBool b)" if "answer_value entries k = Some (JBool b)" for k b
    using assms(1,4) that unfolding jsonb_keeps_scalars_def stored_as_value [OF assms(2)]
    by (fastforce split: json.splits)
  show ?thesis
    using assms(3) kept
    by (auto simp: shown_def condition_matches_def split: option.splits json.splits)
qed

text \<open>What fits the form before the conversion fits it after.\<close>

lemma answers_fit_stored:
  assumes law: "jsonb_keeps_scalars e" and st: "stored_as e entries stored"
    and d: "distinct (map fst entries)" and fit: "answers_fit pa qs entries"
  shows "answers_fit pa qs stored"
  unfolding answers_fit_def
proof (intro allI impI)
  fix k kept assume k: "(k, kept) \<in> set stored"
  obtain v w where v: "(k, Some v) \<in> set entries" "jsonb e v = Some w" "kept = Some w"
    by (rule stored_as_in [OF st k])
  have all: "jsonb e x \<noteq> None" if "answer_value entries l = Some x" for l x
  proof -
    have "(l, Some x) \<in> set entries"
      using that by (auto simp: answer_value_def split: option.splits dest: map_of_SomeD)
    then obtain y where "(l, y) \<in> set stored" using stored_as_keys [OF st] by (metis (no_types) fst_conv image_iff list.set_map prod.collapse)
    then obtain z where "(l, Some z) \<in> set entries" "jsonb e z \<noteq> None" by (rule stored_as_in [OF st]) auto
    with \<open>(l, Some x) \<in> set entries\<close> d show ?thesis by (auto dest: eq_key_imp_eq_value)
  qed
  obtain q where q: "q \<in> set qs" "q_key q = k" "typed_answer_check pa q v" "shown q (answer_value entries)"
    using fit v(1) unfolding answers_fit_def by blast
  have "shown q (answer_value stored)" by (rule shown_kept [OF law st q(4)]) (use all in blast)
  then show "\<exists>q\<in>set qs. \<exists>v. q_key q = k \<and> kept = Some v \<and> typed_answer_check pa q v \<and> shown q (answer_value stored)"
    using q typed_answer_kept [OF law v(2)] v(3) by blast
qed

text \<open>A Go map has each key once.\<close>

definition go_map :: "('k \<times> 'v) list option \<Rightarrow> bool" where
  "go_map m = (case m of None \<Rightarrow> True | Some es \<Rightarrow> distinct (map fst es))"

lemma validate_answers_Inr:
  assumes "validate_answers pa f answers req = Inr u" and "form_ok f" and "go_map answers"
  obtains entries where "answers = Some entries" and "distinct (map fst entries)"
    and "answers_fit pa (pf_questions f) entries"
    and "req \<Longrightarrow> answers_complete (pf_questions f) entries"
proof -
  obtain entries where e: "answers = Some entries"
    using assms(1) by (auto simp: validate_answers_def split: option.splits)
  then have d: "distinct (map fst entries)" using assms(3) by (simp add: go_map_def)
  have "distinct (map q_key (pf_questions f))" using assms(2) by (simp add: form_ok_def)
  from validate_answers_eq [OF this d, of pa req] assms(1)
  have "answers_fit pa (pf_questions f) entries \<and> (req \<longrightarrow> answers_complete (pf_questions f) entries)"
    by (auto simp: e split: if_splits)
  with e d that show thesis by blast
qed

lemma answers_fit_keys:
  assumes "answers_fit pa (pf_questions f) entries" and "form_ok f"
  shows "\<forall>(k, raw)\<in>set entries. raw \<noteq> None" and "[] \<notin> fst ` set entries"
  using assms by (auto simp: answers_fit_def form_ok_def question_ok_def) blast+

definition bump_lock :: "env \<Rightarrow> application_row \<Rightarrow> application_row" where
  "bump_lock e a = a\<lparr>ap_lock := ap_lock a + 1, ap_updated := now e\<rparr>"

definition draft_saved :: "env \<Rightarrow> uuid \<Rightarrow> answers \<Rightarrow> db \<Rightarrow> db \<Rightarrow> bool" where
  "draft_saved e i entries d d' \<longleftrightarrow>
     d' = d\<lparr>applications := upd_rows (\<lambda>a. ap_id a = i) (bump_lock e) (applications d),
            answers_table := answers_table d'\<rparr> \<and>
     answers_from_json (answers_of i d') = entries \<and>
     (\<forall>j. j \<noteq> i \<longrightarrow> answers_of j d' = answers_of j d) \<and>
     an_application ` set (answers_table d') \<subseteq> insert i (an_application ` set (answers_table d))"

lemma draft_row_unique:
  assumes "distinct_on ap_id (applications d)" and "a \<in> set (applications d)"
    and "draft_row i applicant lock a" and "x \<in> set (applications d)"
  shows "draft_row i applicant lock x \<longleftrightarrow> ap_id x = i"
  using assms by (auto simp: draft_row_def dest: distinct_onD)

lemma update_application_draft_Some:
  assumes "update_application_draft e i applicant lock d = Inr (Some d')"
    and "distinct_on ap_id (applications d)"
  obtains a where "a \<in> set (applications d)" and "draft_row i applicant lock a"
    and "int4_ok (lock + 1)"
    and "d' = d\<lparr>applications := upd_rows (\<lambda>a. ap_id a = i) (bump_lock e) (applications d)\<rparr>"
proof -
  obtain a where a: "a \<in> set (applications d)" "draft_row i applicant lock a"
    using assms(1) by (auto simp: update_application_draft_def list_ex_iff split: if_splits)
  have "upd_rows (draft_row i applicant lock)
      (\<lambda>a. a\<lparr>ap_lock := ap_lock a + 1, ap_updated := now e\<rparr>) (applications d) =
    upd_rows (\<lambda>a. ap_id a = i) (bump_lock e) (applications d)"
    unfolding bump_lock_def [abs_def]
    by (rule upd_rows_cong) (rule draft_row_unique [OF assms(2) a])
  then show thesis
    using assms(1) a by (intro that [OF a]) (auto simp: update_application_draft_def split: if_splits)
qed

lemma save_draft_body_Inr:
  assumes run: "save_draft_body e applicant i lock answers d = Inr (v, d')"
    and inv: "intake_inv pa d" and map: "go_map answers"
  obtains a f pf entries stored where
    "a \<in> set (applications d)" and "draft_row i applicant lock a"
    and "f \<in> set (forms d)" and "fm_id f = ap_form a" and "parse_published_form (fm_schema f) = Inr pf"
    and "answers = Some entries" and "distinct (map fst entries)"
    and "answers_fit (parse_address e) (pf_questions pf) entries"
    and "stored_as e entries stored" and "draft_saved e i stored d d'"
    and "get_application_for_applicant i applicant d' = Some (applicant_view d' (bump_lock e a) f)"
    and "v = application_from_row e (applicant_view d' (bump_lock e a) f)"
proof -
  have keys: "distinct_on ap_id (applications d)" "distinct_on fm_id (forms d)"
    using inv by (simp_all add: intake_inv_def)
  from run obtain before pf u d1 d2 d3 where
    before: "get_application_for_applicant i applicant d = Some before" and
    guard: "av_status before = StDraft" "av_lock before = lock" and
    pf: "parse_published_form (av_schema before) = Inr pf" and
    val: "validate_answers (parse_address e) pf answers False = Inr u" and
    upd: "update_application_draft e i applicant lock d = Inr (Some d1)" and
    del: "delete_application_answers i d1 = Inr d2" and
    rep: "replace_application_answers e i
            (marshal_answers (case answers of None \<Rightarrow> [] | Some xs \<Rightarrow> xs)) d2 = Inr d3" and
    rb: "read_back e i applicant d3 = Inr (v, d')"
    unfolding save_draft_body_def application_for_applicant_def
    by (auto split: if_split_asm option.split_asm)
  obtain a f where a: "a \<in> set (applications d)" "ap_id a = i" "ap_applicant a = applicant"
    and f: "f \<in> set (forms d)" "fm_id f = ap_form a" and b: "before = applicant_view d a f"
    by (rule get_application_Some [OF before])
  have row: "draft_row i applicant lock a"
    using a guard by (simp add: b applicant_view_def draft_row_def)
  have schema: "parse_published_form (fm_schema f) = Inr pf"
    using pf by (simp add: b applicant_view_def)
  have ok: "form_ok pf" by (rule parsed_form_ok [OF pf])
  obtain entries where es: "answers = Some entries" "distinct (map fst entries)"
    and fit: "answers_fit (parse_address e) (pf_questions pf) entries"
    by (rule validate_answers_Inr [OF val ok map]) blast
  have d1: "d1 = d\<lparr>applications := upd_rows (\<lambda>a. ap_id a = i) (bump_lock e) (applications d)\<rparr>"
    by (rule update_application_draft_Some [OF upd keys(1)]) simp
  have d2: "d2 = d1\<lparr>answers_table := del_rows (\<lambda>r. an_application r = i) (answers_table d)\<rparr>"
    using del by (simp add: delete_application_answers_Inr d1)
  have none: "answers_of i d2 = []" by (simp add: d2 answers_of_del)
  obtain rows where rows: "jsonb_entries e (marshal_answers entries) = Some rows"
    and ups: "upsert_answers e i rows d2 = Inr d3"
    using rep es by (auto simp: replace_application_answers_def split: option.split_asm)
  have st: "stored_as e entries (answers_from_json rows)"
    using jsonb_entries_stored [OF answers_fit_keys(1) [OF fit ok], of e] by (simp add: rows)
  have keys_rows: "map fst rows = map fst entries" using stored_as_keys [OF st] by simp
  have d3: "d3 = d2\<lparr>answers_table := answers_table d2 @ answer_rows e i rows\<rparr>"
    using ups es(2) keys_rows none by (simp add: upsert_answers_eq)
  have d': "d' = d3" and v: "application_for_applicant i applicant d3 = Inr row \<Longrightarrow>
      v = application_from_row e row" for row
    using rb by (auto simp: read_back_def)
  have "draft_saved e i (answers_from_json rows) d d'"
    unfolding draft_saved_def d'
    using none
    by (auto simp: d3 d2 d1 answers_of_del dest: answer_rows_application)
  moreover have get: "get_application_for_applicant i applicant d' =
      Some (applicant_view d' (bump_lock e a) f)"
  proof -
    have "List.find (\<lambda>x. ap_id x = i \<and> ap_applicant x = applicant) (applications d) = Some a"
      by (rule find_key_and [OF keys(1) a(1)]) (use a in simp_all)
    then have "List.find (\<lambda>x. ap_id x = i \<and> ap_applicant x = applicant) (applications d') =
        Some (bump_lock e a)"
      using a by (simp add: d' d3 d2 d1 find_upd_rows bump_lock_def)
    moreover have "List.find (\<lambda>x. fm_id x = ap_form (bump_lock e a)) (forms d') = Some f"
      using find_eq_Some_key [OF keys(2) f(1)] f(2) by (simp add: d' d3 d2 d1 bump_lock_def)
    ultimately show ?thesis by (simp add: get_application_for_applicant_def)
  qed
  ultimately show thesis
    using that [OF a(1) row f schema es fit st] v get d'
    by (simp add: application_for_applicant_def)
qed

lemma intake_inv_draft_saved:
  assumes inv: "intake_inv pa d" and saved: "draft_saved e i entries d d'"
    and a: "a \<in> set (applications d)" "draft_row i applicant lock a"
    and f: "f \<in> set (forms d)" "fm_id f = ap_form a" "parse_published_form (fm_schema f) = Inr pf"
    and entries: "distinct (map fst entries)" "answers_fit pa (pf_questions pf) entries"
  shows "intake_inv pa d'"
proof -
  have ans: "answers_from_json (answers_of i d') = entries"
    "\<And>j. j \<noteq> i \<Longrightarrow> answers_of j d' = answers_of j d"
    using saved by (auto simp: draft_saved_def)
  obtain T where d': "d' = d\<lparr>applications := upd_rows (\<lambda>a. ap_id a = i) (bump_lock e)
      (applications d), answers_table := T\<rparr>"
    using saved unfolding draft_saved_def by blast
  have eq: "applications d' = upd_rows (\<lambda>a. ap_id a = i) (bump_lock e) (applications d)"
    "forms d' = forms d" "outbox d' = outbox d"
    by (simp_all add: d')
  have app: "an_application ` set (answers_table d') \<subseteq> insert i (an_application ` set (answers_table d))"
    using saved by (simp add: draft_saved_def)
  have keys: "distinct_on ap_id (applications d)" "distinct_on fm_id (forms d)"
    using inv by (simp_all add: intake_inv_def)
  have ids: "ap_id ` set (applications d') = ap_id ` set (applications d)"
    by (simp add: eq image_upd_rows bump_lock_def)
  have i: "i \<in> ap_id ` set (applications d)" using a by (force simp: draft_row_def)
  have stored: "stored_answers_ok pa d' x" if mem: "x \<in> set (applications d')" for x
  proof -
    obtain y where y: "y \<in> set (applications d)" "x = (if ap_id y = i then bump_lock e y else y)"
      using mem unfolding eq by (rule upd_rowsE)
    show ?thesis
    proof (cases "ap_id y = i")
      case True
      then have "y = a" using a y keys by (auto simp: draft_row_def dest: distinct_onD)
      then have x: "ap_id x = i" "ap_form x = ap_form a" "ap_submitted x = ap_submitted a"
        using y True by (simp_all add: bump_lock_def)
      have "ap_submitted a = None" using inv a by (auto simp: intake_inv_def draft_row_def)
      moreover have "g = f" if "g \<in> set (forms d)" "fm_id g = ap_form a" for g
        using that f keys(2) by (auto dest: distinct_onD)
      moreover have "distinct (map fst (answers_of i d'))"
        using entries(1) unfolding ans(1) [symmetric] by simp
      ultimately show ?thesis
        using f(3) entries(2) ans(1) by (auto simp: stored_answers_ok_def x eq)
    next
      case False
      then show ?thesis
        using y inv by (auto simp: intake_inv_def stored_answers_ok_def ans(2) eq)
    qed
  qed
  have "\<forall>x\<in>set (applications d'). (ap_form x, ap_cycle x) \<in> (\<lambda>f. (fm_id f, fm_cycle f)) ` set (forms d')"
    using inv by (auto simp: intake_inv_def eq set_upd_rows bump_lock_def)
  moreover have "\<forall>x\<in>set (applications d'). ap_status x = StDraft \<longrightarrow> ap_submitted x = None"
    using inv by (auto simp: intake_inv_def eq set_upd_rows bump_lock_def)
  moreover have "\<forall>r\<in>set (answers_table d'). an_application r \<in> ap_id ` set (applications d')"
    using inv app i unfolding ids by (auto simp: intake_inv_def)
  moreover have "distinct_on ap_id (applications d')"
    "distinct_on (\<lambda>a. (ap_cycle a, ap_applicant a)) (applications d')"
    "distinct_on fm_id (forms d')" "distinct_on ob_dedupe (outbox d')"
    using inv by (simp_all add: intake_inv_def eq distinct_on_upd_rows bump_lock_def)
  ultimately show ?thesis using stored unfolding intake_inv_def by blast
qed

lemma save_draft_Inr:
  assumes "save_draft e a input d = (Inr v, d')"
  obtains applicant i where "parse_uuid e (apl_id a) = Some applicant"
    and "parse_uuid e (sd_application input) = Some i"
    and "save_draft_body e applicant i (sd_lock input) (sd_answers input) d = Inr (v, d')"
  using assms by (auto simp: save_draft_def transact_Inr)

lemma save_draft_inv:
  assumes "save_draft e a input d = (Inr v, d')" and inv: "intake_inv (parse_address e) d"
    and "go_map (sd_answers input)" and law: "jsonb_keeps_scalars e"
  shows "intake_inv (parse_address e) d'"
proof -
  obtain applicant i where run:
    "save_draft_body e applicant i (sd_lock input) (sd_answers input) d = Inr (v, d')"
    by (rule save_draft_Inr [OF assms(1)])
  obtain row f pf entries stored where
    row: "row \<in> set (applications d)" "draft_row i applicant (sd_lock input) row" and
    f: "f \<in> set (forms d)" "fm_id f = ap_form row" "parse_published_form (fm_schema f) = Inr pf" and
    es: "distinct (map fst entries)" "answers_fit (parse_address e) (pf_questions pf) entries" and
    st: "stored_as e entries stored" "draft_saved e i stored d d'"
    by (rule save_draft_body_Inr [OF run inv assms(3)]) blast
  have "distinct (map fst stored)" using es(1) by (simp add: stored_as_keys [OF st(1)])
  then show ?thesis
    using intake_inv_draft_saved [OF inv st(2) row f] answers_fit_stored [OF law st(1) es] by blast
qed

lemma answers_of_saved: "draft_saved e i entries d d' \<Longrightarrow> answers_from_json (answers_of i d') = entries"
  by (simp add: draft_saved_def)

text \<open>The declarative contract of a successful save: who saved what, the new version, and that
  the version it replaced is stale from now on.\<close>

definition draft_contract ::
    "env \<Rightarrow> applicant \<Rightarrow> save_draft_input \<Rightarrow> db \<Rightarrow> application_view \<Rightarrow> db \<Rightarrow> bool" where
  "draft_contract e a input d v d' \<longleftrightarrow>
     (\<exists>applicant i entries stored row. parse_uuid e (apl_id a) = Some applicant \<and>
        parse_uuid e (sd_application input) = Some i \<and> sd_answers input = Some entries \<and>
        row \<in> set (applications d) \<and> draft_row i applicant (sd_lock input) row \<and>
        stored_as e entries stored \<and> draft_saved e i stored d d' \<and>
        apv_answers v = stored \<and> apv_lock v = sd_lock input + 1 \<and> apv_status v = StDraft)"

lemma save_draft_contract:
  assumes "save_draft e a input d = (Inr v, d')" and inv: "intake_inv (parse_address e) d"
    and map: "go_map (sd_answers input)"
  shows "draft_contract e a input d v d'"
    and "save_draft e a input d' = (Inl (AppConflict (sd_lock input + 1)), d')"
proof -
  obtain applicant i where ids: "parse_uuid e (apl_id a) = Some applicant"
      "parse_uuid e (sd_application input) = Some i"
    and run: "save_draft_body e applicant i (sd_lock input) (sd_answers input) d = Inr (v, d')"
    by (rule save_draft_Inr [OF assms(1)])
  obtain row f pf entries stored where row: "row \<in> set (applications d)"
      "draft_row i applicant (sd_lock input) row"
    and es: "sd_answers input = Some entries" "stored_as e entries stored"
    and saved: "draft_saved e i stored d d'"
    and get: "get_application_for_applicant i applicant d' =
      Some (applicant_view d' (bump_lock e row) f)"
    and v: "v = application_from_row e (applicant_view d' (bump_lock e row) f)"
    by (rule save_draft_body_Inr [OF run inv map]) blast
  have lock: "ap_lock row = sd_lock input" "ap_id row = i" "ap_status row = StDraft"
    using row by (simp_all add: draft_row_def)
  have "apv_answers v = stored" "apv_lock v = sd_lock input + 1" "apv_status v = StDraft"
    using lock answers_of_saved [OF saved]
    by (simp_all add: v application_from_row_def applicant_view_def bump_lock_def)
  then show "draft_contract e a input d v d'"
    using ids es row saved unfolding draft_contract_def by blast
  show "save_draft e a input d' = (Inl (AppConflict (sd_lock input + 1)), d')"
    using ids get lock
    by (simp add: save_draft_def transact_def save_draft_body_def application_for_applicant_def
        applicant_view_def bump_lock_def)
qed

text \<open>When a save is refused, and with what.\<close>

definition draft_answers_refusal :: "env \<Rightarrow> application_row \<Rightarrow> answers option \<Rightarrow> db \<Rightarrow> app_error option" where
  "draft_answers_refusal e row answers d =
     (case List.find (\<lambda>f. fm_id f = ap_form row) (forms d) of None \<Rightarrow> Some AppNotFound
      | Some f \<Rightarrow> (case parse_published_form (fm_schema f) of Inl err \<Rightarrow> Some err
      | Inr pf \<Rightarrow> (case answers of None \<Rightarrow> Some AppInvalidAnswers
      | Some entries \<Rightarrow>
          if \<not> answers_fit (parse_address e) (pf_questions pf) entries then Some AppInvalidAnswers
          else if int4_ok (ap_lock row + 1) \<and>
              list_all (\<lambda>(k, raw). Option.bind raw (jsonb e) \<noteq> None) entries
            then None else Some AppInternal)))"

definition draft_refusal :: "env \<Rightarrow> applicant \<Rightarrow> save_draft_input \<Rightarrow> db \<Rightarrow> app_error option" where
  "draft_refusal e a input d =
     (case parse_uuid e (apl_id a) of None \<Rightarrow> Some AppInternal
      | Some applicant \<Rightarrow> (case parse_uuid e (sd_application input) of None \<Rightarrow> Some AppNotFound
      | Some i \<Rightarrow>
          (case List.find (\<lambda>r. ap_id r = i \<and> ap_applicant r = applicant) (applications d) of
             None \<Rightarrow> Some AppNotFound
           | Some row \<Rightarrow>
               if ap_status row \<noteq> StDraft \<or> ap_lock row \<noteq> sd_lock input
               then Some (AppConflict (ap_lock row))
               else draft_answers_refusal e row (sd_answers input) d)))"

lemma replace_application_answers_total:
  assumes fit: "answers_fit (parse_address e) (pf_questions pf) entries" and ok: "form_ok pf"
    and d: "distinct (map fst entries)" and none: "answers_of i d = []" and ed: "answers_editable i d"
  shows "if list_all (\<lambda>(k, raw). Option.bind raw (jsonb e) \<noteq> None) entries
    then \<exists>d'. replace_application_answers e i (marshal_answers entries) d = Inr d' \<and>
      applications d' = applications d \<and> forms d' = forms d
    else replace_application_answers e i (marshal_answers entries) d = Inl DataException"
proof (cases "jsonb_entries e (marshal_answers entries)")
  case None
  then show ?thesis
    using jsonb_entries_stored [OF answers_fit_keys(1) [OF fit ok], of e]
    by (simp add: replace_application_answers_def)
next
  case (Some rows)
  then have st: "list_all (\<lambda>(k, raw). Option.bind raw (jsonb e) \<noteq> None) entries"
    "stored_as e entries (answers_from_json rows)"
    using jsonb_entries_stored [OF answers_fit_keys(1) [OF fit ok], of e] by simp_all
  have keys: "map fst rows = map fst entries" using stored_as_keys [OF st(2)] by simp
  then have "[] \<notin> fst ` set rows" using answers_fit_keys(2) [OF fit ok] by (metis list.set_map)
  then have "upsert_answers e i rows d = Inr (d\<lparr>answers_table := answers_table d @ answer_rows e i rows\<rparr>)"
    using d ed none by (subst upsert_answers_eq) (simp_all add: keys)
  with st(1) Some show ?thesis by (simp add: replace_application_answers_def)
qed

lemma draft_written:
  assumes inv: "intake_inv pa d" and a: "a \<in> set (applications d)" "draft_row i applicant lock a"
    and f: "List.find (\<lambda>f. fm_id f = ap_form a) (forms d) = Some f"
    and fit: "answers_fit (parse_address e) (pf_questions pf) entries" and ok: "form_ok pf"
    and d: "distinct (map fst entries)"
  shows "if int4_ok (lock + 1) \<and> list_all (\<lambda>(k, raw). Option.bind raw (jsonb e) \<noteq> None) entries
    then \<exists>d1 d2 d3 x. update_application_draft e i applicant lock d = Inr (Some d1) \<and>
      delete_application_answers i d1 = Inr d2 \<and>
      replace_application_answers e i (marshal_answers entries) d2 = Inr d3 \<and>
      read_back e i applicant d3 = Inr x
    else update_application_draft e i applicant lock d = Inl IntegerOutOfRange \<or>
      (\<exists>d1 d2. update_application_draft e i applicant lock d = Inr (Some d1) \<and>
        delete_application_answers i d1 = Inr d2 \<and>
        replace_application_answers e i (marshal_answers entries) d2 = Inl DataException)"
proof (cases "int4_ok (lock + 1)")
  case False
  have "list_ex (draft_row i applicant lock) (applications d)" using a by (auto simp: list_ex_iff)
  with False show ?thesis by (simp add: update_application_draft_def)
next
  case True
  have keys: "distinct_on ap_id (applications d)" using inv by (simp add: intake_inv_def)
  have row: "ap_id a = i" "ap_applicant a = applicant" "ap_status a = StDraft"
    using a(2) by (simp_all add: draft_row_def)
  let ?apps = "upd_rows (\<lambda>a. ap_id a = i) (bump_lock e) (applications d)"
  have "list_ex (draft_row i applicant lock) (applications d)" using a by (auto simp: list_ex_iff)
  with True have "\<exists>d1. update_application_draft e i applicant lock d = Inr (Some d1)"
    by (simp add: update_application_draft_def)
  then obtain d1 where u: "update_application_draft e i applicant lock d = Inr (Some d1)" by blast
  have d1: "d1 = d\<lparr>applications := ?apps\<rparr>"
    by (rule update_application_draft_Some [OF u keys]) simp
  have find1: "List.find (\<lambda>x. ap_id x = i) ?apps = Some (bump_lock e a)"
    using find_eq_Some_key [OF keys a(1)] row by (simp add: find_upd_rows bump_lock_def)
  have ed: "answers_editable i d1"
    using find1 row by (simp add: answers_editable_def d1 bump_lock_def)
  let ?d2 = "d1\<lparr>answers_table := del_rows (\<lambda>r. an_application r = i) (answers_table d1)\<rparr>"
  have del: "delete_application_answers i d1 = Inr ?d2"
    using ed by (simp add: delete_application_answers_Inr)
  have "answers_of i ?d2 = []" "answers_editable i ?d2" using ed by (simp_all add: answers_of_del)
  note repl = replace_application_answers_total [OF fit ok d this]
  have readable: "\<exists>x. read_back e i applicant d3 = Inr x" if "applications d3 = ?apps" "forms d3 = forms d" for d3
  proof -
    have "List.find (\<lambda>x. ap_id x = i \<and> ap_applicant x = applicant) (applications d) = Some a"
      by (rule find_key_and [OF keys a(1)]) (use row in simp_all)
    then have "List.find (\<lambda>x. ap_id x = i \<and> ap_applicant x = applicant) ?apps = Some (bump_lock e a)"
      using row by (simp add: find_upd_rows bump_lock_def)
    then show ?thesis
      using f by (simp add: read_back_def application_for_applicant_def get_application_for_applicant_def
          that bump_lock_def)
  qed
  show ?thesis
  proof (cases "list_all (\<lambda>(k, raw). Option.bind raw (jsonb e) \<noteq> None) entries")
    case True
    then obtain d3 where d3: "replace_application_answers e i (marshal_answers entries) ?d2 = Inr d3"
        "applications d3 = applications ?d2" "forms d3 = forms ?d2"
      using repl by auto
    have "applications d3 = ?apps" "forms d3 = forms d" by (simp_all add: d3(2,3) d1)
    then obtain x where "read_back e i applicant d3 = Inr x" using readable by blast
    with True \<open>int4_ok (lock + 1)\<close> show ?thesis using u del d3(1) by auto
  next
    case False
    then show ?thesis using u del repl by auto
  qed
qed

lemma save_draft_answers:
  assumes inv: "intake_inv pa d" and a: "row \<in> set (applications d)" "draft_row i applicant lock row"
    and f: "List.find (\<lambda>f. fm_id f = ap_form row) (forms d) = Some g"
    and own: "application_for_applicant i applicant d = Inr (applicant_view d row g)"
    and map: "go_map answers"
  shows "case draft_answers_refusal e row answers d of
      Some err \<Rightarrow> save_draft_body e applicant i lock answers d = Inl err
    | None \<Rightarrow> \<exists>x. save_draft_body e applicant i lock answers d = Inr x"
proof -
  have row: "ap_status row = StDraft" "ap_lock row = lock" using a(2) by (simp_all add: draft_row_def)
  note body = save_draft_body_def own applicant_view_def row
  show ?thesis
  proof (cases "parse_published_form (fm_schema g)")
    case (Inl err)
    then show ?thesis by (simp add: draft_answers_refusal_def f body)
  next
    case (Inr pf)
    have ok: "form_ok pf" by (rule parsed_form_ok [OF Inr])
    show ?thesis
    proof (cases answers)
      case None
      with Inr show ?thesis by (simp add: draft_answers_refusal_def f body validate_answers_def)
    next
      case (Some entries)
      have d: "distinct (map fst entries)" using map by (simp add: Some go_map_def)
      have "distinct (map q_key (pf_questions pf))" using ok by (simp add: form_ok_def)
      note val = validate_answers_eq [OF this d, of "parse_address e" False]
      show ?thesis
      proof (cases "answers_fit (parse_address e) (pf_questions pf) entries")
        case False
        with Inr Some val show ?thesis by (simp add: draft_answers_refusal_def f body)
      next
        case True
        note w = draft_written [OF inv a f True ok d]
        show ?thesis
        proof (cases "int4_ok (lock + 1) \<and> list_all (\<lambda>(k, raw). Option.bind raw (jsonb e) \<noteq> None) entries")
          case good: True
          with w obtain d1 d2 d3 x where "update_application_draft e i applicant lock d = Inr (Some d1)"
            "delete_application_answers i d1 = Inr d2"
            "replace_application_answers e i (marshal_answers entries) d2 = Inr d3"
            "read_back e i applicant d3 = Inr x" by auto
          then have "save_draft_body e applicant i lock answers d = Inr x"
            using Inr Some val True by (simp add: body)
          moreover have "draft_answers_refusal e row answers d = None"
            using Inr Some True good row by (simp add: draft_answers_refusal_def f)
          ultimately show ?thesis by simp
        next
          case bad: False
          then have "save_draft_body e applicant i lock answers d = Inl AppInternal"
            using w Inr Some val True unfolding if_not_P [OF bad] by (auto simp: body)
          moreover have "draft_answers_refusal e row answers d = Some AppInternal"
            unfolding draft_answers_refusal_def using Inr Some True bad row by (simp only: f) simp
          ultimately show ?thesis by simp
        qed
      qed
    qed
  qed
qed

lemma save_draft_outcome:
  assumes inv: "intake_inv pa d" and map: "go_map (sd_answers input)"
  shows "case draft_refusal e a input d of
      Some err \<Rightarrow> save_draft e a input d = (Inl err, d)
    | None \<Rightarrow> \<exists>v d'. save_draft e a input d = (Inr v, d')"
proof (cases "parse_uuid e (apl_id a) \<noteq> None \<and> parse_uuid e (sd_application input) \<noteq> None")
  case False
  then show ?thesis by (auto simp: draft_refusal_def save_draft_def transact_def split: option.split)
next
  case True
  then obtain applicant i where ids: "parse_uuid e (apl_id a) = Some applicant"
    "parse_uuid e (sd_application input) = Some i" by blast
  let ?own = "List.find (\<lambda>r. ap_id r = i \<and> ap_applicant r = applicant) (applications d)"
  show ?thesis
  proof (cases ?own)
    case None
    then show ?thesis
      by (simp add: ids draft_refusal_def save_draft_def transact_def save_draft_body_def
          application_for_applicant_def get_application_for_applicant_def)
  next
    case (Some row)
    have row: "row \<in> set (applications d)" "ap_id row = i" "ap_applicant row = applicant"
      using find_SomeD [OF Some] by simp_all
    obtain g where g: "g \<in> set (forms d)" "fm_id g = ap_form row"
      using inv row(1) by (force simp: intake_inv_def)
    then have f: "List.find (\<lambda>f. fm_id f = ap_form row) (forms d) = Some g"
      using find_eq_Some_key [of fm_id "forms d" g] inv by (simp add: intake_inv_def)
    have own: "application_for_applicant i applicant d = Inr (applicant_view d row g)"
      by (simp add: application_for_applicant_def get_application_for_applicant_def Some f)
    have refusal: "draft_refusal e a input d =
        (if ap_status row \<noteq> StDraft \<or> ap_lock row \<noteq> sd_lock input then Some (AppConflict (ap_lock row))
         else draft_answers_refusal e row (sd_answers input) d)"
      by (simp add: draft_refusal_def ids Some)
    have run: "save_draft e a input d =
        (case save_draft_body e applicant i (sd_lock input) (sd_answers input) d of
           Inl err \<Rightarrow> (Inl err, d) | Inr (v, d') \<Rightarrow> (Inr v, d'))"
      by (simp add: save_draft_def transact_def ids)
    show ?thesis
    proof (cases "ap_status row = StDraft \<and> ap_lock row = sd_lock input")
      case False
      then show ?thesis
        by (auto simp: refusal run save_draft_body_def own applicant_view_def)
    next
      case True
      then have dr: "draft_row i applicant (sd_lock input) row" using row by (simp add: draft_row_def)
      have "case draft_answers_refusal e row (sd_answers input) d of
          Some err \<Rightarrow> save_draft_body e applicant i (sd_lock input) (sd_answers input) d = Inl err
        | None \<Rightarrow> \<exists>x. save_draft_body e applicant i (sd_lock input) (sd_answers input) d = Inr x"
        by (rule save_draft_answers [OF inv row(1) dr f own map])
      then show ?thesis using True by (auto simp: refusal run split: option.splits)
    qed
  qed
qed

text \<open>C7. A draft save answers in every case. It succeeds exactly when the actor owns a draft at
  exactly the given lock version, of a form that parses, the answers fit the shown questions of that
  form, and the new version and the values can be stored; each other case is refused with its own error,
  in the order listed, and changes nothing. A success replaces the whole answer map, which reads
  back as \<^verbatim>\<open>jsonb\<close> keeps it, raises the lock version by one, touches no other application and
  no other application's answers, keeps the invariant, and makes the version it was based on stale:
  the same save again reports a conflict with the new version and changes nothing.\<close>

theorem save_draft_spec:
  assumes "intake_inv (parse_address e) d" and "go_map (sd_answers input)" and "jsonb_keeps_scalars e"
  shows "case save_draft e a input d of
      (Inl err, d') \<Rightarrow> draft_refusal e a input d = Some err \<and> d' = d
    | (Inr v, d') \<Rightarrow> draft_refusal e a input d = None \<and> draft_contract e a input d v d' \<and>
        intake_inv (parse_address e) d' \<and>
        save_draft e a input d' = (Inl (AppConflict (sd_lock input + 1)), d')"
proof -
  note outcome = save_draft_outcome [OF assms(1,2), of e a]
  obtain r d' where run: "save_draft e a input d = (r, d')" by fastforce
  show ?thesis
  proof (cases r)
    case (Inl err)
    then show ?thesis using run outcome by (auto split: option.splits)
  next
    case (Inr v)
    then have ok: "save_draft e a input d = (Inr v, d')" using run by simp
    then have "draft_refusal e a input d = None" using outcome by (auto split: option.splits)
    then show ?thesis
      using save_draft_contract [OF ok assms(1,2)] save_draft_inv [OF ok assms] ok by simp
  qed
qed

subsection \<open>A concrete intake\<close>

definition sample_intake_db :: db where
  "sample_intake_db = sample_users_db\<lparr>
     cycles := [\<lparr>cy_id = 7, cy_slug = ''c'', cy_name = ''C'', cy_opens = 10, cy_closes = 90,
                 cy_active = True\<rparr>],
     forms := [\<lparr>fm_id = 8, fm_cycle = 7, fm_version = 1,
                fm_schema = Some (sample_document\<lparr>fd_resume_required := False\<rparr>),
                fm_published = Some 5, fm_by = 1\<rparr>],
     applications := [\<lparr>ap_id = 9, ap_cycle = 7, ap_form = 8, ap_applicant = 2,
       ap_status = StDraft, ap_submitted = None, ap_withdrawn = None, ap_decision = None,
       ap_decision_id = None, ap_released = None, ap_email = None, ap_lock = 0,
       ap_created = 20, ap_updated = 20\<rparr>]\<rparr>"

definition sample_applicant :: applicant where
  "sample_applicant = \<lparr>apl_id = ''xx'', apl_email = ''b@x.ca''\<rparr>"

definition sample_save :: save_draft_input where
  "sample_save = \<lparr>sd_application = ''xxxxxxxxx'', sd_lock = 0,
     sd_answers = Some [(''team'', Some (JBool False))]\<rparr>"

lemma sample_intake_inv: "intake_inv pa sample_intake_db"
  by (auto simp: intake_inv_def sample_intake_db_def sample_users_db_def empty_db_def
      stored_answers_ok_def answers_of_def answers_fit_def answers_from_json_def)

theorem save_draft_spec_witness:
  "\<exists>v d'. save_draft sample_env sample_applicant sample_save sample_intake_db = (Inr v, d') \<and>
     draft_contract sample_env sample_applicant sample_save sample_intake_db v d'"
proof -
  have "\<not> isl (fst (save_draft sample_env sample_applicant sample_save sample_intake_db))"
    by code_simp
  then obtain v d' where r:
    "save_draft sample_env sample_applicant sample_save sample_intake_db = (Inr v, d')"
    by (metis isl_def prod.collapse sum.collapse(2))
  moreover have "go_map (sd_answers sample_save)" by (simp add: go_map_def sample_save_def)
  ultimately show ?thesis
    using save_draft_spec [OF sample_intake_inv, of sample_save sample_env sample_applicant] by simp
qed

section \<open>Creating a draft\<close>

lemma create_application_Some:
  assumes "create_application e applicant form d = Inr (Some (i, d'))"
  obtains cycle where "open_cycle_of_form e form d = Some cycle"
    and "(\<exists>a\<in>set (applications d). ap_cycle a = cycle \<and> ap_applicant a = applicant \<and> ap_id a = i) \<and>
           d' = d \<or>
         (\<forall>a\<in>set (applications d). ap_cycle a \<noteq> cycle \<or> ap_applicant a \<noteq> applicant) \<and>
           i = fresh e 0 \<and> fresh e 0 \<notin> ap_id ` set (applications d) \<and> user_exists applicant d \<and>
           d' = d\<lparr>applications := applications d @ [new_application e cycle form applicant]\<rparr>"
  using assms
  by (auto simp: create_application_def split: option.splits if_splits dest: find_SomeD find_NoneD)

lemma open_cycle_of_form_Some:
  assumes "open_cycle_of_form e form d = Some c"
  shows "\<exists>f\<in>set (forms d). fm_id f = form \<and> fm_cycle f = c \<and> fm_published f \<noteq> None"
    and "cycle_open e c d"
  using assms
  by (auto simp: open_cycle_of_form_def cycle_open_def list_ex_iff split: option.splits
      dest!: find_SomeD)

lemma intake_inv_new_application:
  assumes inv: "intake_inv pa d" and c: "open_cycle_of_form e form d = Some c"
    and new: "\<forall>a\<in>set (applications d). ap_cycle a \<noteq> c \<or> ap_applicant a \<noteq> applicant"
      "fresh e 0 \<notin> ap_id ` set (applications d)"
  shows "intake_inv pa (d\<lparr>applications := applications d @ [new_application e c form applicant]\<rparr>)"
proof -
  have "\<forall>r\<in>set (answers_table d). an_application r \<noteq> fresh e 0"
    using inv new(2) unfolding intake_inv_def by metis
  then have none: "answers_of (fresh e 0) d = []"
    by (simp add: answers_of_def filter_empty_conv)
  have f: "(form, c) \<in> (\<lambda>f. (fm_id f, fm_cycle f)) ` set (forms d)"
    using open_cycle_of_form_Some(1) [OF c] by force
  have old: "stored_answers_ok pa (d\<lparr>applications := x\<rparr>) a = stored_answers_ok pa d a" for x a
    by (simp add: stored_answers_ok_def)
  have "stored_answers_ok pa d (new_application e c form applicant)"
    by (simp add: stored_answers_ok_def new_application_def none answers_fit_def answers_from_json_def)
  moreover have "distinct_on (\<lambda>a. (ap_cycle a, ap_applicant a))
      (applications d @ [new_application e c form applicant])"
    using inv new(1) by (auto simp: intake_inv_def new_application_def)
  moreover have "distinct_on ap_id (applications d @ [new_application e c form applicant])"
    using inv new(2) by (auto simp: intake_inv_def new_application_def)
  ultimately show ?thesis
    using inv f by (auto simp: intake_inv_def old new_application_def)
qed

lemma get_application_total:
  assumes "intake_inv pa d" and "a \<in> set (applications d)"
  obtains f where "f \<in> set (forms d)" and "fm_id f = ap_form a" and "fm_cycle f = ap_cycle a"
    and "get_application_for_applicant (ap_id a) (ap_applicant a) d = Some (applicant_view d a f)"
proof -
  have keys: "distinct_on ap_id (applications d)" "distinct_on fm_id (forms d)"
    using assms(1) by (simp_all add: intake_inv_def)
  obtain f where f: "f \<in> set (forms d)" "fm_id f = ap_form a" "fm_cycle f = ap_cycle a"
    using assms by (auto simp: intake_inv_def)
  have "List.find (\<lambda>x. ap_id x = ap_id a \<and> ap_applicant x = ap_applicant a) (applications d) = Some a"
    by (rule find_key_and [OF keys(1) assms(2)]) simp_all
  moreover have "List.find (\<lambda>x. fm_id x = ap_form a) (forms d) = Some f"
    using find_eq_Some_key [OF keys(2) f(1)] f(2) by simp
  ultimately have "get_application_for_applicant (ap_id a) (ap_applicant a) d =
      Some (applicant_view d a f)"
    by (simp add: get_application_for_applicant_def)
  with f that show thesis by blast
qed

definition create_contract ::
    "env \<Rightarrow> uuid \<Rightarrow> db \<Rightarrow> application_view \<Rightarrow> db \<Rightarrow> bool" where
  "create_contract e applicant d v d' \<longleftrightarrow>
     (\<exists>a\<in>set (applications d'). ap_applicant a = applicant \<and> apv_id v = uuid_text e (ap_id a) \<and>
        cycle_open e (ap_cycle a) d \<and>
        (d' = d \<or> (a \<notin> set (applications d) \<and> ap_status a = StDraft \<and> ap_lock a = 0 \<and>
                   answers_of (ap_id a) d' = [] \<and> d' = d\<lparr>applications := applications d @ [a]\<rparr>)) \<and>
        (\<forall>b\<in>set (applications d'). ap_applicant b = applicant \<and> ap_cycle b = ap_cycle a \<longrightarrow> b = a))"

lemma create_Inr:
  assumes run: "create e a d = (Inr v, d')" and inv: "intake_inv pa d"
  obtains applicant where "parse_uuid e (apl_id a) = Some applicant"
    and "create_contract e applicant d v d'" and "intake_inv pa d'"
proof -
  from run obtain applicant form_id i row where
    p: "parse_uuid e (apl_id a) = Some applicant" and
    c: "create_application e applicant form_id d = Inr (Some (i, d'))" and
    g: "get_application_for_applicant i applicant d' = Some row" and
    v: "v = application_from_row e row"
    by (auto simp: create_def query_eq application_for_applicant_def split: sum.splits prod.splits)
  obtain cycle where oc: "open_cycle_of_form e form_id d = Some cycle" and
    cases: "(\<exists>a\<in>set (applications d). ap_cycle a = cycle \<and> ap_applicant a = applicant \<and> ap_id a = i) \<and>
           d' = d \<or>
         (\<forall>a\<in>set (applications d). ap_cycle a \<noteq> cycle \<or> ap_applicant a \<noteq> applicant) \<and>
           i = fresh e 0 \<and> fresh e 0 \<notin> ap_id ` set (applications d) \<and> user_exists applicant d \<and>
           d' = d\<lparr>applications := applications d @ [new_application e cycle form_id applicant]\<rparr>"
    by (rule create_application_Some [OF c])
  have inv': "intake_inv pa d'"
    using cases inv intake_inv_new_application [OF inv oc] by (elim disjE conjE) simp_all
  have open_c: "cycle_open e cycle d" by (rule open_cycle_of_form_Some(2) [OF oc])
  have once: "distinct_on (\<lambda>a. (ap_cycle a, ap_applicant a)) (applications d')"
    using inv' by (simp add: intake_inv_def)
  have id: "apv_id v = uuid_text e i"
    by (rule get_application_Some [OF g]) (simp add: v application_from_row_def applicant_view_def)
  have "create_contract e applicant d v d'"
    using cases
  proof
    assume "(\<exists>a\<in>set (applications d). ap_cycle a = cycle \<and> ap_applicant a = applicant \<and> ap_id a = i) \<and> d' = d"
    then obtain x where "x \<in> set (applications d')" "ap_cycle x = cycle" "ap_applicant x = applicant"
      "ap_id x = i" "d' = d" by blast
    then show ?thesis
      using open_c id once by (auto simp: create_contract_def intro!: bexI [of _ x] dest: distinct_onD)
  next
    assume new: "(\<forall>a\<in>set (applications d). ap_cycle a \<noteq> cycle \<or> ap_applicant a \<noteq> applicant) \<and>
           i = fresh e 0 \<and> fresh e 0 \<notin> ap_id ` set (applications d) \<and> user_exists applicant d \<and>
           d' = d\<lparr>applications := applications d @ [new_application e cycle form_id applicant]\<rparr>"
    let ?x = "new_application e cycle form_id applicant"
    have "\<forall>r\<in>set (answers_table d). an_application r \<noteq> fresh e 0"
      using inv new unfolding intake_inv_def by metis
    then have none: "answers_of (fresh e 0) d = []"
      by (simp add: answers_of_def filter_empty_conv)
    have x: "ap_id ?x = i" "ap_applicant ?x = applicant" "ap_cycle ?x = cycle" "ap_lock ?x = 0"
      "ap_status ?x = StDraft" "?x \<in> set (applications d')" "?x \<notin> set (applications d)"
      using new by (auto simp: new_application_def)
    have "\<forall>b\<in>set (applications d'). ap_applicant b = applicant \<and> ap_cycle b = cycle \<longrightarrow> b = ?x"
      using once x by (auto dest: distinct_onD)
    moreover have "answers_of (ap_id ?x) d' = []" using none new x(1) by simp
    ultimately show ?thesis
      unfolding create_contract_def using x id open_c new by (intro bexI [of _ ?x]) simp_all
  qed
  with p inv' that show thesis by blast
qed

lemma create_Inl:
  assumes run: "create e a d = (Inl err, d')" and inv: "intake_inv pa d"
  shows "d' = d"
proof (rule ccontr)
  assume "d' \<noteq> d"
  with run obtain applicant form_id i where
    c: "create_application e applicant form_id d = Inr (Some (i, d'))" and
    g: "get_application_for_applicant i applicant d' = None"
    by (auto simp: create_def query_eq application_for_applicant_def from_option_def bindE_Inl
        split: sum.splits prod.splits option.splits)
  obtain cycle where oc: "open_cycle_of_form e form_id d = Some cycle" and
    cases: "(\<exists>a\<in>set (applications d). ap_cycle a = cycle \<and> ap_applicant a = applicant \<and> ap_id a = i) \<and>
           d' = d \<or>
         (\<forall>a\<in>set (applications d). ap_cycle a \<noteq> cycle \<or> ap_applicant a \<noteq> applicant) \<and>
           i = fresh e 0 \<and> fresh e 0 \<notin> ap_id ` set (applications d) \<and> user_exists applicant d \<and>
           d' = d\<lparr>applications := applications d @ [new_application e cycle form_id applicant]\<rparr>"
    by (rule create_application_Some [OF c])
  have inv': "intake_inv pa d'"
    using cases inv intake_inv_new_application [OF inv oc] by (elim disjE conjE) simp_all
  have "\<exists>x\<in>set (applications d'). ap_id x = i \<and> ap_applicant x = applicant"
    using cases \<open>d' \<noteq> d\<close> by (auto simp: new_application_def)
  then show False using get_application_total [OF inv'] g by (metis option.distinct(1))
qed

text \<open>C8. Creating an application outside a transaction is safe: it succeeds only while the
  cycle of a published form is open, an applicant never has two applications in a cycle, a
  repeated create returns the one there is and changes nothing, a new one is an empty draft at
  version zero, and the intake invariant survives.\<close>

theorem create_spec:
  assumes "create e a d = (Inr v, d')" and "intake_inv pa d"
  shows "\<exists>applicant. parse_uuid e (apl_id a) = Some applicant \<and>
    create_contract e applicant d v d' \<and> intake_inv pa d'"
  using create_Inr [OF assms] by metis

theorem create_spec_witness:
  "\<exists>v d'. create sample_env \<lparr>apl_id = ''x'', apl_email = ''a@x.ca''\<rparr> sample_intake_db = (Inr v, d') \<and>
     create_contract sample_env 1 sample_intake_db v d'"
proof -
  have p: "parse_uuid sample_env ''x'' = Some 1" by code_simp
  have "\<not> isl (fst (create sample_env \<lparr>apl_id = ''x'', apl_email = ''a@x.ca''\<rparr> sample_intake_db))"
    by code_simp
  then obtain v d' where r:
    "create sample_env \<lparr>apl_id = ''x'', apl_email = ''a@x.ca''\<rparr> sample_intake_db = (Inr v, d')"
    by (metis isl_def prod.collapse sum.collapse(2))
  from create_spec [OF r sample_intake_inv] p show ?thesis using r by auto
qed

section \<open>Submission\<close>

definition mark_submitted :: "env \<Rightarrow> string \<Rightarrow> application_row \<Rightarrow> application_row" where
  "mark_submitted e email a =
     a\<lparr>ap_status := StSubmitted, ap_submitted := Some (now e), ap_email := Some email,
       ap_lock := ap_lock a + 1, ap_updated := now e\<rparr>"

lemma update_application_submission_Some:
  assumes "update_application_submission e i applicant lock email d = Inr (Some d')"
    and "distinct_on ap_id (applications d)"
  obtains a where "a \<in> set (applications d)" and "draft_row i applicant lock a"
    and "cycle_open e (ap_cycle a) d"
    and "d' = d\<lparr>applications := upd_rows (\<lambda>a. ap_id a = i) (mark_submitted e email) (applications d)\<rparr>"
proof -
  let ?hit = "\<lambda>a. draft_row i applicant lock a \<and> cycle_open e (ap_cycle a) d"
  obtain a where a: "a \<in> set (applications d)" "draft_row i applicant lock a"
    "cycle_open e (ap_cycle a) d"
    using assms(1) by (auto simp: update_application_submission_def list_ex_iff Let_def split: if_splits)
  have "?hit x \<longleftrightarrow> ap_id x = i" if "x \<in> set (applications d)" for x
  proof
    assume "?hit x"
    then show "ap_id x = i" by (simp add: draft_row_def)
  next
    assume "ap_id x = i"
    then have "x = a" using distinct_onD [OF assms(2) that a(1)] a(2) by (simp add: draft_row_def)
    then show "?hit x" using a by simp
  qed
  then have "upd_rows ?hit
      (\<lambda>a. a\<lparr>ap_status := StSubmitted, ap_submitted := Some (now e), ap_email := Some email,
             ap_lock := ap_lock a + 1, ap_updated := now e\<rparr>) (applications d) =
    upd_rows (\<lambda>a. ap_id a = i) (mark_submitted e email) (applications d)"
    unfolding mark_submitted_def [abs_def] by (rule upd_rows_cong)
  then show thesis
    using assms(1) a
    by (intro that [OF a]) (auto simp: update_application_submission_def Let_def split: if_splits)
qed

lemma insert_outbox_Inr:
  assumes "insert_outbox e event recipient email template data dedupe d = Inr d'"
    and "distinct_on ob_dedupe (outbox d)"
  shows "d' = d\<lparr>outbox := outbox d'\<rparr>" and "distinct_on ob_dedupe (outbox d')"
    and "count_rows (\<lambda>x. ob_dedupe x = dedupe) (outbox d') = 1"
    and "\<forall>k. k \<noteq> dedupe \<longrightarrow>
      filter (\<lambda>x. ob_dedupe x = k) (outbox d') = filter (\<lambda>x. ob_dedupe x = k) (outbox d)"
proof -
  have one: "count_rows (\<lambda>x. ob_dedupe x = dedupe) xs = (if dedupe \<in> ob_dedupe ` set xs then 1 else 0)"
    if "distinct_on ob_dedupe xs" for xs
    using that by (induction xs) auto
  have "d' = d\<lparr>outbox := outbox d'\<rparr> \<and> distinct_on ob_dedupe (outbox d') \<and>
      dedupe \<in> ob_dedupe ` set (outbox d') \<and> (\<forall>k. k \<noteq> dedupe \<longrightarrow>
      filter (\<lambda>x. ob_dedupe x = k) (outbox d') = filter (\<lambda>x. ob_dedupe x = k) (outbox d))"
    using assms by (auto simp: insert_outbox_def list_ex_iff split: if_splits)
  moreover from this have "count_rows (\<lambda>x. ob_dedupe x = dedupe) (outbox d') = 1"
    using one [of "outbox d'"] by presburger
  ultimately show "d' = d\<lparr>outbox := outbox d'\<rparr>" and "distinct_on ob_dedupe (outbox d')"
    and "count_rows (\<lambda>x. ob_dedupe x = dedupe) (outbox d') = 1"
    and "\<forall>k. k \<noteq> dedupe \<longrightarrow>
      filter (\<lambda>x. ob_dedupe x = k) (outbox d') = filter (\<lambda>x. ob_dedupe x = k) (outbox d)"
    by blast+
qed

text \<open>The effect of a first submission.\<close>

definition submitted_effect ::
    "env \<Rightarrow> string \<Rightarrow> application_row \<Rightarrow> db \<Rightarrow> db \<Rightarrow> bool" where
  "submitted_effect e email a d d' \<longleftrightarrow>
     d' = d\<lparr>applications := upd_rows (\<lambda>x. ap_id x = ap_id a) (mark_submitted e email) (applications d),
            outbox := outbox d'\<rparr> \<and>
     distinct_on ob_dedupe (outbox d') \<and>
     count_rows (\<lambda>x. ob_dedupe x = confirmation_key e (ap_id a)) (outbox d') = 1 \<and>
     (\<forall>k. k \<noteq> confirmation_key e (ap_id a) \<longrightarrow>
       filter (\<lambda>x. ob_dedupe x = k) (outbox d') = filter (\<lambda>x. ob_dedupe x = k) (outbox d))"

lemma record_submission_Inr:
  assumes run: "record_submission e applicant email i lock d = Inr (v, d')"
    and keys: "distinct_on ap_id (applications d)" "distinct_on ob_dedupe (outbox d)"
  obtains a row where "a \<in> set (applications d)" and "draft_row i applicant lock a"
    and "cycle_open e (ap_cycle a) d" and "submitted_effect e email a d d'"
    and "get_application_for_applicant i applicant d' = Some row"
    and "v = application_from_row e row"
proof -
  from run obtain d1 data where
    u: "update_application_submission e i applicant lock email d = Inr (Some d1)" and
    o: "insert_outbox e ''submission_confirmation'' applicant email ''submission_confirmation''
          data (confirmation_key e i) d1 = Inr d'" and
    rb: "\<exists>row. get_application_for_applicant i applicant d' = Some row \<and>
          v = application_from_row e row"
    by (auto simp: record_submission_def insert_submission_confirmation_def read_back_def
        application_for_applicant_def split: option.split_asm)
  obtain a where a: "a \<in> set (applications d)" "draft_row i applicant lock a"
    "cycle_open e (ap_cycle a) d"
    and d1: "d1 = d\<lparr>applications := upd_rows (\<lambda>a. ap_id a = i) (mark_submitted e email) (applications d)\<rparr>"
    by (rule update_application_submission_Some [OF u keys(1)])
  have i: "i = ap_id a" using a by (simp add: draft_row_def)
  have "distinct_on ob_dedupe (outbox d1)" using keys(2) by (simp add: d1)
  note out = insert_outbox_Inr [OF o this]
  obtain X where "d' = d1\<lparr>outbox := X\<rparr>" using out(1) by blast
  then have "d' = d\<lparr>applications := upd_rows (\<lambda>x. ap_id x = ap_id a) (mark_submitted e email)
      (applications d), outbox := outbox d'\<rparr>"
    by (simp add: d1 i)
  then have "submitted_effect e email a d d'"
    using out(2-4) by (simp add: submitted_effect_def i d1)
  with a rb that show thesis by blast
qed

text \<open>The answers stored for a row are fit and complete for its form, and a required resume is
  there.\<close>

definition ready_to_submit :: "(string \<Rightarrow> string option) \<Rightarrow> application_row \<Rightarrow> db \<Rightarrow> bool" where
  "ready_to_submit pa a d \<longleftrightarrow>
     (\<exists>f\<in>set (forms d). \<exists>pf. fm_id f = ap_form a \<and> parse_published_form (fm_schema f) = Inr pf \<and>
        answers_fit pa (pf_questions pf) (answers_from_json (answers_of (ap_id a) d)) \<and>
        answers_complete (pf_questions pf) (answers_from_json (answers_of (ap_id a) d)) \<and>
        (pf_resume_required pf \<longrightarrow> application_has_resume (ap_id a) d))"

lemma submit_body_Inr:
  assumes run: "submit_body e applicant email i lock d = Inr (v, d')"
    and inv: "intake_inv (parse_address e) d"
  obtains (again) a row where "a \<in> set (applications d)" and "ap_id a = i"
      and "ap_applicant a = applicant" and "projected_status (ap_status a) = StSubmitted"
      and "d' = d" and "get_application_for_applicant i applicant d' = Some row"
      and "v = application_from_row e row"
    | (first) a row where "a \<in> set (applications d)" and "draft_row i applicant lock a"
      and "cycle_open e (ap_cycle a) d" and "ready_to_submit (parse_address e) a d"
      and "submitted_effect e email a d d'"
      and "get_application_for_applicant i applicant d' = Some row"
      and "v = application_from_row e row"
proof -
  have keys: "distinct_on ap_id (applications d)" "distinct_on ob_dedupe (outbox d)"
    using inv by (simp_all add: intake_inv_def)
  obtain before where b: "get_application_for_applicant i applicant d = Some before"
    using run by (auto simp: submit_body_def application_for_applicant_def)
  obtain a f where a: "a \<in> set (applications d)" "ap_id a = i" "ap_applicant a = applicant"
    and f: "f \<in> set (forms d)" "fm_id f = ap_form a" and bf: "before = applicant_view d a f"
    by (rule get_application_Some [OF b])
  show thesis
  proof (cases "projected_status (ap_status a) = StSubmitted")
    case True
    then have "v = application_from_row e before" "d' = d"
      using run b by (auto simp: submit_body_def application_for_applicant_def bf applicant_view_def)
    then show thesis using again [OF a True] b by blast
  next
    case False
    then obtain pf u where pf: "parse_published_form (fm_schema f) = Inr pf" and
      val: "validate_answers (parse_address e) pf
              (Some (answers_from_json (answers_of i d))) True = Inr u" and
      res: "pf_resume_required pf \<longrightarrow> application_has_resume i d" and
      rec: "record_submission e applicant email i lock d = Inr (v, d')"
      using run b a
      by (auto simp: submit_body_def application_for_applicant_def bf applicant_view_def
          split: if_split_asm)
    have "distinct (map fst (answers_of i d))"
      using inv a by (auto simp: intake_inv_def stored_answers_ok_def)
    then have "go_map (Some (answers_from_json (answers_of i d)))" by (simp add: go_map_def)
    then have "ready_to_submit (parse_address e) a d"
      using validate_answers_Inr [OF val parsed_form_ok [OF pf]] f pf res
      unfolding ready_to_submit_def a(2) by (metis option.inject)
    moreover obtain x row where x: "x \<in> set (applications d)" "draft_row i applicant lock x"
      "cycle_open e (ap_cycle x) d" "submitted_effect e email x d d'"
      "get_application_for_applicant i applicant d' = Some row" "v = application_from_row e row"
      by (rule record_submission_Inr [OF rec keys])
    moreover have "x = a"
      using x a keys(1) by (auto simp: draft_row_def dest: distinct_onD)
    ultimately show thesis using first by blast
  qed
qed

lemma intake_inv_submitted:
  assumes inv: "intake_inv pa d" and eff: "submitted_effect e email a d d'"
    and a: "a \<in> set (applications d)" and ready: "ready_to_submit pa a d"
  shows "intake_inv pa d'"
proof -
  obtain X where d': "d' = d\<lparr>applications := upd_rows (\<lambda>x. ap_id x = ap_id a)
      (mark_submitted e email) (applications d), outbox := X\<rparr>"
    using eff unfolding submitted_effect_def by blast
  have out: "distinct_on ob_dedupe (outbox d')" using eff by (simp add: submitted_effect_def)
  have keys: "distinct_on ap_id (applications d)" "distinct_on fm_id (forms d)"
    using inv by (simp_all add: intake_inv_def)
  have stored: "stored_answers_ok pa d' x" if mem: "x \<in> set (applications d')" for x
  proof -
    obtain y where y: "y \<in> set (applications d)"
      "x = (if ap_id y = ap_id a then mark_submitted e email y else y)"
      using mem unfolding d' by (simp, elim upd_rowsE)
    have ok: "stored_answers_ok pa d y" using inv y by (simp add: intake_inv_def)
    show ?thesis
    proof (cases "ap_id y = ap_id a")
      case True
      then have "y = a" using a y keys by (auto dest: distinct_onD)
      then have x: "ap_id x = ap_id a" "ap_form x = ap_form a"
        using y True by (simp_all add: mark_submitted_def)
      obtain f pf where f: "f \<in> set (forms d)" "fm_id f = ap_form a"
        "parse_published_form (fm_schema f) = Inr pf"
        "answers_fit pa (pf_questions pf) (answers_from_json (answers_of (ap_id a) d))"
        "answers_complete (pf_questions pf) (answers_from_json (answers_of (ap_id a) d))"
        using ready unfolding ready_to_submit_def by blast
      have "answers_fit pa (pf_questions pf') (answers_from_json (answers_of (ap_id a) d)) \<and>
          answers_complete (pf_questions pf') (answers_from_json (answers_of (ap_id a) d))"
        if "g \<in> set (forms d)" "fm_id g = ap_form a" "parse_published_form (fm_schema g) = Inr pf'"
        for g pf'
      proof -
        have "g = f" by (rule distinct_onD [OF keys(2) that(1) f(1)]) (simp add: that(2) f(2))
        then have "pf' = pf" using that(3) f(3) by simp
        then show ?thesis using f(4,5) by simp
      qed
      moreover have "distinct (map fst (answers_of (ap_id a) d))"
        using ok \<open>y = a\<close> by (simp add: stored_answers_ok_def)
      ultimately show ?thesis by (simp add: stored_answers_ok_def x d')
    next
      case False
      then show ?thesis using ok y by (simp add: stored_answers_ok_def d')
    qed
  qed
  have "\<forall>x\<in>set (applications d'). (ap_form x, ap_cycle x) \<in> (\<lambda>f. (fm_id f, fm_cycle f)) ` set (forms d')"
    using inv by (auto simp: intake_inv_def d' set_upd_rows mark_submitted_def)
  moreover have "\<forall>x\<in>set (applications d'). ap_status x = StDraft \<longrightarrow> ap_submitted x = None"
    using inv by (auto simp: intake_inv_def d' set_upd_rows mark_submitted_def)
  moreover have "\<forall>r\<in>set (answers_table d'). an_application r \<in> ap_id ` set (applications d')"
    using inv by (simp add: intake_inv_def d' image_upd_rows mark_submitted_def)
  moreover have "distinct_on ap_id (applications d')"
    "distinct_on (\<lambda>a. (ap_cycle a, ap_applicant a)) (applications d')"
    "distinct_on fm_id (forms d')"
    using inv by (simp_all add: intake_inv_def d' distinct_on_upd_rows mark_submitted_def)
  ultimately show ?thesis using stored out unfolding intake_inv_def by blast
qed

lemma submit_Inr:
  assumes "submit e a input d = (Inr v, d')"
  obtains applicant i where "parse_uuid e (apl_id a) = Some applicant"
    and "parse_uuid e (si_application input) = Some i"
    and "submit_body e applicant (apl_email a) i (si_lock input) d = Inr (v, d')"
  using assms by (auto simp: submit_def transact_Inr)

lemma submit_inv:
  assumes "submit e a input d = (Inr v, d')" and inv: "intake_inv (parse_address e) d"
  shows "intake_inv (parse_address e) d'"
proof -
  obtain applicant i where run: "submit_body e applicant (apl_email a) i (si_lock input) d = Inr (v, d')"
    by (rule submit_Inr [OF assms(1)])
  show ?thesis
    by (rule submit_body_Inr [OF run inv]) (use inv intake_inv_submitted in blast)+
qed

text \<open>A submission: the row it is about, and either nothing to do or the first submission.\<close>

definition submit_contract ::
    "env \<Rightarrow> applicant \<Rightarrow> submit_input \<Rightarrow> db \<Rightarrow> db \<Rightarrow> bool" where
  "submit_contract e a input d d' \<longleftrightarrow>
     (\<exists>row\<in>set (applications d).
        parse_uuid e (apl_id a) = Some (ap_applicant row) \<and>
        parse_uuid e (si_application input) = Some (ap_id row) \<and>
        (if projected_status (ap_status row) = StSubmitted then d' = d
         else ap_status row = StDraft \<and> ap_lock row = si_lock input \<and>
              cycle_open e (ap_cycle row) d \<and> ready_to_submit (parse_address e) row d \<and>
              submitted_effect e (apl_email a) row d d'))"

lemma submitted_status:
  assumes "submitted_effect e email a d d'" and "get_application_for_applicant (ap_id a) applicant d' = Some row"
  shows "av_status row = StSubmitted"
proof -
  obtain X where d': "d' = d\<lparr>applications := upd_rows (\<lambda>x. ap_id x = ap_id a)
      (mark_submitted e email) (applications d), outbox := X\<rparr>"
    using assms(1) unfolding submitted_effect_def by blast
  obtain x f where x: "x \<in> set (applications d')" "ap_id x = ap_id a"
    and row: "row = applicant_view d' x f"
    by (rule get_application_Some [OF assms(2)])
  have "x \<in> set (upd_rows (\<lambda>x. ap_id x = ap_id a) (mark_submitted e email) (applications d))"
    using x(1) by (simp add: d')
  then obtain y where "x = (if ap_id y = ap_id a then mark_submitted e email y else y)"
    by (rule upd_rowsE)
  then have "x = mark_submitted e email y" using x(2) by (cases "ap_id y = ap_id a") simp_all
  then show ?thesis
    by (simp add: row applicant_view_def mark_submitted_def projected_status_def)
qed

lemma submit_contract_holds:
  assumes run: "submit e a input d = (Inr v, d')" and inv: "intake_inv (parse_address e) d"
  shows "submit_contract e a input d d'"
    and "submit (e\<lparr>now := t\<rparr>) a (input\<lparr>si_lock := l\<rparr>) d' = (Inr v, d')"
proof -
  obtain applicant i where ids: "parse_uuid e (apl_id a) = Some applicant"
      "parse_uuid e (si_application input) = Some i"
    and body: "submit_body e applicant (apl_email a) i (si_lock input) d = Inr (v, d')"
    by (rule submit_Inr [OF run])
  have same: "application_from_row (e\<lparr>now := t\<rparr>) r = application_from_row e r" for r
    by (simp add: application_from_row_def)
  have "submit_contract e a input d d' \<and> (\<exists>row. get_application_for_applicant i applicant d' = Some row \<and>
      v = application_from_row e row \<and> av_status row = StSubmitted)"
  proof (rule submit_body_Inr [OF body inv])
    fix x row
    assume x: "x \<in> set (applications d)" "ap_id x = i" "ap_applicant x = applicant"
        "projected_status (ap_status x) = StSubmitted" "d' = d"
      and row: "get_application_for_applicant i applicant d' = Some row"
        "v = application_from_row e row"
    have "submit_contract e a input d d'"
      unfolding submit_contract_def using x ids by (intro bexI [of _ x]) simp_all
    moreover have "av_status row = StSubmitted"
    proof (rule get_application_Some [OF row(1)])
      fix y f assume y: "y \<in> set (applications d')" "ap_id y = i" "row = applicant_view d' y f"
      have "y = x" using x y inv by (auto simp: intake_inv_def dest: distinct_onD)
      then show "av_status row = StSubmitted" using x(4) y(3) by (simp add: applicant_view_def)
    qed
    ultimately show ?thesis using row by blast
  next
    fix x row
    assume x: "x \<in> set (applications d)" "draft_row i applicant (si_lock input) x"
        "cycle_open e (ap_cycle x) d" "ready_to_submit (parse_address e) x d"
        "submitted_effect e (apl_email a) x d d'"
      and row: "get_application_for_applicant i applicant d' = Some row"
        "v = application_from_row e row"
    have i: "ap_id x = i" "ap_applicant x = applicant" "ap_status x = StDraft"
      "ap_lock x = si_lock input"
      using x(2) by (simp_all add: draft_row_def)
    have "submit_contract e a input d d'"
      unfolding submit_contract_def using x ids i
      by (intro bexI [of _ x]) (simp_all add: projected_status_def)
    moreover have "av_status row = StSubmitted"
      using submitted_status [OF x(5)] row(1) i(1) by simp
    ultimately show ?thesis using row by blast
  qed
  then show "submit_contract e a input d d'"
    and "submit (e\<lparr>now := t\<rparr>) a (input\<lparr>si_lock := l\<rparr>) d' = (Inr v, d')"
    using ids
    by (auto simp: submit_def transact_def submit_body_def application_for_applicant_def same)
qed

text \<open>C9. A submission that succeeds either found the owner's application already submitted and
  changed nothing, or turned a draft at the given lock version, in its open window, with stored
  answers that are fit and complete for its form (and a resume where the form asks for one)
  into a submitted application, with exactly one confirmation mail queued for it. Repeating the
  submission at any later time and with any lock version returns the same application and
  changes nothing: no second mail.\<close>

theorem submit_spec:
  assumes "submit e a input d = (Inr v, d')" and "intake_inv (parse_address e) d"
  shows "submit_contract e a input d d' \<and>
    (\<forall>t l. submit (e\<lparr>now := t\<rparr>) a (input\<lparr>si_lock := l\<rparr>) d' = (Inr v, d'))"
  using submit_contract_holds [OF assms] by blast

definition sample_submittable_db :: db where
  "sample_submittable_db = sample_intake_db\<lparr>answers_table :=
     [\<lparr>an_application = 9, an_key = ''team'', an_value = JBool False, an_updated = 30\<rparr>]\<rparr>"

lemma sample_submittable_inv: "intake_inv (parse_address sample_env) sample_submittable_db"
proof -
  have "parse_published_form (fm_schema (hd (forms sample_submittable_db))) =
      Inr (sample_form\<lparr>pf_resume_required := False\<rparr>)" by code_simp
  then show ?thesis
    by (simp add: intake_inv_def sample_submittable_db_def sample_intake_db_def sample_users_db_def
        empty_db_def stored_answers_ok_def answers_of_def answers_fit_def answers_from_json_def
        sample_form_def typed_answer_check_def shown_def)
qed

theorem submit_spec_witness:
  "\<exists>v d'. submit sample_env sample_applicant \<lparr>si_application = ''xxxxxxxxx'', si_lock = 0\<rparr>
       sample_submittable_db = (Inr v, d') \<and>
     submit_contract sample_env sample_applicant \<lparr>si_application = ''xxxxxxxxx'', si_lock = 0\<rparr>
       sample_submittable_db d'"
proof -
  have "\<not> isl (fst (submit sample_env sample_applicant
      \<lparr>si_application = ''xxxxxxxxx'', si_lock = 0\<rparr> sample_submittable_db))"
    by code_simp
  then obtain v d' where r: "submit sample_env sample_applicant
      \<lparr>si_application = ''xxxxxxxxx'', si_lock = 0\<rparr> sample_submittable_db = (Inr v, d')"
    by (metis isl_def prod.collapse sum.collapse(2))
  from submit_spec [OF r sample_submittable_inv] r show ?thesis by blast
qed

section \<open>Every operation keeps the invariant\<close>

interpretation saving: transaction_contract
  "\<lambda>(e, a, input). save_draft e a input"
  "\<lambda>(e, a, input). parse_address e = pa \<and> go_map (sd_answers input) \<and> jsonb_keeps_scalars e" "intake_inv pa"
  by unfold_locales
     (auto simp: save_draft_def transact_Inl intro: save_draft_inv split: prod.splits)

interpretation submitting: transaction_contract
  "\<lambda>(e, a, input). submit e a input" "\<lambda>(e, a, input). parse_address e = pa" "intake_inv pa"
  by unfold_locales
     (auto simp: submit_def transact_Inl intro: submit_inv split: prod.splits)

interpretation creating: transaction_contract
  "\<lambda>(e, a). create e a" "\<lambda>_. True" "intake_inv pa"
  by unfold_locales (auto dest: create_Inl elim: create_Inr split: prod.splits)

end
