(* ===== verification/Decisions.thy ===== *)
theory Decisions
  imports Applications
begin

text \<open>
  Packages \<^verbatim>\<open>decisions\<close> and \<^verbatim>\<open>rsvps\<close>: recording and releasing admission decisions,
  what an applicant may see of them, and the answer to a released acceptance, over the
  statements of \<^verbatim>\<open>sqlc/decisions.sql.go\<close> and the queries of \<^verbatim>\<open>rsvps/service.go\<close>.
\<close>

section \<open>Decisions and errors\<close>

datatype decision_error =
    DecForbidden
  | DecNotFound
  | DecNotSubmitted
  | DecInvalidOutcome
  | DecNoCurrent
  | DecInternal

definition outcome_of_string :: "string \<Rightarrow> outcome option" where
  "outcome_of_string s =
     (if s = ''accepted'' then Some OutAccepted
      else if s = ''waitlisted'' then Some OutWaitlisted
      else if s = ''rejected'' then Some OutRejected
      else None)"

definition string_of_outcome :: "outcome \<Rightarrow> string" where
  "string_of_outcome x =
     (case x of OutAccepted \<Rightarrow> ''accepted'' | OutWaitlisted \<Rightarrow> ''waitlisted''
      | OutRejected \<Rightarrow> ''rejected'')"

definition status_of_outcome :: "outcome \<Rightarrow> app_status" where
  "status_of_outcome x =
     (case x of OutAccepted \<Rightarrow> StAccepted | OutWaitlisted \<Rightarrow> StWaitlisted
      | OutRejected \<Rightarrow> StRejected)"

definition valid_outcome :: "string \<Rightarrow> bool" where
  "valid_outcome s = (s = ''accepted'' \<or> s = ''waitlisted'' \<or> s = ''rejected'')"

definition decision_eligible_status :: "app_status \<Rightarrow> bool" where
  "decision_eligible_status s =
     (s = StSubmitted \<or> s = StAccepted \<or> s = StWaitlisted \<or> s = StRejected)"

definition optional_text :: "string option \<Rightarrow> string option" where
  "optional_text v =
     (case v of None \<Rightarrow> None
      | Some s \<Rightarrow> if trim_space s = [] then None else Some (trim_space s))"

section \<open>Statements of decisions.sql\<close>

record decision_lock_row =
  dl_application :: uuid
  dl_cycle :: uuid
  dl_applicant :: uuid
  dl_status :: app_status
  dl_email :: string
  dl_name :: string

text \<open>\<^verbatim>\<open>COALESCE(NULLIF(display_name, ''), primary_email)\<close>.\<close>

definition display_name_of :: "user_row \<Rightarrow> string" where
  "display_name_of u =
     (case u_name u of None \<Rightarrow> u_email u | Some n \<Rightarrow> if n = [] then u_email u else n)"

definition lock_application_for_decision :: "uuid \<Rightarrow> db \<Rightarrow> decision_lock_row option" where
  "lock_application_for_decision i d =
     (case List.find (\<lambda>a. ap_id a = i) (applications d) of None \<Rightarrow> None
      | Some a \<Rightarrow> map_option
          (\<lambda>u. \<lparr>dl_application = ap_id a, dl_cycle = ap_cycle a, dl_applicant = ap_applicant a,
                dl_status = ap_status a, dl_email = u_email u, dl_name = display_name_of u\<rparr>)
          (List.find (\<lambda>u. u_id u = ap_applicant a) (users d)))"

definition get_latest_decision :: "uuid \<Rightarrow> db \<Rightarrow> decision_row option" where
  "get_latest_decision i d =
     (case List.find (\<lambda>a. ap_id a = i) (applications d) of None \<Rightarrow> None
      | Some a \<Rightarrow> (case ap_decision_id a of None \<Rightarrow> None
          | Some j \<Rightarrow> List.find (\<lambda>x. de_id x = j) (decisions d)))"

definition insert_decision ::
    "env \<Rightarrow> uuid \<Rightarrow> outcome \<Rightarrow> string option \<Rightarrow> uuid \<Rightarrow> uuid option \<Rightarrow> db
      \<Rightarrow> db_error + decision_row \<times> db" where
  "insert_decision e application result reason by supersedes d =
     (if fresh e 0 \<in> de_id ` set (decisions d) then Inl UniqueViolation
      else if application \<notin> ap_id ` set (applications d) \<or> \<not> user_exists by d
        \<or> (case supersedes of None \<Rightarrow> False | Some s \<Rightarrow> s \<notin> de_id ` set (decisions d))
      then Inl ForeignKeyViolation
      else let r = \<lparr>de_id = fresh e 0, de_application = application, de_outcome = result,
                     de_reason = reason, de_by = by, de_at = now e, de_released_by = None,
                     de_released_at = None, de_supersedes = supersedes, de_created = now e\<rparr>
           in Inr (r, d\<lparr>decisions := decisions d @ [r]\<rparr>))"

definition update_application_decision_cache ::
    "env \<Rightarrow> uuid \<Rightarrow> outcome \<Rightarrow> uuid \<Rightarrow> db \<Rightarrow> db" where
  "update_application_decision_cache e i result decision d =
     d\<lparr>applications := upd_rows (\<lambda>a. ap_id a = i)
        (\<lambda>a. a\<lparr>ap_status := status_of_outcome result, ap_decision := Some result,
               ap_decision_id := Some decision, ap_released := None, ap_updated := now e\<rparr>)
        (applications d)\<rparr>"

text \<open>The attendee of an application and whether the statement created it. The cycle, the
  application and the user are those of the locked application row.\<close>

definition upsert_accepted_attendee ::
    "env \<Rightarrow> decision_lock_row \<Rightarrow> db \<Rightarrow> db_error + (uuid \<times> bool) \<times> db" where
  "upsert_accepted_attendee e a d =
     (if dl_name a = [] \<or> dl_email a = [] then Inl CheckViolation
      else case List.find (\<lambda>x. ad_application x = dl_application a) (attendees d) of
        Some x \<Rightarrow> Inr ((ad_id x, False), d)
      | None \<Rightarrow>
          if fresh e 1 \<in> ad_id ` set (attendees d)
            \<or> (dl_cycle a, dl_applicant a) \<in> (\<lambda>x. (ad_cycle x, ad_user x)) ` set (attendees d)
          then Inl UniqueViolation
          else Inr ((fresh e 1, True), d\<lparr>attendees := attendees d @
            [\<lparr>ad_id = fresh e 1, ad_cycle = dl_cycle a, ad_application = dl_application a,
              ad_user = dl_applicant a, ad_name = dl_name a, ad_email = dl_email a,
              ad_created = now e, ad_updated = now e\<rparr>]\<rparr>))"

definition seed_attendee_hacker_role :: "uuid \<Rightarrow> db \<Rightarrow> db" where
  "seed_attendee_hacker_role i d =
     (if list_ex (\<lambda>r. ao_attendee r = i \<and> ao_role r = AttHacker) (attendee_roles d) then d
      else d\<lparr>attendee_roles := attendee_roles d @ [\<lparr>ao_attendee = i, ao_role = AttHacker\<rparr>]\<rparr>)"

definition insert_attendee_created_audit ::
    "env \<Rightarrow> uuid \<Rightarrow> uuid \<Rightarrow> string \<Rightarrow> db \<Rightarrow> db_error + db" where
  "insert_attendee_created_audit e actor subject application d =
     insert_audit e (Some actor) ''attendee_created'' ''attendee'' subject
       (JObject [(''applicationId'', JString application)]) d"

definition decision_metadata :: "string \<Rightarrow> outcome \<Rightarrow> json" where
  "decision_metadata application result =
     JObject [(''applicationId'', JString application),
              (''outcome'', JString (string_of_outcome result))]"

definition insert_decision_recorded_audit ::
    "env \<Rightarrow> uuid \<Rightarrow> uuid \<Rightarrow> string \<Rightarrow> outcome \<Rightarrow> db \<Rightarrow> db_error + db" where
  "insert_decision_recorded_audit e actor subject application result d =
     insert_audit e (Some actor) ''decision_recorded'' ''decision'' subject
       (decision_metadata application result) d"

definition insert_decision_released_audit ::
    "env \<Rightarrow> uuid \<Rightarrow> uuid \<Rightarrow> string \<Rightarrow> outcome \<Rightarrow> db \<Rightarrow> db_error + db" where
  "insert_decision_released_audit e actor subject application result d =
     insert_audit e (Some actor) ''decision_released'' ''decision'' subject
       (decision_metadata application result) d"

record release_row =
  rl_decision :: decision_row
  rl_applicant :: uuid
  rl_email :: string

definition lock_current_decision_for_release :: "uuid \<Rightarrow> db \<Rightarrow> release_row option" where
  "lock_current_decision_for_release i d =
     (case List.find (\<lambda>x. de_id x = i) (decisions d) of None \<Rightarrow> None
      | Some x \<Rightarrow>
        (case List.find (\<lambda>a. ap_id a = de_application x \<and> ap_decision_id a = Some i) (applications d) of
           None \<Rightarrow> None
         | Some a \<Rightarrow> map_option
             (\<lambda>u. \<lparr>rl_decision = x, rl_applicant = ap_applicant a, rl_email = u_email u\<rparr>)
             (List.find (\<lambda>u. u_id u = ap_applicant a) (users d))))"

text \<open>The update and its \<^verbatim>\<open>RETURNING released_at\<close>; the trigger lets this transition pass.\<close>

definition release_decision ::
    "env \<Rightarrow> uuid \<Rightarrow> uuid \<Rightarrow> db \<Rightarrow> db_error + (timestamp \<times> db) option" where
  "release_decision e i by d =
     (if \<not> list_ex (\<lambda>x. de_id x = i \<and> de_released_at x = None) (decisions d) then Inr None
      else if \<not> user_exists by d then Inl ForeignKeyViolation
      else Inr (Some (now e, d\<lparr>decisions := upd_rows (\<lambda>x. de_id x = i \<and> de_released_at x = None)
        (\<lambda>x. x\<lparr>de_released_by := Some by, de_released_at := Some (now e)\<rparr>) (decisions d)\<rparr>)))"

definition update_application_decision_release ::
    "env \<Rightarrow> uuid \<Rightarrow> timestamp \<Rightarrow> db \<Rightarrow> db" where
  "update_application_decision_release e i t d =
     d\<lparr>applications := upd_rows (\<lambda>a. ap_id a = i)
        (\<lambda>a. a\<lparr>ap_released := Some t, ap_updated := now e\<rparr>) (applications d)\<rparr>"

definition insert_decision_release_email ::
    "env \<Rightarrow> uuid \<Rightarrow> string \<Rightarrow> json \<Rightarrow> string \<Rightarrow> db \<Rightarrow> db_error + db" where
  "insert_decision_release_email e recipient email data dedupe d =
     insert_outbox e ''decision_release'' recipient email ''decision_release'' data dedupe d"

definition get_released_decision_for_applicant ::
    "uuid \<Rightarrow> uuid \<Rightarrow> db \<Rightarrow> (uuid \<times> outcome \<times> timestamp option) option" where
  "get_released_decision_for_applicant i applicant d =
     (case List.find (\<lambda>a. ap_id a = i \<and> ap_applicant a = applicant \<and> ap_released a \<noteq> None)
             (applications d) of None \<Rightarrow> None
      | Some a \<Rightarrow> map_option (\<lambda>x. (de_application x, de_outcome x, de_released_at x))
          (List.find (\<lambda>x. de_application x = ap_id a \<and> de_released_at x \<noteq> None
                      \<and> Some (de_id x) = ap_decision_id a) (decisions d)))"

section \<open>Operations on decisions\<close>

abbreviation d_db :: "db_error + 'a \<Rightarrow> decision_error + 'a" where
  "d_db \<equiv> wrap_err (\<lambda>_. DecInternal)"

record decision_view =
  dv_id :: string
  dv_application :: string
  dv_outcome :: outcome
  dv_reason :: "string option"
  dv_by :: string
  dv_at :: timestamp
  dv_supersedes :: "string option"
  dv_released_by :: "string option"
  dv_released_at :: "timestamp option"

definition decision_from_row :: "env \<Rightarrow> decision_row \<Rightarrow> decision_view" where
  "decision_from_row e x =
     \<lparr>dv_id = uuid_text e (de_id x), dv_application = uuid_text e (de_application x),
      dv_outcome = de_outcome x, dv_reason = de_reason x, dv_by = uuid_text e (de_by x),
      dv_at = de_at x, dv_supersedes = map_option (uuid_text e) (de_supersedes x),
      dv_released_by = map_option (uuid_text e) (de_released_by x),
      dv_released_at = de_released_at x\<rparr>"

text \<open>The \<^verbatim>\<open>if input.Outcome == "accepted"\<close> block.\<close>

definition admit_attendee ::
    "env \<Rightarrow> uuid \<Rightarrow> decision_lock_row \<Rightarrow> db \<Rightarrow> decision_error + db" where
  "admit_attendee e actor a d =
     bindE (d_db (upsert_accepted_attendee e a d)) (\<lambda>((attendee, created), d1).
     let d2 = seed_attendee_hacker_role attendee d1
     in if created
        then d_db (insert_attendee_created_audit e actor attendee (uuid_text e (dl_application a)) d2)
        else Inr d2)"

definition record_writes ::
    "env \<Rightarrow> uuid \<Rightarrow> decision_lock_row \<Rightarrow> outcome \<Rightarrow> string option \<Rightarrow> uuid option \<Rightarrow> db
      \<Rightarrow> decision_error + decision_view \<times> db" where
  "record_writes e actor a result reason supersedes d =
     bindE (d_db (insert_decision e (dl_application a) result reason actor supersedes d))
       (\<lambda>(recorded, d1).
     bindE (let d2 = update_application_decision_cache e (dl_application a) result (de_id recorded) d1
            in if result = OutAccepted then admit_attendee e actor a d2 else Inr d2) (\<lambda>d3.
     bindE (d_db (insert_decision_recorded_audit e actor (de_id recorded)
              (uuid_text e (dl_application a)) result d3)) (\<lambda>d4.
     Inr (decision_from_row e recorded, d4))))"

definition record_decision ::
    "env \<Rightarrow> user \<Rightarrow> string \<Rightarrow> string \<Rightarrow> string option \<Rightarrow> (db, decision_error, decision_view) tx" where
  "record_decision e actor application result reason = transact (\<lambda>d.
     if \<not> has_role actor RoleOrganizer then Inl DecForbidden
     else if \<not> valid_outcome result then Inl DecInvalidOutcome
     else bindE (from_option DecInternal (parse_uuid e (user_id actor))) (\<lambda>actor_id.
          bindE (from_option DecNotFound (parse_uuid e application)) (\<lambda>i.
          bindE (from_option DecNotFound (lock_application_for_decision i d)) (\<lambda>a.
          if \<not> decision_eligible_status (dl_status a) then Inl DecNotSubmitted
          else bindE (from_option DecInvalidOutcome (outcome_of_string result)) (\<lambda>out.
               record_writes e actor_id a out (optional_text reason)
                 (map_option de_id (get_latest_decision i d)) d)))))"

definition release_key :: "env \<Rightarrow> uuid \<Rightarrow> string" where
  "release_key e i = ''decision_release:'' @ uuid_text e i"

definition release_writes ::
    "env \<Rightarrow> uuid \<Rightarrow> release_row \<Rightarrow> db \<Rightarrow> decision_error + decision_view \<times> db" where
  "release_writes e actor r d =
     (let x = rl_decision r in
     bindE (d_db (release_decision e (de_id x) actor d)) (\<lambda>released.
     bindE (from_option DecInternal released) (\<lambda>(t, d1).
     let d2 = update_application_decision_release e (de_application x) t d1;
         app = uuid_text e (de_application x) in
     bindE (d_db (insert_decision_release_email e (rl_applicant r) (rl_email r)
              (decision_metadata app (de_outcome x)) (release_key e (de_id x)) d2)) (\<lambda>d3.
     bindE (d_db (insert_decision_released_audit e actor (de_id x) app (de_outcome x) d3)) (\<lambda>d4.
     Inr (decision_from_row e (x\<lparr>de_released_by := Some actor, de_released_at := Some t\<rparr>), d4))))))"

definition release :: "env \<Rightarrow> user \<Rightarrow> string \<Rightarrow> (db, decision_error, decision_view) tx" where
  "release e actor decision = transact (\<lambda>d.
     if \<not> has_role actor RoleOrganizer then Inl DecForbidden
     else bindE (from_option DecInternal (parse_uuid e (user_id actor))) (\<lambda>actor_id.
          bindE (from_option DecNotFound (parse_uuid e decision)) (\<lambda>i.
          bindE (from_option DecNotFound (lock_current_decision_for_release i d)) (\<lambda>r.
          if de_released_at (rl_decision r) \<noteq> None
          then Inr (decision_from_row e (rl_decision r), d)
          else release_writes e actor_id r d))))"

definition current_for_organizer ::
    "env \<Rightarrow> user \<Rightarrow> string \<Rightarrow> (db, decision_error, decision_view) tx" where
  "current_for_organizer e actor application = query (\<lambda>d.
     if \<not> has_role actor RoleOrganizer then Inl DecForbidden
     else bindE (from_option DecNotFound (parse_uuid e application)) (\<lambda>i.
          bindE (from_option DecNoCurrent (get_latest_decision i d)) (\<lambda>x.
          Inr (decision_from_row e x))))"

text \<open>The applicant's projection: application, outcome and time of the release.\<close>

definition get_released_for_applicant ::
    "env \<Rightarrow> user \<Rightarrow> string \<Rightarrow> (db, decision_error, string \<times> outcome \<times> timestamp) tx" where
  "get_released_for_applicant e actor application = query (\<lambda>d.
     if \<not> has_role actor RoleApplicant then Inl DecForbidden
     else bindE (from_option DecInternal (parse_uuid e (user_id actor))) (\<lambda>applicant.
          bindE (from_option DecNotFound (parse_uuid e application)) (\<lambda>i.
          bindE (from_option DecNotFound (get_released_decision_for_applicant i applicant d))
            (\<lambda>(app, out, released).
          bindE (from_option DecInternal released) (\<lambda>t.
          Inr (uuid_text e app, out, t))))))"

section \<open>Answers to a released acceptance\<close>

datatype rsvp_error = RsvpForbidden | RsvpNotFound | RsvpInvalid | RsvpConflict | RsvpInternal

abbreviation r_db :: "db_error + 'a \<Rightarrow> rsvp_error + 'a" where
  "r_db \<equiv> wrap_err (\<lambda>_. RsvpInternal)"

text \<open>A response; its status is \<open>None\<close> for \<^verbatim>\<open>pending\<close>, when there is no row.\<close>

record rsvp_response =
  rr_application :: string
  rr_decision :: string
  rr_status :: "rsvp_status option"
  rr_lock :: int
  rr_at :: "timestamp option"

record rsvp_input =
  ri_application :: string
  ri_decision :: string
  ri_status :: string
  ri_lock :: int

definition rsvp_of_string :: "string \<Rightarrow> rsvp_status option" where
  "rsvp_of_string s =
     (if s = ''confirmed'' then Some RsvpConfirmed
      else if s = ''declined'' then Some RsvpDeclined else None)"

definition string_of_rsvp :: "rsvp_status \<Rightarrow> string" where
  "string_of_rsvp s = (case s of RsvpConfirmed \<Rightarrow> ''confirmed'' | RsvpDeclined \<Rightarrow> ''declined'')"

definition valid_rsvp_status :: "string \<Rightarrow> bool" where
  "valid_rsvp_status s = (s = ''confirmed'' \<or> s = ''declined'')"

definition valid_rsvp_filter :: "string \<Rightarrow> bool" where
  "valid_rsvp_filter s = (s = [] \<or> s = ''pending'' \<or> valid_rsvp_status s)"

text \<open>\<^verbatim>\<open>responseQuery\<close>: one row per application with a current, released acceptance.\<close>

definition current_acceptance :: "db \<Rightarrow> application_row \<Rightarrow> decision_row option" where
  "current_acceptance d a =
     (if ap_status a = StAccepted \<and> ap_released a \<noteq> None
      then List.find (\<lambda>x. Some (de_id x) = ap_decision_id a \<and> de_application x = ap_id a
             \<and> de_outcome x = OutAccepted \<and> de_released_at x \<noteq> None) (decisions d)
      else None)"

definition response_of :: "env \<Rightarrow> db \<Rightarrow> application_row \<Rightarrow> rsvp_response option" where
  "response_of e d a =
     map_option (\<lambda>x.
       let r = List.find (\<lambda>r. at_decision r = de_id x) (attendance d)
       in \<lparr>rr_application = uuid_text e (ap_id a), rr_decision = uuid_text e (de_id x),
           rr_status = map_option at_status r,
           rr_lock = (case r of None \<Rightarrow> 0 | Some y \<Rightarrow> at_lock y),
           rr_at = map_option at_at r\<rparr>)
     (current_acceptance d a)"

definition rsvp_for_applicant ::
    "env \<Rightarrow> user \<Rightarrow> string \<Rightarrow> (db, rsvp_error, rsvp_response) tx" where
  "rsvp_for_applicant e actor application = query (\<lambda>d.
     if \<not> has_role actor RoleApplicant then Inl RsvpForbidden
     else bindE (from_option RsvpNotFound (parse_uuid e application)) (\<lambda>i.
          bindE (from_option RsvpInternal (parse_uuid e (user_id actor))) (\<lambda>applicant.
          from_option RsvpNotFound
            (case List.find (\<lambda>a. ap_id a = i \<and> ap_applicant a = applicant) (applications d) of
               None \<Rightarrow> None | Some a \<Rightarrow> response_of e d a))))"

fun parse_all :: "env \<Rightarrow> string list \<Rightarrow> uuid list option" where
  "parse_all e [] = Some []"
| "parse_all e (s # ss) =
     (case parse_uuid e s of None \<Rightarrow> None | Some i \<Rightarrow> map_option ((#) i) (parse_all e ss))"

definition rsvps_for_organizer ::
    "env \<Rightarrow> user \<Rightarrow> string list \<Rightarrow> (db, rsvp_error, (string \<times> rsvp_response) list) tx" where
  "rsvps_for_organizer e actor ids = query (\<lambda>d.
     if \<not> has_role actor RoleOrganizer then Inl RsvpForbidden
     else bindE (from_option RsvpNotFound (parse_all e ids)) (\<lambda>is.
       Inr (concat (map (\<lambda>a. case response_of e d a of None \<Rightarrow> []
                             | Some r \<Rightarrow> [(rr_application r, r)])
              (filter (\<lambda>a. ap_id a \<in> set is) (applications d))))))"

text \<open>The \<^verbatim>\<open>INSERT ... ON CONFLICT (decision_id) DO UPDATE ... RETURNING\<close>.\<close>

definition upsert_attendance ::
    "env \<Rightarrow> uuid \<Rightarrow> rsvp_status \<Rightarrow> uuid \<Rightarrow> db \<Rightarrow> db_error + attendance_row \<times> db" where
  "upsert_attendance e decision status by d =
     (case List.find (\<lambda>r. at_decision r = decision) (attendance d) of
        None \<Rightarrow>
          if decision \<notin> de_id ` set (decisions d) \<or> \<not> user_exists by d then Inl ForeignKeyViolation
          else let r = \<lparr>at_decision = decision, at_status = status, at_lock = 1, at_by = by,
                        at_at = now e\<rparr>
               in Inr (r, d\<lparr>attendance := attendance d @ [r]\<rparr>)
      | Some x \<Rightarrow>
          if \<not> int4_ok (at_lock x + 1) then Inl IntegerOutOfRange
          else if \<not> user_exists by d then Inl ForeignKeyViolation
          else let f = (\<lambda>x. x\<lparr>at_status := status, at_lock := at_lock x + 1, at_by := by,
                              at_at := clock e\<rparr>)
               in Inr (f x, d\<lparr>attendance := upd_rows (\<lambda>r. at_decision r = decision) f (attendance d)\<rparr>))"

definition respond_writes ::
    "env \<Rightarrow> uuid \<Rightarrow> uuid \<Rightarrow> uuid \<Rightarrow> rsvp_status \<Rightarrow> rsvp_response \<Rightarrow> db
      \<Rightarrow> rsvp_error + rsvp_response \<times> db" where
  "respond_writes e applicant i decision status r d =
     bindE (r_db (upsert_attendance e decision status applicant d)) (\<lambda>(row, d1).
     bindE (r_db (insert_audit e (Some applicant) ''attendance.rsvp_changed'' ''application'' i
             (JObject [(''decisionId'', JString (rr_decision r)),
                       (''status'', JString (string_of_rsvp (at_status row))),
                       (''lockVersion'', JNumber (itoa (at_lock row)))]) d1)) (\<lambda>d2.
     Inr (r\<lparr>rr_status := Some (at_status row), rr_lock := at_lock row, rr_at := Some (at_at row)\<rparr>,
          d2)))"

definition respond :: "env \<Rightarrow> user \<Rightarrow> rsvp_input \<Rightarrow> (db, rsvp_error, rsvp_response) tx" where
  "respond e actor input = transact (\<lambda>d.
     if \<not> has_role actor RoleApplicant then Inl RsvpForbidden
     else if \<not> valid_rsvp_status (ri_status input) \<or> ri_lock input < 0 then Inl RsvpInvalid
     else bindE (from_option RsvpNotFound (parse_uuid e (ri_application input))) (\<lambda>i.
          bindE (from_option RsvpInvalid (parse_uuid e (ri_decision input))) (\<lambda>decision.
          bindE (from_option RsvpInternal (parse_uuid e (user_id actor))) (\<lambda>applicant.
          bindE (from_option RsvpNotFound (List.find (\<lambda>a. ap_id a = i \<and> ap_applicant a = applicant
                   \<and> ap_status a = StAccepted \<and> ap_released a \<noteq> None) (applications d))) (\<lambda>a.
          if ap_decision_id a \<noteq> Some decision then Inl RsvpConflict
          else bindE (from_option RsvpNotFound (response_of e d a)) (\<lambda>r.
          bindE (from_option RsvpInvalid (rsvp_of_string (ri_status input))) (\<lambda>status.
          if rr_status r = Some status then Inr (r, d)
          else if rr_lock r \<noteq> ri_lock input then Inl RsvpConflict
          else respond_writes e applicant i decision status r d)))))))"

section \<open>The decision invariant\<close>

text \<open>
  The application's cache of its current decision is what the decision says: an application
  has a decided status exactly when it has a current decision, which is a decision of this
  application, and the cached outcome, status and release time are those of that decision.
  An accepted application has its attendee; there is one attendee per application and user;
  every RSVP answers a released acceptance.
\<close>

definition decided :: "app_status \<Rightarrow> bool" where
  "decided s \<longleftrightarrow> s \<in> {StAccepted, StWaitlisted, StRejected}"

definition cache_ok :: "decision_row list \<Rightarrow> application_row \<Rightarrow> bool" where
  "cache_ok ds a \<longleftrightarrow>
     (case ap_decision_id a of
        None \<Rightarrow> \<not> decided (ap_status a) \<and> ap_decision a = None \<and> ap_released a = None
      | Some i \<Rightarrow> (\<exists>x\<in>set ds. de_id x = i \<and> de_application x = ap_id a \<and>
            ap_decision a = Some (de_outcome x) \<and>
            ap_status a = status_of_outcome (de_outcome x) \<and>
            ap_released a = de_released_at x))"

definition attendee_ok :: "attendee_row list \<Rightarrow> application_row \<Rightarrow> bool" where
  "attendee_ok ts a \<longleftrightarrow>
     (ap_status a = StAccepted \<longrightarrow>
        (\<exists>x\<in>set ts. ad_application x = ap_id a \<and> ad_user x = ap_applicant a \<and>
           ad_cycle x = ap_cycle a))"

definition decisions_inv :: "db \<Rightarrow> bool" where
  "decisions_inv d \<longleftrightarrow>
     distinct_on ap_id (applications d) \<and>
     distinct_on de_id (decisions d) \<and> distinct_on ad_id (attendees d) \<and>
     distinct_on ad_application (attendees d) \<and>
     distinct_on (\<lambda>x. (ad_cycle x, ad_user x)) (attendees d) \<and>
     distinct_on at_decision (attendance d) \<and>
     (\<forall>a\<in>set (applications d). cache_ok (decisions d) a \<and> attendee_ok (attendees d) a) \<and>
     (\<forall>x\<in>set (decisions d). de_application x \<in> ap_id ` set (applications d) \<and>
        (de_released_at x = None \<longleftrightarrow> de_released_by x = None)) \<and>
     (\<forall>r\<in>set (attendance d). 0 < at_lock r \<and>
        (\<exists>x\<in>set (decisions d). de_id x = at_decision r \<and> de_outcome x = OutAccepted \<and>
           de_released_at x \<noteq> None)) \<and>
     (\<forall>x\<in>set (attendees d). \<exists>a\<in>set (applications d). ap_id a = ad_application x \<and>
        ap_applicant a = ad_user x \<and> ap_cycle a = ad_cycle x)"

lemma decided_status [simp]: "decided (status_of_outcome x)"
  by (cases x) (simp_all add: decided_def status_of_outcome_def)

lemma status_of_outcome_simps [simp]:
  "status_of_outcome x = StAccepted \<longleftrightarrow> x = OutAccepted"
  "status_of_outcome x \<noteq> StDraft"
  "status_of_outcome x \<noteq> StSubmitted"
  by (cases x; simp add: status_of_outcome_def)+

section \<open>Recording a decision\<close>

lemma lock_application_for_decision_Some:
  assumes "lock_application_for_decision i d = Some l"
  obtains a u where "a \<in> set (applications d)" and "ap_id a = i" and "u \<in> set (users d)"
    and "u_id u = ap_applicant a"
    and "l = \<lparr>dl_application = i, dl_cycle = ap_cycle a, dl_applicant = ap_applicant a,
                dl_status = ap_status a, dl_email = u_email u, dl_name = display_name_of u\<rparr>"
  using assms
  by (auto simp: lock_application_for_decision_def split: option.splits dest!: find_SomeD)

lemma insert_decision_Inr:
  assumes "insert_decision e i out reason by supersedes d = Inr (r, d')"
  shows "r = \<lparr>de_id = fresh e 0, de_application = i, de_outcome = out, de_reason = reason,
              de_by = by, de_at = now e, de_released_by = None, de_released_at = None,
              de_supersedes = supersedes, de_created = now e\<rparr>"
    and "d' = d\<lparr>decisions := decisions d @ [r]\<rparr>"
    and "fresh e 0 \<notin> de_id ` set (decisions d)"
  using assms by (auto simp: insert_decision_def Let_def split: if_splits)

lemma insert_audit_frame:
  "insert_audit e actor ev st sub md d = Inr d' \<Longrightarrow> \<exists>x. d' = d\<lparr>audit := audit d @ [x]\<rparr>"
  by (auto simp: insert_audit_Inr)

text \<open>What admitting the applicant of \<open>l\<close> does to the attendees.\<close>

definition attendee_added ::
    "env \<Rightarrow> decision_lock_row \<Rightarrow> attendee_row list \<Rightarrow> attendee_row list \<Rightarrow> bool" where
  "attendee_added e l xs ys \<longleftrightarrow>
     (if dl_application l \<in> ad_application ` set xs then ys = xs
      else (dl_cycle l, dl_applicant l) \<notin> (\<lambda>x. (ad_cycle x, ad_user x)) ` set xs \<and>
           fresh e 1 \<notin> ad_id ` set xs \<and>
           (\<exists>x. ad_id x = fresh e 1 \<and> ad_application x = dl_application l \<and>
              ad_cycle x = dl_cycle l \<and> ad_user x = dl_applicant l \<and> ys = xs @ [x]))"

lemma upsert_accepted_attendee_Inr:
  assumes "upsert_accepted_attendee e l d = Inr ((i, created), d')"
  shows "\<exists>ys. d' = d\<lparr>attendees := ys\<rparr> \<and> attendee_added e l (attendees d) ys"
proof (cases "List.find (\<lambda>x. ad_application x = dl_application l) (attendees d)")
  case None
  then have "dl_application l \<notin> ad_application ` set (attendees d)"
    by (auto dest: find_NoneD)
  with None assms show ?thesis
    by (auto simp: upsert_accepted_attendee_def attendee_added_def split: if_split_asm)
next
  case (Some x)
  then have "dl_application l \<in> ad_application ` set (attendees d)" by (force dest: find_SomeD)
  with Some assms show ?thesis
    by (auto simp: upsert_accepted_attendee_def attendee_added_def split: if_split_asm
        intro!: exI [of _ "attendees d"])
qed

lemma admit_attendee_Inr:
  assumes "admit_attendee e actor l d = Inr d'"
  shows "\<exists>ys rs aus. d' = d\<lparr>attendees := ys, attendee_roles := rs, audit := audit d @ aus\<rparr> \<and>
    attendee_added e l (attendees d) ys"
proof -
  from assms obtain i created d1 where
    u: "upsert_accepted_attendee e l d = Inr ((i, created), d1)" and
    w: "(if created
         then d_db (insert_attendee_created_audit e actor i (uuid_text e (dl_application l))
                (seed_attendee_hacker_role i d1))
         else Inr (seed_attendee_hacker_role i d1)) = Inr d'"
    by (auto simp: admit_attendee_def Let_def split: prod.split_asm)
  obtain ys where ys: "d1 = d\<lparr>attendees := ys\<rparr>" "attendee_added e l (attendees d) ys"
    using upsert_accepted_attendee_Inr [OF u] by blast
  obtain rs where rs: "seed_attendee_hacker_role i d1 = d1\<lparr>attendee_roles := rs\<rparr>"
  proof -
    have "d1 = d1\<lparr>attendee_roles := attendee_roles d1\<rparr>" by simp
    then show thesis using that unfolding seed_attendee_hacker_role_def by (metis (full_types))
  qed
  have "\<exists>aus. d' = d1\<lparr>attendee_roles := rs, audit := audit d1 @ aus\<rparr>"
  proof (cases created)
    case True
    with w rs show ?thesis
      by (auto simp: insert_attendee_created_audit_def insert_audit_Inr)
  next
    case False
    with w rs have "d' = d1\<lparr>attendee_roles := rs\<rparr>" by simp
    then have "d' = d1\<lparr>attendee_roles := rs, audit := audit d1 @ []\<rparr>" by auto
    then show ?thesis by blast
  qed
  then show ?thesis using ys by auto
qed

text \<open>The effect of recording: the decision is appended, the application's cache points to it
  and is not released, and an accepted applicant has an attendee.\<close>

definition cache_decision :: "env \<Rightarrow> outcome \<Rightarrow> uuid \<Rightarrow> application_row \<Rightarrow> application_row" where
  "cache_decision e out i a =
     a\<lparr>ap_status := status_of_outcome out, ap_decision := Some out, ap_decision_id := Some i,
       ap_released := None, ap_updated := now e\<rparr>"

definition recorded_effect ::
    "env \<Rightarrow> uuid \<Rightarrow> decision_lock_row \<Rightarrow> outcome \<Rightarrow> string option \<Rightarrow> uuid option \<Rightarrow> decision_row
      \<Rightarrow> db \<Rightarrow> db \<Rightarrow> bool" where
  "recorded_effect e actor l out reason supersedes x d d' \<longleftrightarrow>
     x = \<lparr>de_id = fresh e 0, de_application = dl_application l, de_outcome = out,
          de_reason = reason, de_by = actor, de_at = now e, de_released_by = None,
          de_released_at = None, de_supersedes = supersedes, de_created = now e\<rparr> \<and>
     fresh e 0 \<notin> de_id ` set (decisions d) \<and>
     (if out = OutAccepted then attendee_added e l (attendees d) (attendees d')
      else attendees d' = attendees d) \<and>
     (\<exists>rs aus. d' = d\<lparr>decisions := decisions d @ [x],
        applications := upd_rows (\<lambda>a. ap_id a = dl_application l) (cache_decision e out (de_id x))
          (applications d),
        attendees := attendees d', attendee_roles := rs, audit := audit d @ aus\<rparr>)"

lemma record_writes_Inr:
  assumes "record_writes e actor l out reason supersedes d = Inr (v, d')"
  obtains x where "recorded_effect e actor l out reason supersedes x d d'"
    and "v = decision_from_row e x"
proof -
  let ?upd = "\<lambda>i. update_application_decision_cache e (dl_application l) out i"
  from assms obtain x d1 d3 where
    i: "insert_decision e (dl_application l) out reason actor supersedes d = Inr (x, d1)" and
    a: "(if out = OutAccepted then admit_attendee e actor l (?upd (de_id x) d1)
         else Inr (?upd (de_id x) d1)) = Inr d3" and
    w: "insert_decision_recorded_audit e actor (de_id x) (uuid_text e (dl_application l)) out d3
          = Inr d'" and v: "v = decision_from_row e x"
    by (auto simp: record_writes_def Let_def split: prod.split_asm)
  note ins = insert_decision_Inr [OF i]
  have upd: "?upd (de_id x) d1 = d\<lparr>decisions := decisions d @ [x],
      applications := upd_rows (\<lambda>a. ap_id a = dl_application l) (cache_decision e out (de_id x))
        (applications d)\<rparr>" (is "_ = ?d2")
    by (simp add: update_application_decision_cache_def ins(2) cache_decision_def [abs_def])
  have "\<exists>ys rs aus. d3 = ?d2\<lparr>attendees := ys, attendee_roles := rs, audit := audit d @ aus\<rparr> \<and>
      (if out = OutAccepted then attendee_added e l (attendees d) ys else ys = attendees d)"
  proof (cases "out = OutAccepted")
    case True
    then have "admit_attendee e actor l ?d2 = Inr d3" using a unfolding upd by simp
    from admit_attendee_Inr [OF this] True show ?thesis by auto
  next
    case False
    then have "d3 = ?d2" using a unfolding upd by simp
    with False show ?thesis
      by (intro exI [of _ "attendees d"] exI [of _ "attendee_roles d"] exI [of _ "[]"]) simp
  qed
  then obtain ys rs aus where
    d3: "d3 = ?d2\<lparr>attendees := ys, attendee_roles := rs, audit := audit d @ aus\<rparr>" and
    ys: "if out = OutAccepted then attendee_added e l (attendees d) ys else ys = attendees d"
    by blast
  obtain y where "d' = d3\<lparr>audit := audit d3 @ [y]\<rparr>"
    using insert_audit_frame w unfolding insert_decision_recorded_audit_def by blast
  then have d': "d' = ?d2\<lparr>attendees := ys, attendee_roles := rs, audit := audit d @ (aus @ [y])\<rparr>"
    by (simp add: d3)
  have "\<exists>rs aus. d' = ?d2\<lparr>attendees := attendees d', attendee_roles := rs, audit := audit d @ aus\<rparr>"
    by (rule exI [of _ rs], rule exI [of _ "aus @ [y]"]) (simp add: d')
  moreover have "attendees d' = ys" by (simp add: d')
  ultimately have "recorded_effect e actor l out reason supersedes x d d'"
    unfolding recorded_effect_def using ins(1,3) ys by simp
  with v that show thesis by blast
qed

lemma cache_ok_mono: "cache_ok ds a \<Longrightarrow> set ds \<subseteq> set es \<Longrightarrow> cache_ok es a"
  by (auto simp: cache_ok_def split: option.splits)

lemma attendee_ok_mono: "attendee_ok xs a \<Longrightarrow> set xs \<subseteq> set ys \<Longrightarrow> attendee_ok ys a"
  by (auto simp: attendee_ok_def)

lemma attendee_added_sub: "attendee_added e l xs ys \<Longrightarrow> set xs \<subseteq> set ys"
  by (auto simp: attendee_added_def split: if_splits)

lemma attendee_added_keys:
  assumes "attendee_added e l xs ys" and "distinct_on ad_id xs" and "distinct_on ad_application xs"
    and "distinct_on (\<lambda>x. (ad_cycle x, ad_user x)) xs"
  shows "distinct_on ad_id ys" and "distinct_on ad_application ys"
    and "distinct_on (\<lambda>x. (ad_cycle x, ad_user x)) ys"
  using assms by (auto simp: attendee_added_def split: if_splits)

lemma attendee_added_new:
  assumes "attendee_added e l xs ys"
  obtains y where "y \<in> set ys" and "ad_application y = dl_application l"
    and "y \<in> set xs \<or> ad_user y = dl_applicant l \<and> ad_cycle y = dl_cycle l"
  using assms by (force simp: attendee_added_def split: if_splits)

lemma attendee_added_from:
  "attendee_added e l xs ys \<Longrightarrow> y \<in> set ys \<Longrightarrow> y \<in> set xs \<or>
     ad_application y = dl_application l \<and> ad_user y = dl_applicant l \<and> ad_cycle y = dl_cycle l"
  by (auto simp: attendee_added_def split: if_splits)

lemma cache_decision_simps [simp]:
  "ap_id (cache_decision e out i a) = ap_id a"
  "ap_applicant (cache_decision e out i a) = ap_applicant a"
  "ap_cycle (cache_decision e out i a) = ap_cycle a"
  "ap_form (cache_decision e out i a) = ap_form a"
  "ap_submitted (cache_decision e out i a) = ap_submitted a"
  "ap_status (cache_decision e out i a) = status_of_outcome out"
  "ap_decision_id (cache_decision e out i a) = Some i"
  "ap_decision (cache_decision e out i a) = Some out"
  "ap_released (cache_decision e out i a) = None"
  by (simp_all add: cache_decision_def)

lemma decisions_inv_recorded:
  assumes inv: "decisions_inv d" and eff: "recorded_effect e actor l out reason supersedes x d d'"
    and a: "a \<in> set (applications d)" "dl_application l = ap_id a" "dl_applicant l = ap_applicant a"
      "dl_cycle l = ap_cycle a"
  shows "decisions_inv d'"
proof -
  let ?f = "cache_decision e out (de_id x)"
  obtain rs aus where d': "d' = d\<lparr>decisions := decisions d @ [x],
      applications := upd_rows (\<lambda>b. ap_id b = ap_id a) ?f (applications d),
      attendees := attendees d', attendee_roles := rs, audit := audit d @ aus\<rparr>"
    using eff unfolding recorded_effect_def a(2) by blast
  have eq: "decisions d' = decisions d @ [x]" "attendance d' = attendance d"
    "applications d' = upd_rows (\<lambda>b. ap_id b = ap_id a) ?f (applications d)"
    by (subst d', simp)+
  have x: "de_id x = fresh e 0" "de_application x = ap_id a" "de_outcome x = out"
    "de_released_at x = None" "de_released_by x = None" "fresh e 0 \<notin> de_id ` set (decisions d)"
    using eff by (simp_all add: recorded_effect_def a(2))
  have att: "if out = OutAccepted then attendee_added e l (attendees d) (attendees d')
      else attendees d' = attendees d"
    using eff by (simp add: recorded_effect_def)
  have keys: "distinct_on ap_id (applications d)" "distinct_on de_id (decisions d)"
    "distinct_on ad_id (attendees d)" "distinct_on ad_application (attendees d)"
    "distinct_on (\<lambda>x. (ad_cycle x, ad_user x)) (attendees d)"
    using inv by (simp_all add: decisions_inv_def)
  have keys': "distinct_on ad_id (attendees d')" "distinct_on ad_application (attendees d')"
    "distinct_on (\<lambda>x. (ad_cycle x, ad_user x)) (attendees d')"
    "set (attendees d) \<subseteq> set (attendees d')"
    using att keys attendee_added_keys attendee_added_sub by (cases "out = OutAccepted"; fastforce)+
  have apps: "(\<exists>b\<in>set (applications d'). ap_id b = i \<and> ap_applicant b = u \<and> ap_cycle b = c) \<longleftrightarrow>
      (\<exists>b\<in>set (applications d). ap_id b = i \<and> ap_applicant b = u \<and> ap_cycle b = c)" for i u c
    unfolding eq by (rule bex_upd_rows) simp
  have ids: "ap_id ` set (applications d') = ap_id ` set (applications d)"
    by (simp add: eq image_upd_rows)
  have from_d: "\<forall>y\<in>set (attendees d'). \<exists>b\<in>set (applications d').
      ap_id b = ad_application y \<and> ap_applicant b = ad_user y \<and> ap_cycle b = ad_cycle y"
    unfolding apps
  proof
    fix y assume "y \<in> set (attendees d')"
    then have "y \<in> set (attendees d) \<or>
        ad_application y = ap_id a \<and> ad_user y = ap_applicant a \<and> ad_cycle y = ap_cycle a"
      using att attendee_added_from [of e l _ _ y] a by (cases "out = OutAccepted"; fastforce)
    then show "\<exists>b\<in>set (applications d).
        ap_id b = ad_application y \<and> ap_applicant b = ad_user y \<and> ap_cycle b = ad_cycle y"
      using inv a(1) by (auto simp: decisions_inv_def)
  qed
  have app_ok: "cache_ok (decisions d') b \<and> attendee_ok (attendees d') b"
    if mem: "b \<in> set (applications d')" for b
  proof -
    obtain c where c: "c \<in> set (applications d)" "b = (if ap_id c = ap_id a then ?f c else c)"
      using mem unfolding eq by (rule upd_rowsE)
    have old: "cache_ok (decisions d) c" "attendee_ok (attendees d) c"
      using inv c by (simp_all add: decisions_inv_def)
    show ?thesis
    proof (cases "ap_id c = ap_id a")
      case True
      then have ca: "c = a" using keys(1) c(1) a(1) by (auto dest: distinct_onD)
      then have b: "b = ?f a" using c(2) by simp
      have "cache_ok (decisions d') b" using x by (simp add: cache_ok_def b eq)
      moreover have "attendee_ok (attendees d') b"
      proof (cases "out = OutAccepted")
        case True
        then have "attendee_added e l (attendees d) (attendees d')" using att by simp
        then obtain y where y: "y \<in> set (attendees d')" "ad_application y = dl_application l"
          by (rule attendee_added_new)
        with from_d obtain b' where b': "b' \<in> set (applications d')" "ap_id b' = ad_application y"
          "ap_applicant b' = ad_user y" "ap_cycle b' = ad_cycle y" by blast
        have "distinct_on ap_id (applications d')"
          using keys(1) by (simp add: eq distinct_on_upd_rows)
        then have "b' = b" by (rule distinct_onD) (use b' mem y b a in simp_all)
        with y b' show ?thesis by (auto simp: attendee_ok_def)
      qed (simp add: attendee_ok_def b)
      ultimately show ?thesis by blast
    next
      case False
      then have "b = c" using c(2) by simp
      then show ?thesis
        using cache_ok_mono [OF old(1), of "decisions d'"] attendee_ok_mono [OF old(2) keys'(4)]
        by (auto simp: eq)
    qed
  qed
  have "distinct_on ap_id (applications d')" "distinct_on de_id (decisions d')"
    using keys x by (simp_all add: eq distinct_on_upd_rows)
  moreover have "\<forall>y\<in>set (decisions d'). de_application y \<in> ap_id ` set (applications d') \<and>
      (de_released_at y = None \<longleftrightarrow> de_released_by y = None)"
    using inv x a(1) unfolding ids by (auto simp: decisions_inv_def eq)
  moreover have "distinct_on at_decision (attendance d')" "\<forall>r\<in>set (attendance d'). 0 < at_lock r \<and>
      (\<exists>y\<in>set (decisions d'). de_id y = at_decision r \<and> de_outcome y = OutAccepted \<and>
         de_released_at y \<noteq> None)"
    using inv by (auto simp: decisions_inv_def eq)
  ultimately show ?thesis
    using keys' from_d app_ok unfolding decisions_inv_def by blast
qed

text \<open>Changing applications without touching what the intake invariant reads.\<close>

lemma intake_inv_update:
  assumes inv: "intake_inv pa d"
    and f: "\<And>a. P a \<Longrightarrow> ap_id (f a) = ap_id a" "\<And>a. P a \<Longrightarrow> ap_cycle (f a) = ap_cycle a"
      "\<And>a. P a \<Longrightarrow> ap_applicant (f a) = ap_applicant a" "\<And>a. P a \<Longrightarrow> ap_form (f a) = ap_form a"
      "\<And>a. P a \<Longrightarrow> ap_submitted (f a) = ap_submitted a"
      "\<And>a. P a \<Longrightarrow> ap_status (f a) = StDraft \<Longrightarrow> ap_status a = StDraft"
    and d': "applications d' = upd_rows P f (applications d)" "forms d' = forms d"
      "answers_table d' = answers_table d" "distinct_on ob_dedupe (outbox d')"
  shows "intake_inv pa d'"
proof -
  have ans: "answers_of i d' = answers_of i d" for i by (simp add: answers_of_def d')
  have "stored_answers_ok pa d' a" if mem: "a \<in> set (applications d')" for a
  proof -
    obtain b where b: "b \<in> set (applications d)" "a = (if P b then f b else b)"
      using mem unfolding d'(1) by (rule upd_rowsE)
    then have "ap_id a = ap_id b" "ap_form a = ap_form b" "ap_submitted a = ap_submitted b"
      using f by simp_all
    moreover have "stored_answers_ok pa d b" using inv b by (simp add: intake_inv_def)
    ultimately show ?thesis by (simp add: stored_answers_ok_def ans d')
  qed
  moreover have "\<forall>a\<in>set (applications d'). (ap_form a, ap_cycle a) \<in>
      (\<lambda>f. (fm_id f, fm_cycle f)) ` set (forms d')"
    unfolding d'(1) by (subst ball_upd_rows) (use inv f in \<open>simp_all add: intake_inv_def d'\<close>)
  moreover have "\<forall>a\<in>set (applications d'). ap_status a = StDraft \<longrightarrow> ap_submitted a = None"
  proof (intro ballI impI)
    fix a assume a: "a \<in> set (applications d')" "ap_status a = StDraft"
    obtain b where b: "b \<in> set (applications d)" "a = (if P b then f b else b)"
      using a(1) unfolding d'(1) by (rule upd_rowsE)
    then have "ap_status b = StDraft" "ap_submitted a = ap_submitted b"
      using f(5,6) a(2) by (cases "P b"; simp)+
    then show "ap_submitted a = None" using inv b(1) by (simp add: intake_inv_def)
  qed
  moreover have "\<forall>r\<in>set (answers_table d'). an_application r \<in> ap_id ` set (applications d')"
    using inv by (simp add: intake_inv_def d' image_upd_rows f)
  moreover have "distinct_on ap_id (applications d')"
    "distinct_on (\<lambda>a. (ap_cycle a, ap_applicant a)) (applications d')"
    "distinct_on fm_id (forms d')"
    using inv by (simp_all add: intake_inv_def d' distinct_on_upd_rows f)
  ultimately show ?thesis using d'(4) unfolding intake_inv_def by blast
qed

lemma users_inv_cong:
  "users d' = users d \<Longrightarrow> user_roles d' = user_roles d \<Longrightarrow> volunteers d' = volunteers d \<Longrightarrow>
     users_inv d' = users_inv d"
  by (simp add: users_inv_def user_exists_def)

lemma record_decision_Inr:
  assumes "record_decision e actor application result reason d = (Inr v, d')"
  obtains actor_id a u out l x where
    "has_role actor RoleOrganizer" and "parse_uuid e (user_id actor) = Some actor_id"
    and "parse_uuid e application = Some (ap_id a)" and "a \<in> set (applications d)"
    and "u \<in> set (users d)" and "u_id u = ap_applicant a"
    and "l = \<lparr>dl_application = ap_id a, dl_cycle = ap_cycle a, dl_applicant = ap_applicant a,
                dl_status = ap_status a, dl_email = u_email u, dl_name = display_name_of u\<rparr>"
    and "decision_eligible_status (ap_status a)" and "outcome_of_string result = Some out"
    and "recorded_effect e actor_id l out (optional_text reason)
           (map_option de_id (get_latest_decision (ap_id a) d)) x d d'"
    and "v = decision_from_row e x"
proof -
  from assms obtain actor_id i l out where
    g: "has_role actor RoleOrganizer" "parse_uuid e (user_id actor) = Some actor_id"
      "parse_uuid e application = Some i" and
    l: "lock_application_for_decision i d = Some l" "decision_eligible_status (dl_status l)" and
    out: "outcome_of_string result = Some out" and
    w: "record_writes e actor_id l out (optional_text reason)
          (map_option de_id (get_latest_decision i d)) d = Inr (v, d')"
    unfolding record_decision_def transact_Inr by (auto split: if_split_asm)
  obtain a u where a: "a \<in> set (applications d)" "ap_id a = i" "u \<in> set (users d)"
    "u_id u = ap_applicant a" and
    leq: "l = \<lparr>dl_application = i, dl_cycle = ap_cycle a, dl_applicant = ap_applicant a,
                dl_status = ap_status a, dl_email = u_email u, dl_name = display_name_of u\<rparr>"
    by (rule lock_application_for_decision_Some [OF l(1)])
  obtain x where "recorded_effect e actor_id l out (optional_text reason)
      (map_option de_id (get_latest_decision i d)) x d d'" "v = decision_from_row e x"
    by (rule record_writes_Inr [OF w])
  with g l(2) out a(1,3,4) a(2) [symmetric] leq show thesis by (intro that) simp_all
qed

lemma get_latest_decision_eq:
  assumes "decisions_inv d" and "a \<in> set (applications d)"
  shows "map_option de_id (get_latest_decision (ap_id a) d) = ap_decision_id a"
proof -
  have keys: "distinct_on ap_id (applications d)" "distinct_on de_id (decisions d)"
    using assms(1) by (simp_all add: decisions_inv_def)
  have a: "List.find (\<lambda>x. ap_id x = ap_id a) (applications d) = Some a"
    by (rule find_eq_Some_key [OF keys(1) assms(2)])
  show ?thesis
  proof (cases "ap_decision_id a")
    case None
    with a show ?thesis by (simp add: get_latest_decision_def)
  next
    case (Some j)
    have "cache_ok (decisions d) a" using assms by (simp add: decisions_inv_def)
    then obtain x where "x \<in> set (decisions d)" "de_id x = j" using Some by (auto simp: cache_ok_def)
    then have "List.find (\<lambda>x. de_id x = j) (decisions d) = Some x"
      using find_eq_Some_key [OF keys(2), of x] by simp
    with a Some \<open>de_id x = j\<close> show ?thesis by (simp add: get_latest_decision_def)
  qed
qed

lemma get_released_None:
  assumes "distinct_on ap_id (applications d)" and "a \<in> set (applications d)" and "ap_released a = None"
  shows "get_released_decision_for_applicant (ap_id a) applicant d = None"
proof -
  have "List.find (\<lambda>b. ap_id b = ap_id a \<and> ap_applicant b = applicant \<and> ap_released b \<noteq> None)
      (applications d) = None"
    using assms by (auto simp: find_None_iff dest: distinct_onD)
  then show ?thesis by (simp add: get_released_decision_for_applicant_def)
qed

text \<open>The declarative contract of \<^verbatim>\<open>Record\<close>.\<close>

definition record_contract ::
    "env \<Rightarrow> user \<Rightarrow> string \<Rightarrow> string \<Rightarrow> db \<Rightarrow> decision_view \<Rightarrow> db \<Rightarrow> bool" where
  "record_contract e actor application result d v d' \<longleftrightarrow>
     has_role actor RoleOrganizer \<and>
     (\<exists>a\<in>set (applications d). \<exists>x out.
        parse_uuid e application = Some (ap_id a) \<and> decision_eligible_status (ap_status a) \<and>
        outcome_of_string result = Some out \<and>
        decisions d' = decisions d @ [x] \<and> de_application x = ap_id a \<and> de_outcome x = out \<and>
        Some (de_by x) = parse_uuid e (user_id actor) \<and> de_released_at x = None \<and>
        de_supersedes x = ap_decision_id a \<and> v = decision_from_row e x \<and>
        applications d' = upd_rows (\<lambda>b. ap_id b = ap_id a) (cache_decision e out (de_id x))
          (applications d) \<and>
        set (attendees d) \<subseteq> set (attendees d') \<and>
        (out = OutAccepted \<longrightarrow> (\<exists>!t. t \<in> set (attendees d') \<and> ad_application t = ap_id a)) \<and>
        outbox d' = outbox d \<and> attendance d' = attendance d \<and>
        (\<forall>applicant. get_released_decision_for_applicant (ap_id a) applicant d' = None))"

lemma record_decision_contract:
  assumes run: "record_decision e actor application result reason d = (Inr v, d')"
    and inv: "decisions_inv d"
  shows "record_contract e actor application result d v d'" and "decisions_inv d'"
    and "intake_inv pa d \<Longrightarrow> intake_inv pa d'" and "users_inv d \<Longrightarrow> users_inv d'"
proof -
  obtain actor_id a u out l x where
    g: "has_role actor RoleOrganizer" "parse_uuid e (user_id actor) = Some actor_id"
      "parse_uuid e application = Some (ap_id a)" "a \<in> set (applications d)" and
    l: "l = \<lparr>dl_application = ap_id a, dl_cycle = ap_cycle a, dl_applicant = ap_applicant a,
             dl_status = ap_status a, dl_email = u_email u, dl_name = display_name_of u\<rparr>" and
    st: "decision_eligible_status (ap_status a)" "outcome_of_string result = Some out" and
    eff: "recorded_effect e actor_id l out (optional_text reason)
            (map_option de_id (get_latest_decision (ap_id a) d)) x d d'" and
    v: "v = decision_from_row e x"
    by (rule record_decision_Inr [OF run])
  let ?f = "cache_decision e out (de_id x)"
  obtain rs aus where d': "d' = d\<lparr>decisions := decisions d @ [x],
      applications := upd_rows (\<lambda>b. ap_id b = ap_id a) ?f (applications d),
      attendees := attendees d', attendee_roles := rs, audit := audit d @ aus\<rparr>"
    using eff unfolding recorded_effect_def l by auto
  have eq: "decisions d' = decisions d @ [x]" "attendance d' = attendance d" "outbox d' = outbox d"
    "applications d' = upd_rows (\<lambda>b. ap_id b = ap_id a) ?f (applications d)"
    "users d' = users d" "user_roles d' = user_roles d" "volunteers d' = volunteers d"
    "forms d' = forms d" "answers_table d' = answers_table d"
    by (subst d', simp)+
  show inv': "decisions_inv d'"
    by (rule decisions_inv_recorded [OF inv eff g(4)]) (simp_all add: l)
  show "users_inv d \<Longrightarrow> users_inv d'" using users_inv_cong [of d' d] eq by simp
  show "intake_inv pa d'" if "intake_inv pa d"
    by (rule intake_inv_update [OF that _ _ _ _ _ _ eq(4)])
       (use that in \<open>simp_all add: eq intake_inv_def\<close>)
  have att: "if out = OutAccepted then attendee_added e l (attendees d) (attendees d')
      else attendees d' = attendees d"
    using eff by (simp add: recorded_effect_def)
  have sub: "set (attendees d) \<subseteq> set (attendees d')"
    using att attendee_added_sub by (cases "out = OutAccepted"; fastforce)
  have b: "?f a \<in> set (applications d')" using g(4) by (force simp: eq set_upd_rows)
  have keys: "distinct_on ap_id (applications d')" "distinct_on ad_application (attendees d')"
    using inv' by (simp_all add: decisions_inv_def)
  have one: "\<exists>!t. t \<in> set (attendees d') \<and> ad_application t = ap_id a" if acc: "out = OutAccepted"
  proof -
    have "attendee_ok (attendees d') (?f a)" using inv' b by (simp add: decisions_inv_def)
    then obtain t where "t \<in> set (attendees d')" "ad_application t = ap_id a"
      using acc by (auto simp: attendee_ok_def)
    then show ?thesis using keys(2) by (metis distinct_onD)
  qed
  have hidden: "\<forall>applicant. get_released_decision_for_applicant (ap_id a) applicant d' = None"
    using get_released_None [OF keys(1) b] by simp
  have x: "de_application x = ap_id a" "de_outcome x = out" "de_by x = actor_id"
    "de_released_at x = None" "de_supersedes x = ap_decision_id a"
    using eff get_latest_decision_eq [OF inv g(4)] by (simp_all add: recorded_effect_def l)
  show "record_contract e actor application result d v d'"
    unfolding record_contract_def
    using g st eq x v sub one hidden
    by (intro conjI bexI [of _ a] exI [of _ x] exI [of _ out]) simp_all
qed

text \<open>C10. Recording a decision is append-only: an organizer's success adds exactly one
  unreleased decision, which supersedes the application's current one, points the
  application's cache at it, gives an accepted applicant exactly one attendee and removes none,
  queues no mail and changes no RSVP. Until it is released no applicant sees any outcome of
  the application, not even one that was visible before. Only submitted or decided
  applications can be decided.\<close>

theorem record_decision_spec:
  assumes "record_decision e actor application result reason d = (Inr v, d')" and "decisions_inv d"
  shows "record_contract e actor application result d v d'"
  by (rule record_decision_contract(1) [OF assms])

definition sample_decidable_db :: db where
  "sample_decidable_db = sample_submittable_db\<lparr>applications :=
     map (\<lambda>a. a\<lparr>ap_status := StSubmitted, ap_submitted := Some 40\<rparr>)
       (applications sample_submittable_db)\<rparr>"

lemma sample_decidable_inv: "decisions_inv sample_decidable_db"
  by (simp add: decisions_inv_def sample_decidable_db_def sample_submittable_db_def
      sample_intake_db_def sample_users_db_def empty_db_def cache_ok_def attendee_ok_def decided_def)

theorem record_decision_spec_witness:
  "\<exists>v d'. record_decision sample_env sample_organizer ''xxxxxxxxx'' ''accepted'' None
       sample_decidable_db = (Inr v, d') \<and>
     record_contract sample_env sample_organizer ''xxxxxxxxx'' ''accepted'' sample_decidable_db v d'"
proof -
  have "\<not> isl (fst (record_decision sample_env sample_organizer ''xxxxxxxxx'' ''accepted'' None
      sample_decidable_db))"
    by code_simp
  then obtain v d' where r: "record_decision sample_env sample_organizer ''xxxxxxxxx'' ''accepted''
      None sample_decidable_db = (Inr v, d')"
    by (metis isl_def prod.collapse sum.collapse(2))
  from record_decision_spec [OF r sample_decidable_inv] r show ?thesis by blast
qed

section \<open>Releasing a decision\<close>

lemma lock_current_decision_Some:
  assumes "lock_current_decision_for_release i d = Some r"
  obtains x a u where "x \<in> set (decisions d)" and "de_id x = i" and "a \<in> set (applications d)"
    and "ap_id a = de_application x" and "ap_decision_id a = Some i" and "u \<in> set (users d)"
    and "u_id u = ap_applicant a"
    and "r = \<lparr>rl_decision = x, rl_applicant = ap_applicant a, rl_email = u_email u\<rparr>"
  using assms
  by (auto simp: lock_current_decision_for_release_def split: option.splits dest!: find_SomeD)

definition mark_released :: "uuid \<Rightarrow> timestamp \<Rightarrow> decision_row \<Rightarrow> decision_row" where
  "mark_released by t x = x\<lparr>de_released_by := Some by, de_released_at := Some t\<rparr>"

definition show_release :: "env \<Rightarrow> timestamp \<Rightarrow> application_row \<Rightarrow> application_row" where
  "show_release e t a = a\<lparr>ap_released := Some t, ap_updated := now e\<rparr>"

lemma mark_released_simps [simp]:
  "de_id (mark_released by t x) = de_id x"
  "de_application (mark_released by t x) = de_application x"
  "de_outcome (mark_released by t x) = de_outcome x"
  "de_released_at (mark_released by t x) = Some t"
  "de_released_by (mark_released by t x) = Some by"
  by (simp_all add: mark_released_def)

lemma show_release_simps [simp]:
  "ap_id (show_release e t a) = ap_id a"
  "ap_applicant (show_release e t a) = ap_applicant a"
  "ap_cycle (show_release e t a) = ap_cycle a"
  "ap_form (show_release e t a) = ap_form a"
  "ap_status (show_release e t a) = ap_status a"
  "ap_submitted (show_release e t a) = ap_submitted a"
  "ap_decision (show_release e t a) = ap_decision a"
  "ap_decision_id (show_release e t a) = ap_decision_id a"
  "ap_released (show_release e t a) = Some t"
  by (simp_all add: show_release_def)

text \<open>The mail and the audit event of a release.\<close>

definition release_mail :: "env \<Rightarrow> decision_row \<Rightarrow> uuid \<Rightarrow> string \<Rightarrow> outbox_row" where
  "release_mail e x recipient address =
     \<lparr>ob_event = ''decision_release'', ob_recipient = Some recipient, ob_email = address,
      ob_template = ''decision_release'',
      ob_data = JObject [(''applicationId'', JString (uuid_text e (de_application x))),
                         (''outcome'', JString (string_of_outcome (de_outcome x)))],
      ob_dedupe = release_key e (de_id x), ob_created = now e\<rparr>"

definition release_event :: "env \<Rightarrow> uuid \<Rightarrow> decision_row \<Rightarrow> audit_row" where
  "release_event e by x =
     \<lparr>au_actor = Some by, au_event = ''decision_released'', au_subject_type = ''decision'',
      au_subject = de_id x,
      au_metadata = JObject [(''applicationId'', JString (uuid_text e (de_application x))),
                             (''outcome'', JString (string_of_outcome (de_outcome x)))],
      au_created = now e\<rparr>"

definition released_effect :: "env \<Rightarrow> uuid \<Rightarrow> decision_row \<Rightarrow> uuid \<Rightarrow> string \<Rightarrow> db \<Rightarrow> db \<Rightarrow> bool" where
  "released_effect e by x recipient address d d' \<longleftrightarrow>
     d' = d\<lparr>
        decisions := upd_rows (\<lambda>y. de_id y = de_id x) (mark_released by (now e)) (decisions d),
        applications := upd_rows (\<lambda>a. ap_id a = de_application x) (show_release e (now e))
          (applications d),
        outbox := (if release_key e (de_id x) \<in> ob_dedupe ` set (outbox d) then outbox d
                   else outbox d @ [release_mail e x recipient address]),
        audit := audit d @ [release_event e by x]\<rparr> \<and>
     distinct_on ob_dedupe (outbox d') \<and>
     count_rows (\<lambda>o1. ob_dedupe o1 = release_key e (de_id x)) (outbox d') = 1"

lemma release_writes_Inr:
  assumes run: "release_writes e actor r d = Inr (v, d')"
    and x: "rl_decision r = x" "x \<in> set (decisions d)" "de_released_at x = None"
    and keys: "distinct_on de_id (decisions d)" "distinct_on ob_dedupe (outbox d)"
  shows "released_effect e actor x (rl_applicant r) (rl_email r) d d'"
    and "v = decision_from_row e (mark_released actor (now e) x)"
proof -
  from run obtain t d1 d3 where
    r: "release_decision e (de_id x) actor d = Inr (Some (t, d1))" and
    o1: "insert_outbox e ''decision_release'' (rl_applicant r) (rl_email r) ''decision_release''
           (decision_metadata (uuid_text e (de_application x)) (de_outcome x))
           (release_key e (de_id x)) (update_application_decision_release e (de_application x) t d1)
         = Inr d3" and
    w: "insert_decision_released_audit e actor (de_id x) (uuid_text e (de_application x))
          (de_outcome x) d3 = Inr d'" and
    v: "v = decision_from_row e (x\<lparr>de_released_by := Some actor, de_released_at := Some t\<rparr>)"
    by (auto simp: release_writes_def Let_def x(1) insert_decision_release_email_def
        split: prod.split_asm)
  have "de_id y = de_id x \<and> de_released_at y = None \<longleftrightarrow> de_id y = de_id x" if "y \<in> set (decisions d)" for y
    using x that keys(1) by (auto dest: distinct_onD)
  then have upd: "upd_rows (\<lambda>y. de_id y = de_id x \<and> de_released_at y = None)
      (\<lambda>y. y\<lparr>de_released_by := Some actor, de_released_at := Some (now e)\<rparr>) (decisions d) =
    upd_rows (\<lambda>y. de_id y = de_id x) (mark_released actor (now e)) (decisions d)"
    unfolding mark_released_def [abs_def] by (rule upd_rows_cong)
  have t: "t = now e" and d1: "d1 = d\<lparr>decisions :=
      upd_rows (\<lambda>y. de_id y = de_id x) (mark_released actor (now e)) (decisions d)\<rparr>"
    using r upd by (auto simp: release_decision_def split: if_splits)
  have d2: "update_application_decision_release e (de_application x) t d1 =
      d1\<lparr>applications := upd_rows (\<lambda>a. ap_id a = de_application x) (show_release e (now e))
        (applications d)\<rparr>"
    by (simp add: update_application_decision_release_def d1 t show_release_def [abs_def])
  have "distinct_on ob_dedupe (outbox (update_application_decision_release e (de_application x) t d1))"
    unfolding d2 using keys(2) by (simp add: d1)
  note out = insert_outbox_Inr [OF o1 this]
  have d3: "d3 = update_application_decision_release e (de_application x) t d1\<lparr>outbox :=
      (if release_key e (de_id x) \<in> ob_dedupe ` set (outbox d) then outbox d
       else outbox d @ [release_mail e x (rl_applicant r) (rl_email r)])\<rparr>"
    using o1 unfolding d2
    by (auto simp: insert_outbox_def list_ex_iff d1 release_mail_def decision_metadata_def image_iff
        split: if_split_asm)
  have d': "d' = d3\<lparr>audit := audit d3 @ [release_event e actor x]\<rparr>"
    using w by (auto simp: insert_decision_released_audit_def insert_audit_Inr release_event_def decision_metadata_def)
  have "d' = d\<lparr>
      decisions := upd_rows (\<lambda>y. de_id y = de_id x) (mark_released actor (now e)) (decisions d),
      applications := upd_rows (\<lambda>a. ap_id a = de_application x) (show_release e (now e))
        (applications d),
      outbox := (if release_key e (de_id x) \<in> ob_dedupe ` set (outbox d) then outbox d
                 else outbox d @ [release_mail e x (rl_applicant r) (rl_email r)]),
      audit := audit d @ [release_event e actor x]\<rparr>"
    by (simp only: d' d3 d2) (simp add: d1)
  moreover have "outbox d' = outbox d3" by (simp add: d')
  ultimately show "released_effect e actor x (rl_applicant r) (rl_email r) d d'"
    unfolding released_effect_def using out(2,3) by simp
  show "v = decision_from_row e (mark_released actor (now e) x)"
    by (simp add: v t mark_released_def)
qed

lemma decisions_inv_released:
  assumes inv: "decisions_inv d" and eff: "released_effect e actor x to address d d'"
    and x: "x \<in> set (decisions d)" "de_released_at x = None"
    and a: "a \<in> set (applications d)" "ap_id a = de_application x" "ap_decision_id a = Some (de_id x)"
  shows "decisions_inv d'"
proof -
  let ?g = "mark_released actor (now e)" and ?f = "show_release e (now e)"
  obtain ob aus where d': "d' = d\<lparr>
      decisions := upd_rows (\<lambda>y. de_id y = de_id x) ?g (decisions d),
      applications := upd_rows (\<lambda>b. ap_id b = de_application x) ?f (applications d),
      outbox := ob, audit := audit d @ aus\<rparr>"
    using eff unfolding released_effect_def by blast
  have keys: "distinct_on ap_id (applications d)" "distinct_on de_id (decisions d)"
    using inv by (simp_all add: decisions_inv_def)
  have ids: "ap_id ` set (applications d') = ap_id ` set (applications d)"
    by (simp add: d' image_upd_rows)
  have gx: "?g x \<in> set (decisions d')" using x(1) by (simp add: d' upd_rows_hit)
  have app_ok: "cache_ok (decisions d') b \<and> attendee_ok (attendees d') b"
    if mem: "b \<in> set (applications d')" for b
  proof -
    obtain c where c: "c \<in> set (applications d)" "b = (if ap_id c = de_application x then ?f c else c)"
      using mem unfolding d' by (simp, elim upd_rowsE)
    have old: "cache_ok (decisions d) c" "attendee_ok (attendees d) c"
      using inv c by (simp_all add: decisions_inv_def)
    have "attendee_ok (attendees d') b" using old(2) c(2) by (auto simp: attendee_ok_def d')
    moreover have "cache_ok (decisions d') b"
    proof (cases "ap_id c = de_application x")
      case True
      then have "c = a" using keys(1) c(1) a(1,2) by (auto dest: distinct_onD)
      have "b = ?f a" using True c(2) \<open>c = a\<close> by simp
      moreover have "ap_decision a = Some (de_outcome x)" "ap_status a = status_of_outcome (de_outcome x)"
        using old(1) a(3) x(1) keys(2) unfolding \<open>c = a\<close>
        by (auto simp: cache_ok_def dest: distinct_onD)
      ultimately show ?thesis
        using a gx by (auto simp: cache_ok_def intro!: bexI [of _ "?g x"])
    next
      case False
      then have b: "b = c" using c(2) by simp
      show ?thesis
      proof (cases "ap_decision_id c")
        case None
        then show ?thesis using old(1) by (simp add: cache_ok_def b)
      next
        case (Some i)
        then obtain y where y: "y \<in> set (decisions d)" "de_id y = i" "de_application y = ap_id c"
          "ap_decision c = Some (de_outcome y)" "ap_status c = status_of_outcome (de_outcome y)"
          "ap_released c = de_released_at y"
          using old(1) by (auto simp: cache_ok_def)
        have "de_id y \<noteq> de_id x"
          using distinct_onD [OF keys(2) y(1) x(1)] y(3) False by auto
        then have "y \<in> set (decisions d')" using y(1) by (simp add: d' upd_rows_miss)
        then show ?thesis using y Some by (auto simp: cache_ok_def b)
      qed
    qed
    ultimately show ?thesis by blast
  qed
  have "\<forall>y\<in>set (decisions d'). de_application y \<in> ap_id ` set (applications d') \<and>
      (de_released_at y = None \<longleftrightarrow> de_released_by y = None)"
  proof
    fix y assume "y \<in> set (decisions d')"
    then obtain z where "z \<in> set (decisions d)" "y = (if de_id z = de_id x then ?g z else z)"
      unfolding d' by (simp, elim upd_rowsE)
    then show "de_application y \<in> ap_id ` set (applications d') \<and>
        (de_released_at y = None \<longleftrightarrow> de_released_by y = None)"
      using inv unfolding ids by (auto simp: decisions_inv_def)
  qed
  moreover have kept: "\<exists>y\<in>set (decisions d'). de_id y = i \<and> de_outcome y = OutAccepted \<and>
      de_released_at y \<noteq> None"
    if ex: "\<exists>y\<in>set (decisions d). de_id y = i \<and> de_outcome y = OutAccepted \<and> de_released_at y \<noteq> None" for i
  proof -
    obtain y where y: "y \<in> set (decisions d)" "de_id y = i" "de_outcome y = OutAccepted"
      "de_released_at y \<noteq> None" using ex by blast
    have "(if de_id y = de_id x then ?g y else y) \<in> set (decisions d')"
      using y(1) by (simp add: d' upd_rows_hit upd_rows_miss)
    then show ?thesis
      by (rule bexI [rotated]) (use y in \<open>simp split: if_split\<close>)
  qed
  moreover have "distinct_on ap_id (applications d')" "distinct_on de_id (decisions d')"
    using keys by (simp_all add: d' distinct_on_upd_rows)
  moreover have "\<forall>y\<in>set (attendees d'). \<exists>b\<in>set (applications d').
      ap_id b = ad_application y \<and> ap_applicant b = ad_user y \<and> ap_cycle b = ad_cycle y"
  proof
    fix y assume "y \<in> set (attendees d')"
    then have "\<exists>b\<in>set (applications d).
        ap_id b = ad_application y \<and> ap_applicant b = ad_user y \<and> ap_cycle b = ad_cycle y"
      using inv by (simp add: decisions_inv_def d')
    then show "\<exists>b\<in>set (applications d').
        ap_id b = ad_application y \<and> ap_applicant b = ad_user y \<and> ap_cycle b = ad_cycle y"
      unfolding d' by (simp add: bex_upd_rows)
  qed
  moreover have "\<forall>r\<in>set (attendance d'). 0 < at_lock r \<and>
      (\<exists>y\<in>set (decisions d'). de_id y = at_decision r \<and> de_outcome y = OutAccepted \<and>
         de_released_at y \<noteq> None)"
  proof -
    have "attendance d' = attendance d" by (simp add: d')
    then show ?thesis using inv kept unfolding decisions_inv_def by metis
  qed
  moreover have "distinct_on ad_id (attendees d')" "distinct_on ad_application (attendees d')"
    "distinct_on (\<lambda>x. (ad_cycle x, ad_user x)) (attendees d')"
    "distinct_on at_decision (attendance d')"
    using inv by (simp_all add: decisions_inv_def d')
  ultimately show ?thesis
    using app_ok unfolding decisions_inv_def by blast
qed

text \<open>The declarative contract of \<^verbatim>\<open>Release\<close> for the decision \<open>x\<close> of the application \<open>a\<close>.\<close>

definition release_contract ::
    "env \<Rightarrow> user \<Rightarrow> string \<Rightarrow> db \<Rightarrow> decision_view \<Rightarrow> db \<Rightarrow> bool" where
  "release_contract e actor decision d v d' \<longleftrightarrow>
     has_role actor RoleOrganizer \<and>
     (\<exists>x\<in>set (decisions d). \<exists>a\<in>set (applications d). \<exists>by.
        parse_uuid e decision = Some (de_id x) \<and> parse_uuid e (user_id actor) = Some by \<and>
        ap_id a = de_application x \<and> ap_decision_id a = Some (de_id x) \<and>
        user_exists (ap_applicant a) d \<and>
        (if de_released_at x \<noteq> None then d' = d \<and> v = decision_from_row e x
         else (\<exists>u\<in>set (users d). u_id u = ap_applicant a \<and>
                 released_effect e by x (u_id u) (u_email u) d d') \<and>
              v = decision_from_row e (mark_released by (now e) x)) \<and>
        (\<exists>t. get_released_decision_for_applicant (ap_id a) (ap_applicant a) d' =
           Some (ap_id a, de_outcome x, Some t)))"

lemma released_lookup:
  assumes inv: "decisions_inv d" and x: "x \<in> set (decisions d)" "de_released_at x \<noteq> None"
    and a: "a \<in> set (applications d)" "ap_id a = de_application x" "ap_decision_id a = Some (de_id x)"
  shows "get_released_decision_for_applicant (ap_id a) (ap_applicant a) d =
    Some (ap_id a, de_outcome x, de_released_at x)"
proof -
  have keys: "distinct_on ap_id (applications d)" "distinct_on de_id (decisions d)"
    using inv by (simp_all add: decisions_inv_def)
  have "cache_ok (decisions d) a" using inv a by (simp add: decisions_inv_def)
  then obtain z where z: "z \<in> set (decisions d)" "de_id z = de_id x" "ap_released a = de_released_at z"
    using a(3) by (auto simp: cache_ok_def)
  have "z = x" by (rule distinct_onD [OF keys(2) z(1) x(1) z(2)])
  then have "List.find (\<lambda>b. ap_id b = ap_id a \<and> ap_applicant b = ap_applicant a \<and> ap_released b \<noteq> None)
      (applications d) = Some a"
    using x(2) z(3) by (intro find_key_and [OF keys(1) a(1)]) simp_all
  moreover have "List.find (\<lambda>y. de_application y = ap_id a \<and> de_released_at y \<noteq> None
      \<and> Some (de_id y) = ap_decision_id a) (decisions d) = Some x"
  proof -
    have E: "(\<lambda>y. de_application y = ap_id a \<and> de_released_at y \<noteq> None \<and> Some (de_id y) = ap_decision_id a)
        = (\<lambda>y. de_id y = de_id x \<and> (de_application y = ap_id a \<and> de_released_at y \<noteq> None))"
      by (auto simp: fun_eq_iff a(3))
    show ?thesis
      unfolding E by (rule find_key_and [OF keys(2) x(1) refl]) (use x(2) a(2) in simp)
  qed
  ultimately show ?thesis by (simp add: get_released_decision_for_applicant_def a(2))
qed

lemma release_contract_holds:
  assumes run: "release e actor decision d = (Inr v, d')"
    and inv: "decisions_inv d" "distinct_on ob_dedupe (outbox d)"
  shows "release_contract e actor decision d v d'" and "decisions_inv d'"
    and "intake_inv pa d \<Longrightarrow> intake_inv pa d'" and "users_inv d \<Longrightarrow> users_inv d'"
proof -
  from run obtain w_id i r where
    g: "has_role actor RoleOrganizer" "parse_uuid e (user_id actor) = Some w_id"
      "parse_uuid e decision = Some i" and
    r: "lock_current_decision_for_release i d = Some r" and
    w: "if de_released_at (rl_decision r) \<noteq> None
        then Inr (decision_from_row e (rl_decision r), d) = Inr (v, d')
        else release_writes e w_id r d = Inr (v, d')"
    unfolding release_def transact_Inr by (auto split: if_split_asm)
  obtain x a and u :: user_row where x: "x \<in> set (decisions d)" "de_id x = i" and a: "a \<in> set (applications d)"
    "ap_id a = de_application x" "ap_decision_id a = Some i" and
    u: "u \<in> set (users d)" "u_id u = ap_applicant a" and
    rx: "r = \<lparr>rl_decision = x, rl_applicant = ap_applicant a, rl_email = u_email u\<rparr>"
    by (rule lock_current_decision_Some [OF r]) (rule that)
  have keys: "distinct_on de_id (decisions d)" using inv by (simp add: decisions_inv_def)
  have a3: "ap_decision_id a = Some (de_id x)" using a(3) x(2) by simp
  have ux: "user_exists (ap_applicant a) d" using u by (force simp: user_exists_iff)
  have all: "release_contract e actor decision d v d' \<and> decisions_inv d' \<and>
    (intake_inv pa d \<longrightarrow> intake_inv pa d') \<and> (users_inv d \<longrightarrow> users_inv d')"
  proof (cases "de_released_at x")
    case (Some t)
    then have "d' = d" "v = decision_from_row e x" using w by (simp_all add: rx)
    moreover have "release_contract e actor decision d v d'"
      unfolding release_contract_def
      using released_lookup [OF inv(1) x(1) _ a(1,2) a3] Some g x a a3 ux calculation
      by (intro conjI bexI [of _ x] bexI [of _ a] exI [of _ w_id]) auto
    ultimately show ?thesis using inv(1) by simp
  next
    case None
    then have run': "release_writes e w_id r d = Inr (v, d')" using w by (simp add: rx)
    have rl: "rl_decision r = x" by (simp add: rx)
    note eff = release_writes_Inr [OF run' rl x(1) None keys inv(2)]
    have inv': "decisions_inv d'"
      by (rule decisions_inv_released [OF inv(1) eff(1) x(1) None a(1,2) a3])
    obtain ob aus where d': "d' = d\<lparr>
        decisions := upd_rows (\<lambda>y. de_id y = de_id x) (mark_released w_id (now e)) (decisions d),
        applications := upd_rows (\<lambda>b. ap_id b = de_application x) (show_release e (now e)) (applications d),
        outbox := ob, audit := audit d @ aus\<rparr>"
      using eff(1) unfolding released_effect_def by blast
    have "mark_released w_id (now e) x \<in> set (decisions d')" "show_release e (now e) a \<in> set (applications d')"
      using x a by (simp_all add: d' upd_rows_hit)
    from released_lookup [OF inv' this(1) _ this(2)] a a3
    have vis: "get_released_decision_for_applicant (ap_id a) (ap_applicant a) d' =
        Some (ap_id a, de_outcome x, Some (now e))" by simp
    have "\<exists>u\<in>set (users d). u_id u = ap_applicant a \<and> released_effect e w_id x (u_id u) (u_email u) d d'"
      using eff(1) u by (intro bexI [of _ u]) (simp_all add: rx)
    then have "release_contract e actor decision d v d'"
      unfolding release_contract_def
      using g x a a3 ux eff(2) vis None
      by (intro conjI bexI [of _ x] bexI [of _ a] exI [of _ w_id]) auto
    moreover have "distinct_on ob_dedupe (outbox d')" using eff(1) unfolding released_effect_def by blast
    then have "intake_inv pa d'" if "intake_inv pa d"
      by (intro intake_inv_update [OF that, of "\<lambda>b. ap_id b = de_application x" "show_release e (now e)"])
         (simp_all add: d')
    moreover have "users_inv d' = users_inv d" by (rule users_inv_cong) (simp_all add: d')
    ultimately show ?thesis using inv' by blast
  qed
  then show "release_contract e actor decision d v d'" and "decisions_inv d'"
    and "intake_inv pa d \<Longrightarrow> intake_inv pa d'" and "users_inv d \<Longrightarrow> users_inv d'" by blast+
qed

lemma lock_current_decision_total:
  assumes inv: "decisions_inv d" and x: "x \<in> set (decisions d)"
    and a: "a \<in> set (applications d)" "ap_id a = de_application x" "ap_decision_id a = Some (de_id x)"
    and u: "user_exists (ap_applicant a) d"
  shows "\<exists>r. lock_current_decision_for_release (de_id x) d = Some r \<and> rl_decision r = x"
proof -
  have keys: "distinct_on ap_id (applications d)" "distinct_on de_id (decisions d)"
    using inv by (simp_all add: decisions_inv_def)
  have "List.find (\<lambda>b. ap_id b = de_application x \<and> ap_decision_id b = Some (de_id x))
      (applications d) = Some a"
    by (rule find_key_and [OF keys(1) a(1,2)]) (rule a(3))
  moreover obtain v where "List.find (\<lambda>u. u_id u = ap_applicant a) (users d) = Some v"
    using u by (cases "List.find (\<lambda>u. u_id u = ap_applicant a) (users d)")
      (auto simp: user_exists_iff dest: find_NoneD)
  ultimately show ?thesis
    by (simp add: lock_current_decision_for_release_def find_eq_Some_key [OF keys(2) x])
qed

lemma release_again:
  assumes run: "release e actor decision d = (Inr v, d')"
    and inv: "decisions_inv d" "distinct_on ob_dedupe (outbox d)"
  shows "release (e\<lparr>now := t\<rparr>) actor decision d' = (Inr v, d')"
proof -
  obtain x a w where g: "has_role actor RoleOrganizer" "parse_uuid e decision = Some (de_id x)"
      "parse_uuid e (user_id actor) = Some w"
    and x: "x \<in> set (decisions d)" and a: "a \<in> set (applications d)" "ap_id a = de_application x"
      "ap_decision_id a = Some (de_id x)" "user_exists (ap_applicant a) d"
    and eff: "if de_released_at x \<noteq> None then d' = d \<and> v = decision_from_row e x
      else (\<exists>u\<in>set (users d). u_id u = ap_applicant a \<and> released_effect e w x (u_id u) (u_email u) d d') \<and>
        v = decision_from_row e (mark_released w (now e) x)"
    using release_contract_holds(1) [OF run inv] unfolding release_contract_def by blast
  have inv': "decisions_inv d'" by (rule release_contract_holds(2) [OF run inv])
  obtain y b where y: "y \<in> set (decisions d')" "de_id y = de_id x" "de_released_at y \<noteq> None"
    and v: "v = decision_from_row e y"
    and b: "b \<in> set (applications d')" "ap_id b = de_application y" "ap_decision_id b = Some (de_id y)"
      "user_exists (ap_applicant b) d'"
  proof (cases "de_released_at x")
    case None
    then obtain ob aus where d': "d' = d\<lparr>
        decisions := upd_rows (\<lambda>y. de_id y = de_id x) (mark_released w (now e)) (decisions d),
        applications := upd_rows (\<lambda>b. ap_id b = de_application x) (show_release e (now e)) (applications d),
        outbox := ob, audit := audit d @ aus\<rparr>"
      and v: "v = decision_from_row e (mark_released w (now e) x)"
      using eff unfolding released_effect_def by auto
    show thesis
      by (rule that [of "mark_released w (now e) x" "show_release e (now e) a"])
         (use x a v in \<open>simp_all add: d' upd_rows_hit user_exists_def\<close>)
  next
    case (Some s)
    with eff x a that [of x a] show thesis by auto
  qed
  obtain r where "lock_current_decision_for_release (de_id x) d' = Some r" "rl_decision r = y"
    using lock_current_decision_total [OF inv' y(1) b] y(2) by auto
  moreover have "decision_from_row (e\<lparr>now := t\<rparr>) y = v" by (simp add: v decision_from_row_def)
  ultimately show ?thesis
    using g y(3) by (auto simp: release_def transact_def)
qed

text \<open>C11. A release by an organizer succeeds only for the current decision of an application.
  The first one stamps that decision and the application's cache, appends exactly one audit event,
  naming the organizer, the decision and its outcome, queues exactly one mail for it, to the
  applicant's address, changes nothing else and makes exactly that outcome visible to the
  applicant; every later one, at any time, returns the same release and changes nothing.\<close>

theorem release_spec:
  assumes "release e actor decision d = (Inr v, d')" and "decisions_inv d"
    and "distinct_on ob_dedupe (outbox d)"
  shows "release_contract e actor decision d v d' \<and>
    (\<forall>t. release (e\<lparr>now := t\<rparr>) actor decision d' = (Inr v, d'))"
  using release_contract_holds(1) [OF assms] release_again [OF assms] by blast

definition sample_decided_db :: db where
  "sample_decided_db = snd (record_decision sample_env sample_organizer ''xxxxxxxxx'' ''accepted'' None
     sample_decidable_db)"

lemma sample_decided_inv:
  "decisions_inv sample_decided_db" "distinct_on ob_dedupe (outbox sample_decided_db)"
proof -
  have "\<not> isl (fst (record_decision sample_env sample_organizer ''xxxxxxxxx'' ''accepted'' None
      sample_decidable_db))"
    by code_simp
  then obtain v where "record_decision sample_env sample_organizer ''xxxxxxxxx'' ''accepted'' None
      sample_decidable_db = (Inr v, sample_decided_db)"
    by (metis isl_def prod.collapse sum.collapse(2) sample_decided_db_def)
  then show "decisions_inv sample_decided_db"
    by (rule record_decision_contract(2) [OF _ sample_decidable_inv])
  show "distinct_on ob_dedupe (outbox sample_decided_db)" by code_simp
qed

theorem release_spec_witness:
  "\<exists>v d'. release sample_env sample_organizer (unary_text 100) sample_decided_db = (Inr v, d') \<and>
     release_contract sample_env sample_organizer (unary_text 100) sample_decided_db v d'"
proof -
  have "\<not> isl (fst (release sample_env sample_organizer (unary_text 100) sample_decided_db))"
    by code_simp
  then obtain v d' where r:
    "release sample_env sample_organizer (unary_text 100) sample_decided_db = (Inr v, d')"
    by (metis isl_def prod.collapse sum.collapse(2))
  from release_spec [OF r sample_decided_inv] r show ?thesis by blast
qed

section \<open>Responding\<close>

definition response_row :: "db \<Rightarrow> uuid \<Rightarrow> attendance_row option" where
  "response_row d i = List.find (\<lambda>r. at_decision r = i) (attendance d)"

definition response_lock :: "db \<Rightarrow> uuid \<Rightarrow> int" where
  "response_lock d i = (case response_row d i of None \<Rightarrow> 0 | Some r \<Rightarrow> at_lock r)"

text \<open>One answer is written for the decision, at the next version, with one audit event of the
  applicant on the application; nothing else changes.\<close>

definition response_event :: "uuid \<Rightarrow> uuid \<Rightarrow> audit_row \<Rightarrow> bool" where
  "response_event i by x \<longleftrightarrow> au_event x = ''attendance.rsvp_changed'' \<and> au_actor x = Some by \<and>
     au_subject_type x = ''application'' \<and> au_subject x = i"

definition response_written :: "uuid \<Rightarrow> uuid \<Rightarrow> rsvp_status \<Rightarrow> uuid \<Rightarrow> db \<Rightarrow> db \<Rightarrow> bool" where
  "response_written i decision status by d d' \<longleftrightarrow>
     (\<exists>r. response_row d' decision = Some r \<and> at_status r = status \<and> at_by r = by \<and>
        at_lock r = response_lock d decision + 1 \<and> at_decision r = decision) \<and>
     (\<forall>j. j \<noteq> decision \<longrightarrow> response_row d' j = response_row d j) \<and>
     (\<exists>ys x. response_event i by x \<and> d' = d\<lparr>attendance := ys, audit := audit d @ [x]\<rparr>)"

definition answer_again :: "env \<Rightarrow> rsvp_status \<Rightarrow> uuid \<Rightarrow> attendance_row \<Rightarrow> attendance_row" where
  "answer_again e status by x =
     x\<lparr>at_status := status, at_lock := at_lock x + 1, at_by := by, at_at := clock e\<rparr>"

lemma upsert_attendance_Inr:
  assumes "upsert_attendance e decision status by d = Inr (r, d1)"
  obtains (new) "response_row d decision = None"
      and "r = \<lparr>at_decision = decision, at_status = status, at_lock = 1, at_by = by, at_at = now e\<rparr>"
      and "d1 = d\<lparr>attendance := attendance d @ [r]\<rparr>"
    | (old) x where "response_row d decision = Some x" and "at_decision x = decision"
      and "r = answer_again e status by x"
      and "d1 = d\<lparr>attendance := upd_rows (\<lambda>r. at_decision r = decision) (answer_again e status by)
             (attendance d)\<rparr>"
proof (cases "response_row d decision")
  case None
  with assms show thesis
    by (intro new)
       (auto simp: upsert_attendance_def Let_def response_row_def split: if_split_asm)
next
  case (Some x)
  have "at_decision x = decision" using Some by (auto simp: response_row_def dest: find_SomeD)
  with assms Some show thesis
    by (intro old [of x])
       (auto simp: upsert_attendance_def Let_def response_row_def answer_again_def [abs_def]
          split: if_split_asm)
qed

lemma response_row_upsert:
  assumes "upsert_attendance e decision status by d = Inr (r, d1)"
  shows "(\<forall>j. response_row d1 j = (if j = decision then Some r else response_row d j)) \<and>
    at_status r = status \<and> at_by r = by \<and> at_decision r = decision \<and>
    at_lock r = response_lock d decision + 1 \<and> (\<exists>ys. d1 = d\<lparr>attendance := ys\<rparr>)"
  using assms
proof (cases rule: upsert_attendance_Inr)
  case new
  then have "response_row d1 j = (if j = decision then Some r else response_row d j)" for j
    by (cases "List.find (\<lambda>r. at_decision r = j) (attendance d)")
       (auto simp: response_row_def find_append dest: find_SomeD)
  moreover have "response_lock d decision = 0" using new(1) by (simp add: response_lock_def)
  ultimately show ?thesis using new(2,3) by auto
next
  case (old x)
  have "List.find (\<lambda>r. at_decision r = j) (upd_rows (\<lambda>r. at_decision r = decision)
      (answer_again e status by) (attendance d)) =
    (if j = decision then Some r else List.find (\<lambda>r. at_decision r = j) (attendance d))" for j
    using old(1,3)
    by (cases "List.find (\<lambda>r. at_decision r = j) (attendance d)")
       (auto simp: find_upd_rows answer_again_def response_row_def dest: find_SomeD)
  then have "response_row d1 j = (if j = decision then Some r else response_row d j)" for j
    by (simp add: response_row_def old(4))
  moreover have "at_lock r = response_lock d decision + 1"
    by (simp add: old(1,3) answer_again_def response_lock_def)
  ultimately show ?thesis using old(2,3,4) by (auto simp: answer_again_def)
qed

lemma respond_writes_Inr:
  assumes "respond_writes e applicant i decision status r d = Inr (v, d')"
  shows "response_written i decision status applicant d d'"
    and "\<exists>y. response_row d' decision = Some y \<and>
      v = r\<lparr>rr_status := Some status, rr_lock := at_lock y, rr_at := Some (at_at y)\<rparr>"
    and "\<exists>y x. upsert_attendance e decision status applicant d = Inr (y, d'\<lparr>audit := audit d\<rparr>) \<and>
      d' = d\<lparr>attendance := attendance d', audit := audit d @ [x]\<rparr>"
proof -
  from assms obtain y d1 md where
    u: "upsert_attendance e decision status applicant d = Inr (y, d1)" and
    w: "insert_audit e (Some applicant) ''attendance.rsvp_changed'' ''application'' i md d1 = Inr d'" and
    v: "v = r\<lparr>rr_status := Some (at_status y), rr_lock := at_lock y, rr_at := Some (at_at y)\<rparr>"
    by (auto simp: respond_writes_def split: prod.split_asm)
  obtain x where d': "d' = d1\<lparr>audit := audit d1 @ [x]\<rparr>" and x: "response_event i applicant x"
    using w unfolding insert_audit_Inr by (auto simp: response_event_def)
  note up = response_row_upsert [OF u]
  obtain ys where d1: "d1 = d\<lparr>attendance := ys\<rparr>" using up by blast
  have rows: "response_row d' j = response_row d1 j" for j by (simp add: response_row_def d')
  have frame: "d' = d\<lparr>attendance := ys, audit := audit d @ [x]\<rparr>" by (simp add: d' d1)
  show "response_written i decision status applicant d d'"
    unfolding response_written_def rows using up frame x by auto
  show "\<exists>y. response_row d' decision = Some y \<and>
      v = r\<lparr>rr_status := Some status, rr_lock := at_lock y, rr_at := Some (at_at y)\<rparr>"
    unfolding rows using up v by auto
  have "d1 = d'\<lparr>audit := audit d\<rparr>" by (simp add: frame d1)
  then show "\<exists>y x. upsert_attendance e decision status applicant d = Inr (y, d'\<lparr>audit := audit d\<rparr>) \<and>
      d' = d\<lparr>attendance := attendance d', audit := audit d @ [x]\<rparr>"
    using u frame by auto
qed

text \<open>The contract of a response: the actor's released acceptance it answers, and what it
  writes unless the same answer is already there.\<close>

definition respond_contract ::
    "env \<Rightarrow> user \<Rightarrow> rsvp_input \<Rightarrow> db \<Rightarrow> rsvp_response \<Rightarrow> db \<Rightarrow> bool" where
  "respond_contract e actor input d v d' \<longleftrightarrow>
     (\<exists>a\<in>set (applications d). \<exists>x status.
        parse_uuid e (user_id actor) = Some (ap_applicant a) \<and>
        parse_uuid e (ri_application input) = Some (ap_id a) \<and>
        parse_uuid e (ri_decision input) = Some (de_id x) \<and>
        rsvp_of_string (ri_status input) = Some status \<and>
        current_acceptance d a = Some x \<and> ap_decision_id a = Some (de_id x) \<and>
        response_of e d' a = Some v \<and> rr_status v = Some status \<and>
        (if map_option at_status (response_row d (de_id x)) = Some status then d' = d
         else response_lock d (de_id x) = ri_lock input \<and>
              response_written (ap_id a) (de_id x) status (ap_applicant a) d d'))"

lemma response_of_eq:
  "response_of e d a = map_option (\<lambda>x.
     \<lparr>rr_application = uuid_text e (ap_id a), rr_decision = uuid_text e (de_id x),
      rr_status = map_option at_status (response_row d (de_id x)),
      rr_lock = response_lock d (de_id x),
      rr_at = map_option at_at (response_row d (de_id x))\<rparr>) (current_acceptance d a)"
  by (simp add: response_of_def response_row_def response_lock_def Let_def cong: option.case_cong)

lemma current_acceptance_Some:
  assumes "current_acceptance d a = Some x"
  shows "x \<in> set (decisions d)" and "ap_decision_id a = Some (de_id x)" and "de_application x = ap_id a"
    and "de_outcome x = OutAccepted" and "de_released_at x \<noteq> None"
    and "ap_status a = StAccepted" and "ap_released a \<noteq> None"
  using assms by (auto simp: current_acceptance_def split: if_splits dest!: find_SomeD)

lemma current_acceptance_frame:
  "current_acceptance (d\<lparr>attendance := ys, audit := zs\<rparr>) a = current_acceptance d a"
  by (auto simp: current_acceptance_def)

lemma respond_Inr:
  assumes run: "respond e actor input d = (Inr v, d')"
  shows "respond_contract e actor input d v d'" and "has_role actor RoleApplicant"
    and "d' = d \<or> (\<exists>a x status y z. current_acceptance d a = Some x \<and>
      upsert_attendance e (de_id x) status (ap_applicant a) d = Inr (y, d'\<lparr>audit := audit d\<rparr>) \<and>
      d' = d\<lparr>attendance := attendance d', audit := audit d @ [z]\<rparr>)"
proof -
  from run obtain i decision applicant a r status where
    g: "has_role actor RoleApplicant" "parse_uuid e (ri_application input) = Some i"
      "parse_uuid e (ri_decision input) = Some decision" "parse_uuid e (user_id actor) = Some applicant" and
    f: "List.find (\<lambda>a. ap_id a = i \<and> ap_applicant a = applicant \<and> ap_status a = StAccepted \<and>
          ap_released a \<noteq> None) (applications d) = Some a" and
    dec: "ap_decision_id a = Some decision" and r: "response_of e d a = Some r" and
    st: "rsvp_of_string (ri_status input) = Some status" and
    w: "if rr_status r = Some status then Inr (r, d) = Inr (v, d')
        else rr_lock r = ri_lock input \<and> respond_writes e applicant i decision status r d = Inr (v, d')"
    unfolding respond_def transact_Inr by (auto split: if_split_asm)
  have a: "a \<in> set (applications d)" "ap_id a = i" "ap_applicant a = applicant"
    using find_SomeD [OF f] by simp_all
  obtain x where x: "current_acceptance d a = Some x" using r by (auto simp: response_of_eq)
  note cx = current_acceptance_Some [OF x]
  have dx: "de_id x = decision" using cx(2) dec by simp
  have r_eq: "r = \<lparr>rr_application = uuid_text e (ap_id a), rr_decision = uuid_text e decision,
      rr_status = map_option at_status (response_row d decision), rr_lock = response_lock d decision,
      rr_at = map_option at_at (response_row d decision)\<rparr>"
    using r x dx by (simp add: response_of_eq)
  have all: "respond_contract e actor input d v d' \<and>
    (d' = d \<or> (\<exists>a x status y z. current_acceptance d a = Some x \<and>
      upsert_attendance e (de_id x) status (ap_applicant a) d = Inr (y, d'\<lparr>audit := audit d\<rparr>) \<and>
      d' = d\<lparr>attendance := attendance d', audit := audit d @ [z]\<rparr>))"
  proof (cases "rr_status r = Some status")
    case True
    then have "d' = d" "v = r" using w by simp_all
    then have "respond_contract e actor input d v d'"
      unfolding respond_contract_def using g a x dx st cx(2) r True
      by (intro bexI [of _ a] exI [of _ x] exI [of _ status]) (simp_all add: r_eq)
    with \<open>d' = d\<close> show ?thesis by blast
  next
    case False
    have "rr_lock r = ri_lock input" and wr: "respond_writes e applicant i decision status r d = Inr (v, d')"
      using w unfolding if_not_P [OF False] by blast+
    then have lock: "response_lock d decision = ri_lock input" by (simp add: r_eq)
    note rw = respond_writes_Inr [OF wr]
    obtain y where y: "response_row d' decision = Some y"
      and v: "v = r\<lparr>rr_status := Some status, rr_lock := at_lock y, rr_at := Some (at_at y)\<rparr>"
      using rw(2) by blast
    have sy: "at_status y = status" using rw(1) y by (auto simp: response_written_def)
    obtain ys z where d': "d' = d\<lparr>attendance := ys, audit := audit d @ [z]\<rparr>"
      using rw(1) unfolding response_written_def by blast
    have "response_of e d' a = Some v"
      unfolding response_of_eq using x dx y sy
      by (simp add: d' current_acceptance_frame v r_eq)
         (simp add: d' [symmetric] y response_lock_def)
    moreover have "if map_option at_status (response_row d (de_id x)) = Some status then d' = d
        else response_lock d (de_id x) = ri_lock input \<and>
             response_written (ap_id a) (de_id x) status (ap_applicant a) d d'"
      using False lock rw(1) a(2,3) dx by (auto simp: r_eq)
    ultimately have "respond_contract e actor input d v d'"
      unfolding respond_contract_def using g a x dx st cx(2)
      by (intro bexI [of _ a] exI [of _ x] exI [of _ status] conjI) (simp_all add: v)
    then show ?thesis using rw(3) x dx a(3) by metis
  qed
  then show "respond_contract e actor input d v d'"
    and "d' = d \<or> (\<exists>a x status y z. current_acceptance d a = Some x \<and>
      upsert_attendance e (de_id x) status (ap_applicant a) d = Inr (y, d'\<lparr>audit := audit d\<rparr>) \<and>
      d' = d\<lparr>attendance := attendance d', audit := audit d @ [z]\<rparr>)"
    by blast+
  show "has_role actor RoleApplicant" by (rule g(1))
qed

lemma respond_inv:
  assumes run: "respond e actor input d = (Inr v, d')" and inv: "decisions_inv d"
  shows "decisions_inv d'"
  using respond_Inr(3) [OF run]
proof (elim disjE exE conjE)
  assume "d' = d"
  then show ?thesis using inv by simp
next
  fix a x status y z
  assume x: "current_acceptance d a = Some x"
    and up: "upsert_attendance e (de_id x) status (ap_applicant a) d = Inr (y, d'\<lparr>audit := audit d\<rparr>)"
    and d': "d' = d\<lparr>attendance := attendance d', audit := audit d @ [z]\<rparr>"
  note cx = current_acceptance_Some [OF x]
  have eq: "decisions d' = decisions d" "applications d' = applications d" "attendees d' = attendees d"
    by (subst d', simp)+
  have acc: "\<exists>w\<in>set (decisions d). de_id w = de_id x \<and> de_outcome w = OutAccepted \<and>
      de_released_at w \<noteq> None"
    using cx by blast
  have ok: "0 < at_lock r \<and> (\<exists>w\<in>set (decisions d). de_id w = at_decision r \<and>
      de_outcome w = OutAccepted \<and> de_released_at w \<noteq> None)" if "r \<in> set (attendance d)" for r
    using inv that unfolding decisions_inv_def by blast
  have "distinct_on at_decision (attendance d') \<and> (\<forall>r\<in>set (attendance d'). 0 < at_lock r \<and>
      (\<exists>w\<in>set (decisions d). de_id w = at_decision r \<and> de_outcome w = OutAccepted \<and>
         de_released_at w \<noteq> None))"
    using up
  proof (cases rule: upsert_attendance_Inr)
    case new
    have at: "attendance d' = attendance d @ [y]" using arg_cong [OF new(3), of attendance] by simp
    have "de_id x \<notin> at_decision ` set (attendance d)"
      using new(1) by (auto simp: response_row_def dest: find_NoneD)
    then have "distinct_on at_decision (attendance d')"
      using inv new(2) by (simp add: at decisions_inv_def)
    moreover have "0 < at_lock y" "at_decision y = de_id x" by (simp_all add: new(2))
    ultimately show ?thesis using ok acc unfolding at by auto
  next
    case (old q)
    let ?f = "answer_again e status (ap_applicant a)"
    have at: "attendance d' = upd_rows (\<lambda>r. at_decision r = de_id x) ?f (attendance d)"
      using arg_cong [OF old(4), of attendance] by simp
    have "0 < at_lock r \<and> (\<exists>w\<in>set (decisions d). de_id w = at_decision r \<and>
        de_outcome w = OutAccepted \<and> de_released_at w \<noteq> None)" if mem: "r \<in> set (attendance d')" for r
    proof -
      obtain s where s: "s \<in> set (attendance d)" "r = (if at_decision s = de_id x then ?f s else s)"
        using mem unfolding at by (rule upd_rowsE)
      have "at_decision r = at_decision s" "at_lock s \<le> at_lock r"
        using s(2) by (cases "at_decision s = de_id x"; simp add: answer_again_def)+
      then show ?thesis using ok [OF s(1)] by auto
    qed
    moreover have "distinct_on at_decision (attendance d')"
      using inv by (simp add: at distinct_on_upd_rows answer_again_def decisions_inv_def)
    ultimately show ?thesis by blast
  qed
  then show ?thesis using inv unfolding decisions_inv_def eq by blast
qed

lemma respond_find:
  assumes inv: "decisions_inv d" and a: "a \<in> set (applications d)" and x: "current_acceptance d a = Some x"
  shows "List.find (\<lambda>b. ap_id b = ap_id a \<and> ap_applicant b = ap_applicant a \<and>
    ap_status b = StAccepted \<and> ap_released b \<noteq> None) (applications d) = Some a"
proof (rule find_key_and)
  show "distinct_on ap_id (applications d)" using inv by (simp add: decisions_inv_def)
qed (use a current_acceptance_Some [OF x] in simp_all)

lemma respond_replay:
  assumes run: "respond e actor input d = (Inr v, d')" and inv: "decisions_inv d"
  shows "0 \<le> l \<Longrightarrow> respond e actor (input\<lparr>ri_lock := l\<rparr>) d' = (Inr v, d')"
    and "d' \<noteq> d \<Longrightarrow> rsvp_of_string other \<noteq> rsvp_of_string (ri_status input) \<Longrightarrow>
      valid_rsvp_status other \<Longrightarrow>
      respond e actor (input\<lparr>ri_status := other\<rparr>) d' = (Inl RsvpConflict, d')"
proof -
  note role = respond_Inr(2) [OF run]
  obtain a x status where a: "a \<in> set (applications d)" and
    p: "parse_uuid e (user_id actor) = Some (ap_applicant a)"
      "parse_uuid e (ri_application input) = Some (ap_id a)"
      "parse_uuid e (ri_decision input) = Some (de_id x)"
      "rsvp_of_string (ri_status input) = Some status" and
    x: "current_acceptance d a = Some x" "ap_decision_id a = Some (de_id x)" and
    v: "response_of e d' a = Some v" "rr_status v = Some status" and
    w: "if map_option at_status (response_row d (de_id x)) = Some status then d' = d
        else response_lock d (de_id x) = ri_lock input \<and>
             response_written (ap_id a) (de_id x) status (ap_applicant a) d d'"
    using respond_Inr(1) [OF run] unfolding respond_contract_def by blast
  have inv': "decisions_inv d'" by (rule respond_inv [OF run inv])
  have frame: "\<exists>ys zs. d' = d\<lparr>attendance := ys, audit := zs\<rparr>"
  proof (cases "d' = d")
    case True
    then have "d' = d\<lparr>attendance := attendance d, audit := audit d\<rparr>" by simp
    then show ?thesis by blast
  next
    case False
    then show ?thesis using w unfolding response_written_def by (auto split: if_split_asm)
  qed
  then obtain ys zs where d': "d' = d\<lparr>attendance := ys, audit := zs\<rparr>" by blast
  have x': "current_acceptance d' a = Some x" using x(1) by (simp add: d' current_acceptance_frame)
  have a': "a \<in> set (applications d')" using a by (simp add: d')
  note find = respond_find [OF inv' a' x']
  have valid: "valid_rsvp_status (ri_status input)"
    using p(4) by (auto simp: valid_rsvp_status_def rsvp_of_string_def split: if_splits)
  show "respond e actor (input\<lparr>ri_lock := l\<rparr>) d' = (Inr v, d')" if "0 \<le> l"
    using role valid that p x(2) v find by (simp add: respond_def transact_def)
  show "respond e actor (input\<lparr>ri_status := other\<rparr>) d' = (Inl RsvpConflict, d')"
    if diff: "d' \<noteq> d" "rsvp_of_string other \<noteq> rsvp_of_string (ri_status input)" "valid_rsvp_status other"
  proof -
    have nonneg: "0 \<le> ri_lock input"
      using run by (auto simp: respond_def transact_Inr split: if_split_asm)
    obtain st where st: "rsvp_of_string other = Some st"
      using diff(3) by (auto simp: valid_rsvp_status_def rsvp_of_string_def)
    have "response_lock d (de_id x) = ri_lock input"
      and wr: "response_written (ap_id a) (de_id x) status (ap_applicant a) d d'"
      using w diff(1) by (auto split: if_split_asm)
    moreover have "response_lock d' (de_id x) = response_lock d (de_id x) + 1"
      using wr by (auto simp: response_written_def response_lock_def split: option.splits)
    moreover have "rr_lock v = response_lock d' (de_id x)"
      using v(1) x' by (simp add: response_of_eq) (metis rsvp_response.select_convs(4))
    ultimately have "rr_lock v \<noteq> ri_lock input" by simp
    moreover have "rr_status v \<noteq> Some st" using v(2) diff(2) p(4) st by auto
    ultimately show ?thesis
      using role diff(3) nonneg p(1-3) x(2) v(1) find st by (simp add: respond_def transact_def)
  qed
qed

text \<open>What refuses an answer, first things first: the role, the form of the input, an application of
  the actor with a released acceptance, an answer to a decision that is not the current one (stale)
  and, unless the same answer is already there, a version other than the stored one; the store
  refuses a version past 32 bits and an actor it does not know.\<close>

definition answer_refusal ::
    "uuid \<Rightarrow> uuid \<Rightarrow> uuid \<Rightarrow> rsvp_status \<Rightarrow> int \<Rightarrow> db \<Rightarrow> rsvp_error option" where
  "answer_refusal i applicant decision status lock d =
     (case Option.bind (List.find (\<lambda>a. ap_id a = i \<and> ap_applicant a = applicant) (applications d))
             (current_acceptance d) of
        None \<Rightarrow> Some RsvpNotFound
      | Some x \<Rightarrow>
          if de_id x \<noteq> decision then Some RsvpConflict
          else if map_option at_status (response_row d decision) = Some status then None
          else if response_lock d decision \<noteq> lock then Some RsvpConflict
          else if user_exists applicant d \<and> int4_ok (lock + 1) then None else Some RsvpInternal)"

definition respond_refusal :: "env \<Rightarrow> user \<Rightarrow> rsvp_input \<Rightarrow> db \<Rightarrow> rsvp_error option" where
  "respond_refusal e actor input d =
     (if \<not> has_role actor RoleApplicant then Some RsvpForbidden
      else case rsvp_of_string (ri_status input) of None \<Rightarrow> Some RsvpInvalid
      | Some status \<Rightarrow>
          if ri_lock input < 0 then Some RsvpInvalid
          else case parse_uuid e (ri_application input) of None \<Rightarrow> Some RsvpNotFound
          | Some i \<Rightarrow> (case parse_uuid e (ri_decision input) of None \<Rightarrow> Some RsvpInvalid
          | Some decision \<Rightarrow> (case parse_uuid e (user_id actor) of None \<Rightarrow> Some RsvpInternal
          | Some applicant \<Rightarrow> answer_refusal i applicant decision status (ri_lock input) d)))"

lemma released_acceptance_current:
  assumes "decisions_inv d" and "a \<in> set (applications d)" and "ap_status a = StAccepted" "ap_released a \<noteq> None"
  shows "current_acceptance d a \<noteq> None"
proof -
  have c: "cache_ok (decisions d) a" and keys: "distinct_on de_id (decisions d)"
    using assms(1,2) by (simp_all add: decisions_inv_def)
  obtain j where j: "ap_decision_id a = Some j"
    using c assms(4) by (auto simp: cache_ok_def split: option.splits)
  then obtain x where x: "x \<in> set (decisions d)" "de_id x = j" "de_application x = ap_id a"
      "ap_status a = status_of_outcome (de_outcome x)" "ap_released a = de_released_at x"
    using c by (auto simp: cache_ok_def)
  then have "de_outcome x = OutAccepted"
    using assms(3) by (cases "de_outcome x") (simp_all add: status_of_outcome_def)
  then have "List.find (\<lambda>y. Some (de_id y) = ap_decision_id a \<and> de_application y = ap_id a \<and>
      de_outcome y = OutAccepted \<and> de_released_at y \<noteq> None) (decisions d) \<noteq> None"
    using x j assms(4) by (auto simp: find_None_iff)
  then show ?thesis using assms(3,4) by (simp add: current_acceptance_def)
qed

lemma upsert_attendance_total:
  assumes "decisions_inv d" and "x \<in> set (decisions d)" "de_id x = decision"
    and "user_exists applicant d" "int4_ok (response_lock d decision + 1)"
  shows "\<exists>r d1. upsert_attendance e decision status applicant d = Inr (r, d1) \<and> user_exists applicant d1"
  using assms by (auto simp: upsert_attendance_def response_lock_def response_row_def Let_def user_exists_def
      split: option.splits)

lemma respond_writes_result:
  assumes "decisions_inv d" and "x \<in> set (decisions d)" "de_id x = decision"
  shows "if user_exists applicant d \<and> int4_ok (response_lock d decision + 1)
    then \<exists>v d'. respond_writes e applicant i decision status r d = Inr (v, d')
    else respond_writes e applicant i decision status r d = Inl RsvpInternal"
proof (cases "user_exists applicant d \<and> int4_ok (response_lock d decision + 1)")
  case True
  with upsert_attendance_total [OF assms] obtain y d1
    where "upsert_attendance e decision status applicant d = Inr (y, d1)" "user_exists applicant d1" by blast
  with True show ?thesis by (simp add: respond_writes_def insert_audit_def)
next
  case False
  have "upsert_attendance e decision status applicant d = Inl IntegerOutOfRange \<or>
      upsert_attendance e decision status applicant d = Inl ForeignKeyViolation"
    using False by (auto simp: upsert_attendance_def response_lock_def response_row_def Let_def int4_ok_def
        split: option.splits)
  with False show ?thesis by (auto simp: respond_writes_def)
qed

lemma rsvp_of_string_valid: "valid_rsvp_status s \<longleftrightarrow> rsvp_of_string s \<noteq> None"
  by (simp add: valid_rsvp_status_def rsvp_of_string_def)

lemma respond_outcome:
  assumes inv: "decisions_inv d"
  shows "case respond_refusal e actor input d of
      Some err \<Rightarrow> respond e actor input d = (Inl err, d)
    | None \<Rightarrow> \<exists>v d'. respond e actor input d = (Inr v, d')"
proof (cases "has_role actor RoleApplicant \<and> rsvp_of_string (ri_status input) \<noteq> None \<and> 0 \<le> ri_lock input \<and>
    parse_uuid e (ri_application input) \<noteq> None \<and> parse_uuid e (ri_decision input) \<noteq> None \<and>
    parse_uuid e (user_id actor) \<noteq> None")
  case False
  then show ?thesis
    by (auto simp: respond_refusal_def respond_def transact_def rsvp_of_string_valid split: option.split)
next
  case True
  then obtain status i decision applicant where g: "has_role actor RoleApplicant"
      "rsvp_of_string (ri_status input) = Some status" "0 \<le> ri_lock input"
      "parse_uuid e (ri_application input) = Some i" "parse_uuid e (ri_decision input) = Some decision"
      "parse_uuid e (user_id actor) = Some applicant" by blast
  then have valid: "valid_rsvp_status (ri_status input)" by (simp add: rsvp_of_string_valid)
  have refusal: "respond_refusal e actor input d = answer_refusal i applicant decision status (ri_lock input) d"
    using g by (simp add: respond_refusal_def)
  let ?own = "List.find (\<lambda>a. ap_id a = i \<and> ap_applicant a = applicant) (applications d)"
  let ?hit = "List.find (\<lambda>a. ap_id a = i \<and> ap_applicant a = applicant \<and> ap_status a = StAccepted \<and>
      ap_released a \<noteq> None) (applications d)"
  show ?thesis
  proof (cases "Option.bind ?own (current_acceptance d)")
    case None
    have "?hit = None"
    proof (rule ccontr)
      assume "?hit \<noteq> None"
      then obtain a where a: "a \<in> set (applications d)" "ap_id a = i" "ap_applicant a = applicant"
          "ap_status a = StAccepted" "ap_released a \<noteq> None" by (auto dest: find_SomeD)
      have "?own = Some a"
        using find_key_and [of ap_id "applications d" a i "\<lambda>a. ap_applicant a = applicant"] a inv
        by (simp add: decisions_inv_def)
      then show False using None released_acceptance_current [OF inv a(1,4,5)] by simp
    qed
    then show ?thesis
      using None g valid by (simp add: refusal answer_refusal_def respond_def transact_def)
  next
    case (Some x)
    then obtain a where own: "?own = Some a" and x: "current_acceptance d a = Some x"
      by (auto simp: bind_eq_Some_conv)
    have a: "a \<in> set (applications d)" "ap_id a = i" "ap_applicant a = applicant"
      using find_SomeD [OF own] by simp_all
    note cx = current_acceptance_Some [OF x]
    have hit: "?hit = Some a" using respond_find [OF inv a(1) x] a by simp
    obtain R where shown: "response_of e d a = Some R" and R: "rr_decision R = uuid_text e (de_id x)"
        "rr_status R = map_option at_status (response_row d (de_id x))" "rr_lock R = response_lock d (de_id x)"
      using x by (simp add: response_of_eq)
    note writes = respond_writes_result [OF inv cx(1) refl, of applicant e i status R]
    show ?thesis
    proof (cases "de_id x = decision \<and> map_option at_status (response_row d decision) \<noteq> Some status \<and>
        response_lock d decision = ri_lock input")
      case False
      then show ?thesis
        using Some g valid hit cx(2) shown R by (auto simp: refusal answer_refusal_def respond_def transact_def)
    next
      case True
      then have run: "respond e actor input d =
          (case respond_writes e applicant i decision status R d of Inl err \<Rightarrow> (Inl err, d) | Inr (v, d') \<Rightarrow> (Inr v, d'))"
        using g valid hit cx(2) shown R by (auto simp: respond_def transact_def split: sum.split)
      have "answer_refusal i applicant decision status (ri_lock input) d =
          (if user_exists applicant d \<and> int4_ok (response_lock d decision + 1) then None else Some RsvpInternal)"
        using True Some by (auto simp: answer_refusal_def)
      then show ?thesis
        using writes True unfolding run refusal by (auto split: if_split_asm)
    qed
  qed
qed

text \<open>C12. An RSVP answers the actor's current, released acceptance and nothing else. A new
  answer is written only at the version the client saw and raises it by one, with one audit event of
  the applicant; applications, decisions, attendees and passes do not change. Repeating the answer is a no-op at any
  version, and a different answer at the version just consumed is a conflict: no update is
  lost. It is refused exactly in the cases listed, in their order, an answer to a decision that is no
  longer the current one being a conflict, and a refused answer changes nothing.\<close>

theorem respond_spec:
  assumes "decisions_inv d"
  shows "case respond e actor input d of
      (Inl err, d') \<Rightarrow> respond_refusal e actor input d = Some err \<and> d' = d
    | (Inr v, d') \<Rightarrow> respond_refusal e actor input d = None \<and> respond_contract e actor input d v d' \<and>
        (\<forall>l\<ge>0. respond e actor (input\<lparr>ri_lock := l\<rparr>) d' = (Inr v, d')) \<and>
        (\<forall>other. d' \<noteq> d \<longrightarrow> valid_rsvp_status other \<longrightarrow>
           rsvp_of_string other \<noteq> rsvp_of_string (ri_status input) \<longrightarrow>
           respond e actor (input\<lparr>ri_status := other\<rparr>) d' = (Inl RsvpConflict, d'))"
proof -
  note outcome = respond_outcome [OF assms, of e actor input]
  obtain r d' where run: "respond e actor input d = (r, d')" by fastforce
  show ?thesis
  proof (cases r)
    case (Inl err)
    then show ?thesis using run outcome by (auto split: option.splits)
  next
    case (Inr v)
    then have ok: "respond e actor input d = (Inr v, d')" using run by simp
    then have "respond_refusal e actor input d = None" using outcome by (auto split: option.splits)
    moreover note respond_Inr(1) [OF ok] respond_replay [OF ok assms]
    ultimately show ?thesis unfolding ok by simp
  qed
qed

definition sample_released_db :: db where
  "sample_released_db = snd (release sample_env sample_organizer (unary_text 100) sample_decided_db)"

lemma sample_released_inv: "decisions_inv sample_released_db"
proof -
  have "\<not> isl (fst (release sample_env sample_organizer (unary_text 100) sample_decided_db))"
    by code_simp
  then obtain v where "release sample_env sample_organizer (unary_text 100) sample_decided_db =
      (Inr v, sample_released_db)"
    by (metis isl_def prod.collapse sum.collapse(2) sample_released_db_def)
  then show ?thesis by (rule release_contract_holds(2) [OF _ sample_decided_inv])
qed

definition sample_attending :: user where
  "sample_attending = \<lparr>user_id = ''xx'', user_clerk = ''b'', user_email = ''b@x.ca'',
     user_name = None, user_role_set = {RoleApplicant}\<rparr>"

definition sample_answer :: rsvp_input where
  "sample_answer = \<lparr>ri_application = ''xxxxxxxxx'', ri_decision = unary_text 100,
     ri_status = ''confirmed'', ri_lock = 0\<rparr>"

theorem respond_spec_witness:
  "(\<exists>v d'. respond sample_env sample_attending sample_answer sample_released_db = (Inr v, d') \<and>
     respond_contract sample_env sample_attending sample_answer sample_released_db v d') \<and>
   fst (respond sample_env sample_attending (sample_answer\<lparr>ri_decision := unary_text 99\<rparr>)
     sample_released_db) = Inl RsvpConflict"
proof
  have "\<not> isl (fst (respond sample_env sample_attending sample_answer sample_released_db))"
    by code_simp
  then obtain v d' where r:
    "respond sample_env sample_attending sample_answer sample_released_db = (Inr v, d')"
    by (metis isl_def prod.collapse sum.collapse(2))
  from respond_spec [OF sample_released_inv, of sample_env sample_attending sample_answer] r
  show "\<exists>v d'. respond sample_env sample_attending sample_answer sample_released_db = (Inr v, d') \<and>
     respond_contract sample_env sample_attending sample_answer sample_released_db v d'" by simp
  show "fst (respond sample_env sample_attending (sample_answer\<lparr>ri_decision := unary_text 99\<rparr>)
     sample_released_db) = Inl RsvpConflict" by code_simp
qed

end
