(* ===== verification/Sha256.thy ===== *)
theory Sha256
  imports GoStrings
begin

unbundle bit_operations_syntax

text \<open>
  \<^verbatim>\<open>crypto/sha256\<close> and \<^verbatim>\<open>crypto/hmac\<close> of Go's library, as FIPS 180-4 and RFC 2104 define them:
  the message is padded to 64-byte blocks, each block is expanded to 64 words and folded into
  the eight-word state. The credentials only rely on the digest having 32 bytes.
\<close>

type_synonym word32 = "32 word"

text \<open>The constants are the first 32 fractional bits of the cube roots of the first 64 primes
  and of the square roots of the first eight. The root is found bit by bit.\<close>

definition is_prime :: "nat \<Rightarrow> bool" where
  "is_prime n = list_all (\<lambda>k. n mod k \<noteq> 0) [2..<n]"

definition first_primes :: "int list" where
  "first_primes = map int (filter is_prime [2..<312])"

definition root_floor :: "nat \<Rightarrow> int \<Rightarrow> int" where
  "root_floor k n = foldl (\<lambda>r i. if (r + 2 ^ i) ^ k \<le> n then r + 2 ^ i else r) 0 (rev [0..<40])"

definition root_fraction :: "nat \<Rightarrow> int \<Rightarrow> word32" where
  "root_fraction k n = word_of_int (root_floor k (n * 2 ^ (32 * k)))"

definition round_constants :: "word32 list" where
  "round_constants = map (root_fraction 3) first_primes"

datatype hash_state =
  Hash word32 word32 word32 word32 word32 word32 word32 word32

definition initial_state :: hash_state where
  "initial_state =
     (let r = (\<lambda>i. root_fraction 2 (first_primes ! i))
      in Hash (r 0) (r 1) (r 2) (r 3) (r 4) (r 5) (r 6) (r 7))"

definition small_sigma0 :: "word32 \<Rightarrow> word32" where
  "small_sigma0 x = word_rotr 7 x XOR word_rotr 18 x XOR drop_bit 3 x"

definition small_sigma1 :: "word32 \<Rightarrow> word32" where
  "small_sigma1 x = word_rotr 17 x XOR word_rotr 19 x XOR drop_bit 10 x"

definition big_sigma0 :: "word32 \<Rightarrow> word32" where
  "big_sigma0 x = word_rotr 2 x XOR word_rotr 13 x XOR word_rotr 22 x"

definition big_sigma1 :: "word32 \<Rightarrow> word32" where
  "big_sigma1 x = word_rotr 6 x XOR word_rotr 11 x XOR word_rotr 25 x"

text \<open>The schedule, most recent word first: the words at distance 2, 7, 15 and 16.\<close>

primrec schedule :: "nat \<Rightarrow> word32 list \<Rightarrow> word32 list" where
  "schedule 0 ws = ws"
| "schedule (Suc n) ws =
     schedule n ((small_sigma1 (ws ! 1) + ws ! 6 + small_sigma0 (ws ! 14) + ws ! 15) # ws)"

definition hash_round :: "hash_state \<Rightarrow> word32 \<times> word32 \<Rightarrow> hash_state" where
  "hash_round st kw = (case st of Hash a b c d e f g h \<Rightarrow>
     let t1 = h + big_sigma1 e + ((e AND f) XOR (NOT e AND g)) + fst kw + snd kw;
         t2 = big_sigma0 a + ((a AND b) XOR (a AND c) XOR (b AND c))
     in Hash (t1 + t2) a b c (d + t1) e f g)"

definition add_state :: "hash_state \<Rightarrow> hash_state \<Rightarrow> hash_state" where
  "add_state s t = (case s of Hash a b c d e f g h \<Rightarrow> (case t of Hash a' b' c' d' e' f' g' h' \<Rightarrow>
     Hash (a + a') (b + b') (c + c') (d + d') (e + e') (f + f') (g + g') (h + h')))"

definition hash_block :: "hash_state \<Rightarrow> word32 list \<Rightarrow> hash_state" where
  "hash_block st ws =
     add_state st (foldl hash_round st (zip round_constants (rev (schedule 48 (rev ws)))))"

fun words_of :: "bytes \<Rightarrow> word32 list" where
  "words_of (a # b # c # d # bs) =
     (push_bit 24 (ucast a) + push_bit 16 (ucast b) + push_bit 8 (ucast c) + ucast d) # words_of bs"
| "words_of _ = []"

fun blocks :: "word32 list \<Rightarrow> word32 list list" where
  "blocks ws = (if ws = [] then [] else take 16 ws # blocks (drop 16 ws))"

declare blocks.simps [simp del]

definition pad_message :: "bytes \<Rightarrow> bytes" where
  "pad_message m =
     m @ [0x80] @ replicate ((119 - length m mod 64) mod 64) 0 @
     map (\<lambda>i. ucast (drop_bit (8 * (7 - i)) (word_of_nat (8 * length m) :: 64 word))) [0..<8]"

definition word_bytes :: "word32 \<Rightarrow> bytes" where
  "word_bytes w = [ucast (drop_bit 24 w), ucast (drop_bit 16 w), ucast (drop_bit 8 w), ucast w]"

definition digest_of :: "hash_state \<Rightarrow> bytes" where
  "digest_of st = (case st of Hash a b c d e f g h \<Rightarrow>
     word_bytes a @ word_bytes b @ word_bytes c @ word_bytes d @
     word_bytes e @ word_bytes f @ word_bytes g @ word_bytes h)"

definition sha256 :: "bytes \<Rightarrow> bytes" where
  "sha256 m = digest_of (foldl hash_block initial_state (blocks (words_of (pad_message m))))"

definition hmac_key :: "bytes \<Rightarrow> bytes" where
  "hmac_key k = (let k' = if length k > 64 then sha256 k else k in k' @ replicate (64 - length k') 0)"

definition hmac_sha256 :: "bytes \<Rightarrow> bytes \<Rightarrow> bytes" where
  "hmac_sha256 k m =
     sha256 (map (\<lambda>b. b XOR 0x5c) (hmac_key k) @ sha256 (map (\<lambda>b. b XOR 0x36) (hmac_key k) @ m))"

lemma length_sha256 [simp]: "length (sha256 m) = 32"
  by (simp add: sha256_def digest_of_def word_bytes_def split: hash_state.split)

lemma length_hmac_sha256 [simp]: "length (hmac_sha256 k m) = 32"
  by (simp add: hmac_sha256_def)

lemma length_hmac_key: "length (hmac_key k) = 64"
  by (auto simp: hmac_key_def Let_def)

lemma pad_length:
  assumes "r < (64::nat)"
  shows "r + 9 + (119 - r) mod 64 = (if r \<le> 55 then 64 else 128)"
proof (cases "r \<le> 55")
  case True
  then have "119 - r = (55 - r) + 64" by simp
  then have "(119 - r) mod 64 = 55 - r" by (simp only: mod_add_self2) simp
  with True show ?thesis by simp
qed (use assms in simp)

lemma length_pad_message: "length (pad_message m) mod 64 = 0"
proof -
  define r where "r = length m mod 64"
  have "r < 64" by (simp add: r_def)
  then have z: "(r + 9 + (119 - r) mod 64) mod 64 = 0" by (subst pad_length) auto
  have "length (pad_message m) = length m + (9 + (119 - r) mod 64)"
    by (simp add: pad_message_def r_def)
  also have "\<dots> mod 64 = (r + (9 + (119 - r) mod 64)) mod 64"
    unfolding r_def by (rule mod_add_left_eq [symmetric])
  finally show ?thesis using z by (simp only: add.assoc)
qed

end
