(* ===== verification/Credentials.thy ===== *)
theory Credentials
  imports Decisions Sha256
begin

text \<open>
  The bearer credentials of \<^verbatim>\<open>passes/service.go\<close>: base64 of Go's \<^verbatim>\<open>encoding/base64\<close>, the
  random and the derived credentials, their purpose-separated hashes, and the service
  configuration \<^verbatim>\<open>NewService\<close> accepts. A QR credential is a function of the pass id and the
  server's pepper, so that it can be shown again; a claim credential is random.
\<close>

section \<open>Base64\<close>

text \<open>The value of a symbol and the symbol of a value; only the last two symbols differ between
  the standard and the URL alphabet.\<close>

datatype alphabet = StdAlphabet | UrlAlphabet

definition symbol62 :: "alphabet \<Rightarrow> char" where
  "symbol62 a = (case a of StdAlphabet \<Rightarrow> CHR ''+'' | UrlAlphabet \<Rightarrow> CHR ''-'')"

definition symbol63 :: "alphabet \<Rightarrow> char" where
  "symbol63 a = (case a of StdAlphabet \<Rightarrow> CHR ''/'' | UrlAlphabet \<Rightarrow> CHR ''_'')"

definition b64_char :: "alphabet \<Rightarrow> int \<Rightarrow> char" where
  "b64_char a v =
     (if v < 26 then char_of (v + 65)
      else if v < 52 then char_of (v - 26 + 97)
      else if v < 62 then char_of (v - 52 + 48)
      else if v = 62 then symbol62 a else symbol63 a)"

definition b64_value :: "alphabet \<Rightarrow> char \<Rightarrow> int option" where
  "b64_value a c =
     (let n = of_char c :: int in
      if 65 \<le> n \<and> n \<le> 90 then Some (n - 65)
      else if 97 \<le> n \<and> n \<le> 122 then Some (n - 97 + 26)
      else if 48 \<le> n \<and> n \<le> 57 then Some (n - 48 + 52)
      else if c = symbol62 a then Some 62
      else if c = symbol63 a then Some 63 else None)"

text \<open>Three bytes are 24 bits, read as four digits of six bits.\<close>

definition digit :: "nat \<Rightarrow> int \<Rightarrow> int" where
  "digit i v = v div 64 ^ i mod 64"

fun encode_digits :: "bytes \<Rightarrow> int list" where
  "encode_digits [] = []"
| "encode_digits [a] = (let v = uint a * 65536 in [digit 3 v, digit 2 v])"
| "encode_digits [a, b] =
     (let v = uint a * 65536 + uint b * 256 in [digit 3 v, digit 2 v, digit 1 v])"
| "encode_digits (a # b # c # bs) =
     (let v = uint a * 65536 + uint b * 256 + uint c
      in digit 3 v # digit 2 v # digit 1 v # digit 0 v # encode_digits bs)"

definition raw_url_encode :: "bytes \<Rightarrow> string" where
  "raw_url_encode bs = map (b64_char UrlAlphabet) (encode_digits bs)"

definition value_byte :: "nat \<Rightarrow> int \<Rightarrow> byte" where
  "value_byte i v = word_of_int (v div 256 ^ i)"

text \<open>A last group of two or three digits stands for one or two bytes. \<open>strict\<close> requires the
  bits that are left over to be zero.\<close>

fun decode_digits :: "bool \<Rightarrow> int list \<Rightarrow> bytes option" where
  "decode_digits strict [] = Some []"
| "decode_digits strict [p] = None"
| "decode_digits strict [p, q] =
     (let v = p * 262144 + q * 4096 in
      if strict \<and> (value_byte 1 v \<noteq> 0 \<or> value_byte 0 v \<noteq> 0) then None
      else Some [value_byte 2 v])"
| "decode_digits strict [p, q, r] =
     (let v = p * 262144 + q * 4096 + r * 64 in
      if strict \<and> value_byte 0 v \<noteq> 0 then None
      else Some [value_byte 2 v, value_byte 1 v])"
| "decode_digits strict (p # q # r # s # ds) =
     (let v = p * 262144 + q * 4096 + r * 64 + s in
      map_option (\<lambda>bs. value_byte 2 v # value_byte 1 v # value_byte 0 v # bs)
        (decode_digits strict ds))"

fun values_of :: "alphabet \<Rightarrow> string \<Rightarrow> int list option" where
  "values_of a [] = Some []"
| "values_of a (c # cs) =
     (case b64_value a c of None \<Rightarrow> None | Some v \<Rightarrow> map_option ((#) v) (values_of a cs))"

text \<open>Every decoder skips line breaks.\<close>

definition drop_breaks :: "string \<Rightarrow> string" where
  "drop_breaks s = filter (\<lambda>c. c \<noteq> CHR 0x0A \<and> c \<noteq> CHR 0x0D) s"

definition raw_url_decode :: "string \<Rightarrow> bytes option" where
  "raw_url_decode s =
     (case values_of UrlAlphabet (drop_breaks s) of None \<Rightarrow> None
      | Some ds \<Rightarrow> decode_digits False ds)"

text \<open>\<^verbatim>\<open>base64.StdEncoding.Strict()\<close>: padded to groups of four, at most two \<^verbatim>\<open>=\<close> at the end.\<close>

definition strip_padding :: "string \<Rightarrow> string" where
  "strip_padding s =
     (if length s mod 4 \<noteq> 0 \<or> s = [] \<or> last s \<noteq> CHR ''='' then s
      else if last (butlast s) = CHR ''='' then butlast (butlast s) else butlast s)"

definition std_strict_decode :: "string \<Rightarrow> bytes option" where
  "std_strict_decode s =
     (let t = drop_breaks s in
      if length t mod 4 \<noteq> 0 then None
      else case values_of StdAlphabet (strip_padding t) of None \<Rightarrow> None
        | Some ds \<Rightarrow> decode_digits True ds)"

text \<open>\<^verbatim>\<open>RawURLEncoding.EncodedLen\<close>.\<close>

definition encoded_len :: "nat \<Rightarrow> nat" where
  "encoded_len n = n div 3 * 4 + (n mod 3 * 8 + 5) div 6"

subsection \<open>The round trip\<close>

lemma value_of_symbols [simp]:
  "b64_value a (symbol62 a) = Some 62" "b64_value a (symbol63 a) = Some 63"
  by (cases a; simp add: b64_value_def symbol62_def symbol63_def)+

lemma b64_roundtrip:
  assumes "0 \<le> v" "v < 64"
  shows "b64_value a (b64_char a v) = Some v"
proof (cases "v < 62")
  case True
  then show ?thesis using assms by (auto simp: b64_char_def b64_value_def Let_def mod_pos_pos_trivial)
next
  case False
  then have "v = 62 \<or> v = 63" using assms by auto
  then show ?thesis by (auto simp: b64_char_def)
qed

lemma b64_char_visible:
  assumes "0 \<le> v" "v < 64"
  shows "b64_char a v \<noteq> CHR 0x0A \<and> b64_char a v \<noteq> CHR 0x0D"
proof -
  have "b64_value a (CHR 0x0A) = None" "b64_value a (CHR 0x0D) = None"
    by (cases a; simp add: b64_value_def symbol62_def symbol63_def)+
  then show ?thesis using b64_roundtrip [OF assms, of a] by auto
qed

lemma digits_below: "list_all (\<lambda>v. 0 \<le> v \<and> v < 64) (encode_digits bs)"
  by (induction bs rule: encode_digits.induct) (auto simp: Let_def digit_def)

lemma values_encoded: "list_all (\<lambda>v. 0 \<le> v \<and> v < 64) vs \<Longrightarrow> values_of a (map (b64_char a) vs) = Some vs"
  by (induction vs) (simp_all add: b64_roundtrip)

lemma drop_breaks_encoded: "list_all (\<lambda>v. 0 \<le> v \<and> v < 64) vs \<Longrightarrow>
    drop_breaks (map (b64_char a) vs) = map (b64_char a) vs"
  by (induction vs) (auto simp: drop_breaks_def b64_char_visible)

lemma digits_value:
  assumes "0 \<le> v" "v < 64 ^ 4"
  shows "digit 3 v * 262144 + digit 2 v * 4096 + digit 1 v * 64 + digit 0 v = v"
proof -
  define q1 where "q1 = v div 64"
  define q2 where "q2 = q1 div 64"
  define q3 where "q3 = q2 div 64"
  have q: "q1 = v div 64" "q2 = v div 4096" "q3 = v div 262144"
    by (simp_all add: q1_def q2_def q3_def zdiv_zmult2_eq [symmetric])
  have "0 \<le> q3" "q3 < 64" unfolding q using assms by auto
  then have "digit 3 v = q3" by (simp add: digit_def q)
  moreover have "digit 2 v = q2 mod 64" "digit 1 v = q1 mod 64" "digit 0 v = v mod 64"
    by (simp_all add: digit_def q)
  moreover have "q1 * 64 + v mod 64 = v" "q2 * 64 + q1 mod 64 = q1" "q3 * 64 + q2 mod 64 = q2"
    unfolding q1_def q2_def q3_def by (rule div_mult_mod_eq)+
  ultimately show ?thesis by linarith
qed

lemma value_bytes:
  assumes "0 \<le> a" "a < 256" "0 \<le> b" "b < 256" "0 \<le> c" "c < (256::int)"
  shows "value_byte 2 (a * 65536 + b * 256 + c) = word_of_int a"
    and "value_byte 1 (a * 65536 + b * 256 + c) = word_of_int b"
    and "value_byte 0 (a * 65536 + b * 256 + c) = word_of_int c"
proof -
  have "(a * 65536 + b * 256 + c) div 65536 = a" using assms by simp
  then show "value_byte 2 (a * 65536 + b * 256 + c) = word_of_int a"
    by (simp add: value_byte_def)
  have w: "word_of_int (256 * n + k) = (word_of_int k :: byte)" for n k
  proof -
    have "(256 * n + k) mod 2 ^ 8 = k mod (2 ^ 8 :: int)" by simp
    then show ?thesis by (simp only: word_of_int_eq_iff) (simp add: take_bit_eq_mod)
  qed
  have "(a * 65536 + b * 256 + c) div 256 = 256 * a + b" using assms by simp
  then show "value_byte 1 (a * 65536 + b * 256 + c) = word_of_int b"
    by (simp only: value_byte_def power_one_right w)
  have "a * 65536 + b * 256 + c = 256 * (a * 256 + b) + c" by simp
  then show "value_byte 0 (a * 65536 + b * 256 + c) = word_of_int c"
    by (simp only: value_byte_def w power_0 div_by_1)
qed

lemma uint_byte: "0 \<le> uint (b :: byte) \<and> uint b < 256"
  using uint_lt2p [of b] by simp

lemma quantum_bound:
  "0 \<le> uint (a::byte) * 65536 + uint (b::byte) * 256 + uint (c::byte)"
  "uint (a::byte) * 65536 + uint (b::byte) * 256 + uint (c::byte) < 64 ^ 4"
  using uint_byte [of a] uint_byte [of b] uint_byte [of c] by simp_all

lemma quantum_bytes [simp]:
  "value_byte 2 (uint a * 65536 + uint b * 256 + uint c) = (a :: byte)"
  "value_byte 1 (uint a * 65536 + uint b * 256 + uint c) = (b :: byte)"
  "value_byte 0 (uint a * 65536 + uint b * 256 + uint c) = (c :: byte)"
  using value_bytes [of "uint a" "uint b" "uint c"] uint_byte [of a] uint_byte [of b] uint_byte [of c]
  by (simp_all add: word_of_int_uint)

lemma decode_encode_digits: "decode_digits strict (encode_digits bs) = Some bs"
proof (induction bs rule: encode_digits.induct)
  case 1
  then show ?case by simp
next
  case (2 a)
  let ?v = "uint a * 65536 + uint (0::byte) * 256 + uint (0::byte)"
  have "digit 1 ?v = 0" "digit 0 ?v = 0" by (simp_all add: digit_def)
  then have "digit 3 ?v * 262144 + digit 2 ?v * 4096 = ?v"
    using digits_value [OF quantum_bound, of a 0 0] by simp
  then have "decode_digits strict (encode_digits [a]) =
      (if strict \<and> (value_byte 1 ?v \<noteq> 0 \<or> value_byte 0 ?v \<noteq> 0) then None
       else Some [value_byte 2 ?v])"
    by (simp add: Let_def)
  then show ?case unfolding quantum_bytes by simp
next
  case (3 a b)
  let ?v = "uint a * 65536 + uint b * 256 + uint (0::byte)"
  have "digit 0 ?v = 0" by (simp add: digit_def)
  then have "digit 3 ?v * 262144 + digit 2 ?v * 4096 + digit 1 ?v * 64 = ?v"
    using digits_value [OF quantum_bound, of a b 0] by simp
  then have "decode_digits strict (encode_digits [a, b]) =
      (if strict \<and> value_byte 0 ?v \<noteq> 0 then None else Some [value_byte 2 ?v, value_byte 1 ?v])"
    by (simp add: Let_def)
  then show ?case unfolding quantum_bytes by simp
next
  case (4 a b c bs)
  have "decode_digits strict (encode_digits (a # b # c # bs)) =
      map_option (\<lambda>ys. a # b # c # ys) (decode_digits strict (encode_digits bs))"
    using digits_value [OF quantum_bound, of a b c] by (simp add: Let_def del: One_nat_def)
  then show ?case using 4 by simp
qed

lemma raw_url_roundtrip [simp]: "raw_url_decode (raw_url_encode bs) = Some bs"
  using digits_below [of bs]
  by (simp add: raw_url_decode_def raw_url_encode_def drop_breaks_encoded values_encoded
      decode_encode_digits)

lemma encoded_len_add3 [simp]: "encoded_len (Suc (Suc (Suc n))) = 4 + encoded_len n"
proof -
  have "Suc (Suc (Suc n)) div 3 = Suc (n div 3)" "Suc (Suc (Suc n)) mod 3 = n mod 3" by simp_all
  then show ?thesis by (simp only: encoded_len_def) simp
qed

lemma length_raw_url_encode: "length (raw_url_encode bs) = encoded_len (length bs)"
proof -
  have "length (encode_digits bs) = encoded_len (length bs)"
    by (induction bs rule: encode_digits.induct) (simp_all add: Let_def, simp_all add: encoded_len_def)
  then show ?thesis by (simp add: raw_url_encode_def)
qed

lemma encoded_len_32 [simp]: "encoded_len 32 = 43"
  by (simp add: encoded_len_def)

section \<open>Pass ids\<close>

definition uuid_bytes :: "uuid \<Rightarrow> bytes" where
  "uuid_bytes i = map (\<lambda>k. ucast (drop_bit (8 * (15 - k)) i)) [0..<16]"

definition uuid_of_bytes :: "bytes \<Rightarrow> uuid" where
  "uuid_of_bytes bs = foldl (\<lambda>i b. push_bit 8 i OR ucast b) 0 bs"

text \<open>\<^verbatim>\<open>randomUUID\<close> on the sixteen random bytes: version 4, variant 10.\<close>

definition random_uuid :: "bytes \<Rightarrow> uuid" where
  "random_uuid bs =
     uuid_of_bytes (bs[6 := (bs ! 6 AND 0x0f) OR 0x40, 8 := (bs ! 8 AND 0x3f) OR 0x80])"

section \<open>The service's configuration\<close>

text \<open>A parsed URL: the parts \<^verbatim>\<open>NewService\<close> looks at, and \<^verbatim>\<open>String()\<close> as a function of the path.\<close>

record url =
  url_scheme :: string
  url_host :: string
  url_has_user :: bool
  url_query :: string
  url_fragment :: string
  url_path :: string
  url_string :: "string \<Rightarrow> string"

record pass_config =
  cf_staff_expires :: "timestamp option"
  cf_qr_pepper :: string
  cf_claim_pepper :: string
  cf_base_url :: string

text \<open>The service; \<open>ps_hmac\<close> is HMAC-SHA256, which \<open>new_service\<close> puts there.\<close>

record pass_service =
  ps_hmac :: "bytes \<Rightarrow> bytes \<Rightarrow> bytes"
  ps_qr :: bytes
  ps_claim :: bytes
  ps_base :: "url option"
  ps_staff_expires :: timestamp

datatype pass_error =
    PassForbidden
  | PassNotFound
  | PassActiveExists
  | PassRSVPRequired
  | PassInternal

datatype config_error = PepperRequired string | PepperInvalid string | PeppersEqual | BadBaseURL

definition decode_pepper :: "string \<Rightarrow> string \<Rightarrow> config_error + bytes" where
  "decode_pepper name encoded =
     (let t = trim_space encoded in
      if t = [] then Inl (PepperRequired name)
      else case std_strict_decode t of None \<Rightarrow> Inl (PepperInvalid name)
        | Some bs \<Rightarrow> if length bs < 32 then Inl (PepperInvalid name) else Inr bs)"

definition base_url_ok :: "url \<Rightarrow> bool" where
  "base_url_ok u =
     (\<not> (url_scheme u = [] \<or> url_host u = [] \<or> url_has_user u \<or> url_query u \<noteq> [] \<or>
         url_fragment u \<noteq> [] \<or> (url_scheme u \<noteq> ''http'' \<and> url_scheme u \<noteq> ''https'')))"

text \<open>27 September 2026, 18:00 UTC.\<close>

definition default_staff_expiry :: timestamp where
  "default_staff_expiry = 1790532000 * 10 ^ 6"

definition new_service ::
    "(string \<Rightarrow> url option) \<Rightarrow> pass_config \<Rightarrow> config_error + pass_service" where
  "new_service parse_url cf =
     bindE (decode_pepper ''QR_TOKEN_PEPPER'' (cf_qr_pepper cf)) (\<lambda>qr.
     bindE (decode_pepper ''CLAIM_TOKEN_PEPPER'' (cf_claim_pepper cf)) (\<lambda>claim.
     if qr = claim then Inl PeppersEqual
     else bindE (let raw = trim_space (cf_base_url cf) in
                 if raw = [] then Inr None
                 else case parse_url raw of None \<Rightarrow> Inl BadBaseURL
                   | Some u \<Rightarrow> if base_url_ok u then Inr (Some u) else Inl BadBaseURL) (\<lambda>base.
          Inr \<lparr>ps_hmac = hmac_sha256, ps_qr = qr, ps_claim = claim, ps_base = base,
               ps_staff_expires = (case cf_staff_expires cf of None \<Rightarrow> default_staff_expiry
                                   | Some t \<Rightarrow> t)\<rparr>)))"

section \<open>Credentials\<close>

definition bytes_of :: "string \<Rightarrow> bytes" where
  "bytes_of s = map of_char s"

definition qr_prefix :: string where "qr_prefix = ''qr_v1.''"
definition claim_prefix :: string where "claim_prefix = ''claim_v1.''"

definition derived_message :: "uuid \<Rightarrow> bytes" where
  "derived_message i = bytes_of (''hackatlantic:passes:qr-derived:v1'' @ [CHR 0x00]) @ uuid_bytes i"

definition derived_qr_credential :: "pass_service \<Rightarrow> uuid \<Rightarrow> string" where
  "derived_qr_credential s i = qr_prefix @ raw_url_encode (ps_hmac s (ps_qr s) (derived_message i))"

definition hash_message :: "string \<Rightarrow> string \<Rightarrow> bytes" where
  "hash_message purpose credential =
     bytes_of (''hackatlantic:passes:'' @ purpose @ '':v1'' @ [CHR 0x00]) @ bytes_of credential"

definition credential_hash :: "pass_service \<Rightarrow> bytes \<Rightarrow> string \<Rightarrow> string \<Rightarrow> bytes" where
  "credential_hash s pepper purpose credential = ps_hmac s pepper (hash_message purpose credential)"

definition valid_credential :: "string \<Rightarrow> string \<Rightarrow> bool" where
  "valid_credential v prefix =
     (if \<not> has_prefix prefix v \<or> length v \<noteq> length prefix + encoded_len 32 then False
      else case raw_url_decode (trim_prefix prefix v) of None \<Rightarrow> False
        | Some bs \<Rightarrow> length bs = 32)"

text \<open>\<^verbatim>\<open>generateCredential\<close> on its 32 random bytes.\<close>

definition generate_credential :: "string \<Rightarrow> bytes \<Rightarrow> string" where
  "generate_credential prefix entropy = prefix @ raw_url_encode entropy"

record credentials =
  cr_qr :: string
  cr_claim :: string
  cr_qr_hash :: bytes
  cr_claim_hash :: bytes

definition new_credentials :: "pass_service \<Rightarrow> bytes \<Rightarrow> uuid \<Rightarrow> credentials" where
  "new_credentials s entropy i =
     (let claim = generate_credential claim_prefix entropy; qr = derived_qr_credential s i in
      \<lparr>cr_qr = qr, cr_claim = claim, cr_qr_hash = credential_hash s (ps_qr s) ''qr'' qr,
       cr_claim_hash = credential_hash s (ps_claim s) ''claim'' claim\<rparr>)"

definition qr_token_hash :: "pass_service \<Rightarrow> string \<Rightarrow> bytes \<times> bool" where
  "qr_token_hash s token =
     (if \<not> valid_credential token qr_prefix then (replicate 32 0, False)
      else (credential_hash s (ps_qr s) ''qr'' token, True))"

section \<open>What the credentials promise\<close>

lemma generated_valid: "length bs = 32 \<Longrightarrow> valid_credential (prefix @ raw_url_encode bs) prefix"
  by (simp add: valid_credential_def length_raw_url_encode)

lemma qr_not_claim [simp]: "\<not> valid_credential (qr_prefix @ s) claim_prefix"
  by (simp add: valid_credential_def has_prefix_def qr_prefix_def claim_prefix_def)

lemma claim_not_qr [simp]: "\<not> valid_credential (claim_prefix @ s) qr_prefix"
  by (simp add: valid_credential_def has_prefix_def qr_prefix_def claim_prefix_def)

text \<open>The messages the server hashes for its three purposes never coincide.\<close>

lemma messages_separated:
  "derived_message i \<noteq> hash_message ''qr'' c"
  "derived_message i \<noteq> hash_message ''claim'' c"
  "hash_message ''qr'' c \<noteq> hash_message ''claim'' c'"
  by (simp_all add: derived_message_def hash_message_def bytes_of_def)

lemma length_qr_token_hash:
  "(\<And>k m. length (ps_hmac s k m) = 32) \<Longrightarrow> length (fst (qr_token_hash s t)) = 32"
  by (simp add: qr_token_hash_def credential_hash_def)

text \<open>The interface \<^verbatim>\<open>redemptions.QRTokenHasher\<close>: what a scanner may rely on.\<close>

locale token_hasher =
  fixes hash :: "string \<Rightarrow> bytes \<times> bool"
  assumes hash_length: "length (fst (hash t)) = 32"
    and sentinel: "\<not> snd (hash t) \<Longrightarrow> fst (hash t) = replicate 32 0"

interpretation pass_hasher: token_hasher "qr_token_hash (s\<lparr>ps_hmac := hmac_sha256\<rparr>)" for s
  by unfold_locales (auto simp: qr_token_hash_def credential_hash_def split: if_splits)

lemma derived_token_hash:
  assumes "\<And>k m. length (ps_hmac s k m) = 32"
  shows "qr_token_hash s (derived_qr_credential s i) =
    (credential_hash s (ps_qr s) ''qr'' (derived_qr_credential s i), True)"
  using generated_valid [of "ps_hmac s (ps_qr s) (derived_message i)" qr_prefix] assms
  by (simp add: qr_token_hash_def derived_qr_credential_def)

definition service_ok :: "pass_service \<Rightarrow> bool" where
  "service_ok s \<longleftrightarrow> (\<forall>k m. length (ps_hmac s k m) = 32) \<and> ps_qr s \<noteq> ps_claim s \<and>
     32 \<le> length (ps_qr s) \<and> 32 \<le> length (ps_claim s)"

lemma decode_pepper_Inr: "decode_pepper name t = Inr bs \<Longrightarrow> 32 \<le> length bs"
  by (auto simp: decode_pepper_def Let_def split: if_split_asm option.split_asm)

lemma new_service_ok: "new_service parse_url cf = Inr s \<Longrightarrow> service_ok s"
  by (auto simp: new_service_def service_ok_def Let_def dest!: decode_pepper_Inr
      split: if_split_asm option.split_asm)

lemma new_service_url:
  assumes "new_service parse_url cf = Inr s" and "ps_base s = Some u"
  shows "parse_url (trim_space (cf_base_url cf)) = Some u \<and> base_url_ok u"
  using assms by (auto simp: new_service_def Let_def split: if_split_asm option.split_asm)

lemma credentials_facts:
  assumes "service_ok s" and "length entropy = 32"
    and c: "c = new_credentials s entropy i"
  shows "qr_token_hash s (cr_qr c) = (cr_qr_hash c, True)"
    and "valid_credential (cr_claim c) claim_prefix" and "snd (qr_token_hash s (cr_claim c)) = False"
    and "\<not> valid_credential (cr_qr c) claim_prefix"
    and "length (cr_qr_hash c) = 32" and "length (cr_claim_hash c) = 32"
    and "cr_qr (new_credentials s entropy' i) = cr_qr c"
proof -
  have len: "\<And>k m. length (ps_hmac s k m) = 32"
    using assms(1) by (simp add: service_ok_def)
  show "qr_token_hash s (cr_qr c) = (cr_qr_hash c, True)"
    using derived_token_hash [OF len] by (simp add: c new_credentials_def Let_def)
  show "valid_credential (cr_claim c) claim_prefix"
    using generated_valid [OF assms(2)] by (simp add: c new_credentials_def Let_def generate_credential_def)
  show "snd (qr_token_hash s (cr_claim c)) = False"
    by (simp add: c new_credentials_def Let_def generate_credential_def qr_token_hash_def)
  show "\<not> valid_credential (cr_qr c) claim_prefix"
    by (simp add: c new_credentials_def Let_def derived_qr_credential_def)
  show "length (cr_qr_hash c) = 32" "length (cr_claim_hash c) = 32"
    by (simp_all add: c new_credentials_def Let_def credential_hash_def len)
  show "cr_qr (new_credentials s entropy' i) = cr_qr c"
    by (simp add: c new_credentials_def Let_def)
qed

text \<open>C13. The credentials of a configured service: base64 decodes to what was encoded, both
  credentials of a new pass are well formed for their own purpose and rejected for the other,
  presenting the QR credential yields exactly the hash stored with the pass, the stored hashes
  have the 32 bytes the table requires, and the QR credential can be derived again from the pass
  id whatever the random claim was.\<close>

theorem credentials_spec:
  assumes "new_service parse_url cf = Inr s" and "length entropy = 32"
  shows "let c = new_credentials s entropy i in
    raw_url_decode (raw_url_encode entropy) = Some entropy \<and>
    qr_token_hash s (cr_qr c) = (cr_qr_hash c, True) \<and>
    valid_credential (cr_claim c) claim_prefix \<and> \<not> valid_credential (cr_qr c) claim_prefix \<and>
    \<not> snd (qr_token_hash s (cr_claim c)) \<and>
    length (cr_qr_hash c) = 32 \<and> length (cr_claim_hash c) = 32 \<and>
    derived_qr_credential s i = cr_qr c \<and>
    (\<forall>entropy'. cr_qr (new_credentials s entropy' i) = cr_qr c)"
  using credentials_facts [OF new_service_ok [OF assms(1)] assms(2) refl, where i = i]
  unfolding Let_def by (simp add: new_credentials_def Let_def)

definition sample_pepper :: "char \<Rightarrow> string" where
  "sample_pepper c = replicate 42 c @ ''A=''"

definition sample_config :: pass_config where
  "sample_config = \<lparr>cf_staff_expires = None, cf_qr_pepper = sample_pepper (CHR ''Q''),
     cf_claim_pepper = sample_pepper (CHR ''C''), cf_base_url = ''https://ha.ca''\<rparr>"

definition sample_url :: "string \<Rightarrow> url option" where
  "sample_url raw = Some \<lparr>url_scheme = ''https'', url_host = ''ha.ca'', url_has_user = False,
     url_query = [], url_fragment = [], url_path = [], url_string = (\<lambda>p. raw @ p)\<rparr>"

theorem credentials_spec_witness:
  "\<exists>s. new_service sample_url sample_config = Inr s \<and>
     qr_token_hash s (cr_qr (new_credentials s (replicate 32 7) 5)) =
       (cr_qr_hash (new_credentials s (replicate 32 7) 5), True)"
proof -
  have "\<not> isl (new_service sample_url sample_config)" by code_simp
  then obtain s where s: "new_service sample_url sample_config = Inr s"
    by (metis isl_def sum.collapse(2))
  from credentials_spec [OF s, of "replicate 32 7" 5] s show ?thesis by (simp add: Let_def)
qed

end
