(* ===== verification/Passes.thy ===== *)
theory Passes
  imports Credentials
begin

text \<open>
  Package \<^verbatim>\<open>passes\<close>: issuing, replacing and revoking attendee passes, the owner's and the
  claimant's view of a pass. Every statement is the SQL written inline in
  \<^verbatim>\<open>passes/service.go\<close>; the rows come back in table order.
\<close>

section \<open>Statements\<close>

text \<open>\<^verbatim>\<open>applications.status = 'accepted' AND applications.decision_released_at IS NOT NULL\<close> for
  the application of an attendee.\<close>

definition released_acceptance :: "db \<Rightarrow> attendee_row \<Rightarrow> bool" where
  "released_acceptance d t =
     list_ex (\<lambda>a. ap_id a = ad_application t \<and> ap_status a = StAccepted \<and> ap_released a \<noteq> None)
       (applications d)"

definition lock_accepted_attendee :: "uuid \<Rightarrow> db \<Rightarrow> attendee_row option" where
  "lock_accepted_attendee i d =
     List.find (\<lambda>t. ad_id t = i \<and> released_acceptance d t) (attendees d)"

definition pass_attendee_id :: "uuid \<Rightarrow> db \<Rightarrow> uuid option" where
  "pass_attendee_id i d = map_option pa_attendee (List.find (\<lambda>p. pa_id p = i) (passes d))"

definition confirmed_rsvp :: "uuid \<Rightarrow> db \<Rightarrow> bool" where
  "confirmed_rsvp i d =
     list_ex (\<lambda>t. ad_id t = i \<and>
       list_ex (\<lambda>a. ap_id a = ad_application t \<and>
         list_ex (\<lambda>x. Some (de_id x) = ap_decision_id a \<and> de_application x = ap_id a \<and>
             de_outcome x = OutAccepted \<and> de_released_at x \<noteq> None \<and>
             list_ex (\<lambda>r. at_decision r = de_id x \<and> at_status r = RsvpConfirmed) (attendance d))
           (decisions d)) (applications d)) (attendees d)"

definition require_confirmed_rsvp :: "uuid \<Rightarrow> db \<Rightarrow> pass_error + unit" where
  "require_confirmed_rsvp i d = guardE (confirmed_rsvp i d) PassRSVPRequired"

definition active_pass_of :: "uuid \<Rightarrow> db \<Rightarrow> pass_row option" where
  "active_pass_of i d = List.find (\<lambda>p. pa_attendee p = i \<and> pa_status p = PassActive) (passes d)"

text \<open>The attendee of a pass, when the application is still accepted and released.\<close>

definition pass_holder :: "db \<Rightarrow> pass_row \<Rightarrow> attendee_row option" where
  "pass_holder d p =
     List.find (\<lambda>t. ad_id t = pa_attendee p \<and> released_acceptance d t) (attendees d)"

definition lock_active_pass :: "uuid \<Rightarrow> db \<Rightarrow> (pass_row \<times> attendee_row) option" where
  "lock_active_pass i d =
     (case List.find (\<lambda>p. pa_id p = i \<and> pa_status p = PassActive) (passes d) of None \<Rightarrow> None
      | Some p \<Rightarrow> map_option (Pair p) (pass_holder d p))"

definition insert_pass ::
    "env \<Rightarrow> uuid \<Rightarrow> uuid \<Rightarrow> bytes \<Rightarrow> bytes \<Rightarrow> db \<Rightarrow> db_error + pass_row \<times> db" where
  "insert_pass e i attendee qr claim d =
     (if length qr \<noteq> 32 \<or> length claim \<noteq> 32 then Inl CheckViolation
      else if i \<in> pa_id ` set (passes d) \<or> qr \<in> pa_qr ` set (passes d)
        \<or> claim \<in> pa_claim ` set (passes d) \<or> active_pass_of attendee d \<noteq> None
      then Inl UniqueViolation
      else if attendee \<notin> ad_id ` set (attendees d) then Inl ForeignKeyViolation
      else let p = \<lparr>pa_id = i, pa_attendee = attendee, pa_qr = qr, pa_claim = claim,
                     pa_status = PassActive, pa_issued = now e, pa_revoked = None,
                     pa_replaced_by = None\<rparr>
           in Inr (p, d\<lparr>passes := passes d @ [p]\<rparr>))"

text \<open>The replacement is a deferred foreign key: it is checked at the commit, when
  \<open>insert_pass\<close> has put the new pass of the same attendee there.\<close>

definition replace_pass :: "env \<Rightarrow> uuid \<Rightarrow> uuid \<Rightarrow> db \<Rightarrow> db_error + db" where
  "replace_pass e i j d =
     (if j = i then Inl CheckViolation
      else Inr (d\<lparr>passes := upd_rows (\<lambda>p. pa_id p = i \<and> pa_status p = PassActive)
        (\<lambda>p. p\<lparr>pa_status := PassReplaced, pa_revoked := Some (now e), pa_replaced_by := Some j\<rparr>)
        (passes d)\<rparr>))"

definition mark_revoked :: "env \<Rightarrow> uuid \<Rightarrow> db \<Rightarrow> db" where
  "mark_revoked e i d =
     d\<lparr>passes := upd_rows (\<lambda>p. pa_id p = i \<and> pa_status p = PassActive)
        (\<lambda>p. p\<lparr>pa_status := PassRevoked, pa_revoked := Some (now e)\<rparr>) (passes d)\<rparr>"

abbreviation p_db :: "db_error + 'a \<Rightarrow> pass_error + 'a" where
  "p_db \<equiv> wrap_err (\<lambda>_. PassInternal)"

definition insert_pass_audit ::
    "env \<Rightarrow> string \<Rightarrow> uuid \<Rightarrow> uuid \<Rightarrow> uuid \<Rightarrow> uuid option \<Rightarrow> db \<Rightarrow> pass_error + db" where
  "insert_pass_audit e event actor subject attendee replacement d =
     (let who = (''attendeeId'', JString (uuid_text e attendee)) in
      bindE (if event = ''pass_issued'' \<or> event = ''pass_revoked'' then Inr (JObject [who])
             else if event = ''pass_reissued''
             then Inr (JObject [who, (''replacementPassId'',
                    JString (case replacement of None \<Rightarrow> [] | Some r \<Rightarrow> uuid_text e r))])
             else Inl PassInternal) (\<lambda>metadata.
      p_db (insert_audit e (Some actor) event ''pass'' subject metadata d)))"

text \<open>\<^verbatim>\<open>strings.TrimRight(path, "/")\<close>.\<close>

definition trim_slashes :: "string \<Rightarrow> string" where
  "trim_slashes s = rev (dropWhile (\<lambda>c. c = CHR ''/'') (rev s))"

definition web_pass_url :: "pass_service \<Rightarrow> string" where
  "web_pass_url s =
     (case ps_base s of None \<Rightarrow> []
      | Some u \<Rightarrow> url_string u (trim_slashes (url_path u) @ ''/attendee/pass''))"

definition pass_link_key :: "env \<Rightarrow> uuid \<Rightarrow> string" where
  "pass_link_key e i = ''pass_link:'' @ uuid_text e i"

text \<open>\<^verbatim>\<open>webPassUrl\<close> is omitted when empty.\<close>

definition queue_pass_link ::
    "pass_service \<Rightarrow> env \<Rightarrow> attendee_row \<Rightarrow> uuid \<Rightarrow> db \<Rightarrow> db_error + db" where
  "queue_pass_link s e t i d =
     insert_outbox e ''pass_link'' (ad_user t) (ad_email t) ''pass_link''
       (JObject ((''passId'', JString (uuid_text e i)) #
          (if web_pass_url s = [] then [] else [(''webPassUrl'', JString (web_pass_url s))])))
       (pass_link_key e i) d"

section \<open>Operations on attendee passes\<close>

record pass_view =
  pv_id :: string
  pv_attendee :: string
  pv_name :: string
  pv_status :: pass_status
  pv_issued :: timestamp
  pv_revoked :: "timestamp option"

definition pass_from :: "env \<Rightarrow> pass_row \<Rightarrow> string \<Rightarrow> pass_view" where
  "pass_from e p name =
     \<lparr>pv_id = uuid_text e (pa_id p), pv_attendee = uuid_text e (pa_attendee p), pv_name = name,
      pv_status = pa_status p, pv_issued = pa_issued p, pv_revoked = pa_revoked p\<rparr>"

record issuance =
  is_pass :: pass_view
  is_qr :: string
  is_claim :: string
  is_claim_url :: "string option"

text \<open>\<^verbatim>\<open>url.PathEscape\<close>.\<close>

definition hex_digit :: "nat \<Rightarrow> char" where
  "hex_digit n = char_of (if n < 10 then n + 48 else n + 55)"

definition path_safe :: "char \<Rightarrow> bool" where
  "path_safe c =
     (let n = of_char c :: nat in
      (97 \<le> n \<and> n \<le> 122) \<or> (65 \<le> n \<and> n \<le> 90) \<or> (48 \<le> n \<and> n \<le> 57) \<or>
      List.member ''-_.~$&+=:@'' c)"

definition path_escape :: "string \<Rightarrow> string" where
  "path_escape s = concat (map (\<lambda>c. if path_safe c then [c]
     else let n = of_char c :: nat in [CHR ''%'', hex_digit (n div 16), hex_digit (n mod 16)]) s)"

definition issuance_from ::
    "pass_service \<Rightarrow> env \<Rightarrow> pass_row \<Rightarrow> string \<Rightarrow> credentials \<Rightarrow> issuance" where
  "issuance_from s e p name c =
     \<lparr>is_pass = pass_from e p name, is_qr = cr_qr c, is_claim = cr_claim c,
      is_claim_url = map_option
        (\<lambda>u. url_string u (trim_slashes (url_path u) @ ''/claim/'' @ path_escape (cr_claim c)))
        (ps_base s)\<rparr>"

text \<open>The random bytes an issuance draws.\<close>

record draws =
  dr_id :: bytes
  dr_claim :: bytes

definition issue_writes ::
    "pass_service \<Rightarrow> env \<Rightarrow> uuid \<Rightarrow> attendee_row \<Rightarrow> uuid \<Rightarrow> credentials \<Rightarrow> db
      \<Rightarrow> pass_error + issuance \<times> db" where
  "issue_writes s e actor t i c d =
     bindE (p_db (insert_pass e i (ad_id t) (cr_qr_hash c) (cr_claim_hash c) d)) (\<lambda>(p, d1).
     bindE (insert_pass_audit e ''pass_issued'' actor (pa_id p) (ad_id t) None d1) (\<lambda>d2.
     bindE (p_db (queue_pass_link s e t (pa_id p) d2)) (\<lambda>d3.
     Inr (issuance_from s e p (ad_name t) c, d3))))"

definition issue ::
    "pass_service \<Rightarrow> env \<Rightarrow> draws \<Rightarrow> user \<Rightarrow> string \<Rightarrow> (db, pass_error, issuance) tx" where
  "issue s e dr actor attendee = transact (\<lambda>d.
     if \<not> has_role actor RoleOrganizer then Inl PassForbidden
     else bindE (from_option PassInternal (parse_uuid e (user_id actor))) (\<lambda>actor_id.
          bindE (from_option PassNotFound (parse_uuid e attendee)) (\<lambda>j.
          let i = random_uuid (dr_id dr); c = new_credentials s (dr_claim dr) i in
          bindE (from_option PassNotFound (lock_accepted_attendee j d)) (\<lambda>t.
          bindE (require_confirmed_rsvp (ad_id t) d) (\<lambda>_.
          if active_pass_of (ad_id t) d \<noteq> None then Inl PassActiveExists
          else issue_writes s e actor_id t i c d)))))"

definition reissue_writes ::
    "pass_service \<Rightarrow> env \<Rightarrow> uuid \<Rightarrow> pass_row \<Rightarrow> attendee_row \<Rightarrow> uuid \<Rightarrow> credentials \<Rightarrow> db
      \<Rightarrow> pass_error + issuance \<times> db" where
  "reissue_writes s e actor p t i c d =
     bindE (p_db (replace_pass e (pa_id p) i d)) (\<lambda>d1.
     bindE (p_db (insert_pass e i (pa_attendee p) (cr_qr_hash c) (cr_claim_hash c) d1)) (\<lambda>(q, d2).
     bindE (insert_pass_audit e ''pass_reissued'' actor (pa_id p) (pa_attendee p)
              (Some (pa_id q)) d2) (\<lambda>d3.
     bindE (p_db (queue_pass_link s e t (pa_id q) d3)) (\<lambda>d4.
     Inr (issuance_from s e q (ad_name t) c, d4)))))"

definition reissue ::
    "pass_service \<Rightarrow> env \<Rightarrow> draws \<Rightarrow> user \<Rightarrow> string \<Rightarrow> (db, pass_error, issuance) tx" where
  "reissue s e dr actor pass = transact (\<lambda>d.
     if \<not> has_role actor RoleOrganizer then Inl PassForbidden
     else bindE (from_option PassInternal (parse_uuid e (user_id actor))) (\<lambda>actor_id.
          bindE (from_option PassNotFound (parse_uuid e pass)) (\<lambda>j.
          let i = random_uuid (dr_id dr); c = new_credentials s (dr_claim dr) i in
          bindE (from_option PassNotFound (pass_attendee_id j d)) (\<lambda>attendee.
          bindE (from_option PassNotFound (lock_accepted_attendee attendee d)) (\<lambda>_.
          bindE (require_confirmed_rsvp attendee d) (\<lambda>_.
          bindE (from_option PassNotFound (lock_active_pass j d)) (\<lambda>(p, t).
          reissue_writes s e actor_id p t i c d)))))))"

definition revoke :: "env \<Rightarrow> user \<Rightarrow> string \<Rightarrow> (db, pass_error, pass_view) tx" where
  "revoke e actor pass = transact (\<lambda>d.
     if \<not> has_role actor RoleOrganizer then Inl PassForbidden
     else bindE (from_option PassInternal (parse_uuid e (user_id actor))) (\<lambda>actor_id.
          bindE (from_option PassNotFound (parse_uuid e pass)) (\<lambda>j.
          bindE (from_option PassNotFound (pass_attendee_id j d)) (\<lambda>attendee.
          bindE (from_option PassNotFound (lock_accepted_attendee attendee d)) (\<lambda>_.
          bindE (from_option PassNotFound (lock_active_pass j d)) (\<lambda>(p, t).
          bindE (insert_pass_audit e ''pass_revoked'' actor_id (pa_id p) (pa_attendee p) None
                   (mark_revoked e (pa_id p) d)) (\<lambda>d2.
          Inr (pass_from e (p\<lparr>pa_status := PassRevoked, pa_revoked := Some (now e)\<rparr>) (ad_name t),
               d2))))))))"

text \<open>The owner's pass, with its QR credential derived again.\<close>

definition web_pass ::
    "pass_service \<Rightarrow> env \<Rightarrow> user \<Rightarrow> (db, pass_error, pass_view \<times> string) tx" where
  "web_pass s e actor = query (\<lambda>d.
     if \<not> has_role actor RoleApplicant then Inl PassForbidden
     else bindE (from_option PassInternal (parse_uuid e (user_id actor))) (\<lambda>i.
          from_option PassNotFound
            (case concat (map (\<lambda>p. case pass_holder d p of
                      Some t \<Rightarrow> if ad_user t = i \<and> pa_status p = PassActive then [(p, t)] else []
                    | None \<Rightarrow> []) (passes d)) of
               [] \<Rightarrow> None
             | (p, t) # _ \<Rightarrow> Some (pass_from e p (ad_name t), derived_qr_credential s (pa_id p)))))"

definition resolve_claim ::
    "pass_service \<Rightarrow> env \<Rightarrow> string
      \<Rightarrow> (db, pass_error, string \<times> string \<times> pass_status \<times> timestamp) tx" where
  "resolve_claim s e token = query (\<lambda>d.
     if \<not> valid_credential token claim_prefix then Inl PassNotFound
     else let h = credential_hash s (ps_claim s) ''claim'' token in
       from_option PassNotFound
         (case List.find (\<lambda>p. pa_claim p = h \<and> pa_status p = PassActive) (passes d) of
            None \<Rightarrow> None
          | Some p \<Rightarrow> map_option (\<lambda>t. (uuid_text e (pa_id p), ad_name t, pa_status p, pa_issued p))
              (pass_holder d p)))"

definition summary_for_application ::
    "env \<Rightarrow> user \<Rightarrow> string \<Rightarrow> (db, pass_error, string \<times> pass_view option) tx" where
  "summary_for_application e actor application = query (\<lambda>d.
     if \<not> has_role actor RoleOrganizer then Inl PassForbidden
     else bindE (from_option PassNotFound (parse_uuid e application)) (\<lambda>i.
          bindE (from_option PassNotFound
                   (List.find (\<lambda>t. ad_application t = i) (attendees d))) (\<lambda>t.
          Inr (uuid_text e (ad_id t),
               map_option (\<lambda>p. pass_from e p (ad_name t)) (active_pass_of (ad_id t) d)))))"

section \<open>The pass invariant\<close>

text \<open>
  What the constraints and the code keep of the passes: unique ids and hashes, at most one
  active pass per attendee, the life cycle of a row, a replacement that belongs to the same
  attendee, and the hash of the QR credential that is derived from the id.
\<close>

definition lifecycle_ok :: "pass_row \<Rightarrow> bool" where
  "lifecycle_ok p \<longleftrightarrow>
     (case pa_status p of
        PassActive \<Rightarrow> pa_revoked p = None \<and> pa_replaced_by p = None
      | PassRevoked \<Rightarrow> pa_revoked p \<noteq> None \<and> pa_replaced_by p = None
      | PassReplaced \<Rightarrow> pa_revoked p \<noteq> None \<and> pa_replaced_by p \<noteq> None)"

definition qr_bound :: "pass_service \<Rightarrow> uuid \<Rightarrow> bytes \<Rightarrow> bool" where
  "qr_bound s i qr \<longleftrightarrow> qr = credential_hash s (ps_qr s) ''qr'' (derived_qr_credential s i)"

definition pass_ok :: "pass_service \<Rightarrow> attendee_row list \<Rightarrow> pass_row list \<Rightarrow> pass_row \<Rightarrow> bool" where
  "pass_ok s ts ps p \<longleftrightarrow>
     lifecycle_ok p \<and> qr_bound s (pa_id p) (pa_qr p) \<and> pa_attendee p \<in> ad_id ` set ts \<and>
     (\<forall>j. pa_replaced_by p = Some j \<longrightarrow>
        j \<noteq> pa_id p \<and> (j, pa_attendee p) \<in> (\<lambda>q. (pa_id q, pa_attendee q)) ` set ps)"

definition passes_inv :: "pass_service \<Rightarrow> db \<Rightarrow> bool" where
  "passes_inv s d \<longleftrightarrow>
     distinct_on pa_id (passes d) \<and> distinct_on pa_qr (passes d) \<and>
     distinct_on pa_claim (passes d) \<and>
     distinct_on pa_attendee (filter (\<lambda>p. pa_status p = PassActive) (passes d)) \<and>
     (\<forall>p\<in>set (passes d). pass_ok s (attendees d) (passes d) p)"

lemma active_pass_of_None:
  "active_pass_of i d = None \<longleftrightarrow>
     (\<forall>p\<in>set (passes d). pa_attendee p = i \<longrightarrow> pa_status p \<noteq> PassActive)"
  by (auto simp: active_pass_of_def find_None_iff)

lemma no_active_image:
  "active_pass_of i d = None \<Longrightarrow>
     i \<notin> pa_attendee ` {p \<in> set (passes d). pa_status p = PassActive}"
  unfolding active_pass_of_None by blast

lemma active_pass_of_Some:
  assumes "active_pass_of i d = Some p"
  shows "p \<in> set (passes d)" and "pa_attendee p = i" and "pa_status p = PassActive"
  using find_SomeD [OF assms [unfolded active_pass_of_def]] by simp_all

lemma active_unique:
  assumes "passes_inv s d" and "p \<in> set (passes d)" and "q \<in> set (passes d)"
    and "pa_status p = PassActive" and "pa_status q = PassActive" and "pa_attendee p = pa_attendee q"
  shows "p = q"
proof (rule distinct_onD)
  show "distinct_on pa_attendee (filter (\<lambda>p. pa_status p = PassActive) (passes d))"
    using assms(1) by (simp add: passes_inv_def)
qed (use assms in simp_all)

lemma active_pass_of_eq:
  assumes "passes_inv s d" and "p \<in> set (passes d)" and "pa_status p = PassActive"
  shows "active_pass_of (pa_attendee p) d = Some p"
proof (cases "active_pass_of (pa_attendee p) d")
  case None
  then show ?thesis using assms(2,3) by (auto simp: active_pass_of_None)
next
  case (Some q)
  have "q = p"
    by (rule active_unique [OF assms(1) active_pass_of_Some(1) [OF Some] assms(2)
          active_pass_of_Some(3) [OF Some] assms(3) active_pass_of_Some(2) [OF Some]])
  with Some show ?thesis by simp
qed

lemma pass_writes_frame [simp]:
  "released_acceptance (d\<lparr>passes := ps, audit := au, outbox := ob\<rparr>) t = released_acceptance d t"
  "confirmed_rsvp i (d\<lparr>passes := ps, audit := au, outbox := ob\<rparr>) = confirmed_rsvp i d"
  "lock_accepted_attendee i (d\<lparr>passes := ps, audit := au, outbox := ob\<rparr>) =
     lock_accepted_attendee i d"
  by (simp_all add: released_acceptance_def confirmed_rsvp_def lock_accepted_attendee_def)

lemma lock_accepted_attendee_Some:
  assumes "lock_accepted_attendee i d = Some t"
  shows "t \<in> set (attendees d)" and "ad_id t = i" and "released_acceptance d t"
  using find_SomeD [OF assms [unfolded lock_accepted_attendee_def]] by simp_all

lemma insert_pass_Inr:
  assumes "insert_pass e i attendee qr claim d = Inr (p, d')"
  shows "p = \<lparr>pa_id = i, pa_attendee = attendee, pa_qr = qr, pa_claim = claim,
              pa_status = PassActive, pa_issued = now e, pa_revoked = None, pa_replaced_by = None\<rparr>"
    and "d' = d\<lparr>passes := passes d @ [p]\<rparr>"
    and "i \<notin> pa_id ` set (passes d)" and "qr \<notin> pa_qr ` set (passes d)"
    and "claim \<notin> pa_claim ` set (passes d)" and "active_pass_of attendee d = None"
    and "attendee \<in> ad_id ` set (attendees d)"
  using assms by (auto simp: insert_pass_def Let_def split: if_split_asm)

lemma pass_ok_mono:
  "pass_ok s ts ps p \<Longrightarrow> set ps \<subseteq> set qs \<Longrightarrow> pass_ok s ts qs p"
  unfolding pass_ok_def by blast

text \<open>A new active pass keeps the invariant when its attendee has no other.\<close>

lemma passes_inv_insert:
  assumes ins: "insert_pass e i attendee qr claim d = Inr (p, d')"
    and inv: "passes_inv s d" and qr: "qr_bound s i qr"
  shows "passes_inv s d'"
proof -
  note f = insert_pass_Inr [OF ins]
  have "pass_ok s (attendees d) (passes d @ [p]) p"
    using f(7) qr by (simp add: pass_ok_def f(1) lifecycle_ok_def)
  moreover have "pass_ok s (attendees d) (passes d @ [p]) q" if "q \<in> set (passes d)" for q
  proof (rule pass_ok_mono)
    show "pass_ok s (attendees d) (passes d) q" using inv that by (simp add: passes_inv_def)
  qed auto
  moreover have "attendee \<notin> pa_attendee ` {x \<in> set (passes d). pa_status x = PassActive}"
    by (rule no_active_image [OF f(6)])
  moreover have "pa_id p = i" "pa_qr p = qr" "pa_claim p = claim" "pa_attendee p = attendee"
    by (simp_all add: f(1))
  ultimately show ?thesis
    using inv f(3-5) unfolding f(2) passes_inv_def by simp
qed

section \<open>Issuing\<close>

text \<open>The mail with key \<open>k\<close> is in the outbox; the others are as they were.\<close>

definition mail_queued :: "string \<Rightarrow> db \<Rightarrow> db \<Rightarrow> bool" where
  "mail_queued k d d' \<longleftrightarrow>
     k \<in> ob_dedupe ` set (outbox d') \<and>
     (\<forall>j. j \<noteq> k \<longrightarrow> filter (\<lambda>x. ob_dedupe x = j) (outbox d') = filter (\<lambda>x. ob_dedupe x = j) (outbox d)) \<and>
     (distinct_on ob_dedupe (outbox d) \<longrightarrow> distinct_on ob_dedupe (outbox d'))"

lemma queue_pass_link_Inr:
  assumes "queue_pass_link s e t i d = Inr d'"
  shows "d' = d\<lparr>outbox := outbox d'\<rparr> \<and> mail_queued (pass_link_key e i) d d'"
proof (cases "list_ex (\<lambda>x. ob_dedupe x = pass_link_key e i) (outbox d)")
  case True
  then have "pass_link_key e i \<in> ob_dedupe ` set (outbox d)" by (force simp: list_ex_iff)
  moreover have "d' = d"
    using assms True unfolding queue_pass_link_def insert_outbox_def by (simp split: if_split_asm)
  ultimately show ?thesis by (simp add: mail_queued_def)
next
  case False
  then obtain x where "d' = d\<lparr>outbox := outbox d @ [x]\<rparr>" "ob_dedupe x = pass_link_key e i"
    using assms unfolding queue_pass_link_def insert_outbox_def by (auto split: if_split_asm)
  then show ?thesis using False by (auto simp: mail_queued_def list_ex_iff)
qed

lemma insert_pass_audit_Inr:
  assumes "insert_pass_audit e event actor subject attendee replacement d = Inr d'"
  obtains x where "d' = d\<lparr>audit := audit d @ [x]\<rparr>" and "au_event x = event"
    and "au_actor x = Some actor" and "au_subject x = subject" and "user_exists actor d"
proof -
  obtain md where "insert_audit e (Some actor) event ''pass'' subject md d = Inr d'"
    using assms unfolding insert_pass_audit_def Let_def by (auto split: if_split_asm)
  then show thesis unfolding insert_audit_Inr by (intro that) auto
qed

definition new_pass :: "env \<Rightarrow> uuid \<Rightarrow> uuid \<Rightarrow> credentials \<Rightarrow> pass_row" where
  "new_pass e i attendee c =
     \<lparr>pa_id = i, pa_attendee = attendee, pa_qr = cr_qr_hash c, pa_claim = cr_claim_hash c,
      pa_status = PassActive, pa_issued = now e, pa_revoked = None, pa_replaced_by = None\<rparr>"

text \<open>What is written beside the pass rows: one audit event on \<open>subject\<close> and the mail for \<open>i\<close>.\<close>

definition pass_recorded ::
    "env \<Rightarrow> string \<Rightarrow> uuid \<Rightarrow> uuid \<Rightarrow> uuid \<Rightarrow> pass_row list \<Rightarrow> db \<Rightarrow> db \<Rightarrow> bool" where
  "pass_recorded e event actor subject i ps d d' \<longleftrightarrow>
     (\<exists>x. au_event x = event \<and> au_actor x = Some actor \<and> au_subject x = subject \<and>
        d' = d\<lparr>passes := ps, audit := audit d @ [x], outbox := outbox d'\<rparr>) \<and>
     mail_queued (pass_link_key e i) d d'"

lemma pass_recordedI:
  assumes "insert_pass_audit e event actor subject attendee replacement d1 = Inr d2"
    and "queue_pass_link s e t i d2 = Inr d'" and d1: "d1 = d\<lparr>passes := ps\<rparr>"
  shows "pass_recorded e event actor subject i ps d d'"
proof -
  obtain x where x: "d2 = d1\<lparr>audit := audit d1 @ [x]\<rparr>" "au_event x = event"
    "au_actor x = Some actor" "au_subject x = subject"
    by (rule insert_pass_audit_Inr [OF assms(1)])
  have q: "d' = d2\<lparr>outbox := outbox d'\<rparr>" "mail_queued (pass_link_key e i) d2 d'"
    using queue_pass_link_Inr [OF assms(2)] by blast+
  obtain ob where ob: "d' = d\<lparr>passes := ps, audit := audit d @ [x], outbox := ob\<rparr>"
  proof
    show "d' = d\<lparr>passes := ps, audit := audit d @ [x], outbox := outbox d'\<rparr>"
      by (subst q(1)) (simp add: x(1) d1)
  qed
  have "outbox d2 = outbox d" by (simp add: x(1) d1)
  then have "mail_queued (pass_link_key e i) d d'" using q(2) by (simp add: mail_queued_def)
  then show ?thesis using x(2-4) ob unfolding pass_recorded_def by auto
qed

lemma pass_recorded_frame:
  assumes "pass_recorded e event actor subject i ps d d'"
  shows "passes d' = ps" and "attendees d' = attendees d" and "applications d' = applications d"
    and "decisions d' = decisions d" and "attendance d' = attendance d" and "users d' = users d"
    and "user_roles d' = user_roles d" and "volunteers d' = volunteers d"
    and "staff_passes d' = staff_passes d" and "forms d' = forms d"
    and "answers_table d' = answers_table d"
    and "distinct_on ob_dedupe (outbox d) \<Longrightarrow> distinct_on ob_dedupe (outbox d')"
    and "released_acceptance d' t = released_acceptance d t"
    and "confirmed_rsvp j d' = confirmed_rsvp j d"
    and "lock_accepted_attendee j d' = lock_accepted_attendee j d"
proof -
  obtain x ob where d': "d' = d\<lparr>passes := ps, audit := audit d @ [x], outbox := ob\<rparr>"
    using assms unfolding pass_recorded_def by blast
  show "passes d' = ps" and "attendees d' = attendees d" and "applications d' = applications d"
    and "decisions d' = decisions d" and "attendance d' = attendance d" and "users d' = users d"
    and "user_roles d' = user_roles d" and "volunteers d' = volunteers d"
    and "staff_passes d' = staff_passes d" and "forms d' = forms d"
    and "answers_table d' = answers_table d"
    and "released_acceptance d' t = released_acceptance d t"
    and "confirmed_rsvp j d' = confirmed_rsvp j d"
    and "lock_accepted_attendee j d' = lock_accepted_attendee j d"
    by (simp_all add: d')
  show "distinct_on ob_dedupe (outbox d) \<Longrightarrow> distinct_on ob_dedupe (outbox d')"
    using assms by (simp add: pass_recorded_def mail_queued_def)
qed

text \<open>The other components' invariants do not look at passes.\<close>

lemma pass_recorded_invs:
  assumes "pass_recorded e event actor subject i ps d d'"
  shows "users_inv d' = users_inv d" and "decisions_inv d' = decisions_inv d"
    and "intake_inv pa d \<Longrightarrow> intake_inv pa d'"
proof -
  note f = pass_recorded_frame [OF assms]
  show "users_inv d' = users_inv d" by (rule users_inv_cong) (simp_all add: f)
  show "decisions_inv d' = decisions_inv d" by (simp add: decisions_inv_def f)
  have ans: "answers_of j d' = answers_of j d" for j by (rule answers_of_cong) (rule f)
  show "intake_inv pa d'" if "intake_inv pa d"
    using that f(12) by (simp add: intake_inv_def stored_answers_ok_def f ans)
qed

lemma issue_writes_Inr:
  assumes "issue_writes s e actor t i c d = Inr (v, d')"
  shows "pass_recorded e ''pass_issued'' actor i i (passes d @ [new_pass e i (ad_id t) c]) d d'"
    and "v = issuance_from s e (new_pass e i (ad_id t) c) (ad_name t) c"
    and "insert_pass e i (ad_id t) (cr_qr_hash c) (cr_claim_hash c) d =
      Inr (new_pass e i (ad_id t) c, d\<lparr>passes := passes d @ [new_pass e i (ad_id t) c]\<rparr>)"
proof -
  from assms obtain p d1 d2 where
    i: "insert_pass e i (ad_id t) (cr_qr_hash c) (cr_claim_hash c) d = Inr (p, d1)" and
    a: "insert_pass_audit e ''pass_issued'' actor (pa_id p) (ad_id t) None d1 = Inr d2" and
    q: "queue_pass_link s e t (pa_id p) d2 = Inr d'" and
    v: "v = issuance_from s e p (ad_name t) c"
    by (auto simp: issue_writes_def split: prod.split_asm)
  note f = insert_pass_Inr [OF i]
  have p: "p = new_pass e i (ad_id t) c" by (simp add: f(1) new_pass_def)
  have id: "pa_id p = i" by (simp add: f(1))
  show "pass_recorded e ''pass_issued'' actor i i (passes d @ [new_pass e i (ad_id t) c]) d d'"
    using pass_recordedI [OF a q f(2)] by (simp only: id p [symmetric])
  show "v = issuance_from s e (new_pass e i (ad_id t) c) (ad_name t) c" using v p by simp
  show "insert_pass e i (ad_id t) (cr_qr_hash c) (cr_claim_hash c) d =
      Inr (new_pass e i (ad_id t) c, d\<lparr>passes := passes d @ [new_pass e i (ad_id t) c]\<rparr>)"
    using i f(2) p by simp
qed

lemma new_pass_bound:
  "qr_bound s i (cr_qr_hash (new_credentials s entropy i))"
  by (simp add: qr_bound_def new_credentials_def Let_def)

definition issue_contract ::
    "pass_service \<Rightarrow> env \<Rightarrow> draws \<Rightarrow> user \<Rightarrow> string \<Rightarrow> db \<Rightarrow> issuance \<Rightarrow> db \<Rightarrow> bool" where
  "issue_contract s e dr actor attendee d v d' \<longleftrightarrow>
     (\<exists>t\<in>set (attendees d). \<exists>actor_id.
        let i = random_uuid (dr_id dr); c = new_credentials s (dr_claim dr) i;
            p = new_pass e i (ad_id t) c in
        has_role actor RoleOrganizer \<and> parse_uuid e (user_id actor) = Some actor_id \<and>
        parse_uuid e attendee = Some (ad_id t) \<and>
        released_acceptance d t \<and> confirmed_rsvp (ad_id t) d \<and> active_pass_of (ad_id t) d = None \<and>
        i \<notin> pa_id ` set (passes d) \<and>
        pass_recorded e ''pass_issued'' actor_id i i (passes d @ [p]) d d' \<and>
        active_pass_of (ad_id t) d' = Some p \<and> v = issuance_from s e p (ad_name t) c)"

lemma issue_contract_rows:
  assumes "issue_contract s e dr actor attendee d v d'"
  obtains t :: attendee_row and actor_id where "parse_uuid e attendee = Some (ad_id t)"
    and "pass_recorded e ''pass_issued'' actor_id (random_uuid (dr_id dr)) (random_uuid (dr_id dr))
      (passes d @ [new_pass e (random_uuid (dr_id dr)) (ad_id t)
         (new_credentials s (dr_claim dr) (random_uuid (dr_id dr)))]) d d'"
  using assms unfolding issue_contract_def Let_def
  by (elim bexE exE conjE) (rule that; assumption)

lemma issue_Inr:
  assumes "issue s e dr actor attendee d = (Inr v, d')"
  obtains t actor_id i c where "i = random_uuid (dr_id dr)" and "c = new_credentials s (dr_claim dr) i"
    and "has_role actor RoleOrganizer" and "parse_uuid e (user_id actor) = Some actor_id"
    and "parse_uuid e attendee = Some (ad_id t)" and "lock_accepted_attendee (ad_id t) d = Some t"
    and "confirmed_rsvp (ad_id t) d" and "active_pass_of (ad_id t) d = None"
    and "issue_writes s e actor_id t i c d = Inr (v, d')"
proof -
  from assms obtain actor_id j t where g: "has_role actor RoleOrganizer"
    "parse_uuid e (user_id actor) = Some actor_id" "parse_uuid e attendee = Some j" and
    l: "lock_accepted_attendee j d = Some t" and
    r: "confirmed_rsvp (ad_id t) d" "active_pass_of (ad_id t) d = None" and
    w: "issue_writes s e actor_id t (random_uuid (dr_id dr))
          (new_credentials s (dr_claim dr) (random_uuid (dr_id dr))) d = Inr (v, d')"
    unfolding issue_def transact_Inr Let_def
    by (auto simp: require_confirmed_rsvp_def split: if_split_asm)
  show thesis
    using g l r w lock_accepted_attendee_Some(2) [OF l] by (intro that [OF refl refl]) simp_all
qed

lemma issue_holds:
  assumes run: "issue s e dr actor attendee d = (Inr v, d')" and inv: "passes_inv s d"
  shows "issue_contract s e dr actor attendee d v d'" and "passes_inv s d'"
    and "\<exists>event actor subject i ps. pass_recorded e event actor subject i ps d d'"
    and "issue s e dr' actor attendee d' = (Inl PassActiveExists, d')"
proof -
  obtain t actor_id i c where i: "i = random_uuid (dr_id dr)" and
    c: "c = new_credentials s (dr_claim dr) i" and
    g: "has_role actor RoleOrganizer" "parse_uuid e (user_id actor) = Some actor_id"
      "parse_uuid e attendee = Some (ad_id t)" and l: "lock_accepted_attendee (ad_id t) d = Some t" and
    r: "confirmed_rsvp (ad_id t) d" "active_pass_of (ad_id t) d = None" and
    w: "issue_writes s e actor_id t i c d = Inr (v, d')"
    by (rule issue_Inr [OF run])
  let ?p = "new_pass e i (ad_id t) c"
  note f = issue_writes_Inr [OF w]
  note fr = pass_recorded_frame [OF f(1)]
  have p: "pa_attendee ?p = ad_id t" "pa_status ?p = PassActive" by (simp_all add: new_pass_def)
  have "qr_bound s i (cr_qr_hash c)" unfolding c by (rule new_pass_bound)
  then have "passes_inv s (d\<lparr>passes := passes d @ [?p]\<rparr>)" by (rule passes_inv_insert [OF f(3) inv])
  then show inv': "passes_inv s d'" by (simp add: passes_inv_def fr)
  have act: "active_pass_of (ad_id t) d' = Some ?p"
    using active_pass_of_eq [OF inv', of ?p] p by (simp add: fr)
  show "issue_contract s e dr actor attendee d v d'"
    unfolding issue_contract_def Let_def
    using g r act f(1,2) lock_accepted_attendee_Some(1,3) [OF l] insert_pass_Inr(3) [OF f(3)]
    by (intro bexI [of _ t] exI [of _ actor_id]) (simp_all add: c i)
  show "\<exists>event actor subject i ps. pass_recorded e event actor subject i ps d d'"
    using f(1) by blast
  have "lock_accepted_attendee (ad_id t) d' = Some t" "confirmed_rsvp (ad_id t) d'"
    using l r(1) by (simp_all add: fr)
  then show "issue s e dr' actor attendee d' = (Inl PassActiveExists, d')"
    using g act by (simp add: issue_def transact_def require_confirmed_rsvp_def Let_def)
qed

text \<open>C14. An organizer's issue creates exactly one pass, for an attendee whose application is
  accepted and released and whose current decision has a confirmed RSVP, and only when the
  attendee has no active pass; with it come one audit event and one mail per pass. The pass is
  the attendee's active one, its QR credential checks to the stored hash, and its claim
  credential is not a QR credential; issuing again is refused. The invariants of passes, users,
  applications and decisions survive.\<close>

theorem issue_spec:
  assumes "service_ok s" and "length (dr_claim dr) = 32"
    and "issue s e dr actor attendee d = (Inr v, d')" and "passes_inv s d"
  shows "issue_contract s e dr actor attendee d v d' \<and> passes_inv s d' \<and>
    qr_token_hash s (is_qr v) = (cr_qr_hash (new_credentials s (dr_claim dr) (random_uuid (dr_id dr))), True) \<and>
    \<not> snd (qr_token_hash s (is_claim v)) \<and>
    (\<forall>dr'. issue s e dr' actor attendee d' = (Inl PassActiveExists, d')) \<and>
    (users_inv d \<longrightarrow> users_inv d') \<and> (decisions_inv d \<longrightarrow> decisions_inv d') \<and>
    (\<forall>pa. intake_inv pa d \<longrightarrow> intake_inv pa d')"
proof -
  note h = issue_holds [OF assms(3,4)]
  note cr = credentials_facts [OF assms(1,2) refl, where i = "random_uuid (dr_id dr)"]
  have v: "is_qr v = cr_qr (new_credentials s (dr_claim dr) (random_uuid (dr_id dr)))"
    "is_claim v = cr_claim (new_credentials s (dr_claim dr) (random_uuid (dr_id dr)))"
    using h(1) by (auto simp: issue_contract_def Let_def issuance_from_def)
  obtain event who subject i ps where "pass_recorded e event who subject i ps d d'" using h(3) by blast
  note pi = pass_recorded_invs [OF this]
  show ?thesis using h(1,2) issue_holds(4) [OF assms(3,4)] cr(1,3) pi unfolding v by simp
qed

text \<open>When the statements succeed.\<close>

lemma insert_pass_audit_total:
  assumes "user_exists actor d" and "event = ''pass_issued'' \<or> event = ''pass_revoked'' \<or> event = ''pass_reissued''"
  shows "\<exists>x. insert_pass_audit e event actor subject attendee replacement d =
    Inr (d\<lparr>audit := audit d @ [x]\<rparr>)"
proof -
  obtain md where "insert_pass_audit e event actor subject attendee replacement d =
      p_db (insert_audit e (Some actor) event ''pass'' subject md d)"
    using assms(2) unfolding insert_pass_audit_def Let_def
    by (elim disjE) (simp_all add: bindE_def)
  moreover have "\<exists>x. insert_audit e (Some actor) event ''pass'' subject md d =
      Inr (d\<lparr>audit := audit d @ [x]\<rparr>)"
    using assms(1) unfolding insert_audit_def by simp (rule exI, rule refl)
  ultimately show ?thesis by auto
qed

lemma queue_pass_link_total:
  assumes "user_exists (ad_user t) d" and "ad_email t \<noteq> []"
  shows "\<exists>d'. queue_pass_link s e t i d = Inr d'"
  using assms unfolding queue_pass_link_def insert_outbox_def
  by (cases "list_ex (\<lambda>x. ob_dedupe x = pass_link_key e i) (outbox d)") simp_all

lemma issue_writes_total:
  assumes "length (cr_qr_hash c) = 32" "length (cr_claim_hash c) = 32"
    and "i \<notin> pa_id ` set (passes d)" "cr_qr_hash c \<notin> pa_qr ` set (passes d)"
    and "cr_claim_hash c \<notin> pa_claim ` set (passes d)" "active_pass_of (ad_id t) d = None"
    and "t \<in> set (attendees d)" "user_exists actor d" "user_exists (ad_user t) d" "ad_email t \<noteq> []"
  shows "\<exists>v d'. issue_writes s e actor t i c d = Inr (v, d')"
proof -
  let ?p = "new_pass e i (ad_id t) c"
  let ?d1 = "d\<lparr>passes := passes d @ [?p]\<rparr>"
  have "insert_pass e i (ad_id t) (cr_qr_hash c) (cr_claim_hash c) d = Inr (?p, ?d1)"
    using assms(1-7) by (simp add: insert_pass_def new_pass_def Let_def)
  moreover obtain x where "insert_pass_audit e ''pass_issued'' actor i (ad_id t) None ?d1 =
      Inr (?d1\<lparr>audit := audit ?d1 @ [x]\<rparr>)"
    using insert_pass_audit_total [of actor ?d1 "''pass_issued''" e i "ad_id t" None] assms(8)
    by (auto simp: user_exists_def)
  moreover obtain d' where "queue_pass_link s e t i (?d1\<lparr>audit := audit ?d1 @ [x]\<rparr>) = Inr d'"
    using queue_pass_link_total [of t "?d1\<lparr>audit := audit ?d1 @ [x]\<rparr>" s e i] assms(9,10)
    by (auto simp: user_exists_def)
  moreover have "pa_id ?p = i" by (simp add: new_pass_def)
  ultimately show ?thesis by (simp add: issue_writes_def)
qed

lemma issue_total:
  assumes "service_ok s" and "length (dr_claim dr) = 32" and "passes d = []"
    and "has_role actor RoleOrganizer" and "parse_uuid e (user_id actor) = Some actor_id"
    and "parse_uuid e attendee = Some j" and "lock_accepted_attendee j d = Some t"
    and "confirmed_rsvp j d" and "user_exists actor_id d" and "user_exists (ad_user t) d"
    and "ad_email t \<noteq> []"
  shows "\<exists>v d'. issue s e dr actor attendee d = (Inr v, d')"
proof -
  note l = lock_accepted_attendee_Some [OF assms(7)]
  let ?i = "random_uuid (dr_id dr)"
  note cr = credentials_facts [OF assms(1,2) refl, where i = ?i]
  have none: "active_pass_of (ad_id t) d = None" using assms(3) by (simp add: active_pass_of_None)
  have "\<exists>v d'. issue_writes s e actor_id t ?i (new_credentials s (dr_claim dr) ?i) d = Inr (v, d')"
    by (rule issue_writes_total [OF cr(5,6)]) (use assms l none in simp_all)
  then show ?thesis
    using assms l(2) none
    by (auto simp: issue_def transact_def require_confirmed_rsvp_def Let_def)
qed

definition sample_confirmed_db :: db where
  "sample_confirmed_db = snd (respond sample_env sample_attending sample_answer sample_released_db)"

definition sample_draws :: draws where
  "sample_draws = \<lparr>dr_id = replicate 16 3, dr_claim = replicate 32 7\<rparr>"

lemma sample_confirmed_facts:
  "passes sample_confirmed_db = []"
  "\<exists>t. lock_accepted_attendee 101 sample_confirmed_db = Some t \<and> ad_email t \<noteq> [] \<and>
     user_exists (ad_user t) sample_confirmed_db"
  "confirmed_rsvp 101 sample_confirmed_db"
  "user_exists 1 sample_confirmed_db"
proof -
  show "passes sample_confirmed_db = []" by code_simp
  have "case lock_accepted_attendee 101 sample_confirmed_db of None \<Rightarrow> False
    | Some t \<Rightarrow> ad_email t \<noteq> [] \<and> user_exists (ad_user t) sample_confirmed_db" by code_simp
  then show "\<exists>t. lock_accepted_attendee 101 sample_confirmed_db = Some t \<and> ad_email t \<noteq> [] \<and>
     user_exists (ad_user t) sample_confirmed_db"
    by (simp split: option.split_asm)
  show "confirmed_rsvp 101 sample_confirmed_db" by code_simp
  show "user_exists 1 sample_confirmed_db" by code_simp
qed

lemma sample_organizer_facts:
  "has_role sample_organizer RoleOrganizer" "parse_uuid sample_env (user_id sample_organizer) = Some 1"
  "parse_uuid sample_env (unary_text 101) = Some 101"
  by code_simp+

lemma sample_issue:
  assumes "new_service sample_url sample_config = Inr s"
  shows "\<exists>v d'. issue s sample_env sample_draws sample_organizer (unary_text 101) sample_confirmed_db =
    (Inr v, d')"
proof -
  obtain t where "lock_accepted_attendee 101 sample_confirmed_db = Some t" "ad_email t \<noteq> []"
    "user_exists (ad_user t) sample_confirmed_db"
    using sample_confirmed_facts(2) by blast
  then show ?thesis
    by (intro issue_total [OF new_service_ok [OF assms] _ sample_confirmed_facts(1) sample_organizer_facts _
          sample_confirmed_facts(3,4)]) (simp_all add: sample_draws_def)
qed

lemma sample_service: "\<exists>s. new_service sample_url sample_config = Inr s"
proof -
  have "\<not> isl (new_service sample_url sample_config)" by code_simp
  then show ?thesis by (metis isl_def sum.collapse(2))
qed

lemma passes_inv_empty: "passes d = [] \<Longrightarrow> passes_inv s d"
  by (simp add: passes_inv_def)

theorem issue_spec_witness:
  "\<exists>s v d'. new_service sample_url sample_config = Inr s \<and>
     issue s sample_env sample_draws sample_organizer (unary_text 101) sample_confirmed_db = (Inr v, d') \<and>
     issue_contract s sample_env sample_draws sample_organizer (unary_text 101) sample_confirmed_db v d'"
proof -
  obtain s where s: "new_service sample_url sample_config = Inr s" using sample_service by blast
  obtain v d' where r:
    "issue s sample_env sample_draws sample_organizer (unary_text 101) sample_confirmed_db = (Inr v, d')"
    using sample_issue [OF s] by blast
  have "length (dr_claim sample_draws) = 32" by (simp add: sample_draws_def)
  from issue_spec [OF new_service_ok [OF s] this r passes_inv_empty [OF sample_confirmed_facts(1)]] s r show ?thesis by blast
qed

section \<open>Replacing and revoking\<close>

definition mark_replaced :: "env \<Rightarrow> uuid \<Rightarrow> pass_row \<Rightarrow> pass_row" where
  "mark_replaced e j p =
     p\<lparr>pa_status := PassReplaced, pa_revoked := Some (now e), pa_replaced_by := Some j\<rparr>"

definition revoked_row :: "env \<Rightarrow> pass_row \<Rightarrow> pass_row" where
  "revoked_row e p = p\<lparr>pa_status := PassRevoked, pa_revoked := Some (now e)\<rparr>"

definition active_row :: "uuid \<Rightarrow> pass_row \<Rightarrow> bool" where
  "active_row i p \<longleftrightarrow> pa_id p = i \<and> pa_status p = PassActive"

lemma mark_replaced_simps [simp]:
  "pa_id (mark_replaced e j p) = pa_id p" "pa_attendee (mark_replaced e j p) = pa_attendee p"
  "pa_qr (mark_replaced e j p) = pa_qr p" "pa_claim (mark_replaced e j p) = pa_claim p"
  "pa_status (mark_replaced e j p) = PassReplaced" "pa_replaced_by (mark_replaced e j p) = Some j"
  "pa_revoked (mark_replaced e j p) = Some (now e)"
  by (simp_all add: mark_replaced_def)

lemma revoked_row_simps [simp]:
  "pa_id (revoked_row e p) = pa_id p" "pa_attendee (revoked_row e p) = pa_attendee p"
  "pa_qr (revoked_row e p) = pa_qr p" "pa_claim (revoked_row e p) = pa_claim p"
  "pa_status (revoked_row e p) = PassRevoked" "pa_revoked (revoked_row e p) = Some (now e)"
  "pa_replaced_by (revoked_row e p) = pa_replaced_by p"
  by (simp_all add: revoked_row_def)

lemma replace_pass_Inr:
  "replace_pass e i j d = Inr d' \<longleftrightarrow>
     j \<noteq> i \<and> d' = d\<lparr>passes := upd_rows (active_row i) (mark_replaced e j) (passes d)\<rparr>"
  by (auto simp: replace_pass_def active_row_def [abs_def] mark_replaced_def [abs_def])

lemma mark_revoked_eq:
  "mark_revoked e i d = d\<lparr>passes := upd_rows (active_row i) (revoked_row e) (passes d)\<rparr>"
  by (simp add: mark_revoked_def active_row_def [abs_def] revoked_row_def [abs_def])

lemma filter_upd_rows_drop:
  "(\<And>r. P r \<Longrightarrow> \<not> Q (f r)) \<Longrightarrow> filter Q (upd_rows P f rs) = filter (\<lambda>r. \<not> P r) (filter Q rs)"
  by (induction rs) auto

text \<open>Retiring an active row: the other rows and the keys stay.\<close>

lemma retire_inv:
  assumes inv: "passes_inv s d" and f: "\<And>p. pa_id (f p) = pa_id p" "\<And>p. pa_attendee (f p) = pa_attendee p"
      "\<And>p. pa_qr (f p) = pa_qr p" "\<And>p. pa_claim (f p) = pa_claim p" "\<And>p. pa_status (f p) \<noteq> PassActive"
    and qs: "qs = upd_rows (active_row i) f (passes d)"
  shows "distinct_on pa_id qs" and "distinct_on pa_qr qs" and "distinct_on pa_claim qs"
    and "distinct_on pa_attendee (filter (\<lambda>p. pa_status p = PassActive) qs)"
    and "pa_id ` set qs = pa_id ` set (passes d)"
    and "(\<lambda>q. (pa_id q, pa_attendee q)) ` set qs = (\<lambda>q. (pa_id q, pa_attendee q)) ` set (passes d)"
    and "\<forall>p\<in>set (passes d). pass_ok s (attendees d) qs p"
proof -
  show "distinct_on pa_id qs" "distinct_on pa_qr qs" "distinct_on pa_claim qs"
    using inv by (simp_all add: qs distinct_on_upd_rows f passes_inv_def)
  show "pa_id ` set qs = pa_id ` set (passes d)"
    by (simp add: qs image_upd_rows f)
  show keys: "(\<lambda>q. (pa_id q, pa_attendee q)) ` set qs = (\<lambda>q. (pa_id q, pa_attendee q)) ` set (passes d)"
    by (simp add: qs image_upd_rows f)
  show "distinct_on pa_attendee (filter (\<lambda>p. pa_status p = PassActive) qs)"
    using inv by (simp only: qs filter_upd_rows_drop f(5) not_False_eq_True)
      (rule distinct_on_filter, simp add: passes_inv_def)
  show "\<forall>p\<in>set (passes d). pass_ok s (attendees d) qs p"
    using inv by (simp add: passes_inv_def pass_ok_def keys)
qed

lemma lock_active_pass_Some:
  assumes "lock_active_pass i d = Some (p, t)"
  shows "p \<in> set (passes d)" and "pa_id p = i" and "pa_status p = PassActive"
    and "t \<in> set (attendees d)" and "ad_id t = pa_attendee p" and "released_acceptance d t"
  using assms by (auto simp: lock_active_pass_def pass_holder_def split: option.split_asm dest!: find_SomeD)

lemma active_row_unique:
  assumes "passes_inv s d" and "p \<in> set (passes d)" and "pa_status p = PassActive"
    and "q \<in> set (passes d)"
  shows "active_row (pa_id p) q \<longleftrightarrow> q = p"
proof
  have k: "distinct_on pa_id (passes d)" using assms(1) by (simp add: passes_inv_def)
  assume "active_row (pa_id p) q"
  then have "pa_id q = pa_id p" by (simp add: active_row_def)
  then show "q = p" by (rule distinct_onD [OF k assms(4,2)])
qed (use assms in \<open>simp add: active_row_def\<close>)

lemma retire_active:
  assumes inv: "passes_inv s d" and p: "p \<in> set (passes d)" "pa_status p = PassActive"
    and d': "passes d' = upd_rows (active_row (pa_id p)) f (passes d)"
    and f: "\<And>q. pa_status (f q) \<noteq> PassActive"
  shows "active_pass_of (pa_attendee p) d' = None"
  unfolding active_pass_of_None
proof (intro ballI impI notI)
  fix q assume q: "q \<in> set (passes d')" "pa_attendee q = pa_attendee p" "pa_status q = PassActive"
  obtain b where b: "b \<in> set (passes d)" "q = (if active_row (pa_id p) b then f b else b)"
    using q(1) unfolding d' by (rule upd_rowsE)
  then have "q = b" "\<not> active_row (pa_id p) b" using q(3) f by (auto split: if_split_asm)
  moreover have "b = p" by (rule active_unique [OF inv b(1) p(1)]) (use \<open>q = b\<close> q p in simp_all)
  ultimately show False using p(2) by (simp add: active_row_def)
qed

lemma revoke_inv:
  assumes inv: "passes_inv s d" and p: "p \<in> set (passes d)" "pa_status p = PassActive"
    and d': "passes d' = upd_rows (active_row (pa_id p)) (revoked_row e) (passes d)"
      "attendees d' = attendees d"
  shows "passes_inv s d'" and "active_pass_of (pa_attendee p) d' = None"
    and "revoked_row e p \<in> set (passes d')"
proof -
  note r = retire_inv [OF inv, of "revoked_row e", OF _ _ _ _ _ d'(1), simplified]
  have "pass_ok s (attendees d) (passes d') q" if q: "q \<in> set (passes d')" for q
  proof -
    obtain b where b: "b \<in> set (passes d)"
      "q = (if active_row (pa_id p) b then revoked_row e b else b)"
      using q unfolding d'(1) by (rule upd_rowsE)
    have "pass_ok s (attendees d) (passes d') b" using r(7) b(1) by blast
    then show ?thesis
      using b(2) by (auto simp: pass_ok_def lifecycle_ok_def active_row_def)
  qed
  then show "passes_inv s d'" using r(1-4) d'(2) by (simp add: passes_inv_def)
  show "revoked_row e p \<in> set (passes d')"
    unfolding d'(1) using p by (intro upd_rows_hit) (simp_all add: active_row_def)
  show "active_pass_of (pa_attendee p) d' = None"
    by (rule retire_active [OF inv p d'(1)]) simp
qed

lemma replace_inv:
  assumes inv: "passes_inv s d" and p: "p \<in> set (passes d)" "pa_status p = PassActive"
    and ins: "insert_pass e i (pa_attendee p) qr claim d1 = Inr (q, d2)" and ne: "i \<noteq> pa_id p"
    and d1: "d1 = d\<lparr>passes := upd_rows (active_row (pa_id p)) (mark_replaced e i) (passes d)\<rparr>"
    and qr: "qr_bound s i qr" and d': "passes d' = passes d1 @ [q]" "attendees d' = attendees d"
  shows "passes_inv s d'"
proof -
  have q1: "passes d1 = upd_rows (active_row (pa_id p)) (mark_replaced e i) (passes d)" by (simp add: d1)
  note r = retire_inv [OF inv, of "mark_replaced e i", OF _ _ _ _ _ q1, simplified]
  note f = insert_pass_Inr [OF ins]
  have att: "pa_attendee p \<in> ad_id ` set (attendees d)" using f(7) by (simp add: d1)
  have new: "pa_id q = i" "pa_attendee q = pa_attendee p" "pa_qr q = qr" "pa_claim q = claim"
    "pa_status q = PassActive"
    by (simp_all add: f(1))
  let ?qs = "passes d1 @ [q]"
  have mono: "pass_ok s (attendees d) ?qs b" if "b \<in> set (passes d)" for b
  proof (rule pass_ok_mono)
    show "pass_ok s (attendees d) (passes d1) b" using r(7) that by blast
  qed auto
  have "pass_ok s (attendees d) ?qs b" if b: "b \<in> set (passes d1)" for b
  proof -
    obtain c where c: "c \<in> set (passes d)"
      "b = (if active_row (pa_id p) c then mark_replaced e i c else c)"
      using b unfolding q1 by (rule upd_rowsE)
    show ?thesis
    proof (cases "active_row (pa_id p) c")
      case True
      then have "c = p" using active_row_unique [OF inv p c(1)] by blast
      then have "b = mark_replaced e i p" using c(2) True by simp
      then show ?thesis
        using mono [OF p(1)] ne new(1,2) by (simp add: pass_ok_def lifecycle_ok_def)
    next
      case False
      then show ?thesis using c mono by simp
    qed
  qed
  moreover have "pass_ok s (attendees d) ?qs q"
    using att qr by (simp add: pass_ok_def lifecycle_ok_def f(1))
  moreover have "pa_attendee p \<notin> pa_attendee ` {x \<in> set (passes d1). pa_status x = PassActive}"
    by (rule no_active_image [OF f(6)])
  ultimately show ?thesis
    using r(1-4) f(3-5) new unfolding passes_inv_def d' by simp
qed

definition reissue_contract ::
    "pass_service \<Rightarrow> env \<Rightarrow> draws \<Rightarrow> user \<Rightarrow> string \<Rightarrow> db \<Rightarrow> issuance \<Rightarrow> db \<Rightarrow> bool" where
  "reissue_contract s e dr actor pass d v d' \<longleftrightarrow>
     (\<exists>p\<in>set (passes d). \<exists>t\<in>set (attendees d). \<exists>actor_id.
        let i = random_uuid (dr_id dr); c = new_credentials s (dr_claim dr) i;
            q = new_pass e i (pa_attendee p) c in
        has_role actor RoleOrganizer \<and> parse_uuid e (user_id actor) = Some actor_id \<and>
        parse_uuid e pass = Some (pa_id p) \<and> pa_status p = PassActive \<and>
        ad_id t = pa_attendee p \<and> released_acceptance d t \<and> confirmed_rsvp (pa_attendee p) d \<and>
        i \<notin> pa_id ` set (passes d) \<and>
        pass_recorded e ''pass_reissued'' actor_id (pa_id p) i
          (upd_rows (active_row (pa_id p)) (mark_replaced e i) (passes d) @ [q]) d d' \<and>
        mark_replaced e i p \<in> set (passes d') \<and>
        active_pass_of (pa_attendee p) d' = Some q \<and> v = issuance_from s e q (ad_name t) c)"

lemma reissue_writes_Inr:
  assumes "reissue_writes s e actor p t i c d = Inr (v, d')"
  obtains d1 where "i \<noteq> pa_id p"
    and "d1 = d\<lparr>passes := upd_rows (active_row (pa_id p)) (mark_replaced e i) (passes d)\<rparr>"
    and "insert_pass e i (pa_attendee p) (cr_qr_hash c) (cr_claim_hash c) d1 =
      Inr (new_pass e i (pa_attendee p) c, d1\<lparr>passes := passes d1 @ [new_pass e i (pa_attendee p) c]\<rparr>)"
    and "pass_recorded e ''pass_reissued'' actor (pa_id p) i
      (passes d1 @ [new_pass e i (pa_attendee p) c]) d d'"
    and "v = issuance_from s e (new_pass e i (pa_attendee p) c) (ad_name t) c"
proof -
  from assms obtain d1 q d2 d3 where
    r: "replace_pass e (pa_id p) i d = Inr d1" and
    n: "insert_pass e i (pa_attendee p) (cr_qr_hash c) (cr_claim_hash c) d1 = Inr (q, d2)" and
    a: "insert_pass_audit e ''pass_reissued'' actor (pa_id p) (pa_attendee p) (Some (pa_id q)) d2 = Inr d3" and
    m: "queue_pass_link s e t (pa_id q) d3 = Inr d'" and
    v: "v = issuance_from s e q (ad_name t) c"
    by (auto simp: reissue_writes_def split: prod.split_asm)
  note f = insert_pass_Inr [OF n]
  have q: "q = new_pass e i (pa_attendee p) c" by (simp add: f(1) new_pass_def)
  have id: "pa_id q = i" by (simp add: f(1))
  have r': "i \<noteq> pa_id p"
    "d1 = d\<lparr>passes := upd_rows (active_row (pa_id p)) (mark_replaced e i) (passes d)\<rparr>"
    using r unfolding replace_pass_Inr by blast+
  have "d2 = d\<lparr>passes := passes d1 @ [q]\<rparr>" by (simp add: f(2) r'(2))
  from pass_recordedI [OF a m this]
  have "pass_recorded e ''pass_reissued'' actor (pa_id p) i (passes d1 @ [q]) d d'"
    by (simp only: id)
  then show thesis using r' n f(2) v by (intro that [of d1]) (simp_all add: q)
qed

lemma reissue_Inr:
  assumes "reissue s e dr actor pass d = (Inr v, d')"
  obtains p t actor_id i c where "i = random_uuid (dr_id dr)" and "c = new_credentials s (dr_claim dr) i"
    and "has_role actor RoleOrganizer" and "parse_uuid e (user_id actor) = Some actor_id"
    and "parse_uuid e pass = Some (pa_id p)" and "lock_active_pass (pa_id p) d = Some (p, t)"
    and "pass_attendee_id (pa_id p) d \<noteq> None"
    and "\<exists>x. pass_attendee_id (pa_id p) d = Some x \<and> confirmed_rsvp x d"
    and "reissue_writes s e actor_id p t i c d = Inr (v, d')"
proof -
  from assms obtain actor_id j x p t where g: "has_role actor RoleOrganizer"
    "parse_uuid e (user_id actor) = Some actor_id" "parse_uuid e pass = Some j" and
    x: "pass_attendee_id j d = Some x" "confirmed_rsvp x d" and
    l: "lock_active_pass j d = Some (p, t)" and
    w: "reissue_writes s e actor_id p t (random_uuid (dr_id dr))
          (new_credentials s (dr_claim dr) (random_uuid (dr_id dr))) d = Inr (v, d')"
    unfolding reissue_def transact_Inr Let_def
    by (auto simp: require_confirmed_rsvp_def split: if_split_asm)
  show thesis
    using g x l w lock_active_pass_Some(2) [OF l] by (intro that [OF refl refl]) simp_all
qed

lemma pass_attendee_id_eq:
  assumes "passes_inv s d" and "p \<in> set (passes d)"
  shows "pass_attendee_id (pa_id p) d = Some (pa_attendee p)"
proof -
  have "distinct_on pa_id (passes d)" using assms(1) by (simp add: passes_inv_def)
  from find_eq_Some_key [OF this assms(2)] show ?thesis by (simp add: pass_attendee_id_def)
qed

lemma lock_active_pass_retired:
  assumes "passes_inv s d" and "p \<in> set (passes d)" and "pa_status p \<noteq> PassActive"
  shows "lock_active_pass (pa_id p) d = None"
proof -
  have k: "distinct_on pa_id (passes d)" using assms(1) by (simp add: passes_inv_def)
  have "\<not> (pa_id q = pa_id p \<and> pa_status q = PassActive)" if "q \<in> set (passes d)" for q
    using distinct_onD [OF k that assms(2)] assms(3) by blast
  then have "List.find (\<lambda>q. pa_id q = pa_id p \<and> pa_status q = PassActive) (passes d) = None"
    by (simp add: find_None_iff)
  then show ?thesis by (simp add: lock_active_pass_def)
qed

lemma reissue_holds:
  assumes run: "reissue s e dr actor pass d = (Inr v, d')" and inv: "passes_inv s d"
  shows "reissue_contract s e dr actor pass d v d'" and "passes_inv s d'"
    and "\<exists>event actor subject i ps. pass_recorded e event actor subject i ps d d'"
    and "reissue s e dr' actor pass d' = (Inl PassNotFound, d')"
    and "revoke e actor pass d' = (Inl PassNotFound, d')"
proof -
  obtain p t actor_id i c where i: "i = random_uuid (dr_id dr)" and
    c: "c = new_credentials s (dr_claim dr) i" and
    g: "has_role actor RoleOrganizer" "parse_uuid e (user_id actor) = Some actor_id"
      "parse_uuid e pass = Some (pa_id p)" and l: "lock_active_pass (pa_id p) d = Some (p, t)" and
    x: "\<exists>x. pass_attendee_id (pa_id p) d = Some x \<and> confirmed_rsvp x d" and
    w: "reissue_writes s e actor_id p t i c d = Inr (v, d')"
    by (rule reissue_Inr [OF run])
  note lp = lock_active_pass_Some [OF l]
  let ?q = "new_pass e i (pa_attendee p) c"
  obtain d1 where ne: "i \<noteq> pa_id p" and
    d1: "d1 = d\<lparr>passes := upd_rows (active_row (pa_id p)) (mark_replaced e i) (passes d)\<rparr>" and
    n: "insert_pass e i (pa_attendee p) (cr_qr_hash c) (cr_claim_hash c) d1 =
      Inr (?q, d1\<lparr>passes := passes d1 @ [?q]\<rparr>)" and
    rec: "pass_recorded e ''pass_reissued'' actor_id (pa_id p) i (passes d1 @ [?q]) d d'" and
    v: "v = issuance_from s e ?q (ad_name t) c"
    by (rule reissue_writes_Inr [OF w])
  note fr = pass_recorded_frame [OF rec]
  have q: "pa_attendee ?q = pa_attendee p" "pa_status ?q = PassActive" by (simp_all add: new_pass_def)
  have "qr_bound s i (cr_qr_hash c)" unfolding c by (rule new_pass_bound)
  then show inv': "passes_inv s d'" by (rule replace_inv [OF inv lp(1,3) n ne d1 _ fr(1,2)])
  have act: "active_pass_of (pa_attendee p) d' = Some ?q"
    using active_pass_of_eq [OF inv', of ?q] q by (simp add: fr)
  have old: "mark_replaced e i p \<in> set (passes d')"
    using upd_rows_hit [OF lp(1), of "active_row (pa_id p)" "mark_replaced e i"] lp(3)
    by (simp add: fr d1 active_row_def)
  have keys: "pa_id ` set (passes d1) = pa_id ` set (passes d)"
    by (simp add: d1 image_upd_rows)
  have conf: "confirmed_rsvp (pa_attendee p) d"
    using x pass_attendee_id_eq [OF inv lp(1)] by simp
  show "reissue_contract s e dr actor pass d v d'"
    unfolding reissue_contract_def Let_def
    using g lp conf act old rec v insert_pass_Inr(3) [OF n] keys
    by (intro bexI [of _ p] bexI [of _ t] exI [of _ actor_id]) (simp_all add: c i d1)
  show "\<exists>event actor subject i ps. pass_recorded e event actor subject i ps d d'" using rec by blast
  have gone: "lock_active_pass (pa_id p) d' = None"
    using lock_active_pass_retired [OF inv' old] by simp
  have "pass_attendee_id (pa_id p) d' = Some (pa_attendee p)"
    using pass_attendee_id_eq [OF inv' old] by simp
  then show "reissue s e dr' actor pass d' = (Inl PassNotFound, d')"
    and "revoke e actor pass d' = (Inl PassNotFound, d')"
    using g gone conf
    by (cases "lock_accepted_attendee (pa_attendee p) d'";
        simp add: reissue_def revoke_def transact_def require_confirmed_rsvp_def Let_def fr)+
qed

text \<open>C15. Replacing a pass retires exactly the active pass named and makes the new one the
  attendee's active pass, linked from the old row, under the same conditions on the RSVP as an
  issue; the old pass can then be neither replaced nor revoked. Invariants survive and the new
  credentials are the service's own.\<close>

theorem reissue_spec:
  assumes "service_ok s" and "length (dr_claim dr) = 32"
    and "reissue s e dr actor pass d = (Inr v, d')" and "passes_inv s d"
  shows "reissue_contract s e dr actor pass d v d' \<and> passes_inv s d' \<and>
    snd (qr_token_hash s (is_qr v)) \<and> \<not> snd (qr_token_hash s (is_claim v)) \<and>
    (\<forall>dr'. reissue s e dr' actor pass d' = (Inl PassNotFound, d')) \<and>
    revoke e actor pass d' = (Inl PassNotFound, d') \<and>
    (users_inv d \<longrightarrow> users_inv d') \<and> (decisions_inv d \<longrightarrow> decisions_inv d') \<and>
    (\<forall>pa. intake_inv pa d \<longrightarrow> intake_inv pa d')"
proof -
  note h = reissue_holds [OF assms(3,4)]
  note cr = credentials_facts [OF assms(1,2) refl, where i = "random_uuid (dr_id dr)"]
  have v: "is_qr v = cr_qr (new_credentials s (dr_claim dr) (random_uuid (dr_id dr)))"
    "is_claim v = cr_claim (new_credentials s (dr_claim dr) (random_uuid (dr_id dr)))"
    using h(1) by (auto simp: reissue_contract_def Let_def issuance_from_def)
  obtain event who subject i ps where "pass_recorded e event who subject i ps d d'" using h(3) by blast
  note pi = pass_recorded_invs [OF this]
  show ?thesis
    using h(1,2,5) reissue_holds(4) [OF assms(3,4)] cr(1,3) pi unfolding v by simp
qed

definition revoke_contract ::
    "env \<Rightarrow> user \<Rightarrow> string \<Rightarrow> db \<Rightarrow> pass_view \<Rightarrow> db \<Rightarrow> bool" where
  "revoke_contract e actor pass d v d' \<longleftrightarrow>
     (\<exists>p\<in>set (passes d). \<exists>t\<in>set (attendees d). \<exists>actor_id x.
        has_role actor RoleOrganizer \<and> parse_uuid e (user_id actor) = Some actor_id \<and>
        parse_uuid e pass = Some (pa_id p) \<and> pa_status p = PassActive \<and>
        ad_id t = pa_attendee p \<and> released_acceptance d t \<and>
        au_event x = ''pass_revoked'' \<and> au_actor x = Some actor_id \<and> au_subject x = pa_id p \<and>
        d' = d\<lparr>passes := upd_rows (active_row (pa_id p)) (revoked_row e) (passes d),
               audit := audit d @ [x]\<rparr> \<and>
        active_pass_of (pa_attendee p) d' = None \<and> v = pass_from e (revoked_row e p) (ad_name t))"

lemma revoke_holds:
  assumes run: "revoke e actor pass d = (Inr v, d')" and inv: "passes_inv s d"
  shows "revoke_contract e actor pass d v d'" and "passes_inv s d'"
    and "revoke e actor pass d' = (Inl PassNotFound, d')"
proof -
  from run obtain actor_id j p t where g: "has_role actor RoleOrganizer"
    "parse_uuid e (user_id actor) = Some actor_id" and j: "parse_uuid e pass = Some j"
    "lock_active_pass j d = Some (p, t)" and
    a: "insert_pass_audit e ''pass_revoked'' actor_id (pa_id p) (pa_attendee p) None
          (mark_revoked e (pa_id p) d) = Inr d'" and
    v: "v = pass_from e (revoked_row e p) (ad_name t)"
    unfolding revoke_def transact_Inr by (auto simp: revoked_row_def split: if_split_asm)
  have id: "pa_id p = j" by (rule lock_active_pass_Some(2) [OF j(2)])
  have g: "has_role actor RoleOrganizer" "parse_uuid e (user_id actor) = Some actor_id"
    "parse_uuid e pass = Some (pa_id p)" and l: "lock_active_pass (pa_id p) d = Some (p, t)"
    using g j id by simp_all
  note lp = lock_active_pass_Some [OF l]
  obtain x where x: "d' = (mark_revoked e (pa_id p) d)\<lparr>audit := audit (mark_revoked e (pa_id p) d) @ [x]\<rparr>"
    "au_event x = ''pass_revoked''" "au_actor x = Some actor_id" "au_subject x = pa_id p"
    by (rule insert_pass_audit_Inr [OF a])
  have d': "d' = d\<lparr>passes := upd_rows (active_row (pa_id p)) (revoked_row e) (passes d),
               audit := audit d @ [x]\<rparr>"
    by (simp add: x(1) mark_revoked_eq)
  have rows: "passes d' = upd_rows (active_row (pa_id p)) (revoked_row e) (passes d)"
    "attendees d' = attendees d"
    by (simp_all add: d')
  note r = revoke_inv [OF inv lp(1,3) rows]
  show "passes_inv s d'" by (rule r(1))
  show "revoke_contract e actor pass d v d'"
    unfolding revoke_contract_def
    using g lp x(2-4) d' r(2) v
    by (intro bexI [of _ p] bexI [of _ t] exI [of _ actor_id] exI [of _ x]) simp_all
  have gone: "lock_active_pass (pa_id p) d' = None"
    using lock_active_pass_retired [OF r(1,3)] by simp
  have "pass_attendee_id (pa_id p) d' = Some (pa_attendee p)"
    using pass_attendee_id_eq [OF r(1,3)] by simp
  then show "revoke e actor pass d' = (Inl PassNotFound, d')"
    using g gone
    by (cases "lock_accepted_attendee (pa_attendee p) d'"; simp add: revoke_def transact_def)
qed

text \<open>Revoking retires exactly the active pass named, with one audit event: the attendee
  then has no active pass, the same revocation is refused, and no other table changes.\<close>

theorem revoke_spec:
  assumes "revoke e actor pass d = (Inr v, d')" and "passes_inv s d"
  shows "revoke_contract e actor pass d v d' \<and> passes_inv s d' \<and>
    revoke e actor pass d' = (Inl PassNotFound, d')"
  using revoke_holds [OF assms] by blast

subsection \<open>When they succeed\<close>

lemma pass_holder_eq: "pass_holder d p = lock_accepted_attendee (pa_attendee p) d"
  by (simp add: pass_holder_def lock_accepted_attendee_def)

lemma lock_active_pass_total:
  assumes "passes_inv s d" and "p \<in> set (passes d)" and "pa_status p = PassActive"
    and "lock_accepted_attendee (pa_attendee p) d = Some t"
  shows "lock_active_pass (pa_id p) d = Some (p, t)"
proof -
  have "distinct_on pa_id (passes d)" using assms(1) by (simp add: passes_inv_def)
  from find_key_and [OF this assms(2) refl, of "\<lambda>p. pa_status p = PassActive"] assms(3,4)
  show ?thesis by (simp add: lock_active_pass_def pass_holder_eq)
qed

lemma reissue_total:
  assumes ok: "service_ok s" "length (dr_claim dr) = 32" and inv: "passes_inv s d"
    and p: "p \<in> set (passes d)" "pa_status p = PassActive"
    and i: "i = random_uuid (dr_id dr)" and c: "c = new_credentials s (dr_claim dr) i"
    and fresh: "i \<notin> pa_id ` set (passes d)" "cr_qr_hash c \<notin> pa_qr ` set (passes d)"
      "cr_claim_hash c \<notin> pa_claim ` set (passes d)"
    and g: "has_role actor RoleOrganizer" "parse_uuid e (user_id actor) = Some actor_id"
      "parse_uuid e pass = Some (pa_id p)"
    and t: "lock_accepted_attendee (pa_attendee p) d = Some t" "confirmed_rsvp (pa_attendee p) d"
    and u: "user_exists actor_id d" "user_exists (ad_user t) d" "ad_email t \<noteq> []"
  shows "\<exists>v d'. reissue s e dr actor pass d = (Inr v, d')"
proof -
  note lt = lock_accepted_attendee_Some [OF t(1)]
  have len: "length (cr_qr_hash c) = 32" "length (cr_claim_hash c) = 32"
    using credentials_facts(5,6) [OF ok c] by simp_all
  let ?q = "new_pass e i (pa_attendee p) c"
  let ?ps = "upd_rows (active_row (pa_id p)) (mark_replaced e i) (passes d)"
  define d1 where "d1 = d\<lparr>passes := ?ps\<rparr>"
  define d2 where "d2 = d\<lparr>passes := ?ps @ [?q]\<rparr>"
  have ne: "i \<noteq> pa_id p" using fresh(1) p(1) by blast
  then have r: "replace_pass e (pa_id p) i d = Inr d1" by (simp add: replace_pass_Inr d1_def)
  have rows: "passes d1 = ?ps" by (simp add: d1_def)
  have "active_pass_of (pa_attendee p) d1 = None"
    by (rule retire_active [OF inv p rows]) simp
  moreover have "pa_id ` set ?ps = pa_id ` set (passes d)" "pa_qr ` set ?ps = pa_qr ` set (passes d)"
    "pa_claim ` set ?ps = pa_claim ` set (passes d)"
    by (simp_all add: image_upd_rows)
  moreover have "pa_attendee p \<in> ad_id ` set (attendees d1)" using lt(1,2) by (force simp: d1_def)
  ultimately have n: "insert_pass e i (pa_attendee p) (cr_qr_hash c) (cr_claim_hash c) d1 = Inr (?q, d2)"
    using len fresh by (simp add: insert_pass_def new_pass_def Let_def rows) (simp add: d1_def d2_def new_pass_def)
  have "user_exists actor_id d2" using u(1) by (simp add: d2_def user_exists_def)
  then obtain x where a: "insert_pass_audit e ''pass_reissued'' actor_id (pa_id p) (pa_attendee p) (Some i) d2 =
      Inr (d2\<lparr>audit := audit d2 @ [x]\<rparr>)"
    using insert_pass_audit_total [of actor_id d2 "''pass_reissued''" e "pa_id p" "pa_attendee p" "Some i"]
    by blast
  have "user_exists (ad_user t) (d2\<lparr>audit := audit d2 @ [x]\<rparr>)"
    using u(2) by (simp add: d2_def user_exists_def)
  then obtain d4 where m: "queue_pass_link s e t i (d2\<lparr>audit := audit d2 @ [x]\<rparr>) = Inr d4"
    using queue_pass_link_total u(3) by blast
  have "pa_id ?q = i" by (simp add: new_pass_def)
  then have "reissue_writes s e actor_id p t i c d = Inr (issuance_from s e ?q (ad_name t) c, d4)"
    using r n a m by (simp add: reissue_writes_def)
  then show ?thesis
    using g t pass_attendee_id_eq [OF inv p(1)] lock_active_pass_total [OF inv p t(1)] i c
    by (simp add: reissue_def transact_def require_confirmed_rsvp_def Let_def)
qed

lemma revoke_total:
  assumes inv: "passes_inv s d" and p: "p \<in> set (passes d)" "pa_status p = PassActive"
    and g: "has_role actor RoleOrganizer" "parse_uuid e (user_id actor) = Some actor_id"
      "parse_uuid e pass = Some (pa_id p)"
    and t: "lock_accepted_attendee (pa_attendee p) d = Some t" and u: "user_exists actor_id d"
  shows "\<exists>v d'. revoke e actor pass d = (Inr v, d')"
proof -
  have "user_exists actor_id (mark_revoked e (pa_id p) d)"
    using u by (simp add: mark_revoked_def user_exists_def)
  from insert_pass_audit_total [OF this, of "''pass_revoked''" e "pa_id p" "pa_attendee p" None]
  show ?thesis
    using g t pass_attendee_id_eq [OF inv p(1)] lock_active_pass_total [OF inv p t]
    by (auto simp: revoke_def transact_def)
qed

text \<open>A keyed hash with visible input, for evaluation.\<close>

definition toy_service :: pass_service where
  "toy_service = \<lparr>ps_hmac = (\<lambda>k m. take 32 (rev m @ k @ replicate 32 0)),
     ps_qr = replicate 32 1, ps_claim = replicate 32 2, ps_base = None, ps_staff_expires = 100\<rparr>"

lemma toy_service_ok: "service_ok toy_service"
proof -
  have "replicate 32 (1::byte) \<noteq> replicate 32 2" by code_simp
  moreover have "length (take 32 (rev m @ k @ replicate 32 (0::byte))) = 32" for m k :: bytes by simp
  ultimately show ?thesis unfolding service_ok_def toy_service_def by simp
qed

definition sample_redraw :: draws where
  "sample_redraw = \<lparr>dr_id = replicate 16 4, dr_claim = replicate 32 8\<rparr>"

definition sample_pass_id :: uuid where
  "sample_pass_id = random_uuid (dr_id sample_draws)"

lemma sample_issue_state:
  assumes s: "service_ok s"
  obtains v d p t where
    "issue s sample_env sample_draws sample_organizer (unary_text 101) sample_confirmed_db = (Inr v, d)"
    and "passes_inv s d" and "passes d = [p]"
    and "p = new_pass sample_env sample_pass_id 101 (new_credentials s (dr_claim sample_draws) sample_pass_id)"
    and "lock_accepted_attendee 101 d = Some t" and "confirmed_rsvp 101 d" and "user_exists 1 d"
    and "user_exists (ad_user t) d" and "ad_email t \<noteq> []"
proof -
  obtain t where t: "lock_accepted_attendee 101 sample_confirmed_db = Some t" "ad_email t \<noteq> []"
    "user_exists (ad_user t) sample_confirmed_db"
    using sample_confirmed_facts(2) by blast
  have "length (dr_claim sample_draws) = 32" by (simp add: sample_draws_def)
  from issue_total [OF s this sample_confirmed_facts(1) sample_organizer_facts t(1)
      sample_confirmed_facts(3,4) t(3,2)]
  obtain v d where r: "issue s sample_env sample_draws sample_organizer (unary_text 101)
      sample_confirmed_db = (Inr v, d)" by blast
  note h = issue_holds [OF r passes_inv_empty [OF sample_confirmed_facts(1)]]
  from h(1) obtain t' :: attendee_row and actor_id where c: "parse_uuid sample_env (unary_text 101) = Some (ad_id t')"
    "pass_recorded sample_env ''pass_issued'' actor_id sample_pass_id sample_pass_id
       (passes sample_confirmed_db @ [new_pass sample_env sample_pass_id (ad_id t')
          (new_credentials s (dr_claim sample_draws) sample_pass_id)]) sample_confirmed_db d"
    unfolding sample_pass_id_def by (rule issue_contract_rows)
  have id: "ad_id t' = 101" using c(1) sample_organizer_facts(3) by simp
  note fr = pass_recorded_frame [OF c(2)]
  show thesis
    by (rule that [OF r h(2) _ refl, of t])
      (use fr t sample_confirmed_facts(1,3,4) id in \<open>simp_all add: user_exists_def\<close>)
qed

lemma sample_credentials_differ:
  "sample_pass_id \<noteq> random_uuid (dr_id sample_redraw)"
  "cr_qr_hash (new_credentials toy_service (dr_claim sample_redraw) (random_uuid (dr_id sample_redraw))) \<noteq>
     cr_qr_hash (new_credentials toy_service (dr_claim sample_draws) sample_pass_id)"
  "cr_claim_hash (new_credentials toy_service (dr_claim sample_redraw) (random_uuid (dr_id sample_redraw))) \<noteq>
     cr_claim_hash (new_credentials toy_service (dr_claim sample_draws) sample_pass_id)"
  by code_simp+

theorem reissue_spec_witness:
  "\<exists>d v d'. passes_inv toy_service d \<and>
     reissue toy_service sample_env sample_redraw sample_organizer
       (uuid_text sample_env sample_pass_id) d = (Inr v, d') \<and>
     reissue_contract toy_service sample_env sample_redraw sample_organizer
       (uuid_text sample_env sample_pass_id) d v d'"
proof -
  obtain v d p t where inv: "passes_inv toy_service d" and ps: "passes d = [p]" and
    p: "p = new_pass sample_env sample_pass_id 101
          (new_credentials toy_service (dr_claim sample_draws) sample_pass_id)" and
    t: "lock_accepted_attendee 101 d = Some t" "confirmed_rsvp 101 d" "user_exists 1 d"
      "user_exists (ad_user t) d" "ad_email t \<noteq> []"
    by (rule sample_issue_state [OF toy_service_ok])
  have f: "pa_id p = sample_pass_id" "pa_attendee p = 101" "pa_status p = PassActive"
    "pa_qr p = cr_qr_hash (new_credentials toy_service (dr_claim sample_draws) sample_pass_id)"
    "pa_claim p = cr_claim_hash (new_credentials toy_service (dr_claim sample_draws) sample_pass_id)"
    by (simp_all add: p new_pass_def)
  have len: "length (dr_claim sample_redraw) = 32" by (simp add: sample_redraw_def)
  have "\<exists>v d'. reissue toy_service sample_env sample_redraw sample_organizer
       (uuid_text sample_env sample_pass_id) d = (Inr v, d')"
    by (rule reissue_total [OF toy_service_ok len inv _ f(3) refl refl])
      (use t f sample_credentials_differ sample_organizer_facts in \<open>auto simp: ps\<close>)
  then obtain v d' where r: "reissue toy_service sample_env sample_redraw sample_organizer
       (uuid_text sample_env sample_pass_id) d = (Inr v, d')" by blast
  from reissue_spec [OF toy_service_ok len r inv] r inv show ?thesis by blast
qed

theorem revoke_spec_witness:
  "\<exists>d v d'. passes_inv toy_service d \<and>
     revoke sample_env sample_organizer (uuid_text sample_env sample_pass_id) d = (Inr v, d') \<and>
     revoke_contract sample_env sample_organizer (uuid_text sample_env sample_pass_id) d v d'"
proof -
  obtain v d p t where inv: "passes_inv toy_service d" and ps: "passes d = [p]" and
    p: "p = new_pass sample_env sample_pass_id 101
          (new_credentials toy_service (dr_claim sample_draws) sample_pass_id)" and
    t: "lock_accepted_attendee 101 d = Some t" "user_exists 1 d"
    by (rule sample_issue_state [OF toy_service_ok])
  have f: "pa_id p = sample_pass_id" "pa_attendee p = 101" "pa_status p = PassActive"
    by (simp_all add: p new_pass_def)
  have "\<exists>v d'. revoke sample_env sample_organizer (uuid_text sample_env sample_pass_id) d = (Inr v, d')"
    by (rule revoke_total [OF inv _ f(3)])
      (use t f sample_organizer_facts in \<open>auto simp: ps\<close>)
  then obtain v d' where
    r: "revoke sample_env sample_organizer (uuid_text sample_env sample_pass_id) d = (Inr v, d')" by blast
  from revoke_spec [OF r inv] r inv show ?thesis by blast
qed

section \<open>The owner's pass and the claim\<close>

text \<open>The applicant's view derives the credential whose hash is stored with the pass, so that a
  scanner finds exactly this pass under it.\<close>

lemma web_pass_Inr:
  assumes "web_pass s e actor d = (Inr (pv, token), d')"
  obtains p t where "p \<in> set (passes d)" and "pa_status p = PassActive" and "t \<in> set (attendees d)"
    and "ad_id t = pa_attendee p" and "released_acceptance d t"
    and "parse_uuid e (user_id actor) = Some (ad_user t)" and "has_role actor RoleApplicant"
    and "pv = pass_from e p (ad_name t)" and "token = derived_qr_credential s (pa_id p)" and "d' = d"
proof -
  define f where "f i = (\<lambda>p. case pass_holder d p of
      Some t \<Rightarrow> if ad_user t = i \<and> pa_status p = PassActive then [(p, t)] else [] | None \<Rightarrow> [])" for i
  from assms obtain i where g: "has_role actor RoleApplicant" "parse_uuid e (user_id actor) = Some i"
    "d' = d" and
    r: "(case concat (map (f i) (passes d)) of [] \<Rightarrow> None
        | (p, t) # _ \<Rightarrow> Some (pass_from e p (ad_name t), derived_qr_credential s (pa_id p))) = Some (pv, token)"
    unfolding web_pass_def query_eq f_def by (auto split: if_split_asm)
  then obtain p t rest where c: "concat (map (f i) (passes d)) = (p, t) # rest" and
    v: "pv = pass_from e p (ad_name t)" "token = derived_qr_credential s (pa_id p)"
    by (auto split: list.split_asm prod.split_asm)
  have "(p, t) \<in> set (concat (map (f i) (passes d)))" by (simp add: c)
  then obtain q where q: "q \<in> set (passes d)" "(p, t) \<in> set (f i q)" by auto
  then have "q = p" "pass_holder d p = Some t" "ad_user t = i" "pa_status p = PassActive"
    by (auto simp: f_def split: option.split_asm if_split_asm)
  then show thesis
    using g v q(1) lock_accepted_attendee_Some [of "pa_attendee p" d t]
    by (intro that [of p t]) (simp_all add: pass_holder_eq)
qed

text \<open>C17. The pass page shows its owner, an applicant whose application is accepted and
  released, an active pass of their own with a QR credential that the server's hasher accepts and
  that names this pass and no other; a claim credential never does.\<close>

theorem web_pass_spec:
  assumes "service_ok s" and "passes_inv s d" and "web_pass s e actor d = (Inr (pv, token), d')"
  shows "\<exists>p\<in>set (passes d). \<exists>t\<in>set (attendees d).
    ad_id t = pa_attendee p \<and> parse_uuid e (user_id actor) = Some (ad_user t) \<and>
    released_acceptance d t \<and> pa_status p = PassActive \<and> pv = pass_from e p (ad_name t) \<and>
    qr_token_hash s token = (pa_qr p, True) \<and>
    List.find (\<lambda>q. pa_qr q = fst (qr_token_hash s token)) (passes d) = Some p \<and>
    resolve_claim s e token d = (Inl PassNotFound, d) \<and> d' = d"
proof -
  have len: "\<And>k m. length (ps_hmac s k m) = 32" using assms(1) by (simp add: service_ok_def)
  obtain p t where p: "p \<in> set (passes d)" "pa_status p = PassActive" "t \<in> set (attendees d)"
    "ad_id t = pa_attendee p" "released_acceptance d t"
    "parse_uuid e (user_id actor) = Some (ad_user t)" "pv = pass_from e p (ad_name t)" and
    token: "token = derived_qr_credential s (pa_id p)" and d': "d' = d"
    by (rule web_pass_Inr [OF assms(3)])
  have "qr_bound s (pa_id p) (pa_qr p)" and k: "distinct_on pa_qr (passes d)"
    using assms(2) p(1) by (simp_all add: passes_inv_def pass_ok_def)
  then have h: "qr_token_hash s token = (pa_qr p, True)"
    using derived_token_hash [OF len] by (simp add: token qr_bound_def)
  moreover have "List.find (\<lambda>q. pa_qr q = fst (qr_token_hash s token)) (passes d) = Some p"
    using find_eq_Some_key [OF k p(1)] by (simp add: h)
  moreover have "resolve_claim s e token d = (Inl PassNotFound, d)"
    by (simp add: resolve_claim_def query_def token derived_qr_credential_def)
  ultimately show ?thesis using p d' by (intro bexI [of _ p] bexI [of _ t]) simp_all
qed

lemma sample_holder:
  assumes "lock_accepted_attendee 101 sample_confirmed_db = Some t"
  shows "parse_uuid sample_env (user_id sample_attending) = Some (ad_user t)"
    and "has_role sample_attending RoleApplicant"
proof -
  have "case lock_accepted_attendee 101 sample_confirmed_db of None \<Rightarrow> False
    | Some t \<Rightarrow> parse_uuid sample_env (user_id sample_attending) = Some (ad_user t)" by code_simp
  then show "parse_uuid sample_env (user_id sample_attending) = Some (ad_user t)" by (simp add: assms)
  show "has_role sample_attending RoleApplicant" by code_simp
qed

theorem web_pass_spec_witness:
  "\<exists>d pv token. passes_inv toy_service d \<and>
     web_pass toy_service sample_env sample_attending d = (Inr (pv, token), d) \<and>
     (\<exists>p\<in>set (passes d). qr_token_hash toy_service token = (pa_qr p, True))"
proof -
  obtain v d p t where r: "issue toy_service sample_env sample_draws sample_organizer (unary_text 101)
      sample_confirmed_db = (Inr v, d)" and
    inv: "passes_inv toy_service d" and ps: "passes d = [p]" and
    p: "p = new_pass sample_env sample_pass_id 101
          (new_credentials toy_service (dr_claim sample_draws) sample_pass_id)" and
    t: "lock_accepted_attendee 101 d = Some t"
    by (rule sample_issue_state [OF toy_service_ok])
  have f: "pa_attendee p = 101" "pa_status p = PassActive" by (simp_all add: p new_pass_def)
  obtain event who subject i qs where
    "pass_recorded sample_env event who subject i qs sample_confirmed_db d"
    using issue_holds(3) [OF r passes_inv_empty [OF sample_confirmed_facts(1)]] by blast
  then have "lock_accepted_attendee 101 sample_confirmed_db = Some t"
    using t pass_recorded_frame(15) by simp
  note hold = sample_holder [OF this]
  have w: "web_pass toy_service sample_env sample_attending d =
      (Inr (pass_from sample_env p (ad_name t), derived_qr_credential toy_service (pa_id p)), d)"
    using hold t f by (simp add: web_pass_def query_def ps pass_holder_eq)
  from web_pass_spec [OF toy_service_ok inv w] w inv show ?thesis by blast
qed

section \<open>Contracts\<close>

interpretation issuing: transaction_contract
  "\<lambda>(e, dr, actor, attendee). issue s e dr actor attendee" "\<lambda>_. True" "passes_inv s" for s
  by unfold_locales (auto simp: issue_def transact_Inl intro: issue_holds(2) split: prod.splits)

interpretation reissuing: transaction_contract
  "\<lambda>(e, dr, actor, pass). reissue s e dr actor pass" "\<lambda>_. True" "passes_inv s" for s
  by unfold_locales (auto simp: reissue_def transact_Inl intro: reissue_holds(2) split: prod.splits)

interpretation revoking: transaction_contract
  "\<lambda>(e, actor, pass). revoke e actor pass" "\<lambda>_. True" "passes_inv s" for s
  by unfold_locales (auto simp: revoke_def transact_Inl intro: revoke_holds(2) split: prod.splits)

end
