(* ===== verification/StaffPasses.thy ===== *)
theory StaffPasses
  imports Passes
begin

text \<open>
  \<^verbatim>\<open>passes/staff.go\<close>: the event pass of administrators and approved volunteers. Eligibility is
  the join \<^verbatim>\<open>staffEligibility\<close> evaluated on the database at every call; the two statements of
  \<^verbatim>\<open>EnsureStaffPass\<close> run outside a transaction.
\<close>

section \<open>Staff passes\<close>

datatype staff_kind = StaffOrganizer | StaffVolunteer

record staff_member =
  sf_user :: uuid
  sf_kind :: staff_kind
  sf_name :: string

text \<open>\<^verbatim>\<open>trim\<close> of PostgreSQL removes blanks; \<^verbatim>\<open>lower\<close> is the parameter \<open>sql_lower\<close>.\<close>

definition sql_trim :: "string \<Rightarrow> string" where
  "sql_trim s = rev (dropWhile (\<lambda>c. c = CHR '' '') (rev (dropWhile (\<lambda>c. c = CHR '' '') s)))"

definition staff_display_name :: "user_row \<Rightarrow> string" where
  "staff_display_name u =
     (case u_name u of None \<Rightarrow> u_email u
      | Some n \<Rightarrow> if sql_trim n = [] then u_email u else sql_trim n)"

definition staff_eligibility :: "(string \<Rightarrow> string) \<Rightarrow> db \<Rightarrow> user_row \<Rightarrow> staff_member option" where
  "staff_eligibility sql_lower d u =
     (if list_ex (\<lambda>a. ae_email a = sql_lower (u_email u)) (admin_emails d)
      then Some \<lparr>sf_user = u_id u, sf_kind = StaffOrganizer, sf_name = staff_display_name u\<rparr>
      else case List.find (\<lambda>r. vo_user r = u_id u) (volunteers d) of None \<Rightarrow> None
        | Some r \<Rightarrow>
            if vo_status r = VolApproved \<and>
               list_ex (\<lambda>x. ur_user x = u_id u \<and> ur_role x = RoleScanner) (user_roles d)
            then Some \<lparr>sf_user = u_id u, sf_kind = StaffVolunteer, sf_name = vo_name r\<rparr>
            else None)"

definition staff_member_of :: "(string \<Rightarrow> string) \<Rightarrow> db \<Rightarrow> uuid \<Rightarrow> staff_member option" where
  "staff_member_of sql_lower d i =
     (case List.find (\<lambda>u. u_id u = i) (users d) of None \<Rightarrow> None
      | Some u \<Rightarrow> staff_eligibility sql_lower d u)"

definition event_key :: string where
  "event_key = ''hackatlantic-2026''"

text \<open>The \<^verbatim>\<open>WITH issued AS (INSERT ...) INSERT INTO ats.audit_events\<close> statement.\<close>

definition issue_staff_pass ::
    "pass_service \<Rightarrow> (string \<Rightarrow> string) \<Rightarrow> env \<Rightarrow> uuid \<Rightarrow> uuid \<Rightarrow> bytes \<Rightarrow> db \<Rightarrow> db_error + db" where
  "issue_staff_pass s sql_lower e i user qr d =
     (if staff_member_of sql_lower d user = None \<or> \<not> now e < ps_staff_expires s then Inr d
      else if list_ex (\<lambda>x. sp_user x = user \<and> sp_event x = event_key) (staff_passes d) then Inr d
      else if length qr \<noteq> 32 then Inl CheckViolation
      else if i \<in> sp_id ` set (staff_passes d) \<or> qr \<in> sp_qr ` set (staff_passes d)
      then Inl UniqueViolation
      else insert_audit e (Some user) ''staff_pass_issued'' ''staff_pass'' i (JObject [])
        (d\<lparr>staff_passes := staff_passes d @ [\<lparr>sp_id = i, sp_user = user, sp_event = event_key,
             sp_qr = qr, sp_issued = now e, sp_expires = ps_staff_expires s\<rparr>]\<rparr>))"

record staff_pass_view =
  sv_id :: string
  sv_name :: string
  sv_kind :: staff_kind
  sv_issued :: timestamp
  sv_expires :: timestamp
  sv_qr :: string

definition load_staff_pass ::
    "pass_service \<Rightarrow> (string \<Rightarrow> string) \<Rightarrow> env \<Rightarrow> uuid \<Rightarrow> db \<Rightarrow> pass_error + staff_pass_view" where
  "load_staff_pass s sql_lower e user d =
     from_option PassNotFound
       (case List.find (\<lambda>x. sp_user x = user \<and> sp_event x = event_key \<and> now e < sp_expires x)
               (staff_passes d) of None \<Rightarrow> None
        | Some x \<Rightarrow> map_option (\<lambda>m. \<lparr>sv_id = uuid_text e (sp_id x), sv_name = sf_name m,
              sv_kind = sf_kind m, sv_issued = sp_issued x, sv_expires = sp_expires x,
              sv_qr = derived_qr_credential s (sp_id x)\<rparr>) (staff_member_of sql_lower d user))"

text \<open>Two statements outside a transaction: the first commits even when the second finds
  nothing.\<close>

definition ensure_staff_pass ::
    "pass_service \<Rightarrow> (string \<Rightarrow> string) \<Rightarrow> env \<Rightarrow> bytes \<Rightarrow> user
      \<Rightarrow> (db, pass_error, staff_pass_view) tx" where
  "ensure_staff_pass s sql_lower e entropy actor d =
     (case parse_uuid e (user_id actor) of None \<Rightarrow> (Inl PassNotFound, d)
      | Some user \<Rightarrow>
          let i = random_uuid entropy; qr = fst (qr_token_hash s (derived_qr_credential s i)) in
          (case issue_staff_pass s sql_lower e i user qr d of
             Inl _ \<Rightarrow> (Inl PassInternal, d)
           | Inr d1 \<Rightarrow> (load_staff_pass s sql_lower e user d1, d1)))"

definition verify_staff_pass ::
    "(string \<Rightarrow> string) \<Rightarrow> env \<Rightarrow> bytes \<Rightarrow> (db, pass_error, string \<times> staff_kind) tx" where
  "verify_staff_pass sql_lower e qr = query (\<lambda>d.
     from_option PassNotFound
       (case List.find (\<lambda>x. sp_qr x = qr \<and> sp_event x = event_key \<and> now e < sp_expires x)
               (staff_passes d) of None \<Rightarrow> None
        | Some x \<Rightarrow> map_option (\<lambda>m. (sf_name m, sf_kind m)) (staff_member_of sql_lower d (sp_user x))))"

text \<open>Ids, hashes and the pair of user and event are unique; the hash belongs to the id.\<close>

definition staff_inv :: "pass_service \<Rightarrow> db \<Rightarrow> bool" where
  "staff_inv s d \<longleftrightarrow>
     distinct_on sp_id (staff_passes d) \<and> distinct_on sp_qr (staff_passes d) \<and>
     distinct_on (\<lambda>x. (sp_user x, sp_event x)) (staff_passes d) \<and>
     (\<forall>x\<in>set (staff_passes d). sp_event x = event_key \<and> qr_bound s (sp_id x) (sp_qr x) \<and>
        user_exists (sp_user x) d)"

lemma pass_recorded_staff:
  assumes "pass_recorded e event actor subject i ps d d'"
  shows "staff_inv s d' = staff_inv s d"
  using pass_recorded_frame [OF assms] by (simp add: staff_inv_def user_exists_def)

section \<open>Staff passes: idempotence and verification\<close>

lemma staff_member_of_frame [simp]:
  "staff_member_of sl (d\<lparr>staff_passes := sp, audit := au\<rparr>) i = staff_member_of sl d i"
proof -
  have "staff_eligibility sl (d\<lparr>staff_passes := sp, audit := au\<rparr>) u = staff_eligibility sl d u" for u
    by (auto simp: staff_eligibility_def split: option.split)
  then show ?thesis by (simp add: staff_member_of_def split: option.split)
qed

lemma staff_member_of_user: "staff_member_of sl d i = Some m \<Longrightarrow> user_exists i d"
  by (auto simp: staff_member_of_def user_exists_iff split: option.split_asm dest!: find_SomeD)

definition staff_row :: "pass_service \<Rightarrow> env \<Rightarrow> uuid \<Rightarrow> uuid \<Rightarrow> bytes \<Rightarrow> staff_pass_row" where
  "staff_row s e i user qr =
     \<lparr>sp_id = i, sp_user = user, sp_event = event_key, sp_qr = qr, sp_issued = now e,
      sp_expires = ps_staff_expires s\<rparr>"

lemma issue_staff_pass_Inr:
  assumes "issue_staff_pass s sl e i user qr d = Inr d'"
  obtains (none) "d' = d" and "staff_member_of sl d user = None \<or> \<not> now e < ps_staff_expires s"
    | (old) "d' = d" and "\<exists>x\<in>set (staff_passes d). sp_user x = user \<and> sp_event x = event_key"
    | (new) a where "staff_member_of sl d user \<noteq> None" and "now e < ps_staff_expires s"
      and "\<forall>x\<in>set (staff_passes d). \<not> (sp_user x = user \<and> sp_event x = event_key)"
      and "i \<notin> sp_id ` set (staff_passes d)" and "qr \<notin> sp_qr ` set (staff_passes d)"
      and "d' = d\<lparr>staff_passes := staff_passes d @ [staff_row s e i user qr], audit := audit d @ [a]\<rparr>"
      and "au_event a = ''staff_pass_issued''" and "au_subject a = i" and "au_actor a = Some user"
proof (cases "staff_member_of sl d user = None \<or> \<not> now e < ps_staff_expires s")
  case True
  then have "d' = d" using assms unfolding issue_staff_pass_def by auto
  then show thesis using True by (rule none)
next
  case elig: False
  show thesis
  proof (cases "list_ex (\<lambda>x. sp_user x = user \<and> sp_event x = event_key) (staff_passes d)")
    case True
    then have "d' = d" using assms elig unfolding issue_staff_pass_def by simp
    then show thesis using True unfolding list_ex_iff by (rule old)
  next
    case False
    then have g: "i \<notin> sp_id ` set (staff_passes d)" "qr \<notin> sp_qr ` set (staff_passes d)"
      and w: "insert_audit e (Some user) ''staff_pass_issued'' ''staff_pass'' i (JObject [])
        (d\<lparr>staff_passes := staff_passes d @ [staff_row s e i user qr]\<rparr>) = Inr d'"
      using assms elig unfolding issue_staff_pass_def staff_row_def by (simp_all split: if_split_asm)
    show thesis
      using w elig False g unfolding insert_audit_Inr list_ex_iff by (intro new) auto
  qed
qed

lemma find_staff_row:
  assumes "staff_inv s d" and "x \<in> set (staff_passes d)" and "now e < sp_expires x"
  shows "List.find (\<lambda>y. sp_user y = sp_user x \<and> sp_event y = event_key \<and> now e < sp_expires y)
      (staff_passes d) = Some x"
    and "List.find (\<lambda>y. sp_qr y = sp_qr x \<and> sp_event y = event_key \<and> now e < sp_expires y)
      (staff_passes d) = Some x"
proof -
  have ev: "sp_event x = event_key" and q: "distinct_on sp_qr (staff_passes d)"
    and k: "distinct_on (\<lambda>x. (sp_user x, sp_event x)) (staff_passes d)"
    using assms(1,2) by (simp_all add: staff_inv_def)
  have "List.find (\<lambda>y. (sp_user y, sp_event y) = (sp_user x, event_key) \<and> now e < sp_expires y)
      (staff_passes d) = Some x"
    by (rule find_key_and [OF k assms(2)]) (simp_all add: ev assms(3))
  then show "List.find (\<lambda>y. sp_user y = sp_user x \<and> sp_event y = event_key \<and> now e < sp_expires y)
      (staff_passes d) = Some x"
    by (simp add: conj_assoc)
  show "List.find (\<lambda>y. sp_qr y = sp_qr x \<and> sp_event y = event_key \<and> now e < sp_expires y)
      (staff_passes d) = Some x"
    by (rule find_key_and [OF q assms(2) refl]) (simp add: ev assms(3))
qed

definition staff_view :: "pass_service \<Rightarrow> env \<Rightarrow> staff_pass_row \<Rightarrow> staff_member \<Rightarrow> staff_pass_view" where
  "staff_view s e x m =
     \<lparr>sv_id = uuid_text e (sp_id x), sv_name = sf_name m, sv_kind = sf_kind m,
      sv_issued = sp_issued x, sv_expires = sp_expires x, sv_qr = derived_qr_credential s (sp_id x)\<rparr>"

lemma load_staff_pass_Inr:
  assumes "load_staff_pass s sl e user d = Inr v"
  obtains x m where "x \<in> set (staff_passes d)" and "sp_user x = user" and "now e < sp_expires x"
    and "sp_event x = event_key" and "staff_member_of sl d user = Some m" and "v = staff_view s e x m"
  using assms unfolding load_staff_pass_def staff_view_def from_option_Inr
  by (auto split: option.split_asm dest!: find_SomeD)

lemma issue_staff_pass_inv:
  assumes "issue_staff_pass s sl e i user qr d = Inr d'" and "staff_inv s d" and "qr_bound s i qr"
  shows "staff_inv s d'"
  using assms(1)
proof (cases rule: issue_staff_pass_Inr)
  case (new a)
  obtain m where m: "staff_member_of sl d user = Some m" using new(1) by blast
  have "user_exists user d" by (rule staff_member_of_user [OF m])
  then have "user_exists (sp_user x) d'" if "x \<in> set (staff_passes d')" for x
    using that assms(2) by (auto simp: new(6) staff_row_def staff_inv_def user_exists_def)
  then show ?thesis
    using assms(2,3) new(3-5) by (auto simp: new(6) staff_inv_def staff_row_def)
qed (use assms(2) in simp_all)

definition ensure_contract ::
    "pass_service \<Rightarrow> (string \<Rightarrow> string) \<Rightarrow> env \<Rightarrow> bytes \<Rightarrow> user \<Rightarrow> db \<Rightarrow> staff_pass_view \<Rightarrow> db \<Rightarrow> bool" where
  "ensure_contract s sl e entropy actor d v d' \<longleftrightarrow>
     (\<exists>x\<in>set (staff_passes d'). \<exists>m.
        parse_uuid e (user_id actor) = Some (sp_user x) \<and> staff_member_of sl d (sp_user x) = Some m \<and>
        sp_event x = event_key \<and> now e < sp_expires x \<and> v = staff_view s e x m \<and>
        (d' = d \<or> (\<exists>a. sp_id x = random_uuid entropy \<and> sp_issued x = now e \<and>
           (\<forall>y\<in>set (staff_passes d). sp_user y \<noteq> sp_user x) \<and>
           au_event a = ''staff_pass_issued'' \<and> au_subject a = sp_id x \<and>
           d' = d\<lparr>staff_passes := staff_passes d @ [x], audit := audit d @ [a]\<rparr>)))"

lemma staff_row_unique:
  assumes "staff_inv s d" and "x \<in> set (staff_passes d)" and "y \<in> set (staff_passes d)"
    and "sp_user x = sp_user y"
  shows "x = y"
proof (rule distinct_onD)
  show "distinct_on (\<lambda>x. (sp_user x, sp_event x)) (staff_passes d)"
    using assms(1) by (simp add: staff_inv_def)
  show "(sp_user x, sp_event x) = (sp_user y, sp_event y)"
    using assms by (simp add: staff_inv_def)
qed (use assms in simp_all)

lemma staff_member_of_same:
  assumes "issue_staff_pass s sl e i user qr d = Inr d'"
  shows "staff_member_of sl d' j = staff_member_of sl d j"
  using assms by (cases rule: issue_staff_pass_Inr) simp_all

lemma ensure_staff_pass_Inr:
  assumes "ensure_staff_pass s sl e entropy actor d = (Inr v, d')"
  obtains user where "parse_uuid e (user_id actor) = Some user"
    and "issue_staff_pass s sl e (random_uuid entropy) user
      (fst (qr_token_hash s (derived_qr_credential s (random_uuid entropy)))) d = Inr d'"
    and "load_staff_pass s sl e user d' = Inr v"
  using assms unfolding ensure_staff_pass_def Let_def
  by (auto split: option.split_asm sum.split_asm)

lemma ensure_holds:
  assumes ok: "service_ok s" and run: "ensure_staff_pass s sl e entropy actor d = (Inr v, d')"
    and inv: "staff_inv s d"
  shows "ensure_contract s sl e entropy actor d v d'" and "staff_inv s d'"
    and "ensure_staff_pass s sl e entropy' actor d' = (Inr v, d')"
    and "verify_staff_pass sl e (fst (qr_token_hash s (sv_qr v))) d' = (Inr (sv_name v, sv_kind v), d')"
proof -
  have len: "\<And>k m. length (ps_hmac s k m) = 32" using ok by (simp add: service_ok_def)
  let ?i = "random_uuid entropy"
  let ?qr = "fst (qr_token_hash s (derived_qr_credential s ?i))"
  obtain user where u: "parse_uuid e (user_id actor) = Some user" and
    iss: "issue_staff_pass s sl e ?i user ?qr d = Inr d'" and
    ld: "load_staff_pass s sl e user d' = Inr v"
    by (rule ensure_staff_pass_Inr [OF run])
  have bound: "qr_bound s ?i ?qr" using derived_token_hash [OF len] by (simp add: qr_bound_def)
  show inv': "staff_inv s d'" by (rule issue_staff_pass_inv [OF iss inv bound])
  obtain x m where x: "x \<in> set (staff_passes d')" "sp_user x = user" "now e < sp_expires x"
    "sp_event x = event_key" and m: "staff_member_of sl d' user = Some m" and v: "v = staff_view s e x m"
    by (rule load_staff_pass_Inr [OF ld])
  note same = staff_member_of_same [OF iss]
  have m0: "staff_member_of sl d user = Some m" using m same by simp
  have writes: "d' = d \<or> (\<exists>a. sp_id x = ?i \<and> sp_issued x = now e \<and>
      (\<forall>y\<in>set (staff_passes d). sp_user y \<noteq> sp_user x) \<and>
      au_event a = ''staff_pass_issued'' \<and> au_subject a = sp_id x \<and>
      d' = d\<lparr>staff_passes := staff_passes d @ [x], audit := audit d @ [a]\<rparr>)"
    using iss
  proof (cases rule: issue_staff_pass_Inr)
    case (new a)
    let ?r = "staff_row s e ?i user ?qr"
    have "?r \<in> set (staff_passes d')" "sp_user ?r = user" by (simp_all add: new(6) staff_row_def)
    then have "x = ?r" using staff_row_unique [OF inv' x(1)] x(2) by simp
    moreover have "\<forall>y\<in>set (staff_passes d). sp_user y \<noteq> user"
      using new(3) inv by (auto simp: staff_inv_def)
    ultimately show ?thesis using new(6-8) by (auto simp: staff_row_def)
  qed simp_all
  show "ensure_contract s sl e entropy actor d v d'"
    unfolding ensure_contract_def
    using u x m0 v writes by (intro bexI [of _ x] exI [of _ m] conjI) simp_all
  have again: "issue_staff_pass s sl e j user qr d' = Inr d'" for j qr
    using x by (auto simp: issue_staff_pass_def list_ex_iff)
  show "ensure_staff_pass s sl e entropy' actor d' = (Inr v, d')"
    using u again ld by (simp add: ensure_staff_pass_def Let_def)
  have "qr_bound s (sp_id x) (sp_qr x)" using inv' x(1) by (simp add: staff_inv_def)
  then have hash: "fst (qr_token_hash s (sv_qr v)) = sp_qr x"
    using derived_token_hash [OF len] by (simp add: v staff_view_def qr_bound_def)
  show "verify_staff_pass sl e (fst (qr_token_hash s (sv_qr v))) d' = (Inr (sv_name v, sv_kind v), d')"
    unfolding hash verify_staff_pass_def query_def
    using find_staff_row(2) [OF inv' x(1,3)] m x(2) by (simp add: v staff_view_def)
qed

text \<open>A person no longer eligible fails verification, whatever pass is presented.\<close>

lemma verify_fails_closed:
  assumes "\<forall>x\<in>set (staff_passes d). sp_qr x = qr \<longrightarrow>
    staff_member_of sl d (sp_user x) = None \<or> \<not> now e < sp_expires x"
  shows "verify_staff_pass sl e qr d = (Inl PassNotFound, d)"
proof (cases "List.find (\<lambda>x. sp_qr x = qr \<and> sp_event x = event_key \<and> now e < sp_expires x) (staff_passes d)")
  case None
  then show ?thesis by (simp add: verify_staff_pass_def query_def)
next
  case (Some x)
  from find_SomeD [OF Some] have "staff_member_of sl d (sp_user x) = None" using assms by blast
  with Some show ?thesis by (simp add: verify_staff_pass_def query_def)
qed

text \<open>C16. A staff pass is issued only to a person eligible in the database now (an allow-listed
  administrator or an approved volunteer with scanner access), at most once per person, with one
  audit event; asking again, with whatever random id, returns the same pass and writes nothing;
  the returned QR credential verifies to the same name and kind, and stops verifying in every
  later database where the person is no longer eligible.\<close>

theorem ensure_staff_pass_spec:
  assumes "service_ok s" and "ensure_staff_pass s sl e entropy actor d = (Inr v, d')" and "staff_inv s d"
  shows "ensure_contract s sl e entropy actor d v d' \<and> staff_inv s d' \<and>
    (\<forall>entropy'. ensure_staff_pass s sl e entropy' actor d' = (Inr v, d')) \<and>
    verify_staff_pass sl e (fst (qr_token_hash s (sv_qr v))) d' = (Inr (sv_name v, sv_kind v), d') \<and>
    (\<forall>d2 user. staff_passes d2 = staff_passes d' \<longrightarrow> parse_uuid e (user_id actor) = Some user \<longrightarrow>
       staff_member_of sl d2 user = None \<longrightarrow>
       verify_staff_pass sl e (fst (qr_token_hash s (sv_qr v))) d2 = (Inl PassNotFound, d2))"
proof -
  note h = ensure_holds [OF assms]
  obtain x m where x: "x \<in> set (staff_passes d')" "parse_uuid e (user_id actor) = Some (sp_user x)"
    "v = staff_view s e x m"
    using h(1) unfolding ensure_contract_def by blast
  have q: "distinct_on sp_qr (staff_passes d')" and "qr_bound s (sp_id x) (sp_qr x)"
    using h(2) x(1) by (simp_all add: staff_inv_def)
  then have hash: "fst (qr_token_hash s (sv_qr v)) = sp_qr x"
    using derived_token_hash [of s "sp_id x"] assms(1)
    by (simp add: x(3) staff_view_def qr_bound_def service_ok_def)
  have "verify_staff_pass sl e (fst (qr_token_hash s (sv_qr v))) d2 = (Inl PassNotFound, d2)"
    if same: "staff_passes d2 = staff_passes d'" and u: "parse_uuid e (user_id actor) = Some user"
      "staff_member_of sl d2 user = None" for d2 user
  proof (rule verify_fails_closed, intro ballI impI disjI1)
    fix y assume y: "y \<in> set (staff_passes d2)" "sp_qr y = fst (qr_token_hash s (sv_qr v))"
    then have "y = x" using distinct_onD [OF q _ x(1)] same hash by simp
    then show "staff_member_of sl d2 (sp_user y) = None" using u x(2) by simp
  qed
  then show ?thesis using h(1,2,4) ensure_holds(3) [OF assms] by blast
qed

text \<open>The sample administrator of the user tables asks for a staff pass.\<close>

definition sample_staff_db :: db where
  "sample_staff_db = sample_users_db\<lparr>admin_emails := [\<lparr>ae_email = ''a@x.ca'', ae_by = None\<rparr>]\<rparr>"

lemma sample_staff_facts:
  "staff_member_of (map ascii_lower) sample_staff_db 1 \<noteq> None"
  "staff_passes sample_staff_db = []" "user_exists 1 sample_staff_db"
  "now sample_env < ps_staff_expires toy_service"
proof -
  have "case staff_member_of (map ascii_lower) sample_staff_db 1 of None \<Rightarrow> False | Some m \<Rightarrow> True"
    by code_simp
  then show "staff_member_of (map ascii_lower) sample_staff_db 1 \<noteq> None" by (auto split: option.split_asm)
qed code_simp+

lemma ensure_total:
  assumes "service_ok s" and "parse_uuid e (user_id actor) = Some i" and "staff_passes d = []"
    and "staff_member_of sl d i = Some m" and "now e < ps_staff_expires s"
  shows "\<exists>v d'. ensure_staff_pass s sl e entropy actor d = (Inr v, d')"
proof -
  have len: "\<And>k m. length (ps_hmac s k m) = 32" using assms(1) by (simp add: service_ok_def)
  let ?i = "random_uuid entropy"
  let ?qr = "fst (qr_token_hash s (derived_qr_credential s ?i))"
  have l: "length ?qr = 32" by (rule length_qr_token_hash [OF len])
  have u: "user_exists i d" by (rule staff_member_of_user [OF assms(4)])
  have "\<exists>a. issue_staff_pass s sl e ?i i ?qr d =
      Inr (d\<lparr>staff_passes := [staff_row s e ?i i ?qr], audit := audit d @ [a]\<rparr>)"
    using assms(3-5) l u
    by (simp add: issue_staff_pass_def staff_row_def insert_audit_def user_exists_def)
       (rule exI, rule refl)
  then obtain a where a: "issue_staff_pass s sl e ?i i ?qr d =
      Inr (d\<lparr>staff_passes := [staff_row s e ?i i ?qr], audit := audit d @ [a]\<rparr>)" by blast
  show ?thesis
    using assms(2,4,5) a
    by (simp add: ensure_staff_pass_def Let_def load_staff_pass_def staff_row_def)
qed

theorem ensure_staff_pass_spec_witness:
  "\<exists>v d'. ensure_staff_pass toy_service (map ascii_lower) sample_env (replicate 16 5) sample_organizer
       sample_staff_db = (Inr v, d') \<and>
     ensure_contract toy_service (map ascii_lower) sample_env (replicate 16 5) sample_organizer
       sample_staff_db v d'"
proof -
  have inv: "staff_inv toy_service sample_staff_db"
    using sample_staff_facts(2) by (simp add: staff_inv_def)
  obtain m where "staff_member_of (map ascii_lower) sample_staff_db 1 = Some m"
    using sample_staff_facts(1) by blast
  from ensure_total [OF toy_service_ok sample_organizer_facts(2) sample_staff_facts(2) this
      sample_staff_facts(4)]
  obtain v d' where r: "ensure_staff_pass toy_service (map ascii_lower) sample_env (replicate 16 5)
      sample_organizer sample_staff_db = (Inr v, d')" by blast
  from ensure_staff_pass_spec [OF toy_service_ok r inv] r show ?thesis by blast
qed

end
