(* ===== verification/Redemptions.thy ===== *)
theory Redemptions
  imports StaffPasses
begin

text \<open>
  Packages \<^verbatim>\<open>entitlements\<close>, \<^verbatim>\<open>checkpoints\<close> and \<^verbatim>\<open>redemptions\<close>: the effective rule of an attendee at a
  checkpoint, the scanner's lookup, and the redemption of a pass with its append-only ledger of
  idempotent requests. Statements are the SQL inline in \<^verbatim>\<open>redemptions/service.go\<close>.
\<close>

section \<open>Entitlements and checkpoints\<close>

record effective =
  ef_allowed :: bool
  ef_max :: int

text \<open>\<^verbatim>\<open>entitlements.Resolve\<close>; the override is the attendee's own row, when there is one.\<close>

definition resolve_entitlement :: "bool \<Rightarrow> int \<Rightarrow> (bool \<times> int) option \<Rightarrow> effective" where
  "resolve_entitlement default_allowed default_max override =
     (let r = (case override of
                 None \<Rightarrow> \<lparr>ef_allowed = default_allowed, ef_max = default_max\<rparr>
               | Some (a, m) \<Rightarrow> \<lparr>ef_allowed = a, ef_max = m\<rparr>)
      in if ef_max r < 0 then r\<lparr>ef_max := 0\<rparr> else r)"

datatype scan_error =
    ScanForbidden
  | ScanNotFound
  | ScanInvalidInput
  | ScanIdempotencyConflict
  | ScanCheckpointNotFound
  | ScanInternal

text \<open>\<^verbatim>\<open>ORDER BY name, id\<close>; \<open>rank\<close> is the database's collation.\<close>

definition list_active ::
    "env \<Rightarrow> (string \<Rightarrow> nat) \<Rightarrow> user \<Rightarrow> (db, scan_error, (string \<times> string) list) tx" where
  "list_active e rank actor = query (\<lambda>d.
     if \<not> has_role actor RoleScanner then Inl ScanForbidden
     else Inr (map (\<lambda>c. (uuid_text e (ck_id c), ck_name c))
            (sort_key (\<lambda>c. rank (ck_name c)) (sort_key ck_id (filter ck_active (checkpoints d))))))"

section \<open>Statements of the ledger\<close>

record locked_pass =
  lp_id :: uuid
  lp_attendee :: uuid
  lp_cycle :: uuid
  lp_name :: string
  lp_status :: pass_status
  lp_eligible :: bool

definition find_redemption_request :: "uuid \<Rightarrow> db \<Rightarrow> request_row option" where
  "find_redemption_request key d = List.find (\<lambda>r. rq_key r = key) (requests d)"

definition lock_checkpoint :: "uuid \<Rightarrow> db \<Rightarrow> checkpoint_row option" where
  "lock_checkpoint i d = List.find (\<lambda>c. ck_id c = i) (checkpoints d)"

text \<open>The pass under a hash joined with its attendee and application.\<close>

definition lock_pass_by_qr_hash :: "bytes \<Rightarrow> db \<Rightarrow> locked_pass option" where
  "lock_pass_by_qr_hash qr d =
     (case List.find (\<lambda>p. pa_qr p = qr) (passes d) of None \<Rightarrow> None
      | Some p \<Rightarrow> (case List.find (\<lambda>t. ad_id t = pa_attendee p) (attendees d) of None \<Rightarrow> None
        | Some t \<Rightarrow> (case List.find (\<lambda>a. ap_id a = ad_application t) (applications d) of None \<Rightarrow> None
          | Some a \<Rightarrow> Some \<lparr>lp_id = pa_id p, lp_attendee = pa_attendee p, lp_cycle = ad_cycle t,
                lp_name = ad_name t, lp_status = pa_status p,
                lp_eligible = (ap_status a = StAccepted \<and> ap_released a \<noteq> None)\<rparr>)))"

definition effective_entitlement :: "locked_pass \<Rightarrow> checkpoint_row \<Rightarrow> db \<Rightarrow> effective" where
  "effective_entitlement p c d =
     resolve_entitlement (ck_allowed c) (ck_max c)
       (map_option (\<lambda>x. (en_allowed x, en_max x))
         (List.find (\<lambda>x. en_attendee x = lp_attendee p \<and> en_checkpoint x = ck_id c
            \<and> en_cycle x = lp_cycle p) (entitlements d)))"

definition count_redemptions :: "uuid \<Rightarrow> uuid \<Rightarrow> db \<Rightarrow> nat" where
  "count_redemptions attendee checkpoint d =
     count_rows (\<lambda>r. rd_attendee r = attendee \<and> rd_checkpoint r = checkpoint) (redemptions d)"

definition string_of_pass_status :: "pass_status \<Rightarrow> string" where
  "string_of_pass_status s =
     (case s of PassActive \<Rightarrow> ''active'' | PassRevoked \<Rightarrow> ''revoked'' | PassReplaced \<Rightarrow> ''replaced'')"

definition string_of_scan :: "scan_outcome \<Rightarrow> string" where
  "string_of_scan x =
     (case x of Redeemed \<Rightarrow> ''redeemed'' | AlreadyExhausted \<Rightarrow> ''already_exhausted''
      | NotEntitled \<Rightarrow> ''not_entitled'' | OutsideWindow \<Rightarrow> ''outside_window''
      | InvalidPass \<Rightarrow> ''invalid_pass'' | RevokedPass \<Rightarrow> ''revoked_pass'')"

text \<open>The constraint \<^verbatim>\<open>redemption_requests_outcome_subject_check\<close>.\<close>

definition request_subject_ok :: "request_row \<Rightarrow> bool" where
  "request_subject_ok r =
     (case rq_outcome r of
        InvalidPass \<Rightarrow> rq_pass r = None \<and> rq_attendee r = None \<and> rq_name r = None \<and>
          rq_pass_status r = None \<and> rq_redemption r = None
      | Redeemed \<Rightarrow> rq_pass r \<noteq> None \<and> rq_attendee r \<noteq> None \<and> rq_name r \<noteq> None \<and>
          rq_pass_status r = Some ''active'' \<and> rq_redemption r \<noteq> None
      | RevokedPass \<Rightarrow> rq_pass r \<noteq> None \<and> rq_attendee r \<noteq> None \<and> rq_name r \<noteq> None \<and>
          rq_pass_status r = Some ''revoked'' \<and> rq_redemption r = None
      | _ \<Rightarrow> rq_pass r \<noteq> None \<and> rq_attendee r \<noteq> None \<and> rq_name r \<noteq> None \<and>
          rq_pass_status r = Some ''active'' \<and> rq_redemption r = None)"

text \<open>The redemption of a request is a deferred foreign key, checked at the commit.\<close>

definition insert_request :: "request_row \<Rightarrow> db \<Rightarrow> db_error + db" where
  "insert_request r d =
     (if length (rq_qr r) \<noteq> 32 \<or> \<not> request_subject_ok r then Inl CheckViolation
      else if rq_id r \<in> rq_id ` set (requests d) \<or> rq_key r \<in> rq_key ` set (requests d)
        \<or> (rq_redemption r \<noteq> None \<and> rq_redemption r \<in> rq_redemption ` set (requests d))
      then Inl UniqueViolation
      else if \<not> user_exists (rq_scanner r) d \<or> rq_checkpoint r \<notin> ck_id ` set (checkpoints d)
        \<or> (case (rq_pass r, rq_attendee r) of
             (Some p, Some a) \<Rightarrow> (p, a) \<notin> (\<lambda>x. (pa_id x, pa_attendee x)) ` set (passes d)
           | _ \<Rightarrow> False)
      then Inl ForeignKeyViolation
      else Inr (d\<lparr>requests := requests d @ [r]\<rparr>))"

definition insert_redemption :: "redemption_row \<Rightarrow> db \<Rightarrow> db_error + db" where
  "insert_redemption r d =
     (if \<not> 0 < rd_ordinal r then Inl CheckViolation
      else if rd_id r \<in> rd_id ` set (redemptions d) \<or> rd_key r \<in> rd_key ` set (redemptions d)
        \<or> (rd_attendee r, rd_checkpoint r, rd_ordinal r) \<in>
            (\<lambda>x. (rd_attendee x, rd_checkpoint x, rd_ordinal x)) ` set (redemptions d)
      then Inl UniqueViolation
      else if (rd_pass r, rd_attendee r) \<notin> (\<lambda>x. (pa_id x, pa_attendee x)) ` set (passes d)
        \<or> (rd_attendee r, rd_cycle r) \<notin> (\<lambda>x. (ad_id x, ad_cycle x)) ` set (attendees d)
        \<or> (rd_checkpoint r, rd_cycle r) \<notin> (\<lambda>x. (ck_id x, ck_cycle x)) ` set (checkpoints d)
        \<or> \<not> user_exists (rd_scanner r) d
      then Inl ForeignKeyViolation
      else Inr (d\<lparr>redemptions := redemptions d @ [r]\<rparr>))"

section \<open>Recording an outcome\<close>

record scan_result =
  sr_outcome :: scan_outcome
  sr_attendee :: "string option"
  sr_pass :: "string option"
  sr_checkpoint :: "string \<times> string"
  sr_redemption :: "string option"

text \<open>\<^verbatim>\<open>requestRecord\<close>.\<close>

record scan_record =
  sc_scanner :: uuid
  sc_checkpoint :: checkpoint_row
  sc_key :: uuid
  sc_qr :: bytes
  sc_pass :: "locked_pass option"
  sc_outcome :: scan_outcome
  sc_ordinal :: int

definition recorded_subject :: "scan_record \<Rightarrow> locked_pass option" where
  "recorded_subject r = (if sc_outcome r = InvalidPass then None else sc_pass r)"

definition request_of :: "env \<Rightarrow> uuid option \<Rightarrow> scan_record \<Rightarrow> request_row" where
  "request_of e redemption r =
     (let p = recorded_subject r in
      \<lparr>rq_id = fresh e 0, rq_key = sc_key r, rq_scanner = sc_scanner r,
       rq_checkpoint = ck_id (sc_checkpoint r), rq_qr = sc_qr r,
       rq_pass = map_option lp_id p, rq_attendee = map_option lp_attendee p,
       rq_outcome = sc_outcome r, rq_name = map_option lp_name p,
       rq_pass_status = map_option (string_of_pass_status \<circ> lp_status) p,
       rq_checkpoint_name = ck_name (sc_checkpoint r), rq_redemption = redemption,
       rq_created = now e\<rparr>)"

definition redemption_of :: "env \<Rightarrow> uuid \<Rightarrow> scan_record \<Rightarrow> locked_pass \<Rightarrow> redemption_row" where
  "redemption_of e i r p =
     \<lparr>rd_id = i, rd_pass = lp_id p, rd_attendee = lp_attendee p,
      rd_checkpoint = ck_id (sc_checkpoint r), rd_cycle = ck_cycle (sc_checkpoint r),
      rd_ordinal = sc_ordinal r, rd_scanner = sc_scanner r, rd_key = sc_key r, rd_at = now e\<rparr>"

text \<open>Keys with an empty text are left out of the metadata.\<close>

definition scan_metadata :: "env \<Rightarrow> uuid option \<Rightarrow> scan_record \<Rightarrow> json" where
  "scan_metadata e redemption r =
     (let p = recorded_subject r;
          opt = (\<lambda>k v. case v of None \<Rightarrow> [] | Some i \<Rightarrow> [(k, JString (uuid_text e i))])
      in JObject ([(''scannerUserId'', JString (uuid_text e (sc_scanner r))),
            (''checkpointId'', JString (uuid_text e (ck_id (sc_checkpoint r))))] @
          opt ''attendeeId'' (map_option lp_attendee p) @ opt ''passId'' (map_option lp_id p) @
          opt ''redemptionId'' redemption @
          [(''idempotencyKey'', JString (uuid_text e (sc_key r))),
           (''outcome'', JString (string_of_scan (sc_outcome r)))]))"

definition scan_result_of :: "env \<Rightarrow> uuid option \<Rightarrow> scan_record \<Rightarrow> scan_result" where
  "scan_result_of e redemption r =
     (let p = recorded_subject r in
      \<lparr>sr_outcome = sc_outcome r, sr_attendee = map_option lp_name p,
       sr_pass = map_option (string_of_pass_status \<circ> lp_status) p,
       sr_checkpoint = (uuid_text e (ck_id (sc_checkpoint r)), ck_name (sc_checkpoint r)),
       sr_redemption = map_option (uuid_text e) redemption\<rparr>)"

text \<open>\<open>recordOutcome\<close>; \<open>i\<close> is the redemption id it would draw. A redeemed outcome has its pass:
  the insert of the request refuses one without.\<close>

definition record_outcome ::
    "env \<Rightarrow> uuid \<Rightarrow> scan_record \<Rightarrow> db \<Rightarrow> db_error + scan_result \<times> db" where
  "record_outcome e i r d =
     (let redemption = (if sc_outcome r = Redeemed then Some i else None) in
      bindE (insert_request (request_of e redemption r) d) (\<lambda>d1.
      bindE (case (redemption, recorded_subject r) of
               (Some j, Some p) \<Rightarrow> insert_redemption (redemption_of e j r p) d1
             | (Some j, None) \<Rightarrow> Inl CheckViolation
             | (None, _) \<Rightarrow> Inr d1) (\<lambda>d2.
      bindE (insert_audit e (Some (sc_scanner r)) ''redemption_recorded'' ''redemption''
               (case redemption of None \<Rightarrow> ck_id (sc_checkpoint r) | Some j \<Rightarrow> j)
               (scan_metadata e redemption r) d2) (\<lambda>d3.
      Inr (scan_result_of e redemption r, d3)))))"

definition result_from_request :: "env \<Rightarrow> request_row \<Rightarrow> scan_result" where
  "result_from_request e r =
     (let shown = (rq_pass r \<noteq> None \<and> rq_name r \<noteq> None \<and> rq_pass_status r \<noteq> None) in
      \<lparr>sr_outcome = rq_outcome r, sr_attendee = (if shown then rq_name r else None),
       sr_pass = (if shown then rq_pass_status r else None),
       sr_checkpoint = (uuid_text e (rq_checkpoint r), rq_checkpoint_name r),
       sr_redemption = map_option (uuid_text e) (rq_redemption r)\<rparr>)"

section \<open>Redeeming\<close>

text \<open>\<^verbatim>\<open>int32(committed + 1)\<close>.\<close>

definition to_int32 :: "int \<Rightarrow> int" where
  "to_int32 n = sint (word_of_int n :: 32 word)"

definition window_closed :: "timestamp \<Rightarrow> checkpoint_row \<Rightarrow> bool" where
  "window_closed t c =
     ((case ck_opens c of None \<Rightarrow> False | Some s \<Rightarrow> t < s) \<or>
      (case ck_closes c of None \<Rightarrow> False | Some s \<Rightarrow> \<not> t < s))"

text \<open>The chain of decisions after the checkpoint is locked: the pass that is recorded, the
  outcome and the ordinal of a redemption.\<close>

definition scan_decision ::
    "env \<Rightarrow> checkpoint_row \<Rightarrow> bytes \<Rightarrow> bool \<Rightarrow> db \<Rightarrow> locked_pass option \<times> scan_outcome \<times> int" where
  "scan_decision e c qr valid d =
     (if \<not> valid then (None, InvalidPass, 0)
      else case lock_pass_by_qr_hash qr d of None \<Rightarrow> (None, InvalidPass, 0)
        | Some p \<Rightarrow>
          if lp_status p = PassRevoked \<and> lp_eligible p then (Some p, RevokedPass, 0)
          else if lp_status p \<noteq> PassActive \<or> \<not> lp_eligible p then (None, InvalidPass, 0)
          else if \<not> ck_active c then (Some p, OutsideWindow, 0)
          else if ck_cycle c \<noteq> lp_cycle p then (Some p, NotEntitled, 0)
          else if window_closed (now e) c then (Some p, OutsideWindow, 0)
          else let r = effective_entitlement p c d in
            if \<not> ef_allowed r then (Some p, NotEntitled, 0)
            else let committed = int (count_redemptions (lp_attendee p) (ck_id c) d) in
              if committed \<ge> ef_max r then (Some p, AlreadyExhausted, 0)
              else (Some p, Redeemed, to_int32 (committed + 1)))"

text \<open>\<^verbatim>\<open>isRetryableTransactionError\<close>; the error 40001 does not arise at \<^verbatim>\<open>READ COMMITTED\<close>.\<close>

definition is_retryable :: "db_error \<Rightarrow> bool" where
  "is_retryable x = (x = UniqueViolation)"

text \<open>One transaction: an error with whether it is retried, or the result and what it wrote.\<close>

definition redeem_attempt ::
    "env \<Rightarrow> uuid \<Rightarrow> uuid \<Rightarrow> uuid \<Rightarrow> uuid \<Rightarrow> bytes \<Rightarrow> bool \<Rightarrow> db
      \<Rightarrow> (scan_error \<times> bool) + scan_result \<times> db" where
  "redeem_attempt e i scanner checkpoint key qr valid d =
     (case find_redemption_request key d of
        Some r \<Rightarrow>
          if rq_checkpoint r \<noteq> checkpoint \<or> rq_qr r \<noteq> qr then Inl (ScanIdempotencyConflict, False)
          else Inr (result_from_request e r, d)
      | None \<Rightarrow>
        (case lock_checkpoint checkpoint d of
           None \<Rightarrow> Inl (ScanCheckpointNotFound, False)
         | Some c \<Rightarrow>
           (case scan_decision e c qr valid d of (p, out, ordinal) \<Rightarrow>
              wrap_err (\<lambda>x. (ScanInternal, is_retryable x))
                (record_outcome e i \<lparr>sc_scanner = scanner, sc_checkpoint = c, sc_key = key,
                   sc_qr = qr, sc_pass = p, sc_outcome = out, sc_ordinal = ordinal\<rparr> d))))"

text \<open>The retry loop; attempt \<open>k\<close> draws the redemption id \<open>ids k\<close>.\<close>

primrec redeem_loop ::
    "nat \<Rightarrow> env \<Rightarrow> (nat \<Rightarrow> uuid) \<Rightarrow> nat \<Rightarrow> uuid \<Rightarrow> uuid \<Rightarrow> uuid \<Rightarrow> bytes \<Rightarrow> bool
      \<Rightarrow> (db, scan_error, scan_result) tx" where
  "redeem_loop 0 e ids k scanner checkpoint key qr valid d = (Inl ScanInternal, d)"
| "redeem_loop (Suc n) e ids k scanner checkpoint key qr valid d =
     (case redeem_attempt e (ids k) scanner checkpoint key qr valid d of
        Inl (err, retry) \<Rightarrow>
          if retry then redeem_loop n e ids (k + 1) scanner checkpoint key qr valid d else (Inl err, d)
      | Inr (v, d') \<Rightarrow> (Inr v, d'))"

record redeem_input =
  re_token :: string
  re_checkpoint :: string
  re_key :: string

definition redeem ::
    "(string \<Rightarrow> bytes \<times> bool) option \<Rightarrow> env \<Rightarrow> (nat \<Rightarrow> bytes) \<Rightarrow> user \<Rightarrow> redeem_input
      \<Rightarrow> (db, scan_error, scan_result) tx" where
  "redeem hasher e entropy actor input d =
     (if \<not> has_role actor RoleScanner then (Inl ScanForbidden, d)
      else case hasher of None \<Rightarrow> (Inl ScanInternal, d)
      | Some hash \<Rightarrow> (case parse_uuid e (user_id actor) of None \<Rightarrow> (Inl ScanInternal, d)
      | Some scanner \<Rightarrow> (case parse_uuid e (re_checkpoint input) of None \<Rightarrow> (Inl ScanInvalidInput, d)
      | Some checkpoint \<Rightarrow> (case parse_uuid e (re_key input) of None \<Rightarrow> (Inl ScanInvalidInput, d)
      | Some key \<Rightarrow>
          (case hash (re_token input) of (qr, valid) \<Rightarrow>
             if length qr \<noteq> 32 then (Inl ScanInternal, d)
             else redeem_loop 3 e (random_uuid \<circ> entropy) 0 scanner checkpoint key qr valid d)))))"

text \<open>\<^verbatim>\<open>Lookup\<close>: an attendee's name and pass status, or else a staff member, when the hasher also
  verifies staff passes.\<close>

definition lookup_attendee :: "bytes \<Rightarrow> db \<Rightarrow> (string \<times> pass_status) option" where
  "lookup_attendee qr d =
     (case lock_pass_by_qr_hash qr d of None \<Rightarrow> None
      | Some p \<Rightarrow>
          if (lp_status p = PassActive \<or> lp_status p = PassRevoked) \<and> lp_eligible p
          then Some (lp_name p, lp_status p) else None)"

definition lookup_staff ::
    "(bytes \<Rightarrow> (db, pass_error, string \<times> staff_kind) tx) option \<Rightarrow> bytes \<Rightarrow> db
      \<Rightarrow> scan_error + string \<times> staff_kind" where
  "lookup_staff verify qr d =
     (case verify of None \<Rightarrow> Inl ScanNotFound
      | Some v \<Rightarrow> (case fst (v qr d) of
          Inr m \<Rightarrow> Inr m
        | Inl x \<Rightarrow> Inl (if x = PassNotFound then ScanNotFound else ScanInternal)))"

definition lookup ::
    "(string \<Rightarrow> bytes \<times> bool) option \<Rightarrow> (bytes \<Rightarrow> (db, pass_error, string \<times> staff_kind) tx) option
      \<Rightarrow> user \<Rightarrow> string \<Rightarrow> (db, scan_error, string \<times> pass_status \<times> staff_kind option) tx" where
  "lookup hasher verify actor token = query (\<lambda>d.
     if \<not> has_role actor RoleScanner then Inl ScanForbidden
     else case hasher of None \<Rightarrow> Inl ScanInternal
      | Some hash \<Rightarrow> (case hash token of (qr, valid) \<Rightarrow>
          if \<not> valid then Inl ScanNotFound
          else (case lookup_attendee qr d of
              Some (name, status) \<Rightarrow> Inr (name, status, None)
            | None \<Rightarrow> bindE (lookup_staff verify qr d) (\<lambda>(name, kind). Inr (name, PassActive, Some kind)))))"

section \<open>The ledger invariant\<close>

text \<open>
  The redemptions of an attendee at a checkpoint are numbered from one without gaps; every
  redemption has exactly the request that recorded it, and every request the shape its outcome
  demands. Checkpoint rules fit an \<^verbatim>\<open>int4\<close> column.
\<close>

definition slot :: "redemption_row \<Rightarrow> uuid \<times> uuid" where
  "slot r = (rd_attendee r, rd_checkpoint r)"

definition ordinals :: "uuid \<times> uuid \<Rightarrow> redemption_row list \<Rightarrow> int list" where
  "ordinals s rs = map rd_ordinal (filter (\<lambda>r. slot r = s) rs)"

definition gap_free :: "int list \<Rightarrow> bool" where
  "gap_free xs \<longleftrightarrow> xs = map int [1..<Suc (length xs)]"

definition matches :: "request_row \<Rightarrow> redemption_row \<Rightarrow> bool" where
  "matches q r \<longleftrightarrow> rq_redemption q = Some (rd_id r) \<and> rq_key q = rd_key r \<and>
     rq_pass q = Some (rd_pass r) \<and> rq_attendee q = Some (rd_attendee r) \<and>
     rq_checkpoint q = rd_checkpoint r \<and> rq_scanner q = rd_scanner r"

definition scan_inv :: "db \<Rightarrow> bool" where
  "scan_inv d \<longleftrightarrow>
     distinct_on ck_id (checkpoints d) \<and>
     (\<forall>c\<in>set (checkpoints d). 0 \<le> ck_max c \<and> int4_ok (ck_max c)) \<and>
     (\<forall>x\<in>set (entitlements d). 0 \<le> en_max x \<and> int4_ok (en_max x)) \<and>
     distinct_on rq_key (requests d) \<and> distinct_on rd_key (redemptions d) \<and>
     distinct_on rd_id (redemptions d) \<and>
     (\<forall>q\<in>set (requests d). request_subject_ok q \<and>
        (rq_outcome q = Redeemed \<longrightarrow> (\<exists>r\<in>set (redemptions d). matches q r))) \<and>
     (\<forall>r\<in>set (redemptions d). \<exists>q\<in>set (requests d). rq_outcome q = Redeemed \<and> matches q r) \<and>
     (\<forall>a c. gap_free (ordinals (a, c) (redemptions d)))"

lemma count_ordinals: "count_redemptions a c d = length (ordinals (a, c) (redemptions d))"
  by (simp add: count_redemptions_def count_rows_def ordinals_def slot_def)

lemma to_int32_id: "0 \<le> n \<Longrightarrow> n < 2 ^ 31 \<Longrightarrow> to_int32 n = n"
  by (simp add: to_int32_def signed_take_bit_int_eq_self sint_uint uint_word_of_int take_bit_int_eq_self)

lemma resolve_bounds:
  assumes "0 \<le> m" "int4_ok m" and "\<And>a k. o' = Some (a, k) \<Longrightarrow> 0 \<le> k \<and> int4_ok k"
  shows "0 \<le> ef_max (resolve_entitlement b m o') \<and> int4_ok (ef_max (resolve_entitlement b m o'))"
  using assms by (cases o') (auto simp: resolve_entitlement_def Let_def)

lemma effective_bounds:
  assumes "scan_inv d" and "c \<in> set (checkpoints d)"
  shows "0 \<le> ef_max (effective_entitlement p c d) \<and> int4_ok (ef_max (effective_entitlement p c d))"
  unfolding effective_entitlement_def
proof (rule resolve_bounds)
  show "0 \<le> ck_max c" "int4_ok (ck_max c)" using assms by (simp_all add: scan_inv_def)
  fix a k
  assume "map_option (\<lambda>x. (en_allowed x, en_max x)) (List.find (\<lambda>x. en_attendee x = lp_attendee p \<and>
    en_checkpoint x = ck_id c \<and> en_cycle x = lp_cycle p) (entitlements d)) = Some (a, k)"
  then show "0 \<le> k \<and> int4_ok k" using assms(1) by (auto simp: scan_inv_def dest!: find_SomeD)
qed

section \<open>What is recorded\<close>

text \<open>The conditions under which a scan redeems, read off the rows.\<close>

definition admits :: "env \<Rightarrow> checkpoint_row \<Rightarrow> locked_pass \<Rightarrow> db \<Rightarrow> bool" where
  "admits e c p d \<longleftrightarrow>
     lp_status p = PassActive \<and> lp_eligible p \<and> ck_active c \<and> ck_cycle c = lp_cycle p \<and>
     \<not> window_closed (now e) c \<and> ef_allowed (effective_entitlement p c d) \<and>
     int (count_redemptions (lp_attendee p) (ck_id c) d) < ef_max (effective_entitlement p c d)"

lemma scan_decision_redeemed:
  "scan_decision e c qr valid d = (x, Redeemed, n) \<longleftrightarrow>
     (\<exists>p. x = Some p \<and> valid \<and> lock_pass_by_qr_hash qr d = Some p \<and> admits e c p d \<and>
        n = to_int32 (int (count_redemptions (lp_attendee p) (ck_id c) d) + 1))"
proof (cases "lock_pass_by_qr_hash qr d")
  case None
  then show ?thesis by (auto simp: scan_decision_def)
next
  case (Some p)
  then show ?thesis by (auto simp: scan_decision_def admits_def Let_def)
qed

lemma scan_decision_subject:
  assumes "scan_decision e c qr valid d = (x, out, n)"
  shows "x = None \<longleftrightarrow> out = InvalidPass"
proof (cases "lock_pass_by_qr_hash qr d")
  case None
  then show ?thesis using assms by (auto simp: scan_decision_def split: if_split_asm)
next
  case (Some p)
  show ?thesis using assms by (auto simp: scan_decision_def Let_def Some split: if_split_asm)
qed

definition outcome_redemption :: "uuid \<Rightarrow> scan_record \<Rightarrow> uuid option" where
  "outcome_redemption i r = (if sc_outcome r = Redeemed then Some i else None)"

definition outcome_rows :: "env \<Rightarrow> uuid \<Rightarrow> scan_record \<Rightarrow> redemption_row list" where
  "outcome_rows e i r =
     (case (outcome_redemption i r, recorded_subject r) of
        (Some j, Some p) \<Rightarrow> [redemption_of e j r p] | _ \<Rightarrow> [])"

lemma insert_request_Inr:
  assumes "insert_request q d = Inr d'"
  shows "d' = d\<lparr>requests := requests d @ [q]\<rparr>" and "request_subject_ok q"
    and "rq_key q \<notin> rq_key ` set (requests d)" and "length (rq_qr q) = 32"
    and "user_exists (rq_scanner q) d"
  using assms unfolding insert_request_def by (simp_all split: if_split_asm)

lemma insert_redemption_Inr:
  assumes "insert_redemption r d = Inr d'"
  shows "d' = d\<lparr>redemptions := redemptions d @ [r]\<rparr>"
    and "rd_id r \<notin> rd_id ` set (redemptions d)" and "rd_key r \<notin> rd_key ` set (redemptions d)"
    and "0 < rd_ordinal r"
  using assms unfolding insert_redemption_def by (simp_all split: if_split_asm)

definition outcome_recorded :: "env \<Rightarrow> uuid \<Rightarrow> scan_record \<Rightarrow> db \<Rightarrow> scan_result \<Rightarrow> db \<Rightarrow> bool" where
  "outcome_recorded e i r d v d' \<longleftrightarrow>
     v = scan_result_of e (outcome_redemption i r) r \<and>
     request_subject_ok (request_of e (outcome_redemption i r) r) \<and>
     sc_key r \<notin> rq_key ` set (requests d) \<and>
     (sc_outcome r = Redeemed \<longrightarrow> recorded_subject r \<noteq> None \<and> i \<notin> rd_id ` set (redemptions d) \<and>
        sc_key r \<notin> rd_key ` set (redemptions d) \<and> 0 < sc_ordinal r) \<and>
     (\<exists>x. au_event x = ''redemption_recorded'' \<and> au_actor x = Some (sc_scanner r) \<and>
        au_subject x = (if sc_outcome r = Redeemed then i else ck_id (sc_checkpoint r)) \<and>
        d' = d\<lparr>requests := requests d @ [request_of e (outcome_redemption i r) r],
               redemptions := redemptions d @ outcome_rows e i r, audit := audit d @ [x]\<rparr>)"

lemma record_outcome_Inr:
  assumes "record_outcome e i r d = Inr (v, d')"
  shows "outcome_recorded e i r d v d'"
proof -
  let ?red = "outcome_redemption i r"
  from assms obtain d1 d2 where
    q: "insert_request (request_of e ?red r) d = Inr d1" and
    w: "(case (?red, recorded_subject r) of
          (Some j, Some p) \<Rightarrow> insert_redemption (redemption_of e j r p) d1
        | (Some j, None) \<Rightarrow> Inl CheckViolation
        | (None, _) \<Rightarrow> Inr d1) = Inr d2" and
    a: "insert_audit e (Some (sc_scanner r)) ''redemption_recorded'' ''redemption''
          (case ?red of None \<Rightarrow> ck_id (sc_checkpoint r) | Some j \<Rightarrow> j)
          (scan_metadata e ?red r) d2 = Inr d'" and
    v: "v = scan_result_of e ?red r"
    unfolding record_outcome_def Let_def outcome_redemption_def by blast
  note fq = insert_request_Inr [OF q]
  have key: "sc_key r \<notin> rq_key ` set (requests d)"
    using fq(3) by (simp add: request_of_def Let_def)
  have d2: "d2 = d\<lparr>requests := requests d @ [request_of e ?red r],
      redemptions := redemptions d @ outcome_rows e i r\<rparr> \<and>
    (sc_outcome r = Redeemed \<longrightarrow> recorded_subject r \<noteq> None \<and> i \<notin> rd_id ` set (redemptions d) \<and>
        sc_key r \<notin> rd_key ` set (redemptions d) \<and> 0 < sc_ordinal r)"
  proof (cases "sc_outcome r = Redeemed")
    case True
    then obtain p where p: "recorded_subject r = Some p"
      using w by (auto simp: outcome_redemption_def split: option.split_asm)
    then have ins: "insert_redemption (redemption_of e i r p) d1 = Inr d2"
      using w True by (simp add: outcome_redemption_def)
    note fr = insert_redemption_Inr [OF ins]
    show ?thesis
      using fr p True by (simp add: fq(1) outcome_rows_def outcome_redemption_def redemption_of_def)
  next
    case False
    then have "d2 = d\<lparr>requests := requests d @ [request_of e ?red r]\<rparr>"
      using w by (simp add: fq(1) outcome_redemption_def)
    with False show ?thesis by (simp add: outcome_rows_def outcome_redemption_def)
  qed
  obtain x where x: "d' = d2\<lparr>audit := audit d2 @ [x]\<rparr>" "au_event x = ''redemption_recorded''"
    "au_actor x = Some (sc_scanner r)"
    "au_subject x = (case ?red of None \<Rightarrow> ck_id (sc_checkpoint r) | Some j \<Rightarrow> j)"
    using a unfolding insert_audit_Inr by (elim conjE) simp
  have d': "d' = d\<lparr>requests := requests d @ [request_of e ?red r],
      redemptions := redemptions d @ outcome_rows e i r, audit := audit d @ [x]\<rparr>"
    using x(1) d2 by simp
  have sub: "au_subject x = (if sc_outcome r = Redeemed then i else ck_id (sc_checkpoint r))"
    by (simp add: x(4) outcome_redemption_def)
  show ?thesis
    unfolding outcome_recorded_def
    by (intro conjI exI [of _ x]) (use v fq(2) key d2 x(2,3) sub d' in simp_all)
qed

lemma redeem_attempt_Inr:
  assumes "redeem_attempt e i scanner checkpoint key qr valid d = Inr (v, d')"
  obtains (replay) q where "q \<in> set (requests d)" and "rq_key q = key" and "rq_checkpoint q = checkpoint"
      and "rq_qr q = qr" and "v = result_from_request e q" and "d' = d"
    | (new) c x out n where "find_redemption_request key d = None" and "c \<in> set (checkpoints d)"
      and "ck_id c = checkpoint" and "scan_decision e c qr valid d = (x, out, n)"
      and "outcome_recorded e i \<lparr>sc_scanner = scanner, sc_checkpoint = c, sc_key = key,
                   sc_qr = qr, sc_pass = x, sc_outcome = out, sc_ordinal = n\<rparr> d v d'"
proof (cases "find_redemption_request key d")
  case (Some q)
  then have "q \<in> set (requests d)" "rq_key q = key"
    using find_SomeD [of _ "requests d" q] by (auto simp: find_redemption_request_def)
  then show thesis using assms Some by (intro replay [of q]) (auto simp: redeem_attempt_def split: if_split_asm)
next
  case None
  obtain c where c: "lock_checkpoint checkpoint d = Some c"
    using assms None by (auto simp: redeem_attempt_def split: option.split_asm)
  obtain x out n where s: "scan_decision e c qr valid d = (x, out, n)" by (rule prod_cases3)
  have "record_outcome e i \<lparr>sc_scanner = scanner, sc_checkpoint = c, sc_key = key,
                   sc_qr = qr, sc_pass = x, sc_outcome = out, sc_ordinal = n\<rparr> d = Inr (v, d')"
    using assms None c s by (simp add: redeem_attempt_def)
  note rec = record_outcome_Inr [OF this]
  have "c \<in> set (checkpoints d)" "ck_id c = checkpoint"
    using find_SomeD [OF c [unfolded lock_checkpoint_def]] by simp_all
  then show thesis using None s rec by (intro new)
qed

lemma redeem_loop_Inr:
  assumes "redeem_loop n e ids k scanner checkpoint key qr valid d = (Inr v, d')"
  obtains j where "k \<le> j" and "redeem_attempt e (ids j) scanner checkpoint key qr valid d = Inr (v, d')"
  using assms
proof (induction n arbitrary: k thesis)
  case 0
  then show ?case by simp
next
  case (Suc n)
  show ?case
  proof (cases "redeem_attempt e (ids k) scanner checkpoint key qr valid d")
    case (Inl x)
    obtain err retry where "x = (err, retry)" by (cases x)
    then have "redeem_loop n e ids (k + 1) scanner checkpoint key qr valid d = (Inr v, d')"
      using Suc.prems(2) Inl by (simp split: if_split_asm)
    from Suc.IH [OF _ this] obtain j where "k + 1 \<le> j"
      "redeem_attempt e (ids j) scanner checkpoint key qr valid d = Inr (v, d')" by blast
    then show ?thesis by (intro Suc.prems(1) [of j]) simp_all
  next
    case (Inr y)
    then show ?thesis using Suc.prems by (intro Suc.prems(1) [of k]) (auto split: prod.split_asm)
  qed
qed

lemma redeem_loop_Inl: "redeem_loop n e ids k scanner checkpoint key qr valid d = (Inl x, d') \<Longrightarrow> d' = d"
  by (induction n arbitrary: k) (auto split: sum.split_asm prod.split_asm if_split_asm)

section \<open>The ledger invariant is kept\<close>

lemma ordinals_append:
  "ordinals s (rs @ [r]) = ordinals s rs @ (if slot r = s then [rd_ordinal r] else [])"
  by (simp add: ordinals_def)

lemma gap_free_snoc: "gap_free xs \<Longrightarrow> n = int (length xs) + 1 \<Longrightarrow> gap_free (xs @ [n])"
  by (simp add: gap_free_def)

definition scan_of :: "uuid \<Rightarrow> checkpoint_row \<Rightarrow> uuid \<Rightarrow> bytes \<Rightarrow> locked_pass option \<times> scan_outcome \<times> int
    \<Rightarrow> scan_record" where
  "scan_of scanner c key qr dec = (case dec of (x, out, n) \<Rightarrow>
     \<lparr>sc_scanner = scanner, sc_checkpoint = c, sc_key = key, sc_qr = qr, sc_pass = x,
      sc_outcome = out, sc_ordinal = n\<rparr>)"

lemma redeemed_ordinal:
  assumes "scan_inv d" and "c \<in> set (checkpoints d)"
    and "scan_decision e c qr valid d = (Some p, Redeemed, n)"
  shows "n = int (count_redemptions (lp_attendee p) (ck_id c) d) + 1"
    and "n \<le> ef_max (effective_entitlement p c d)"
proof -
  have adm: "admits e c p d"
    and n: "n = to_int32 (int (count_redemptions (lp_attendee p) (ck_id c) d) + 1)"
    using assms(3) unfolding scan_decision_redeemed by auto
  let ?k = "int (count_redemptions (lp_attendee p) (ck_id c) d)"
  have lt: "?k < ef_max (effective_entitlement p c d)" using adm by (simp add: admits_def)
  moreover have "int4_ok (ef_max (effective_entitlement p c d))"
    using effective_bounds [OF assms(1,2)] by blast
  ultimately have "?k + 1 < 2 ^ 31" by (simp add: int4_ok_def)
  then show n': "n = ?k + 1" unfolding n by (intro to_int32_id) simp_all
  show "n \<le> ef_max (effective_entitlement p c d)" using lt n' by simp
qed

lemma outcome_recorded_inv:
  assumes inv: "scan_inv d" and c: "c \<in> set (checkpoints d)"
    and s: "scan_decision e c qr valid d = (x, out, n)"
    and rec: "outcome_recorded e i (scan_of scanner c key qr (x, out, n)) d v d'"
  shows "scan_inv d'"
proof -
  let ?r = "scan_of scanner c key qr (x, out, n)"
  let ?q = "request_of e (outcome_redemption i ?r) ?r"
  obtain au where d': "d' = d\<lparr>requests := requests d @ [?q],
      redemptions := redemptions d @ outcome_rows e i ?r, audit := audit d @ [au]\<rparr>"
    using rec unfolding outcome_recorded_def by blast
  have q: "request_subject_ok ?q" "key \<notin> rq_key ` set (requests d)" "rq_key ?q = key" "rq_outcome ?q = out"
    using rec by (simp_all add: outcome_recorded_def scan_of_def request_of_def Let_def)
  have rest: "checkpoints d' = checkpoints d" "entitlements d' = entitlements d"
    "requests d' = requests d @ [?q]" "redemptions d' = redemptions d @ outcome_rows e i ?r"
    by (simp_all add: d')
  have old: "distinct_on ck_id (checkpoints d)" "\<forall>c\<in>set (checkpoints d). 0 \<le> ck_max c \<and> int4_ok (ck_max c)"
    "\<forall>x\<in>set (entitlements d). 0 \<le> en_max x \<and> int4_ok (en_max x)"
    "distinct_on rq_key (requests d)" "distinct_on rd_key (redemptions d)"
    "distinct_on rd_id (redemptions d)"
    "\<forall>q\<in>set (requests d). request_subject_ok q \<and>
        (rq_outcome q = Redeemed \<longrightarrow> (\<exists>r\<in>set (redemptions d). matches q r))"
    "\<forall>r\<in>set (redemptions d). \<exists>q\<in>set (requests d). rq_outcome q = Redeemed \<and> matches q r"
    "\<And>a c. gap_free (ordinals (a, c) (redemptions d))"
    using inv by (simp_all add: scan_inv_def)
  show ?thesis
  proof (cases "out = Redeemed")
    case False
    then have "outcome_rows e i ?r = []"
      by (simp add: outcome_rows_def outcome_redemption_def scan_of_def)
    then have "redemptions d' = redemptions d" by (simp add: rest)
    then show ?thesis
      unfolding scan_inv_def rest(1-3)
      using old q False by auto
  next
    case True
    then obtain p where p: "x = Some p" using s unfolding True scan_decision_redeemed by auto
    let ?rd = "redemption_of e i ?r p"
    have rows: "outcome_rows e i ?r = [?rd]"
      using True p by (simp add: outcome_rows_def outcome_redemption_def scan_of_def recorded_subject_def)
    have fresh: "i \<notin> rd_id ` set (redemptions d)" "key \<notin> rd_key ` set (redemptions d)"
      using rec True by (simp_all add: outcome_recorded_def scan_of_def)
    have rd: "rd_id ?rd = i" "rd_key ?rd = key" "slot ?rd = (lp_attendee p, ck_id c)" "rd_ordinal ?rd = n"
      by (simp_all add: redemption_of_def slot_def scan_of_def)
    have m: "matches ?q ?rd"
      using True p by (simp add: matches_def request_of_def redemption_of_def recorded_subject_def
          outcome_redemption_def scan_of_def Let_def)
    have n: "n = int (length (ordinals (lp_attendee p, ck_id c) (redemptions d))) + 1"
      using redeemed_ordinal(1) [OF inv c] s p True by (simp add: count_ordinals)
    have ord: "gap_free (ordinals (a, b) (redemptions d'))" for a b
    proof (cases "(a, b) = (lp_attendee p, ck_id c)")
      case True
      then show ?thesis
        unfolding rest(4) rows ordinals_append rd using gap_free_snoc [OF old(9) n] by simp
    next
      case False
      then show ?thesis using old(9) unfolding rest(4) rows ordinals_append rd by auto
    qed
    have "\<forall>q\<in>set (requests d'). request_subject_ok q \<and>
        (rq_outcome q = Redeemed \<longrightarrow> (\<exists>r\<in>set (redemptions d'). matches q r))"
      unfolding rest rows using old(7) q(1) m by auto
    moreover have "\<forall>r\<in>set (redemptions d'). \<exists>q\<in>set (requests d'). rq_outcome q = Redeemed \<and> matches q r"
      unfolding rest rows using old(8) m trans [OF q(4) True] by auto
    moreover have "distinct_on rq_key (requests d')" "distinct_on rd_key (redemptions d')"
      "distinct_on rd_id (redemptions d')"
      using old(4-6) q(2,3) fresh rd by (simp_all add: rest rows)
    ultimately show ?thesis using old(1-3) ord unfolding scan_inv_def rest(1,2) by blast
  qed
qed

section \<open>The contract of a redemption\<close>

lemma redeem_Inr:
  assumes "redeem h e entropy actor input d = (Inr v, d')"
  obtains hash scanner checkpoint key qr valid j where "h = Some hash"
    and "has_role actor RoleScanner" and "parse_uuid e (user_id actor) = Some scanner"
    and "parse_uuid e (re_checkpoint input) = Some checkpoint"
    and "parse_uuid e (re_key input) = Some key" and "hash (re_token input) = (qr, valid)"
    and "length qr = 32"
    and "redeem_attempt e (random_uuid (entropy j)) scanner checkpoint key qr valid d = Inr (v, d')"
proof -
  from assms obtain hash scanner checkpoint key qr valid where
    g: "h = Some hash" "has_role actor RoleScanner" "parse_uuid e (user_id actor) = Some scanner"
      "parse_uuid e (re_checkpoint input) = Some checkpoint" "parse_uuid e (re_key input) = Some key"
      "hash (re_token input) = (qr, valid)" "length qr = 32" and
    l: "redeem_loop 3 e (random_uuid \<circ> entropy) 0 scanner checkpoint key qr valid d = (Inr v, d')"
    unfolding redeem_def by (auto split: if_split_asm option.split_asm prod.split_asm)
  obtain j where "redeem_attempt e ((random_uuid \<circ> entropy) j) scanner checkpoint key qr valid d = Inr (v, d')"
    by (rule redeem_loop_Inr [OF l])
  then have "redeem_attempt e (random_uuid (entropy j)) scanner checkpoint key qr valid d = Inr (v, d')"
    by simp
  then show thesis by (rule that [OF g])
qed

definition redeem_contract ::
    "(string \<Rightarrow> bytes \<times> bool) \<Rightarrow> env \<Rightarrow> (nat \<Rightarrow> bytes) \<Rightarrow> user \<Rightarrow> redeem_input \<Rightarrow> db
      \<Rightarrow> scan_result \<Rightarrow> db \<Rightarrow> bool" where
  "redeem_contract hash e entropy actor input d v d' \<longleftrightarrow>
     has_role actor RoleScanner \<and>
     (\<exists>scanner checkpoint key. parse_uuid e (user_id actor) = Some scanner \<and>
        parse_uuid e (re_checkpoint input) = Some checkpoint \<and> parse_uuid e (re_key input) = Some key \<and>
        (case hash (re_token input) of (qr, valid) \<Rightarrow>
          (\<exists>q\<in>set (requests d). rq_key q = key \<and> rq_checkpoint q = checkpoint \<and> rq_qr q = qr \<and>
             v = result_from_request e q \<and> d' = d) \<or>
          (\<exists>c\<in>set (checkpoints d). \<exists>j. ck_id c = checkpoint \<and> key \<notin> rq_key ` set (requests d) \<and>
             sr_outcome v = fst (snd (scan_decision e c qr valid d)) \<and>
             outcome_recorded e (random_uuid (entropy j))
               (scan_of scanner c key qr (scan_decision e c qr valid d)) d v d' \<and>
             (sr_outcome v = Redeemed \<longrightarrow> (\<exists>p. lock_pass_by_qr_hash qr d = Some p \<and> valid \<and> admits e c p d \<and>
                count_redemptions (lp_attendee p) checkpoint d' =
                  Suc (count_redemptions (lp_attendee p) checkpoint d) \<and>
                int (count_redemptions (lp_attendee p) checkpoint d') \<le>
                  ef_max (effective_entitlement p c d))))))"

lemma recorded_count:
  assumes "outcome_recorded e i (scan_of scanner c key qr (x, out, n)) d v d'"
    and "scan_decision e c qr valid d = (x, out, n)"
  shows "count_redemptions a k d' = count_redemptions a k d +
    (if out = Redeemed \<and> (\<exists>p. x = Some p \<and> lp_attendee p = a \<and> ck_id c = k) then 1 else 0)"
proof -
  have d': "redemptions d' = redemptions d @ outcome_rows e i (scan_of scanner c key qr (x, out, n))"
    using assms(1) unfolding outcome_recorded_def by auto
  show ?thesis
    unfolding count_redemptions_def d'
    by (auto simp: outcome_rows_def outcome_redemption_def recorded_subject_def scan_of_def
        redemption_of_def split: option.split)
qed

lemma redeem_holds:
  assumes run: "redeem h e entropy actor input d = (Inr v, d')" and inv: "scan_inv d"
  shows "\<exists>hash. h = Some hash \<and> redeem_contract hash e entropy actor input d v d'" and "scan_inv d'"
proof -
  obtain hash scanner checkpoint key qr valid j where
    g: "h = Some hash" "has_role actor RoleScanner" "parse_uuid e (user_id actor) = Some scanner"
      "parse_uuid e (re_checkpoint input) = Some checkpoint" "parse_uuid e (re_key input) = Some key"
      "hash (re_token input) = (qr, valid)" "length qr = 32" and
    a: "redeem_attempt e (random_uuid (entropy j)) scanner checkpoint key qr valid d = Inr (v, d')"
    by (rule redeem_Inr [OF run])
  have "redeem_contract hash e entropy actor input d v d' \<and> scan_inv d'"
    using a
  proof (cases rule: redeem_attempt_Inr)
    case (replay q)
    then show ?thesis using g(2-6) inv unfolding redeem_contract_def by auto
  next
    case (new c x out n)
    have rec: "outcome_recorded e (random_uuid (entropy j)) (scan_of scanner c key qr (x, out, n)) d v d'"
      using new(5) by (simp add: scan_of_def)
    have inv': "scan_inv d'" by (rule outcome_recorded_inv [OF inv new(2,4) rec])
    have out: "sr_outcome v = out" and key: "key \<notin> rq_key ` set (requests d)"
      using rec by (simp_all add: outcome_recorded_def scan_result_of_def scan_of_def Let_def)
    have take: "\<exists>p. lock_pass_by_qr_hash qr d = Some p \<and> valid \<and> admits e c p d \<and>
        count_redemptions (lp_attendee p) checkpoint d' = Suc (count_redemptions (lp_attendee p) checkpoint d) \<and>
        int (count_redemptions (lp_attendee p) checkpoint d') \<le> ef_max (effective_entitlement p c d)"
      if red: "out = Redeemed"
    proof -
      obtain p where p: "x = Some p" "valid" "lock_pass_by_qr_hash qr d = Some p" "admits e c p d"
        using new(4) unfolding red scan_decision_redeemed by blast
      have "count_redemptions (lp_attendee p) checkpoint d' = Suc (count_redemptions (lp_attendee p) checkpoint d)"
        using recorded_count [OF rec new(4)] red p(1) new(3) by simp
      then show ?thesis using p(2-4) new(3) by (auto simp: admits_def)
    qed
    have "redeem_contract hash e entropy actor input d v d'"
      unfolding redeem_contract_def g(6) prod.case
      using g(2-5) new(2-4) rec key out take
      by (intro conjI exI [of _ scanner] exI [of _ checkpoint] exI [of _ key] disjI2 bexI [of _ c]
          exI [of _ j]) simp_all
    then show ?thesis using inv' by blast
  qed
  then show "\<exists>hash. h = Some hash \<and> redeem_contract hash e entropy actor input d v d'" "scan_inv d'"
    using g(1) by blast+
qed

text \<open>C18. A successful redemption call either replays the request recorded under its key, with the
  same checkpoint and QR hash, and changes nothing, or records exactly one new request and one
  audit event with the outcome the rules give on the rows; a redemption row is added only for a
  redeemed outcome: the pass is active, its application accepted and released, the checkpoint
  active, in its window and of the attendee's cycle, the attendee entitled, and the count, raised
  by one, stays within the effective maximum. The ledger invariant survives.\<close>

theorem redeem_spec:
  assumes "redeem h e entropy actor input d = (Inr v, d')" and "scan_inv d"
  shows "(\<exists>hash. h = Some hash \<and> redeem_contract hash e entropy actor input d v d') \<and> scan_inv d'"
  using redeem_holds [OF assms] by blast

section \<open>Idempotency\<close>

lemma result_of_recorded:
  assumes "request_subject_ok (request_of e redemption r)"
  shows "result_from_request e (request_of e redemption r) = scan_result_of e redemption r"
  using assms
  by (cases "recorded_subject r")
     (auto simp: result_from_request_def request_of_def scan_result_of_def request_subject_ok_def Let_def
       split: scan_outcome.split_asm)

lemma recorded_request:
  assumes run: "redeem (Some hash) e entropy actor input d = (Inr v, d')"
  obtains q checkpoint key where "parse_uuid e (re_checkpoint input) = Some checkpoint"
    and "parse_uuid e (re_key input) = Some key" and "q \<in> set (requests d')" and "rq_key q = key"
    and "rq_checkpoint q = checkpoint" and "rq_qr q = fst (hash (re_token input))"
    and "length (rq_qr q) = 32" and "v = result_from_request e q"
proof -
  obtain hash' scanner checkpoint key qr valid j where
    g: "Some hash = Some hash'" "parse_uuid e (re_checkpoint input) = Some checkpoint"
      "parse_uuid e (re_key input) = Some key" "hash' (re_token input) = (qr, valid)" "length qr = 32" and
    a: "redeem_attempt e (random_uuid (entropy j)) scanner checkpoint key qr valid d = Inr (v, d')"
    by (rule redeem_Inr [OF run])
  have qr: "fst (hash (re_token input)) = qr" using g(1,4) by simp
  show thesis
    using a
  proof (cases rule: redeem_attempt_Inr)
    case (replay q)
    show thesis by (rule that [OF g(2,3), of q]) (use replay g(5) qr in simp_all)
  next
    case (new c x out n)
    let ?r = "\<lparr>sc_scanner = scanner, sc_checkpoint = c, sc_key = key, sc_qr = qr, sc_pass = x,
        sc_outcome = out, sc_ordinal = n\<rparr>"
    let ?q = "request_of e (outcome_redemption (random_uuid (entropy j)) ?r) ?r"
    have f: "?q \<in> set (requests d')" "v = result_from_request e ?q"
      using new(5) result_of_recorded unfolding outcome_recorded_def by auto
    have "rq_key ?q = key" "rq_checkpoint ?q = checkpoint" "rq_qr ?q = qr"
      using new(3) by (simp_all add: request_of_def Let_def)
    then show thesis by (intro that [OF g(2,3), of ?q]) (use f g(5) qr in simp_all)
  qed
qed

lemma find_request:
  assumes "scan_inv d" and "q \<in> set (requests d)"
  shows "find_redemption_request (rq_key q) d = Some q"
  using find_eq_Some_key [of rq_key "requests d" q] assms
  by (simp add: find_redemption_request_def scan_inv_def)

text \<open>C19. Redeeming is idempotent: once a call has succeeded, the same token, checkpoint and key,
  presented by any scanner, at any later time, with any random bytes and in any later database
  that still has the request, returns the same result and writes nothing; the same key with
  another checkpoint, or with a token of another hash, is a conflict.\<close>

theorem redeem_replay:
  assumes "redeem (Some hash) e entropy actor input d = (Inr v, d')"
    and "set (requests d') \<subseteq> set (requests d2)" and "scan_inv d2"
    and "has_role actor2 RoleScanner" and "parse_uuid e2 (user_id actor2) = Some scanner2"
    and "parse_uuid e2 = parse_uuid e" and "uuid_text e2 = uuid_text e"
  shows "redeem (Some hash) e2 entropy2 actor2 input d2 = (Inr v, d2) \<and>
    (\<forall>other. re_key other = re_key input \<longrightarrow> parse_uuid e (re_checkpoint other) \<noteq> None \<longrightarrow>
       length (fst (hash (re_token other))) = 32 \<longrightarrow>
       (parse_uuid e (re_checkpoint other) \<noteq> parse_uuid e (re_checkpoint input) \<or>
        fst (hash (re_token other)) \<noteq> fst (hash (re_token input))) \<longrightarrow>
       redeem (Some hash) e2 entropy2 actor2 other d2 = (Inl ScanIdempotencyConflict, d2))"
proof -
  obtain q checkpoint key where p: "parse_uuid e (re_checkpoint input) = Some checkpoint"
    "parse_uuid e (re_key input) = Some key" and
    q: "q \<in> set (requests d')" "rq_key q = key" "rq_checkpoint q = checkpoint"
      "rq_qr q = fst (hash (re_token input))" "length (rq_qr q) = 32" and v: "v = result_from_request e q"
    by (rule recorded_request [OF assms(1)])
  have f: "find_redemption_request key d2 = Some q"
    using find_request [OF assms(3), of q] q(1,2) assms(2) by blast
  have same: "result_from_request e2 q = v" by (simp add: v result_from_request_def assms(7))
  obtain qr valid where h: "hash (re_token input) = (qr, valid)" by (cases "hash (re_token input)")
  have "redeem (Some hash) e2 entropy2 actor2 input d2 = (Inr v, d2)"
    using assms(4-6) p q(3-5) f same h
    by (simp add: redeem_def eval_nat_numeral redeem_attempt_def)
  moreover have "redeem (Some hash) e2 entropy2 actor2 other d2 = (Inl ScanIdempotencyConflict, d2)"
    if o: "re_key other = re_key input" "parse_uuid e (re_checkpoint other) \<noteq> None"
      "length (fst (hash (re_token other))) = 32"
      "parse_uuid e (re_checkpoint other) \<noteq> parse_uuid e (re_checkpoint input) \<or>
        fst (hash (re_token other)) \<noteq> fst (hash (re_token input))" for other
  proof -
    obtain k where k: "parse_uuid e (re_checkpoint other) = Some k" using o(2) by blast
    obtain qr' valid' where h': "hash (re_token other) = (qr', valid')" by (cases "hash (re_token other)")
    have "k \<noteq> rq_checkpoint q \<or> qr' \<noteq> rq_qr q" using o(4) k p(1) q(3,4) h' by auto
    then have "redeem_attempt e2 i scanner2 k key qr' valid' d2 = Inl (ScanIdempotencyConflict, False)" for i
      using f by (auto simp: redeem_attempt_def)
    then show ?thesis
      using assms(4-6) p(2) o(1,3) k h' by (simp add: redeem_def eval_nat_numeral)
  qed
  ultimately show ?thesis by blast
qed

section \<open>Redemptions as a bounded counter\<close>

text \<open>
  What the ledger promises, without rows: every key is answered once and for all, and every
  attendee at every checkpoint has a counter that only a redeemed answer raises, by one, and
  never above its capacity.
\<close>

record ledger =
  lg_answers :: "uuid \<Rightarrow> scan_outcome option"
  lg_count :: "uuid \<times> uuid \<Rightarrow> nat"

inductive ledger_step :: "(uuid \<times> uuid \<Rightarrow> int) \<Rightarrow> ledger \<Rightarrow> uuid \<Rightarrow> scan_outcome \<Rightarrow> ledger \<Rightarrow> bool"
  for cap :: "uuid \<times> uuid \<Rightarrow> int"
where
  again: "lg_answers l k = Some out \<Longrightarrow> ledger_step cap l k out l"
| refuse: "lg_answers l k = None \<Longrightarrow> out \<noteq> Redeemed \<Longrightarrow>
    ledger_step cap l k out (l\<lparr>lg_answers := (lg_answers l)(k \<mapsto> out)\<rparr>)"
| redeem: "lg_answers l k = None \<Longrightarrow> int (lg_count l s) < cap s \<Longrightarrow>
    ledger_step cap l k Redeemed
      (l\<lparr>lg_answers := (lg_answers l)(k \<mapsto> Redeemed), lg_count := (lg_count l)(s := Suc (lg_count l s))\<rparr>)"

inductive_cases ledger_stepE: "ledger_step cap l k out l'"

inductive_simps ledger_step_answered: "ledger_step cap l k Redeemed l'"

inductive ledger_reach :: "(uuid \<times> uuid \<Rightarrow> int) \<Rightarrow> ledger \<Rightarrow> ledger \<Rightarrow> bool"
  for cap :: "uuid \<times> uuid \<Rightarrow> int" and start :: ledger
where
  start: "ledger_reach cap start start"
| step: "ledger_reach cap start l \<Longrightarrow> ledger_step cap l k out l' \<Longrightarrow> ledger_reach cap start l'"

lemma ledger_answer_stable:
  assumes "ledger_reach cap l l'" and "lg_answers l k = Some out"
  shows "lg_answers l' k = Some out"
  using assms by (induction rule: ledger_reach.induct) (auto elim!: ledger_stepE)

lemma ledger_bounded:
  assumes "ledger_reach cap l l'"
  shows "lg_count l s \<le> lg_count l' s \<and> int (lg_count l' s) \<le> max (int (lg_count l s)) (cap s)"
  using assms by (induction rule: ledger_reach.induct) (auto elim!: ledger_stepE)

definition ledger_of :: "db \<Rightarrow> ledger" where
  "ledger_of d =
     \<lparr>lg_answers = (\<lambda>k. map_option rq_outcome (find_redemption_request k d)),
      lg_count = (\<lambda>(a, c). count_redemptions a c d)\<rparr>"

text \<open>A capacity that covers every effective maximum in force.\<close>

definition covers :: "(uuid \<times> uuid \<Rightarrow> int) \<Rightarrow> db \<Rightarrow> bool" where
  "covers cap d \<longleftrightarrow>
     (\<forall>qr p c. lock_pass_by_qr_hash qr d = Some p \<longrightarrow> c \<in> set (checkpoints d) \<longrightarrow>
        ef_max (effective_entitlement p c d) \<le> cap (lp_attendee p, ck_id c))"

lemma ledger_of_recorded:
  assumes rec: "outcome_recorded e i (scan_of scanner c key qr (x, out, n)) d v d'"
    and dec: "scan_decision e c qr valid d = (x, out, n)"
  shows "lg_answers (ledger_of d') = (lg_answers (ledger_of d))(key \<mapsto> out)"
    and "lg_count (ledger_of d') (a, k) = lg_count (ledger_of d) (a, k) +
      (if out = Redeemed \<and> (\<exists>p. x = Some p \<and> lp_attendee p = a \<and> ck_id c = k) then 1 else 0)"
proof -
  let ?r = "scan_of scanner c key qr (x, out, n)"
  let ?q = "request_of e (outcome_redemption i ?r) ?r"
  have rq: "requests d' = requests d @ [?q]" and new: "key \<notin> rq_key ` set (requests d)"
    using rec unfolding outcome_recorded_def by (auto simp: scan_of_def)
  have q: "rq_key ?q = key" "rq_outcome ?q = out"
    by (simp_all add: request_of_def scan_of_def Let_def)
  have "find_redemption_request key d = None"
    using new by (auto simp: find_redemption_request_def find_None_iff)
  then show "lg_answers (ledger_of d') = (lg_answers (ledger_of d))(key \<mapsto> out)"
    by (auto simp: ledger_of_def fun_eq_iff find_redemption_request_def rq find_append q
        split: option.split)
  show "lg_count (ledger_of d') (a, k) = lg_count (ledger_of d) (a, k) +
      (if out = Redeemed \<and> (\<exists>p. x = Some p \<and> lp_attendee p = a \<and> ck_id c = k) then 1 else 0)"
    using recorded_count [OF rec dec] by (simp add: ledger_of_def)
qed

lemma redeem_frame:
  assumes "redeem h e entropy actor input d = (r, d')"
  shows "checkpoints d' = checkpoints d" and "entitlements d' = entitlements d"
    and "passes d' = passes d" and "attendees d' = attendees d" and "applications d' = applications d"
    and "users d' = users d" and "set (requests d) \<subseteq> set (requests d')"
    and "set (redemptions d) \<subseteq> set (redemptions d')"
proof -
  have "d' = d \<or> (\<exists>qs rs au. d' = d\<lparr>requests := requests d @ qs, redemptions := redemptions d @ rs, audit := au\<rparr>)"
  proof (cases r)
    case (Inl x)
    then show ?thesis
      using assms unfolding redeem_def
      by (auto split: if_split_asm option.split_asm prod.split_asm dest: redeem_loop_Inl)
  next
    case (Inr v)
    obtain hash scanner checkpoint key qr valid j where
      "redeem_attempt e (random_uuid (entropy j)) scanner checkpoint key qr valid d = Inr (v, d')"
      by (rule redeem_Inr [OF assms [unfolded Inr]])
    then show ?thesis
      by (cases rule: redeem_attempt_Inr) (auto simp: outcome_recorded_def)
  qed
  then show "checkpoints d' = checkpoints d" "entitlements d' = entitlements d"
    "passes d' = passes d" "attendees d' = attendees d" "applications d' = applications d"
    "users d' = users d" "set (requests d) \<subseteq> set (requests d')"
    "set (redemptions d) \<subseteq> set (redemptions d')"
    by auto
qed

lemma covers_frame:
  assumes "redeem h e entropy actor input d = (r, d')"
  shows "covers cap d' = covers cap d"
  using redeem_frame [OF assms]
  by (simp add: covers_def lock_pass_by_qr_hash_def effective_entitlement_def cong: option.case_cong)

section \<open>A concrete scan\<close>

text \<open>UUID texts of 32 hexadecimal digits, a form \<^verbatim>\<open>pgtype.UUID\<close> accepts.\<close>

definition hex_value :: "char \<Rightarrow> nat option" where
  "hex_value c = (let n = of_char c :: nat in
     if 48 \<le> n \<and> n \<le> 57 then Some (n - 48) else if 97 \<le> n \<and> n \<le> 102 then Some (n - 87) else None)"

definition hex_parse :: "string \<Rightarrow> uuid option" where
  "hex_parse s =
     (if length s = 32 \<and> list_all (\<lambda>c. hex_value c \<noteq> None) s
      then Some (foldl (\<lambda>n c. 16 * n + word_of_nat (the (hex_value c))) 0 s) else None)"

definition hex_text :: "uuid \<Rightarrow> string" where
  "hex_text i = map (\<lambda>k. ''0123456789abcdef'' ! unat (take_bit 4 (drop_bit (4 * k) i))) (rev [0..<32])"

definition scan_env :: env where
  "scan_env = sample_env\<lparr>parse_uuid := hex_parse, uuid_text := hex_text\<rparr>"

definition sample_scanner :: user where
  "sample_scanner = \<lparr>user_id = hex_text 1, user_clerk = ''clerk_1'', user_email = ''s@x.ca'',
     user_name = None, user_role_set = {RoleScanner}\<rparr>"

definition sample_checkpoint :: checkpoint_row where
  "sample_checkpoint = \<lparr>ck_id = 5, ck_cycle = 2, ck_activity = None, ck_slug = ''lunch'',
     ck_name = ''Lunch'', ck_opens = Some 40, ck_closes = Some 60, ck_allowed = True, ck_max = 1,
     ck_active = True, ck_created = 1, ck_updated = 1\<rparr>"

definition sample_scan_db :: db where
  "sample_scan_db = empty_db\<lparr>users := [sample_user 1 ''clerk_1'', sample_user 3 ''clerk_3''],
     applications := [\<lparr>ap_id = 4, ap_cycle = 2, ap_form = 9, ap_applicant = 3, ap_status = StAccepted,
       ap_submitted = Some 5, ap_withdrawn = None, ap_decision = Some OutAccepted, ap_decision_id = Some 8,
       ap_released = Some 7, ap_email = Some ''a@x.ca'', ap_lock = 2, ap_created = 1, ap_updated = 7\<rparr>],
     attendees := [\<lparr>ad_id = 6, ad_cycle = 2, ad_application = 4, ad_user = 3, ad_name = ''Ada'',
       ad_email = ''a@x.ca'', ad_created = 6, ad_updated = 6\<rparr>],
     passes := [\<lparr>pa_id = 7, pa_attendee = 6, pa_qr = replicate 32 1, pa_claim = replicate 32 2,
       pa_status = PassActive, pa_issued = 8, pa_revoked = None, pa_replaced_by = None\<rparr>],
     checkpoints := [sample_checkpoint]\<rparr>"

definition sample_hasher :: "string \<Rightarrow> bytes \<times> bool" where
  "sample_hasher t = (replicate 32 (word_of_nat (length t)), t \<noteq> [])"

definition sample_scan :: redeem_input where
  "sample_scan = \<lparr>re_token = ''q'', re_checkpoint = hex_text 5, re_key = hex_text 11\<rparr>"

definition sample_entropy :: "nat \<Rightarrow> bytes" where
  "sample_entropy n = replicate 16 (word_of_nat n)"

section \<open>Runs of redemptions refine the ledger\<close>

lemma redeem_rollback:
  assumes "redeem h e entropy actor input d = (Inl x, d')"
  shows "d' = d"
  using assms unfolding redeem_def
  by (auto split: if_split_asm option.split_asm prod.split_asm dest: redeem_loop_Inl)

lemma redeem_ledger_step:
  assumes run: "redeem h e entropy actor input d = (Inr v, d')" and inv: "scan_inv d"
    and cap: "covers cap d" and key: "parse_uuid e (re_key input) = Some k"
  shows "ledger_step cap (ledger_of d) k (sr_outcome v) (ledger_of d')"
proof -
  obtain hash scanner checkpoint key qr valid j where
    g: "parse_uuid e (re_key input) = Some key" "parse_uuid e (re_checkpoint input) = Some checkpoint" and
    a: "redeem_attempt e (random_uuid (entropy j)) scanner checkpoint key qr valid d = Inr (v, d')"
    by (rule redeem_Inr [OF run])
  have k: "key = k" using g(1) key by simp
  show ?thesis
    using a
  proof (cases rule: redeem_attempt_Inr)
    case (replay q)
    have "find_redemption_request k d = Some q"
      using find_request [OF inv replay(1)] replay(2) k by simp
    then have "lg_answers (ledger_of d) k = Some (sr_outcome v)"
      by (simp add: ledger_of_def replay(5) result_from_request_def Let_def)
    then show ?thesis unfolding replay(6) by (rule ledger_step.again)
  next
    case (new c x out n)
    have rec: "outcome_recorded e (random_uuid (entropy j)) (scan_of scanner c k qr (x, out, n)) d v d'"
      using new(5) by (simp add: scan_of_def k)
    have out: "sr_outcome v = out"
      using rec by (simp add: outcome_recorded_def scan_result_of_def scan_of_def Let_def)
    note l = ledger_of_recorded [OF rec new(4)]
    have none: "lg_answers (ledger_of d) k = None" using new(1) by (simp add: ledger_of_def k)
    show ?thesis
    proof (cases "out = Redeemed")
      case False
      have "lg_count (ledger_of d') s = lg_count (ledger_of d) s" for s
        using l(2) [of "fst s" "snd s"] False by simp
      then have "ledger_of d' = (ledger_of d)\<lparr>lg_answers := (lg_answers (ledger_of d))(k \<mapsto> out)\<rparr>"
        using l(1) by (intro ledger.equality) (auto simp: fun_eq_iff)
      then show ?thesis unfolding out using ledger_step.refuse [OF none False] by simp
    next
      case True
      then obtain p where p: "x = Some p" "lock_pass_by_qr_hash qr d = Some p" "admits e c p d"
        using new(4) scan_decision_redeemed by blast
      let ?s = "(lp_attendee p, ck_id c)"
      have "int (lg_count (ledger_of d) ?s) < cap ?s"
        using p(3) cap p(2) new(2) by (force simp: admits_def covers_def ledger_of_def)
      moreover have "lg_count (ledger_of d') s =
          ((lg_count (ledger_of d))(?s := Suc (lg_count (ledger_of d) ?s))) s" for s
        using l(2) [of "fst s" "snd s"] True p(1) by (cases s) auto
      then have "ledger_of d' = (ledger_of d)\<lparr>lg_answers := (lg_answers (ledger_of d))(k \<mapsto> Redeemed),
          lg_count := (lg_count (ledger_of d))(?s := Suc (lg_count (ledger_of d) ?s))\<rparr>"
        using l(1) True by (intro ledger.equality) (auto simp: fun_eq_iff)
      ultimately show ?thesis unfolding out True using ledger_step.redeem [OF none, of ?s cap] by simp
    qed
  qed
qed

text \<open>C20. A successful redemption is a step of the abstract ledger: the answers by key and the
  counters by attendee and checkpoint, as the rows give them, move as the bounded counter does.\<close>

theorem redeem_refines_ledger:
  assumes "redeem h e entropy actor input d = (Inr v, d')" and "scan_inv d" and "covers cap d"
  shows "\<exists>k. parse_uuid e (re_key input) = Some k \<and>
    ledger_step cap (ledger_of d) k (sr_outcome v) (ledger_of d')"
proof -
  obtain k where "parse_uuid e (re_key input) = Some k" by (rule redeem_Inr [OF assms(1)])
  with redeem_ledger_step [OF assms] show ?thesis by blast
qed

text \<open>A call of the scanner: its hasher, environment, random bytes, actor and input.\<close>

type_synonym scan_call =
  "(string \<Rightarrow> bytes \<times> bool) option \<times> env \<times> (nat \<Rightarrow> bytes) \<times> user \<times> redeem_input"

definition redeem_call :: "scan_call \<Rightarrow> (db, scan_error, scan_result) tx" where
  "redeem_call x = (case x of (h, e, entropy, actor, input) \<Rightarrow> redeem h e entropy actor input)"

definition ledger_run_inv :: "(uuid \<times> uuid \<Rightarrow> int) \<Rightarrow> ledger \<Rightarrow> db \<Rightarrow> bool" where
  "ledger_run_inv cap l d \<longleftrightarrow> scan_inv d \<and> covers cap d \<and> ledger_reach cap l (ledger_of d)"

lemma redeem_call_inv:
  assumes "redeem_call x d = (Inr v, d')" and "ledger_run_inv cap l d"
  shows "ledger_run_inv cap l d'"
proof -
  obtain h e entropy actor input where x: "x = (h, e, entropy, actor, input)" by (cases x)
  have run: "redeem h e entropy actor input d = (Inr v, d')" using assms(1) by (simp add: x redeem_call_def)
  have inv: "scan_inv d" "covers cap d" "ledger_reach cap l (ledger_of d)"
    using assms(2) by (simp_all add: ledger_run_inv_def)
  obtain k where "parse_uuid e (re_key input) = Some k" by (rule redeem_Inr [OF run])
  then have "ledger_step cap (ledger_of d) k (sr_outcome v) (ledger_of d')"
    by (rule redeem_ledger_step [OF run inv(1,2)])
  with inv show ?thesis
    unfolding ledger_run_inv_def
    using redeem_holds(2) [OF run inv(1)] covers_frame [OF run, of cap] ledger_reach.step by blast
qed

lemma redeem_call_rollback: "redeem_call x d = (Inl y, d') \<Longrightarrow> d' = d"
  by (auto simp: redeem_call_def dest: redeem_rollback split: prod.split_asm)

interpretation redeeming: transaction_contract redeem_call "\<lambda>_. True" "ledger_run_inv cap l"
  by unfold_locales (auto dest: redeem_call_rollback intro: redeem_call_inv)

lemma redeem_runs_reach:
  assumes "scan_inv d" and "covers cap d"
  shows "ledger_run_inv cap (ledger_of d) (run_calls (map redeem_call xs) d)"
  by (rule redeeming.run_calls_inv) (use assms in \<open>simp_all add: ledger_run_inv_def ledger_reach.start\<close>)

text \<open>C21. Whatever calls run, in whatever order, from whatever scanners, with retries, refusals and
  repetitions: the ledger invariant holds afterwards, an answered key keeps its answer, and no
  attendee is redeemed at a checkpoint more often than its capacity (or than before, when the
  capacity was lowered below the count).\<close>

theorem redemption_capacity:
  assumes "scan_inv d" and "covers cap d"
  shows "scan_inv (run_calls (map redeem_call xs) d) \<and>
    (\<forall>k q. find_redemption_request k d = Some q \<longrightarrow>
       map_option rq_outcome (find_redemption_request k (run_calls (map redeem_call xs) d)) = Some (rq_outcome q)) \<and>
    (\<forall>a c. count_redemptions a c d \<le> count_redemptions a c (run_calls (map redeem_call xs) d) \<and>
       int (count_redemptions a c (run_calls (map redeem_call xs) d)) \<le>
         max (int (count_redemptions a c d)) (cap (a, c)))"
proof -
  let ?d = "run_calls (map redeem_call xs) d"
  have r: "scan_inv ?d" "ledger_reach cap (ledger_of d) (ledger_of ?d)"
    using redeem_runs_reach [OF assms, of xs] by (simp_all add: ledger_run_inv_def)
  have "map_option rq_outcome (find_redemption_request k ?d) = Some (rq_outcome q)"
    if "find_redemption_request k d = Some q" for k q
    using ledger_answer_stable [OF r(2), of k "rq_outcome q"] that by (simp add: ledger_of_def)
  moreover have "count_redemptions a c d \<le> count_redemptions a c ?d \<and>
      int (count_redemptions a c ?d) \<le> max (int (count_redemptions a c d)) (cap (a, c))" for a c
    using ledger_bounded [OF r(2), of "(a, c)"] by (simp add: ledger_of_def)
  ultimately show ?thesis using r(1) by blast
qed

section \<open>Witnesses\<close>

lemma sample_scan_inv: "scan_inv sample_scan_db" "covers (\<lambda>_. 1) sample_scan_db"
  by (simp_all add: scan_inv_def covers_def sample_scan_db_def empty_db_def sample_checkpoint_def
      int4_ok_def ordinals_def gap_free_def effective_entitlement_def resolve_entitlement_def)

lemma sample_redeemed:
  obtains v d where
    "redeem (Some sample_hasher) scan_env sample_entropy sample_scanner sample_scan sample_scan_db = (Inr v, d)"
    and "sr_outcome v = Redeemed"
proof -
  have "case fst (redeem (Some sample_hasher) scan_env sample_entropy sample_scanner sample_scan sample_scan_db)
    of Inl _ \<Rightarrow> False | Inr v \<Rightarrow> sr_outcome v = Redeemed" by code_simp
  then show thesis by (cases "redeem (Some sample_hasher) scan_env sample_entropy sample_scanner sample_scan
      sample_scan_db") (auto split: sum.split_asm intro: that)
qed

theorem redeem_spec_witness:
  "\<exists>v d. redeem (Some sample_hasher) scan_env sample_entropy sample_scanner sample_scan sample_scan_db = (Inr v, d) \<and>
     sr_outcome v = Redeemed \<and> scan_inv d \<and>
     redeem_contract sample_hasher scan_env sample_entropy sample_scanner sample_scan sample_scan_db v d"
proof -
  obtain v d where r: "redeem (Some sample_hasher) scan_env sample_entropy sample_scanner sample_scan
      sample_scan_db = (Inr v, d)" "sr_outcome v = Redeemed" by (rule sample_redeemed)
  with redeem_spec [OF r(1) sample_scan_inv(1)] show ?thesis by auto
qed

theorem redeem_replay_witness:
  "\<exists>v d. redeem (Some sample_hasher) scan_env sample_entropy sample_scanner sample_scan sample_scan_db = (Inr v, d) \<and>
     redeem (Some sample_hasher) scan_env (sample_entropy \<circ> Suc) sample_scanner sample_scan d = (Inr v, d)"
proof -
  obtain v d where r: "redeem (Some sample_hasher) scan_env sample_entropy sample_scanner sample_scan
      sample_scan_db = (Inr v, d)" by (rule sample_redeemed)
  have "has_role sample_scanner RoleScanner" "parse_uuid scan_env (user_id sample_scanner) = Some 1"
    by code_simp+
  from redeem_replay [OF r subset_refl redeem_holds(2) [OF r sample_scan_inv(1)] this refl refl] r
  show ?thesis by blast
qed

theorem redeem_refines_ledger_witness:
  "\<exists>v d k. redeem (Some sample_hasher) scan_env sample_entropy sample_scanner sample_scan sample_scan_db = (Inr v, d) \<and>
     ledger_step (\<lambda>_. 1) (ledger_of sample_scan_db) k Redeemed (ledger_of d)"
proof -
  obtain v d where r: "redeem (Some sample_hasher) scan_env sample_entropy sample_scanner sample_scan
      sample_scan_db = (Inr v, d)" "sr_outcome v = Redeemed" by (rule sample_redeemed)
  with redeem_refines_ledger [OF r(1) sample_scan_inv] show ?thesis by auto
qed

theorem redemption_capacity_witness:
  "int (count_redemptions 6 5 (run_calls (map redeem_call
     (replicate 3 (Some sample_hasher, scan_env, sample_entropy, sample_scanner, sample_scan))) sample_scan_db)) \<le> 1"
proof -
  let ?xs = "replicate 3 (Some sample_hasher, scan_env, sample_entropy, sample_scanner, sample_scan)"
  have none: "count_redemptions 6 5 sample_scan_db = 0"
    by (simp add: count_redemptions_def sample_scan_db_def empty_db_def)
  have "int (count_redemptions 6 5 (run_calls (map redeem_call ?xs) sample_scan_db)) \<le>
      max (int (count_redemptions 6 5 sample_scan_db)) 1"
    using redemption_capacity [OF sample_scan_inv, of ?xs] by blast
  then show ?thesis unfolding none by linarith
qed

end
