(* ===== verification/Journey.thy ===== *)
theory Journey
  imports Passes Redemptions
begin

text \<open>
  Passes and redemptions together: the QR credential an organizer's issue hands out is what a
  scanner's redemption finds, and a revoked one is not.
\<close>

section \<open>The locked row of a pass\<close>

definition locked_of :: "db \<Rightarrow> pass_row \<Rightarrow> attendee_row \<Rightarrow> locked_pass" where
  "locked_of d p t =
     \<lparr>lp_id = pa_id p, lp_attendee = pa_attendee p, lp_cycle = ad_cycle t, lp_name = ad_name t,
      lp_status = pa_status p, lp_eligible = released_acceptance d t\<rparr>"

lemma lock_pass_row:
  assumes "passes_inv s d" and "decisions_inv d"
    and p: "p \<in> set (passes d)" and t: "t \<in> set (attendees d)" "ad_id t = pa_attendee p"
  shows "lock_pass_by_qr_hash (pa_qr p) d = Some (locked_of d p t)"
proof -
  have "List.find (\<lambda>x. pa_qr x = pa_qr p) (passes d) = Some p"
    using assms(1) p by (simp add: find_eq_Some_key passes_inv_def)
  moreover have "List.find (\<lambda>x. ad_id x = pa_attendee p) (attendees d) = Some t"
    using assms(2) t find_eq_Some_key [of ad_id "attendees d" t] by (simp add: decisions_inv_def)
  moreover obtain a where a: "a \<in> set (applications d)" "ap_id a = ad_application t"
    using assms(2) t(1) by (auto simp: decisions_inv_def)
  moreover have keys: "distinct_on ap_id (applications d)" using assms(2) by (simp add: decisions_inv_def)
  then have "List.find (\<lambda>x. ap_id x = ad_application t) (applications d) = Some a"
    using a find_eq_Some_key [of ap_id "applications d" a] by simp
  moreover have "released_acceptance d t \<longleftrightarrow> ap_status a = StAccepted \<and> ap_released a \<noteq> None"
  proof -
    have "a' = a" if "a' \<in> set (applications d)" "ap_id a' = ad_application t" for a'
      using distinct_onD [OF keys that(1) a(1)] that(2) a(2) by simp
    then show ?thesis using a unfolding released_acceptance_def list_ex_iff by blast
  qed
  ultimately show ?thesis by (simp add: lock_pass_by_qr_hash_def locked_of_def)
qed

section \<open>A scan that is admitted succeeds\<close>

lemma matched_keys:
  assumes "scan_inv d"
  shows "k \<notin> rq_key ` set (requests d) \<Longrightarrow> k \<notin> rd_key ` set (redemptions d)"
    and "i \<notin> rd_id ` set (redemptions d) \<Longrightarrow> Some i \<notin> rq_redemption ` set (requests d)"
proof -
  have source: "\<exists>q\<in>set (requests d). rq_outcome q = Redeemed \<and> matches q r" if "r \<in> set (redemptions d)" for r
    using assms that unfolding scan_inv_def by blast
  show "k \<notin> rd_key ` set (redemptions d)" if "k \<notin> rq_key ` set (requests d)"
    using source that by (force simp: matches_def)
  show "Some i \<notin> rq_redemption ` set (requests d)" if i: "i \<notin> rd_id ` set (redemptions d)"
  proof
    assume "Some i \<in> rq_redemption ` set (requests d)"
    then obtain q where q: "q \<in> set (requests d)" "rq_redemption q = Some i" by force
    then have "request_subject_ok q" using assms by (simp add: scan_inv_def)
    with q(2) have "rq_outcome q = Redeemed"
      by (auto simp: request_subject_ok_def split: scan_outcome.split_asm)
    then obtain r where "r \<in> set (redemptions d)" "matches q r"
      using assms q(1) unfolding scan_inv_def by blast
    with i q(2) show False by (auto simp: matches_def)
  qed
qed

lemma next_ordinal_free:
  assumes "scan_inv d" and "n = int (count_redemptions a c d) + 1"
  shows "(a, c, n) \<notin> (\<lambda>x. (rd_attendee x, rd_checkpoint x, rd_ordinal x)) ` set (redemptions d)"
proof
  assume "(a, c, n) \<in> (\<lambda>x. (rd_attendee x, rd_checkpoint x, rd_ordinal x)) ` set (redemptions d)"
  then have "n \<in> set (ordinals (a, c) (redemptions d))" by (auto simp: ordinals_def slot_def)
  moreover have "gap_free (ordinals (a, c) (redemptions d))" using assms(1) by (simp add: scan_inv_def)
  then have "set (ordinals (a, c) (redemptions d)) = int ` {1..<Suc (count_redemptions a c d)}"
    unfolding gap_free_def count_ordinals by (metis set_map set_upt)
  ultimately show False using assms(2) by auto
qed

lemma record_redeemed_total:
  assumes inv: "scan_inv d" and c: "c \<in> set (checkpoints d)"
    and dec: "scan_decision e c qr True d = (Some p, Redeemed, n)"
    and rows: "(lp_id p, lp_attendee p) \<in> (\<lambda>x. (pa_id x, pa_attendee x)) ` set (passes d)"
      "(lp_attendee p, ck_cycle c) \<in> (\<lambda>x. (ad_id x, ad_cycle x)) ` set (attendees d)"
    and scanner: "user_exists scanner d" and qr: "length qr = 32"
    and fresh: "k \<notin> rq_key ` set (requests d)" "fresh e 0 \<notin> rq_id ` set (requests d)"
      "i \<notin> rd_id ` set (redemptions d)"
  shows "\<exists>d'. record_outcome e i (scan_of scanner c k qr (Some p, Redeemed, n)) d =
    Inr (scan_result_of e (Some i) (scan_of scanner c k qr (Some p, Redeemed, n)), d')"
proof -
  let ?r = "scan_of scanner c k qr (Some p, Redeemed, n)"
  let ?q = "request_of e (Some i) ?r"
  let ?d1 = "d\<lparr>requests := requests d @ [?q]\<rparr>"
  have adm: "lp_status p = PassActive"
    using dec unfolding scan_decision_redeemed by (auto simp: admits_def)
  have q: "request_subject_ok ?q" "rq_key ?q = k" "rq_id ?q = fresh e 0" "rq_redemption ?q = Some i"
    "rq_scanner ?q = scanner" "rq_checkpoint ?q = ck_id c" "rq_qr ?q = qr"
    "rq_pass ?q = Some (lp_id p)" "rq_attendee ?q = Some (lp_attendee p)"
    using adm by (simp_all add: request_subject_ok_def request_of_def scan_of_def recorded_subject_def
        string_of_pass_status_def)
  have "insert_request ?q d = Inr ?d1"
    using q qr fresh matched_keys(2) [OF inv fresh(3)] scanner c rows(1)
    by (simp add: insert_request_def)
  moreover have "insert_redemption (redemption_of e i ?r p) ?d1 =
      Inr (?d1\<lparr>redemptions := redemptions d @ [redemption_of e i ?r p]\<rparr>)"
  proof -
    note ord = redeemed_ordinal(1) [OF inv c dec]
    show ?thesis
      using next_ordinal_free [OF inv ord] fresh(3) matched_keys(1) [OF inv fresh(1)] rows scanner c ord
      by (auto simp: insert_redemption_def redemption_of_def scan_of_def user_exists_def)
  qed
  moreover have "recorded_subject ?r = Some p" "sc_outcome ?r = Redeemed" "sc_scanner ?r = scanner"
    by (simp_all add: recorded_subject_def scan_of_def)
  moreover have "user_exists scanner (?d1\<lparr>redemptions := x\<rparr>)" for x
    using scanner by (simp add: user_exists_def)
  ultimately show ?thesis
    by (simp add: record_outcome_def insert_audit_def Let_def)
qed

text \<open>What a scanner needs to admit a pass: access, a checkpoint of the pass's cycle that is active
  and in its window, a rule that leaves one redemption, and an unused idempotency key.\<close>

definition may_scan :: "env \<Rightarrow> (nat \<Rightarrow> bytes) \<Rightarrow> user \<Rightarrow> redeem_input \<Rightarrow> locked_pass \<Rightarrow> db \<Rightarrow> bool" where
  "may_scan e entropy actor input p d \<longleftrightarrow>
     has_role actor RoleScanner \<and>
     (\<exists>scanner key. \<exists>c\<in>set (checkpoints d). parse_uuid e (user_id actor) = Some scanner \<and>
        user_exists scanner d \<and> parse_uuid e (re_checkpoint input) = Some (ck_id c) \<and>
        parse_uuid e (re_key input) = Some key \<and> key \<notin> rq_key ` set (requests d) \<and>
        ck_active c \<and> ck_cycle c = lp_cycle p \<and> \<not> window_closed (now e) c \<and>
        ef_allowed (effective_entitlement p c d) \<and>
        int (count_redemptions (lp_attendee p) (ck_id c) d) < ef_max (effective_entitlement p c d)) \<and>
     fresh e 0 \<notin> rq_id ` set (requests d) \<and> random_uuid (entropy 0) \<notin> rd_id ` set (redemptions d)"

lemma may_scan_redeems:
  assumes inv: "scan_inv d" "passes_inv s d" "decisions_inv d"
    and p: "p \<in> set (passes d)" "pa_status p = PassActive"
    and t: "t \<in> set (attendees d)" "ad_id t = pa_attendee p" "released_acceptance d t"
    and hash: "hash (re_token input) = (pa_qr p, True)" "length (pa_qr p) = 32"
    and scan: "may_scan e entropy actor input (locked_of d p t) d"
  shows "\<exists>r d'. redeem (Some hash) e entropy actor input d = (Inr r, d') \<and> sr_outcome r = Redeemed \<and>
    sr_attendee r = Some (ad_name t) \<and>
    count_redemptions (pa_attendee p) (the (parse_uuid e (re_checkpoint input))) d' =
      Suc (count_redemptions (pa_attendee p) (the (parse_uuid e (re_checkpoint input))) d)"
proof -
  let ?p = "locked_of d p t"
  obtain scanner key c where c: "c \<in> set (checkpoints d)" and
    g: "has_role actor RoleScanner" "parse_uuid e (user_id actor) = Some scanner" "user_exists scanner d"
      "parse_uuid e (re_checkpoint input) = Some (ck_id c)" "parse_uuid e (re_key input) = Some key"
      "key \<notin> rq_key ` set (requests d)" and
    a: "ck_active c" "ck_cycle c = lp_cycle ?p" "\<not> window_closed (now e) c"
      "ef_allowed (effective_entitlement ?p c d)"
      "int (count_redemptions (lp_attendee ?p) (ck_id c) d) < ef_max (effective_entitlement ?p c d)" and
    f: "fresh e 0 \<notin> rq_id ` set (requests d)" "random_uuid (entropy 0) \<notin> rd_id ` set (redemptions d)"
    using scan unfolding may_scan_def by blast
  have lock: "lock_pass_by_qr_hash (pa_qr p) d = Some ?p" by (rule lock_pass_row [OF inv(2,3) p(1) t(1,2)])
  have "admits e c ?p d" using a p(2) t(3) by (simp add: admits_def) (simp add: locked_of_def)
  then obtain n where dec: "scan_decision e c (pa_qr p) True d = (Some ?p, Redeemed, n)"
    using lock unfolding scan_decision_redeemed by blast
  have cp: "lock_checkpoint (ck_id c) d = Some c"
    using inv(1) c find_eq_Some_key [of ck_id "checkpoints d" c] by (simp add: scan_inv_def lock_checkpoint_def)
  have none: "find_redemption_request key d = None"
    using g(6) by (auto simp: find_redemption_request_def find_None_iff)
  have "(lp_id ?p, lp_attendee ?p) \<in> (\<lambda>x. (pa_id x, pa_attendee x)) ` set (passes d)"
    "(lp_attendee ?p, ck_cycle c) \<in> (\<lambda>x. (ad_id x, ad_cycle x)) ` set (attendees d)"
    using p(1) t(1,2) a(2) by (force simp: locked_of_def)+
  from record_redeemed_total [OF inv(1) c dec this g(3) hash(2) g(6) f]
  obtain d' where rec: "record_outcome e (random_uuid (entropy 0)) (scan_of scanner c key (pa_qr p) (Some ?p, Redeemed, n)) d =
    Inr (scan_result_of e (Some (random_uuid (entropy 0))) (scan_of scanner c key (pa_qr p) (Some ?p, Redeemed, n)), d')"
    by blast
  let ?v = "scan_result_of e (Some (random_uuid (entropy 0))) (scan_of scanner c key (pa_qr p) (Some ?p, Redeemed, n))"
  have "redeem_attempt e (random_uuid (entropy 0)) scanner (ck_id c) key (pa_qr p) True d = Inr (?v, d')"
    using none cp dec rec by (simp add: redeem_attempt_def scan_of_def)
  then have "redeem (Some hash) e entropy actor input d = (Inr ?v, d')"
    using g(1,2,4,5) hash by (simp add: redeem_def numeral_3_eq_3)
  moreover have "sr_outcome ?v = Redeemed" "sr_attendee ?v = Some (ad_name t)"
    by (simp_all add: scan_result_of_def scan_of_def recorded_subject_def locked_of_def)
  moreover have "outcome_recorded e (random_uuid (entropy 0))
      (scan_of scanner c key (pa_qr p) (Some ?p, Redeemed, n)) d ?v d'"
    by (rule record_outcome_Inr [OF rec])
  from recorded_count [OF this dec, of "pa_attendee p" "ck_id c"]
  have "count_redemptions (pa_attendee p) (the (parse_uuid e (re_checkpoint input))) d' =
      Suc (count_redemptions (pa_attendee p) (the (parse_uuid e (re_checkpoint input))) d)"
    using g(4) by (simp add: locked_of_def)
  ultimately show ?thesis by blast
qed

section \<open>From the issue to the door\<close>

definition issued_lock :: "draws \<Rightarrow> attendee_row \<Rightarrow> locked_pass" where
  "issued_lock dr t =
     \<lparr>lp_id = random_uuid (dr_id dr), lp_attendee = ad_id t, lp_cycle = ad_cycle t,
      lp_name = ad_name t, lp_status = PassActive, lp_eligible = True\<rparr>"

lemma pass_recorded_scan:
  assumes "pass_recorded e event actor subject i ps d d'"
  shows "scan_inv d' = scan_inv d" and "may_scan e2 entropy u input p d' = may_scan e2 entropy u input p d"
proof -
  obtain x where d': "d' = d\<lparr>passes := ps, audit := audit d @ [x], outbox := outbox d'\<rparr>"
    using assms unfolding pass_recorded_def by blast
  have f: "checkpoints d' = checkpoints d" "entitlements d' = entitlements d" "requests d' = requests d"
    "redemptions d' = redemptions d" "users d' = users d"
    by (subst d', simp)+
  show "scan_inv d' = scan_inv d" by (simp add: scan_inv_def f)
  show "may_scan e2 entropy u input p d' = may_scan e2 entropy u input p d"
    by (simp add: may_scan_def f user_exists_def effective_entitlement_def count_redemptions_def)
qed

text \<open>C32. An issued pass opens the door: after a successful issue, the QR credential it returned,
  presented by a scanner at an active, open checkpoint of the attendee's cycle whose rule leaves a
  redemption, with an unused key and fresh ids, is redeemed, and the answer names the attendee.\<close>

theorem issued_pass_redeems:
  assumes "service_ok s" and "length (dr_claim dr) = 32" and "passes_inv s d" and "decisions_inv d"
    and "scan_inv d" and "issue s e dr actor attendee d = (Inr v, d1)"
    and "parse_uuid e attendee = Some j" and "t \<in> set (attendees d)" and "ad_id t = j"
    and "re_token input = is_qr v" and "may_scan e2 entropy scanner input (issued_lock dr t) d"
  shows "\<exists>r d2. redeem (Some (qr_token_hash s)) e2 entropy scanner input d1 = (Inr r, d2) \<and>
    sr_outcome r = Redeemed \<and> sr_attendee r = Some (ad_name t) \<and>
    count_redemptions j (the (parse_uuid e2 (re_checkpoint input))) d2 =
      Suc (count_redemptions j (the (parse_uuid e2 (re_checkpoint input))) d)"
proof -
  note h = issue_holds [OF assms(6,3)]
  let ?i = "random_uuid (dr_id dr)"
  let ?c = "new_credentials s (dr_claim dr) ?i"
  note cr = credentials_facts [OF assms(1,2) refl, where i = ?i]
  obtain t' actor_id where t': "t' \<in> set (attendees d)" "parse_uuid e attendee = Some (ad_id t')"
    "released_acceptance d t'" and
    rec: "pass_recorded e ''pass_issued'' actor_id ?i ?i (passes d @ [new_pass e ?i (ad_id t') ?c]) d d1" and
    v: "v = issuance_from s e (new_pass e ?i (ad_id t') ?c) (ad_name t') ?c"
    using h(1) unfolding issue_contract_def Let_def by blast
  have keys: "distinct_on ad_id (attendees d)" using assms(4) by (simp add: decisions_inv_def)
  have tt: "t' = t"
    using distinct_onD [OF keys t'(1) assms(8)] assms(7,9) t'(2) by simp
  let ?p = "new_pass e ?i (ad_id t) ?c"
  note fr = pass_recorded_frame [OF rec]
  have p: "?p \<in> set (passes d1)" "pa_status ?p = PassActive" "pa_qr ?p = cr_qr_hash ?c"
    "pa_attendee ?p = ad_id t" "pa_id ?p = ?i"
    by (simp_all add: fr tt new_pass_def)
  have lock: "locked_of d1 ?p t = issued_lock dr t"
    using t'(3) tt p by (simp add: locked_of_def issued_lock_def fr)
  have inv1: "scan_inv d1" "decisions_inv d1"
    using assms(4,5) pass_recorded_scan(1) [OF rec] pass_recorded_invs(2) [OF rec] by simp_all
  have "qr_token_hash s (re_token input) = (pa_qr ?p, True)"
    using cr(1) by (simp add: assms(10) v issuance_from_def p)
  moreover have "may_scan e2 entropy scanner input (locked_of d1 ?p t) d1"
    using assms(11) pass_recorded_scan(2) [OF rec] by (simp add: lock)
  moreover have "t \<in> set (attendees d1)" "ad_id t = pa_attendee ?p" "released_acceptance d1 t"
    "length (pa_qr ?p) = 32"
    using t' tt p cr(5) by (simp_all add: fr)
  moreover have "redemptions d1 = redemptions d"
    using rec unfolding pass_recorded_def by (auto dest: arg_cong [where f = redemptions])
  then have "count_redemptions j k d1 = count_redemptions j k d" for k
    by (simp add: count_redemptions_def)
  ultimately show ?thesis
    using may_scan_redeems [OF inv1(1) h(2) inv1(2) p(1,2), of t "qr_token_hash s" input e2 entropy scanner]
    by (simp add: p(4) assms(9))
qed

text \<open>A confirmed attendee, an organizer and an open checkpoint.\<close>

definition sample_door_db :: db where
  "sample_door_db = sample_confirmed_db\<lparr>checkpoints := [sample_checkpoint\<lparr>ck_cycle := 7\<rparr>]\<rparr>"

definition sample_doorkeeper :: user where
  "sample_doorkeeper = sample_organizer\<lparr>user_role_set := {RoleScanner}\<rparr>"

lemma sample_confirmed_inv: "decisions_inv sample_confirmed_db"
proof -
  have "\<not> isl (fst (respond sample_env sample_attending sample_answer sample_released_db))"
    by code_simp
  then obtain v where "respond sample_env sample_attending sample_answer sample_released_db =
      (Inr v, sample_confirmed_db)"
    by (metis isl_def prod.collapse sum.collapse(2) sample_confirmed_db_def)
  then show ?thesis by (rule respond_inv [OF _ sample_released_inv])
qed

lemma sample_door_facts:
  "passes sample_door_db = []" "requests sample_door_db = []" "redemptions sample_door_db = []"
  "entitlements sample_door_db = []" "confirmed_rsvp 101 sample_door_db"
  "user_exists 1 sample_door_db" "user_exists 2 sample_door_db"
  "case attendees sample_door_db of
     [t] \<Rightarrow> ad_id t = 101 \<and> ad_cycle t = 7 \<and> ad_user t = 2 \<and> ad_email t \<noteq> [] \<and> released_acceptance sample_door_db t
   | _ \<Rightarrow> False"
  by code_simp+

lemma sample_door_attendee:
  obtains t where "attendees sample_door_db = [t]" and "ad_id t = 101" and "ad_cycle t = 7" and "ad_user t = 2"
    and "ad_email t \<noteq> []" and "released_acceptance sample_door_db t"
  using sample_door_facts(8) by (auto split: list.split_asm)

lemma decisions_inv_checkpoints: "decisions_inv (d\<lparr>checkpoints := cs\<rparr>) = decisions_inv d"
  by (simp add: decisions_inv_def)

lemma sample_door_inv: "scan_inv sample_door_db" "decisions_inv sample_door_db"
proof -
  have "checkpoints sample_door_db = [sample_checkpoint\<lparr>ck_cycle := 7\<rparr>]" by (simp add: sample_door_db_def)
  then show "scan_inv sample_door_db"
    by (simp add: scan_inv_def sample_door_facts sample_checkpoint_def int4_ok_def ordinals_def gap_free_def)
  show "decisions_inv sample_door_db"
    using sample_confirmed_inv by (simp add: sample_door_db_def decisions_inv_checkpoints)
qed

definition sample_entry :: "string \<Rightarrow> redeem_input" where
  "sample_entry token = \<lparr>re_token = token, re_checkpoint = unary_text 5, re_key = unary_text 11\<rparr>"

lemma sample_may_scan:
  assumes "attendees sample_door_db = [t]" "ad_id t = 101" "ad_cycle t = 7"
  shows "may_scan sample_env sample_entropy sample_doorkeeper (sample_entry token) (issued_lock sample_draws t)
    sample_door_db"
proof -
  have "checkpoints sample_door_db = [sample_checkpoint\<lparr>ck_cycle := 7\<rparr>]" by (simp add: sample_door_db_def)
  moreover have "has_role sample_doorkeeper RoleScanner" "parse_uuid sample_env (user_id sample_doorkeeper) = Some 1"
    by code_simp+
  moreover have "now sample_env = 50" by (simp add: sample_env_def)
  ultimately show ?thesis
    using sample_door_facts(2-4,6) assms
    by (simp add: may_scan_def sample_entry_def issued_lock_def window_closed_def sample_checkpoint_def
        effective_entitlement_def resolve_entitlement_def count_redemptions_def count_rows_def)
      (simp add: sample_env_def)
qed

theorem issued_pass_redeems_witness:
  "\<exists>s v d1 r d2. new_service sample_url sample_config = Inr s \<and>
     issue s sample_env sample_draws sample_organizer (unary_text 101) sample_door_db = (Inr v, d1) \<and>
     redeem (Some (qr_token_hash s)) sample_env sample_entropy sample_doorkeeper (sample_entry (is_qr v)) d1 =
       (Inr r, d2) \<and> sr_outcome r = Redeemed"
proof -
  obtain s where s: "new_service sample_url sample_config = Inr s" using sample_service by blast
  obtain t where t: "attendees sample_door_db = [t]" "ad_id t = 101" "ad_cycle t = 7" "ad_user t = 2"
    "ad_email t \<noteq> []" "released_acceptance sample_door_db t"
    by (rule sample_door_attendee)
  have lock: "lock_accepted_attendee 101 sample_door_db = Some t"
    using t by (simp add: lock_accepted_attendee_def)
  have len: "length (dr_claim sample_draws) = 32" by (simp add: sample_draws_def)
  have "user_exists (ad_user t) sample_door_db" using t(4) sample_door_facts(7) by simp
  from issue_total [OF new_service_ok [OF s] len sample_door_facts(1) sample_organizer_facts lock
      sample_door_facts(5,6) this t(5)]
  obtain v d1 where i: "issue s sample_env sample_draws sample_organizer (unary_text 101) sample_door_db = (Inr v, d1)"
    by blast
  have "t \<in> set (attendees sample_door_db)" "re_token (sample_entry (is_qr v)) = is_qr v"
    using t(1) by (simp_all add: sample_entry_def)
  from issued_pass_redeems [OF new_service_ok [OF s] len passes_inv_empty [OF sample_door_facts(1)]
      sample_door_inv(2,1) i sample_organizer_facts(3) this(1) t(2) this(2) sample_may_scan [OF t(1-3)]]
  show ?thesis using s i by blast
qed

section \<open>A retired pass stays out\<close>

lemma retired_decision:
  assumes "passes_inv s d" and "p \<in> set (passes d)" and "pa_status p \<noteq> PassActive"
    and "scan_decision e c (pa_qr p) valid d = (x, out, n)"
  shows "out \<in> {RevokedPass, InvalidPass}"
proof -
  have find: "List.find (\<lambda>x. pa_qr x = pa_qr p) (passes d) = Some p"
    using assms(1,2) by (simp add: find_eq_Some_key passes_inv_def)
  show ?thesis
  proof (cases "lock_pass_by_qr_hash (pa_qr p) d")
    case None
    then show ?thesis using assms(4) by (simp add: scan_decision_def split: if_split_asm)
  next
    case (Some q)
    then have "lp_status q = pa_status p"
      using find by (auto simp: lock_pass_by_qr_hash_def split: option.split_asm)
    then show ?thesis using assms(3,4) Some by (simp add: scan_decision_def split: if_split_asm)
  qed
qed

text \<open>C33. A revoked pass never opens a door again: in any later database in which the revoked
  row is as the revocation left it, a scan of its QR credential under an unused key records no
  redemption, and the scanner is told that the pass is revoked or invalid.\<close>

theorem revoked_pass_refused:
  assumes "revoke e actor pass d = (Inr v, d1)" and "passes_inv s d" and "parse_uuid e pass = Some i"
    and "p \<in> set (passes d1)" and "pa_id p = i" and "p \<in> set (passes d2)" and "passes_inv s d2"
    and "scan_inv d2" and "hash (re_token input) = (pa_qr p, True)"
    and "parse_uuid e2 (re_key input) = Some k" and "k \<notin> rq_key ` set (requests d2)"
    and "redeem (Some hash) e2 entropy scanner input d2 = (Inr r, d3)"
  shows "sr_outcome r \<in> {RevokedPass, InvalidPass} \<and> redemptions d3 = redemptions d2"
proof -
  obtain q :: pass_row and x where "parse_uuid e pass = Some (pa_id q)"
    and d1: "d1 = d\<lparr>passes := upd_rows (active_row (pa_id q)) (revoked_row e) (passes d), audit := audit d @ [x]\<rparr>"
    using revoke_holds(1) [OF assms(1,2)] unfolding revoke_contract_def
    by (elim bexE exE conjE) (rule that; assumption)
  then have gone: "pa_status p \<noteq> PassActive"
    using assms(3,4,5) by (auto simp: d1 set_upd_rows active_row_def revoked_row_def)
  obtain c j scanner_id where
    out: "sr_outcome r = fst (snd (scan_decision e2 c (pa_qr p) True d2))" and
    rec: "outcome_recorded e2 (random_uuid (entropy j))
      (scan_of scanner_id c k (pa_qr p) (scan_decision e2 c (pa_qr p) True d2)) d2 r d3"
    using redeem_holds(1) [OF assms(12,8)] assms(9-11) unfolding redeem_contract_def by auto
  obtain x o' n where dec: "scan_decision e2 c (pa_qr p) True d2 = (x, o', n)" by (rule prod_cases3)
  have o': "o' \<in> {RevokedPass, InvalidPass}" by (rule retired_decision [OF assms(7,6) gone dec])
  then have "outcome_rows e2 (random_uuid (entropy j)) (scan_of scanner_id c k (pa_qr p) (x, o', n)) = []"
    by (auto simp: outcome_rows_def outcome_redemption_def scan_of_def)
  moreover have "redemptions d3 = redemptions d2 @
      outcome_rows e2 (random_uuid (entropy j)) (scan_of scanner_id c k (pa_qr p) (x, o', n))"
    using rec unfolding dec outcome_recorded_def by auto
  ultimately show ?thesis using out o' by (simp add: dec)
qed

text \<open>A service whose keyed hash is constant binds the sample pass to its hash.\<close>

definition constant_service :: pass_service where
  "constant_service = toy_service\<lparr>ps_hmac := \<lambda>_ _. replicate 32 1\<rparr>"

lemma sample_scan_passes: "passes_inv constant_service sample_scan_db"
  by (simp add: passes_inv_def sample_scan_db_def empty_db_def pass_ok_def lifecycle_ok_def qr_bound_def
      credential_hash_def constant_service_def)

definition sample_revoked :: "(pass_error + pass_view) \<times> db" where
  "sample_revoked = revoke scan_env (sample_scanner\<lparr>user_role_set := {RoleOrganizer}\<rparr>) (hex_text 7) sample_scan_db"

theorem revoked_pass_refused_witness:
  "\<exists>v d1 r d3. revoke scan_env (sample_scanner\<lparr>user_role_set := {RoleOrganizer}\<rparr>) (hex_text 7) sample_scan_db =
       (Inr v, d1) \<and>
     redeem (Some sample_hasher) scan_env sample_entropy sample_scanner sample_scan d1 = (Inr r, d3) \<and>
     sr_outcome r \<in> {RevokedPass, InvalidPass} \<and> redemptions d3 = redemptions d1"
proof -
  have ev: "case fst sample_revoked of Inl _ \<Rightarrow> False | Inr v \<Rightarrow> True"
    "case passes (snd sample_revoked) of [p] \<Rightarrow> pa_id p = 7 \<and> pa_qr p = replicate 32 1 | _ \<Rightarrow> False"
    "case fst (redeem (Some sample_hasher) scan_env sample_entropy sample_scanner sample_scan (snd sample_revoked))
     of Inl _ \<Rightarrow> False | Inr r \<Rightarrow> True"
    "requests (snd sample_revoked) = []"
    by code_simp+
  obtain v d1 where rv: "revoke scan_env (sample_scanner\<lparr>user_role_set := {RoleOrganizer}\<rparr>) (hex_text 7)
      sample_scan_db = (Inr v, d1)" and d1: "snd sample_revoked = d1"
    using ev(1) by (cases sample_revoked) (auto simp: sample_revoked_def split: sum.split_asm)
  obtain p where p: "p \<in> set (passes d1)" "pa_id p = 7" "pa_qr p = replicate 32 1"
    using ev(2) by (auto simp: d1 split: list.split_asm)
  obtain r d3 where rd: "redeem (Some sample_hasher) scan_env sample_entropy sample_scanner sample_scan d1 = (Inr r, d3)"
    using ev(3) by (cases "redeem (Some sample_hasher) scan_env sample_entropy sample_scanner sample_scan d1")
      (auto simp: d1 split: sum.split_asm)
  note inv = revoke_holds [OF rv sample_scan_passes]
  obtain ps x where "d1 = sample_scan_db\<lparr>passes := ps, audit := x\<rparr>"
    using inv(1) unfolding revoke_contract_def by (elim bexE exE conjE) (rule that; assumption)
  then have "scan_inv d1" using sample_scan_inv(1) by (simp add: scan_inv_def)
  moreover have "parse_uuid scan_env (hex_text 7) = Some 7" by code_simp
  moreover have "sample_hasher (re_token sample_scan) = (pa_qr p, True)"
    by (simp add: p sample_hasher_def sample_scan_def)
  moreover have "parse_uuid scan_env (re_key sample_scan) = Some 11" by code_simp
  moreover have "11 \<notin> rq_key ` set (requests d1)" using ev(4) by (simp add: d1)
  ultimately have "sr_outcome r \<in> {RevokedPass, InvalidPass} \<and> redemptions d3 = redemptions d1"
    using revoked_pass_refused [OF rv sample_scan_passes _ p(1,2) p(1) inv(2) _ _ _ _ rd] by blast
  then show ?thesis using rv rd by blast
qed

section \<open>Every scan is answered\<close>

lemma lock_pass_rows:
  assumes "lock_pass_by_qr_hash qr d = Some p"
  shows "(lp_id p, lp_attendee p) \<in> (\<lambda>x. (pa_id x, pa_attendee x)) ` set (passes d)"
    and "(lp_attendee p, lp_cycle p) \<in> (\<lambda>x. (ad_id x, ad_cycle x)) ` set (attendees d)"
  using assms by (force simp: lock_pass_by_qr_hash_def split: option.split_asm dest!: find_SomeD)+

lemma decision_request_ok:
  assumes "scan_decision e c qr valid d = (x, out, n)" and "out \<noteq> Redeemed"
  shows "request_subject_ok (request_of e None (scan_of scanner c k qr (x, out, n)))"
    and "\<And>p. x = Some p \<Longrightarrow> lock_pass_by_qr_hash qr d = Some p"
proof -
  have "(x = None \<and> out = InvalidPass) \<or>
      (\<exists>p. x = Some p \<and> lock_pass_by_qr_hash qr d = Some p \<and>
        (out = RevokedPass \<and> lp_status p = PassRevoked \<or>
         out \<in> {OutsideWindow, NotEntitled, AlreadyExhausted} \<and> lp_status p = PassActive))"
    using assms by (auto simp: scan_decision_def Let_def split: option.split_asm if_split_asm)
  then show "request_subject_ok (request_of e None (scan_of scanner c k qr (x, out, n)))"
    and "\<And>p. x = Some p \<Longrightarrow> lock_pass_by_qr_hash qr d = Some p"
    by (auto simp: request_subject_ok_def request_of_def scan_of_def recorded_subject_def
        string_of_pass_status_def)
qed

lemma record_other_total:
  assumes inv: "scan_inv d" and c: "c \<in> set (checkpoints d)"
    and dec: "scan_decision e c qr valid d = (x, out, n)" and out: "out \<noteq> Redeemed"
    and scanner: "user_exists scanner d" and qr: "length qr = 32"
    and fresh: "k \<notin> rq_key ` set (requests d)" "fresh e 0 \<notin> rq_id ` set (requests d)"
  shows "\<exists>y. record_outcome e i (scan_of scanner c k qr (x, out, n)) d = Inr y"
proof -
  let ?r = "scan_of scanner c k qr (x, out, n)"
  let ?q = "request_of e None ?r"
  note ok = decision_request_ok [OF dec out]
  have q: "rq_key ?q = k" "rq_id ?q = fresh e 0" "rq_redemption ?q = None" "rq_scanner ?q = scanner"
    "rq_checkpoint ?q = ck_id c" "rq_qr ?q = qr" "sc_outcome ?r = out" "sc_scanner ?r = scanner"
    by (simp_all add: request_of_def scan_of_def Let_def)
  have "case (rq_pass ?q, rq_attendee ?q) of
      (Some p, Some a) \<Rightarrow> (p, a) \<in> (\<lambda>x. (pa_id x, pa_attendee x)) ` set (passes d) | _ \<Rightarrow> True"
    using ok(2) lock_pass_rows(1) by (cases x) (auto simp: request_of_def scan_of_def recorded_subject_def)
  then have "insert_request ?q d = Inr (d\<lparr>requests := requests d @ [?q]\<rparr>)"
    using ok(1) q qr fresh scanner c by (auto simp: insert_request_def split: option.split)
  then show ?thesis
    using out q scanner by (simp add: record_outcome_def insert_audit_def Let_def user_exists_def)
qed

lemma record_redeemed_retry:
  assumes inv: "scan_inv d" and c: "c \<in> set (checkpoints d)"
    and dec: "scan_decision e c qr True d = (Some p, Redeemed, n)"
    and scanner: "user_exists scanner d" and qr: "length qr = 32"
    and taken: "i \<in> rd_id ` set (redemptions d)"
  shows "record_outcome e i (scan_of scanner c k qr (Some p, Redeemed, n)) d = Inl UniqueViolation"
proof -
  let ?r = "scan_of scanner c k qr (Some p, Redeemed, n)"
  have lock: "lock_pass_by_qr_hash qr d = Some p" and adm: "lp_status p = PassActive"
    using dec unfolding scan_decision_redeemed by (auto simp: admits_def)
  obtain r where r: "r \<in> set (redemptions d)" "rd_id r = i" using taken by blast
  then obtain q where "q \<in> set (requests d)" "matches q r"
    using inv unfolding scan_inv_def by blast
  then have "Some i \<in> rq_redemption ` set (requests d)" using r(2) by (force simp: matches_def)
  moreover have "request_subject_ok (request_of e (Some i) ?r)" "rq_redemption (request_of e (Some i) ?r) = Some i"
    "rq_qr (request_of e (Some i) ?r) = qr" "sc_outcome ?r = Redeemed"
    using adm by (simp_all add: request_subject_ok_def request_of_def scan_of_def recorded_subject_def
        string_of_pass_status_def)
  ultimately have "insert_request (request_of e (Some i) ?r) d = Inl UniqueViolation"
    using qr by (simp add: insert_request_def)
  then show ?thesis using \<open>sc_outcome ?r = Redeemed\<close> by (simp add: record_outcome_def Let_def)
qed

definition new_scan :: "env \<Rightarrow> uuid \<Rightarrow> checkpoint_row \<Rightarrow> uuid \<Rightarrow> bytes \<Rightarrow> db \<Rightarrow> bool" where
  "new_scan e scanner c k qr d \<longleftrightarrow>
     scan_inv d \<and> c \<in> set (checkpoints d) \<and> user_exists scanner d \<and> length qr = 32 \<and>
     k \<notin> rq_key ` set (requests d) \<and> fresh e 0 \<notin> rq_id ` set (requests d)"

lemma attempt_answers:
  assumes s: "new_scan e scanner c k qr d"
  shows "(\<exists>y. redeem_attempt e i scanner (ck_id c) k qr valid d = Inr y) \<or>
    i \<in> rd_id ` set (redemptions d) \<and>
      redeem_attempt e i scanner (ck_id c) k qr valid d = Inl (ScanInternal, True)"
proof -
  have inv: "scan_inv d" and c: "c \<in> set (checkpoints d)" and u: "user_exists scanner d" "length qr = 32"
    and f: "k \<notin> rq_key ` set (requests d)" "fresh e 0 \<notin> rq_id ` set (requests d)"
    using s by (simp_all add: new_scan_def)
  obtain x out n where dec: "scan_decision e c qr valid d = (x, out, n)" by (rule prod_cases3)
  have cp: "lock_checkpoint (ck_id c) d = Some c"
    using inv c find_eq_Some_key [of ck_id "checkpoints d" c] by (simp add: scan_inv_def lock_checkpoint_def)
  have none: "find_redemption_request k d = None"
    using f(1) by (auto simp: find_redemption_request_def find_None_iff)
  have attempt: "redeem_attempt e i scanner (ck_id c) k qr valid d =
      wrap_err (\<lambda>x. (ScanInternal, is_retryable x)) (record_outcome e i (scan_of scanner c k qr (x, out, n)) d)"
    by (simp add: redeem_attempt_def none cp dec scan_of_def)
  show ?thesis
  proof (cases "out = Redeemed")
    case False
    then show ?thesis using record_other_total [OF inv c dec False u f] attempt by auto
  next
    case True
    then obtain p where p: "x = Some p" "valid" "lock_pass_by_qr_hash qr d = Some p" "admits e c p d"
      using dec unfolding True scan_decision_redeemed by blast
    have dec': "scan_decision e c qr True d = (Some p, Redeemed, n)" using dec p True by simp
    have "ck_cycle c = lp_cycle p" using p(4) by (simp add: admits_def)
    note rows = lock_pass_rows [OF p(3), folded this]
    show ?thesis
    proof (cases "i \<in> rd_id ` set (redemptions d)")
      case taken: True
      show ?thesis
        using record_redeemed_retry [OF inv c dec' u taken] taken
        by (simp add: attempt p(1) True is_retryable_def)
    next
      case free: False
      show ?thesis
        using record_redeemed_total [OF inv c dec' rows u f free]
        by (auto simp: attempt p(1) True)
    qed
  qed
qed

lemma loop_answers:
  assumes "new_scan e scanner c k qr d" and "j < n" and "ids (m + j) \<notin> rd_id ` set (redemptions d)"
  shows "\<exists>r d'. redeem_loop n e ids m scanner (ck_id c) k qr valid d = (Inr r, d')"
  using assms(2,3)
proof (induction n arbitrary: m j)
  case (Suc n)
  consider y where "redeem_attempt e (ids m) scanner (ck_id c) k qr valid d = Inr y"
    | "ids m \<in> rd_id ` set (redemptions d)"
      "redeem_attempt e (ids m) scanner (ck_id c) k qr valid d = Inl (ScanInternal, True)"
    using attempt_answers [OF assms(1)] by blast
  then show ?case
  proof cases
    case (1 y)
    then show ?thesis by (cases y) simp
  next
    case 2
    then obtain i where "j = Suc i" using Suc.prems(2) by (cases j) auto
    then show ?thesis using Suc.IH [of i "m + 1"] Suc.prems 2 by simp
  qed
qed simp

text \<open>C34. A scan is always answered: a scanner's call with parsable ids, an existing checkpoint,
  a hash of the right length and an unused key returns a recorded outcome, whatever the token and
  the state of the pass, within the three attempts the code makes, as soon as one of the three
  redemption ids it draws is unused; it ends in an error only if all three collide.\<close>

theorem redeem_answers:
  assumes "has_role actor RoleScanner" and "parse_uuid e (user_id actor) = Some scanner"
    and "parse_uuid e (re_checkpoint input) = Some (ck_id c)" and "parse_uuid e (re_key input) = Some k"
    and "hash (re_token input) = (qr, valid)" and "new_scan e scanner c k qr d"
    and "j < 3" and "random_uuid (entropy j) \<notin> rd_id ` set (redemptions d)"
  shows "\<exists>r d'. redeem (Some hash) e entropy actor input d = (Inr r, d') \<and>
    length (requests d') = Suc (length (requests d))"
proof -
  have len: "length qr = 32" and inv: "scan_inv d" and k: "k \<notin> rq_key ` set (requests d)"
    using assms(6) by (simp_all add: new_scan_def)
  obtain r d' where run: "redeem (Some hash) e entropy actor input d = (Inr r, d')"
    using loop_answers [OF assms(6,7), of "random_uuid \<circ> entropy" 0 valid] assms(1-5,8) len
    by (auto simp: redeem_def)
  obtain c' i where "outcome_recorded e i (scan_of scanner c' k qr (scan_decision e c' qr valid d)) d r d'"
    using redeem_holds(1) [OF run inv] assms(2-5) k unfolding redeem_contract_def by auto
  then have "length (requests d') = Suc (length (requests d))"
    unfolding outcome_recorded_def by auto
  with run show ?thesis by blast
qed

theorem redeem_answers_witness:
  "\<exists>r d'. redeem (Some sample_hasher) scan_env sample_entropy sample_scanner sample_scan sample_scan_db = (Inr r, d') \<and>
     length (requests d') = 1"
proof -
  have "has_role sample_scanner RoleScanner" "parse_uuid scan_env (user_id sample_scanner) = Some 1"
    "parse_uuid scan_env (re_key sample_scan) = Some 11"
    by code_simp+
  moreover have "parse_uuid scan_env (re_checkpoint sample_scan) = Some (ck_id sample_checkpoint)"
    by code_simp
  moreover have "sample_hasher (re_token sample_scan) = (replicate 32 1, True)"
    by (simp add: sample_hasher_def sample_scan_def)
  moreover have "new_scan scan_env 1 sample_checkpoint 11 (replicate 32 1) sample_scan_db"
    using sample_scan_inv(1)
    by (simp add: new_scan_def sample_scan_db_def empty_db_def user_exists_def sample_user_def)
  moreover have "random_uuid (sample_entropy 0) \<notin> rd_id ` set (redemptions sample_scan_db)"
    by (simp add: sample_scan_db_def empty_db_def)
  ultimately show ?thesis
    using redeem_answers [of sample_scanner scan_env 1 sample_scan sample_checkpoint 11 sample_hasher
        "replicate 32 1" True sample_scan_db 0 sample_entropy]
    by (simp add: sample_scan_db_def empty_db_def)
qed

end
