(* ===== verification/Auth.thy ===== *)
theory Auth
  imports Credentials
begin

text \<open>
  Package \<^verbatim>\<open>auth\<close>: the bearer header, the Clerk session verifier with its cached key set, and
  the staging verifier of synthetic load-test identities. A verifier maps a token to the subject
  it proves, or rejects it. The JWT library and the HTTP client are parameters.
\<close>

section \<open>The bearer header\<close>

type_synonym verifier = "string \<Rightarrow> string option"

text \<open>\<^verbatim>\<open>BearerToken\<close> on the values of the \<^verbatim>\<open>Authorization\<close> header.\<close>

definition bearer_token :: "string list \<Rightarrow> string option" where
  "bearer_token values =
     (case values of
        [v] \<Rightarrow> if \<not> has_prefix ''Bearer '' v \<or> trim_space (trim_prefix ''Bearer '' v) = [] then None
              else Some (trim_prefix ''Bearer '' v)
      | _ \<Rightarrow> None)"

definition rejecting_verifier :: verifier where
  "rejecting_verifier raw = None"

section \<open>Session tokens\<close>

record clerk_config =
  cc_issuer :: string
  cc_parties :: "string list"
  cc_jwks_url :: string

datatype auth_config_error =
  IssuerRequired | PartyRequired | IssuerUnparsable | JwksUnavailable

record session_claims =
  cl_subject :: string
  cl_party :: string

record 'k jwt_verifier =
  jv_issuer :: string
  jv_parties :: "string list"
  jv_keys :: 'k

text \<open>Where the keys come from: \<open>parse_issuer\<close> is \<^verbatim>\<open>url.Parse\<close> with the scheme, the host and
  the printed URL.\<close>

definition jwks_url_of ::
    "(string \<Rightarrow> (string \<times> string \<times> string) option) \<Rightarrow> clerk_config \<Rightarrow> auth_config_error + string" where
  "jwks_url_of parse_issuer c =
     (if cc_jwks_url c \<noteq> [] then Inr (cc_jwks_url c)
      else (case parse_issuer (cc_issuer c) of
          None \<Rightarrow> Inl IssuerUnparsable
        | Some (scheme, host, text) \<Rightarrow>
            if scheme = [] \<or> host = [] then Inl IssuerUnparsable
            else Inr (rev (dropWhile (\<lambda>x. x = CHR ''/'') (rev text)) @ ''/.well-known/jwks.json'')))"

subsection \<open>The key cache\<close>

text \<open>One answer of the key endpoint: none when the request fails, else a status and a body.
  \<open>parse\<close> is \<^verbatim>\<open>keyfunc.NewJWKSetJSON\<close> with the number of verification keys.\<close>

definition max_jwks_size :: int where
  "max_jwks_size = 1048576"

definition jwks_refresh ::
    "(bytes \<Rightarrow> ('k \<times> nat) option) \<Rightarrow> (int \<times> bytes) option \<Rightarrow> 'k option" where
  "jwks_refresh parse answer =
     (case answer of
        None \<Rightarrow> None
      | Some (status, body) \<Rightarrow>
          if status \<noteq> 200 then None
          else if int (length body) > max_jwks_size then None
          else (case parse body of
              None \<Rightarrow> None
            | Some (keys, n) \<Rightarrow> if n = 0 then None else Some keys))"

text \<open>\<^verbatim>\<open>jwksCache.keyfunc\<close>: a miss refreshes the cache once and looks again; a refresh that fails
  leaves the cache. The result is the key and the cache.\<close>

definition jwks_key ::
    "('k \<Rightarrow> 't \<Rightarrow> 'key option) \<Rightarrow> (bytes \<Rightarrow> ('k \<times> nat) option) \<Rightarrow> (int \<times> bytes) option \<Rightarrow>
       't \<Rightarrow> 'k \<Rightarrow> 'key option \<times> 'k" where
  "jwks_key find_key parse answer token keys =
     (case find_key keys token of
        Some key \<Rightarrow> (Some key, keys)
      | None \<Rightarrow>
          (case jwks_refresh parse answer of
             None \<Rightarrow> (None, keys)
           | Some keys' \<Rightarrow> (find_key keys' token, keys')))"

text \<open>One tick of \<^verbatim>\<open>refreshPeriodically\<close>.\<close>

definition jwks_tick :: "(bytes \<Rightarrow> ('k \<times> nat) option) \<Rightarrow> (int \<times> bytes) option \<Rightarrow> 'k \<Rightarrow> 'k" where
  "jwks_tick parse answer keys = (case jwks_refresh parse answer of None \<Rightarrow> keys | Some k \<Rightarrow> k)"

definition new_jwt_verifier ::
    "(string \<Rightarrow> (string \<times> string \<times> string) option) \<Rightarrow> (bytes \<Rightarrow> ('k \<times> nat) option) \<Rightarrow>
       (string \<Rightarrow> (int \<times> bytes) option) \<Rightarrow> clerk_config \<Rightarrow> auth_config_error + 'k jwt_verifier" where
  "new_jwt_verifier parse_issuer parse fetch c =
     (if cc_issuer c = [] then Inl IssuerRequired
      else if cc_parties c = [] then Inl PartyRequired
      else bindE (jwks_url_of parse_issuer c) (\<lambda>location.
           bindE (from_option JwksUnavailable (jwks_refresh parse (fetch location))) (\<lambda>keys.
           let parties = filter (\<lambda>p. p \<noteq> []) (map trim_space (cc_parties c))
           in if parties = [] then Inl PartyRequired
              else Inr \<lparr>jv_issuer = cc_issuer c, jv_parties = parties, jv_keys = keys\<rparr>)))"

text \<open>\<^verbatim>\<open>JWTVerifier.Verify\<close>. \<open>parse_token issuer key_of raw\<close> is the library's
  \<^verbatim>\<open>ParseWithClaims\<close> with the issuer, the required expiry and RS256 only: the claims of a valid
  token.\<close>

definition jwt_verify ::
    "(string \<Rightarrow> 'k \<Rightarrow> string \<Rightarrow> session_claims option) \<Rightarrow> 'k jwt_verifier \<Rightarrow> verifier" where
  "jwt_verify parse_token v raw =
     (if raw = [] then None
      else (case parse_token (jv_issuer v) (jv_keys v) raw of
          None \<Rightarrow> None
        | Some c \<Rightarrow>
            if cl_subject c = [] then None
            else if cl_party c \<notin> set (jv_parties v) then None
            else Some (cl_subject c)))"

section \<open>Load-test tokens\<close>

definition load_token_prefix :: string where
  "load_token_prefix = ''hat_load_v1.''"

record load_claims =
  ld_subject :: string
  ld_issued :: int
  ld_expires :: int

text \<open>The standard decoder is not strict about the bits left over in the last group.\<close>

definition std_decode :: "string \<Rightarrow> bytes option" where
  "std_decode s =
     (let t = drop_breaks s in
      if length t mod 4 \<noteq> 0 then None
      else case values_of StdAlphabet (strip_padding t) of None \<Rightarrow> None
        | Some ds \<Rightarrow> decode_digits False ds)"

definition new_load_test_verifier :: "string \<Rightarrow> bytes option" where
  "new_load_test_verifier encoded =
     (case std_decode (trim_space encoded) of
        None \<Rightarrow> None
      | Some secret \<Rightarrow> if int (length secret) < 32 then None else Some secret)"

text \<open>The lifetime is a difference of two \<^verbatim>\<open>int64\<close> values, which wraps around.\<close>

definition wrap_int64 :: "int \<Rightarrow> int" where
  "wrap_int64 x = (x + 2 ^ 63) mod 2 ^ 64 - 2 ^ 63"

definition claims_fresh :: "int \<Rightarrow> load_claims \<Rightarrow> bool" where
  "claims_fresh seconds c \<longleftrightarrow>
     \<not> (ld_subject c = [] \<or> ld_issued c > seconds + 30 \<or> ld_expires c \<le> seconds \<or>
        ld_expires c \<le> ld_issued c \<or> wrap_int64 (ld_expires c - ld_issued c) > 600)"

text \<open>\<^verbatim>\<open>LoadTestVerifier.Verify\<close> at \<open>seconds\<close>; \<open>decode_claims\<close> is \<^verbatim>\<open>json.Unmarshal\<close> of the claims.\<close>

definition load_test_verify ::
    "verifier \<Rightarrow> bytes \<Rightarrow> int \<Rightarrow> (bytes \<Rightarrow> load_claims option) \<Rightarrow> verifier" where
  "load_test_verify delegate secret seconds decode_claims raw =
     (if \<not> has_prefix load_token_prefix raw then delegate raw
      else (case split_char (CHR ''.'') (trim_prefix load_token_prefix raw) of
          [p, s] \<Rightarrow>
            (case raw_url_decode p of None \<Rightarrow> None | Some payload \<Rightarrow>
            (case raw_url_decode s of None \<Rightarrow> None | Some signature \<Rightarrow>
               if signature \<noteq> hmac_sha256 secret payload then None
               else (case decode_claims payload of None \<Rightarrow> None | Some c \<Rightarrow>
                 if claims_fresh seconds c then Some (ld_subject c) else None)))
        | _ \<Rightarrow> None))"

section \<open>What the verifiers admit\<close>

lemma bearer_token_Some:
  "bearer_token hs = Some t \<longleftrightarrow> hs = [''Bearer '' @ t] \<and> trim_space t \<noteq> []"
  by (auto simp: bearer_token_def trim_prefix_def has_prefix_def strip_prefix_Some
      split: list.splits option.splits)

lemma jwks_key_keeps: "jwks_refresh parse answer = None \<Longrightarrow> snd (jwks_key fk parse answer t keys) = keys"
  by (auto simp: jwks_key_def split: option.splits)

lemma jwt_verify_Some:
  "jwt_verify parse_token v raw = Some s \<longleftrightarrow>
     raw \<noteq> [] \<and> s \<noteq> [] \<and> (\<exists>c. parse_token (jv_issuer v) (jv_keys v) raw = Some c \<and>
       cl_subject c = s \<and> cl_party c \<in> set (jv_parties v))"
  by (auto simp: jwt_verify_def split: option.splits)

lemma split_char_join: "split_char sep s = p # ps \<Longrightarrow> s = p @ concat (map ((#) sep) ps)"
proof (induction s arbitrary: p ps)
  case (Cons x s)
  obtain q qs where q: "split_char sep s = q # qs" by (cases "split_char sep s") auto
  have "p = (if x = sep then [] else x # q) \<and> ps = (if x = sep then q # qs else qs)"
    using Cons.prems q by (auto split: if_splits)
  then show ?case using Cons.IH [OF q] by (cases "x = sep") simp_all
qed simp

text \<open>The lifetime check bounds the lifetime of claims within 2^63 seconds of each other only.\<close>

lemma wrap_int64_id: "- (2 ^ 63) \<le> x \<Longrightarrow> x < 2 ^ 63 \<Longrightarrow> wrap_int64 x = x"
  by (simp add: wrap_int64_def)

lemma long_lived_claims:
  "claims_fresh 1800000000 \<lparr>ld_subject = ''u'', ld_issued = - 9000000000000000000,
     ld_expires = 9000000000000000000\<rparr>"
  by (simp add: claims_fresh_def wrap_int64_def)

lemma b64_no_dot: "0 \<le> v \<Longrightarrow> v < 64 \<Longrightarrow> b64_char UrlAlphabet v \<noteq> CHR ''.''"
proof
  assume "0 \<le> v" "v < 64" "b64_char UrlAlphabet v = CHR ''.''"
  then have "b64_value UrlAlphabet (CHR ''.'') = Some v" using b64_roundtrip by metis
  then show False by (simp add: b64_value_def Let_def symbol62_def symbol63_def)
qed

lemma encoded_no_dot: "CHR ''.'' \<notin> set (raw_url_encode bs)"
proof
  assume "CHR ''.'' \<in> set (raw_url_encode bs)"
  then obtain v where "v \<in> set (encode_digits bs)" "b64_char UrlAlphabet v = CHR ''.''"
    by (auto simp: raw_url_encode_def)
  with digits_below [of bs] b64_no_dot [of v] show False by (simp add: list_all_iff)
qed

text \<open>The token a holder of the secret makes.\<close>

definition load_token :: "bytes \<Rightarrow> bytes \<Rightarrow> string" where
  "load_token secret payload =
     load_token_prefix @ raw_url_encode payload @ ''.'' @ raw_url_encode (hmac_sha256 secret payload)"

lemma load_test_verify_token:
  assumes "decode_claims payload = Some c"
  shows "load_test_verify delegate secret seconds decode_claims (load_token secret payload) =
    (if claims_fresh seconds c then Some (ld_subject c) else None)"
proof -
  have "split_char (CHR ''.'') (raw_url_encode payload @ CHR ''.'' # raw_url_encode (hmac_sha256 secret payload)) =
      [raw_url_encode payload, raw_url_encode (hmac_sha256 secret payload)]"
    by (simp add: split_char_append split_char_atom encoded_no_dot)
  with assms show ?thesis by (simp add: load_test_verify_def load_token_def)
qed

lemma load_test_verify_prefixed:
  assumes "load_test_verify delegate secret seconds decode_claims (load_token_prefix @ t) = Some s"
  obtains p m payload c where "t = p @ ''.'' @ m" and "raw_url_decode p = Some payload"
    and "raw_url_decode m = Some (hmac_sha256 secret payload)" and "decode_claims payload = Some c"
    and "claims_fresh seconds c" and "s = ld_subject c"
proof -
  obtain p m where pm: "split_char (CHR ''.'') t = [p, m]"
    using assms by (auto simp: load_test_verify_def split: list.splits)
  have "t = p @ CHR ''.'' # m" using split_char_join [OF pm] by simp
  with assms pm that show thesis
    by (auto simp: load_test_verify_def split: option.splits if_splits)
qed

lemma prefix_split: "has_prefix p s \<Longrightarrow> s = p @ trim_prefix p s"
  by (auto simp: has_prefix_def trim_prefix_def strip_prefix_Some split: option.splits)

lemma split_char_two:
  "split_char sep t = [p, m] \<longleftrightarrow> t = p @ sep # m \<and> sep \<notin> set p \<and> sep \<notin> set m"
proof
  assume "split_char sep t = [p, m]"
  then show "t = p @ sep # m \<and> sep \<notin> set p \<and> sep \<notin> set m"
    using split_char_join [of sep t p "[m]"] split_char_parts [of _ sep t] by simp
qed (simp add: split_char_append split_char_atom)

lemma prefixed_split:
  "has_prefix q raw \<Longrightarrow> split_char sep (trim_prefix q raw) = [p, m] \<longleftrightarrow>
     raw = q @ p @ [sep] @ m \<and> sep \<notin> set p \<and> sep \<notin> set m"
  using prefix_split [of q raw] by (auto simp: split_char_two)

text \<open>Claims a token may carry: a subject, an issue time at most half a minute ahead, an expiry to come
  and a life of at most ten minutes.\<close>

definition claims_admissible :: "int \<Rightarrow> load_claims \<Rightarrow> bool" where
  "claims_admissible seconds c \<longleftrightarrow>
     ld_subject c \<noteq> [] \<and> ld_issued c \<le> seconds + 30 \<and> seconds < ld_expires c \<and>
     ld_issued c < ld_expires c \<and> ld_expires c \<le> ld_issued c + 600"

lemma claims_fresh_admissible:
  "0 \<le> ld_issued c \<Longrightarrow> ld_expires c < 2 ^ 63 \<Longrightarrow> claims_fresh seconds c \<longleftrightarrow> claims_admissible seconds c"
  using wrap_int64_id [of "ld_expires c - ld_issued c"]
  by (auto simp: claims_fresh_def claims_admissible_def)

lemma load_test_verify_prefix_iff:
  assumes "has_prefix load_token_prefix raw"
  shows "load_test_verify delegate secret seconds decode_claims raw = Some s \<longleftrightarrow>
    (\<exists>p m payload c. raw = load_token_prefix @ p @ ''.'' @ m \<and> CHR ''.'' \<notin> set p \<and>
        CHR ''.'' \<notin> set m \<and> raw_url_decode p = Some payload \<and>
        raw_url_decode m = Some (hmac_sha256 secret payload) \<and> decode_claims payload = Some c \<and>
        claims_fresh seconds c \<and> s = ld_subject c)" (is "?l \<longleftrightarrow> ?r")
proof -
  let ?t = "trim_prefix load_token_prefix raw"
  have "?l \<longleftrightarrow> (\<exists>p m payload c. split_char (CHR ''.'') ?t = [p, m] \<and> raw_url_decode p = Some payload \<and>
      raw_url_decode m = Some (hmac_sha256 secret payload) \<and> decode_claims payload = Some c \<and>
      claims_fresh seconds c \<and> s = ld_subject c)"
    using assms by (auto simp: load_test_verify_def split: list.splits option.splits if_splits)
  also have "\<dots> \<longleftrightarrow> ?r" unfolding prefixed_split [OF assms] by (simp only: conj_assoc)
  finally show ?thesis .
qed

lemma load_test_expires:
  assumes times: "\<forall>payload c. decode_claims payload = Some c \<longrightarrow> 0 \<le> ld_issued c \<and> ld_expires c < 2 ^ 63"
    and prefix: "has_prefix load_token_prefix raw"
    and ok: "load_test_verify delegate secret seconds decode_claims raw = Some s" and late: "seconds + 630 \<le> later"
  shows "load_test_verify delegate secret later decode_claims raw = None"
proof (rule ccontr)
  assume "load_test_verify delegate secret later decode_claims raw \<noteq> None"
  then obtain s' where ok': "load_test_verify delegate secret later decode_claims raw = Some s'" by blast
  obtain p m payload c where 1: "raw = load_token_prefix @ p @ ''.'' @ m \<and> CHR ''.'' \<notin> set p \<and> CHR ''.'' \<notin> set m"
      "raw_url_decode p = Some payload" "decode_claims payload = Some c" "claims_fresh seconds c"
    using ok unfolding load_test_verify_prefix_iff [OF prefix] by blast
  obtain p' m' payload' c' where 2: "raw = load_token_prefix @ p' @ ''.'' @ m' \<and> CHR ''.'' \<notin> set p' \<and> CHR ''.'' \<notin> set m'"
      "raw_url_decode p' = Some payload'" "decode_claims payload' = Some c'" "claims_fresh later c'"
    using ok' unfolding load_test_verify_prefix_iff [OF prefix] by blast
  have "[p, m] = [p', m']"
    using prefixed_split [OF prefix, of "CHR ''.''" p m] prefixed_split [OF prefix, of "CHR ''.''" p' m'] 1(1) 2(1)
    by simp
  then have c: "c' = c" using 1(2,3) 2(2,3) by simp
  have "claims_admissible seconds c" "claims_admissible later c"
    using 1(3,4) 2(4) times claims_fresh_admissible [of c] unfolding c by blast+
  then show False using late by (simp add: claims_admissible_def)
qed


definition sample_claims :: load_claims where
  "sample_claims = \<lparr>ld_subject = ''u'', ld_issued = 1000, ld_expires = 1300\<rparr>"


end
