(* ===== verification/Files.thy ===== *)
theory Files
  imports GoStrings
begin

text \<open>
  The object stores of package \<^verbatim>\<open>resumes\<close> (\<^verbatim>\<open>storage.go\<close>): the directory store with its key
  check and its write-then-rename, and the bucket store with its size limit. The part of Go's
  \<^verbatim>\<open>path/filepath\<close> they use comes first, as it behaves on Unix, where \<^verbatim>\<open>FromSlash\<close> is the
  identity. The operating system's faults, the random names of \<^verbatim>\<open>os.CreateTemp\<close> and the S3 client
  are parameters.
\<close>

section \<open>Paths\<close>

abbreviation slash :: char where
  "slash \<equiv> CHR ''/''"

fun split_path :: "string \<Rightarrow> string list" where
  "split_path [] = [[]]"
| "split_path (c # s) =
     (if c = slash then [] # split_path s
      else (case split_path s of [] \<Rightarrow> [[c]] | p # ps \<Rightarrow> (c # p) # ps))"

fun join_path :: "string list \<Rightarrow> string" where
  "join_path [] = []"
| "join_path [c] = c"
| "join_path (c # cs) = c @ slash # join_path cs"

text \<open>One component of \<^verbatim>\<open>filepath.Clean\<close>, on the stack of the components kept, last first.\<close>

definition clean_step :: "bool \<Rightarrow> string list \<Rightarrow> string \<Rightarrow> string list" where
  "clean_step rooted kept c =
     (if c = '''' \<or> c = ''.'' then kept
      else if c = ''..'' then
        (case kept of
           [] \<Rightarrow> if rooted then [] else [''..'']
         | k # ks \<Rightarrow> if k = ''..'' then ''..'' # kept else ks)
      else c # kept)"

definition is_rooted :: "string \<Rightarrow> bool" where
  "is_rooted p = (p \<noteq> [] \<and> hd p = slash)"

definition clean_parts :: "string \<Rightarrow> string list" where
  "clean_parts p = rev (foldl (clean_step (is_rooted p)) [] (split_path p))"

definition path_text :: "bool \<Rightarrow> string list \<Rightarrow> string" where
  "path_text rooted cs = (if rooted then slash # join_path cs else if cs = [] then ''.'' else join_path cs)"

definition path_clean :: "string \<Rightarrow> string" where
  "path_clean p = path_text (is_rooted p) (clean_parts p)"

text \<open>\<^verbatim>\<open>filepath.Join\<close> of two elements: empty ones are ignored.\<close>

definition path_join :: "string \<Rightarrow> string \<Rightarrow> string" where
  "path_join a b =
     (if a = [] \<and> b = [] then [] else path_clean (join_path (filter (\<lambda>s. s \<noteq> []) [a, b])))"

definition path_ext :: "string \<Rightarrow> string" where
  "path_ext p =
     (let base = last (split_path p); tail = takeWhile (\<lambda>c. c \<noteq> CHR ''.'') (rev base)
      in if length tail < length base then CHR ''.'' # rev tail else [])"

definition path_base :: "string \<Rightarrow> string" where
  "path_base p =
     (if p = [] then ''.''
      else let q = rev (dropWhile (\<lambda>c. c = slash) (rev p))
           in if q = [] then [slash] else last (split_path q))"

definition path_dir :: "string \<Rightarrow> string" where
  "path_dir p = path_clean (rev (dropWhile (\<lambda>c. c \<noteq> slash) (rev p)))"

section \<open>Stores\<close>

datatype store_error = InvalidKey | StoreFailed | StoredTooLarge | StoreMisconfigured

type_synonym 's put_object = "string \<Rightarrow> bytes \<Rightarrow> 's \<Rightarrow> (store_error + unit) \<times> 's"
type_synonym 's get_object = "string \<Rightarrow> 's \<Rightarrow> store_error + bytes"

subsection \<open>The directory store\<close>

text \<open>The files by path, and what a call meets: the system calls that fail, the bytes a failing
  write leaves, and the random parts \<^verbatim>\<open>os.CreateTemp\<close> draws, at most 10000.\<close>

type_synonym disk = "string \<Rightarrow> bytes option"

datatype disk_step =
  MakeDirectory | OpenTemporary | ChangeMode | WriteContent | CloseTemporary | RenameTemporary
| ReadContent

record disk_faults =
  df_fails :: "disk_step \<Rightarrow> bool"
  df_written :: nat
  df_random :: "string list"

definition new_file_store :: "disk_faults \<Rightarrow> string \<Rightarrow> store_error + string" where
  "new_file_store w root =
     (let root = trim_space root
      in if root = [] then Inl StoreMisconfigured
         else if df_fails w MakeDirectory then Inl StoreFailed
         else Inr root)"

definition file_path :: "string \<Rightarrow> string \<Rightarrow> store_error + string" where
  "file_path root key =
     (let clean = path_clean key
      in if clean = ''.'' \<or> is_rooted clean \<or> has_prefix ''..'' clean then Inl InvalidKey
         else Inr (path_join root clean))"

definition temporary_name :: "string \<Rightarrow> string \<Rightarrow> string" where
  "temporary_name dir r =
     (if dir \<noteq> [] \<and> last dir = slash then dir else dir @ [slash]) @ ''resume-'' @ r @ ''.tmp''"

definition create_temporary :: "disk_faults \<Rightarrow> string \<Rightarrow> disk \<Rightarrow> string option" where
  "create_temporary w dir d =
     (if df_fails w OpenTemporary then None
      else List.find (\<lambda>t. d t = None) (map (temporary_name dir) (take 10000 (df_random w))))"

text \<open>What happens to the open temporary file, up to the rename.\<close>

definition fill_temporary ::
    "disk_faults \<Rightarrow> string \<Rightarrow> string \<Rightarrow> bytes \<Rightarrow> disk \<Rightarrow> (store_error + unit) \<times> disk" where
  "fill_temporary w tmp path content d =
     (if df_fails w ChangeMode then (Inl StoreFailed, d)
      else if df_fails w WriteContent
      then (Inl StoreFailed, d(tmp \<mapsto> take (df_written w) content))
      else if df_fails w CloseTemporary \<or> df_fails w RenameTemporary
      then (Inl StoreFailed, d(tmp \<mapsto> content))
      else (Inr (), (d(tmp := None))(path \<mapsto> content)))"

text \<open>\<^verbatim>\<open>FileStore.Put\<close>; the last step is the deferred \<^verbatim>\<open>os.Remove\<close> of the temporary name.\<close>

definition file_put :: "string \<Rightarrow> disk_faults \<Rightarrow> disk put_object" where
  "file_put root w key content d =
     (case file_path root key of
        Inl err \<Rightarrow> (Inl err, d)
      | Inr path \<Rightarrow>
          if df_fails w MakeDirectory then (Inl StoreFailed, d)
          else (case create_temporary w (path_dir path) d of
              None \<Rightarrow> (Inl StoreFailed, d)
            | Some tmp \<Rightarrow>
                (case fill_temporary w tmp path content (d(tmp \<mapsto> [])) of
                   (r, d') \<Rightarrow> (r, d'(tmp := None)))))"

definition file_get :: "string \<Rightarrow> disk_faults \<Rightarrow> disk get_object" where
  "file_get root w key d =
     bindE (file_path root key) (\<lambda>path.
       if df_fails w ReadContent then Inl StoreFailed else from_option StoreFailed (d path))"

subsection \<open>The bucket store\<close>

record 's s3_client =
  s3_put :: "string \<Rightarrow> string \<Rightarrow> bytes \<Rightarrow> 's \<Rightarrow> bool \<times> 's"
  s3_get :: "string \<Rightarrow> string \<Rightarrow> 's \<Rightarrow> bytes option"

record spaces_config =
  sp_endpoint :: string
  sp_region :: string
  sp_bucket :: string
  sp_key_id :: string
  sp_secret :: string

definition max_pdf_bytes :: nat where
  "max_pdf_bytes = 5 * 1024 * 1024"

definition new_spaces_store :: "spaces_config \<Rightarrow> store_error + spaces_config" where
  "new_spaces_store c =
     (let c' = \<lparr>sp_endpoint = rev (dropWhile (\<lambda>x. x = slash) (rev (trim_space (sp_endpoint c)))),
                sp_region = trim_space (sp_region c), sp_bucket = trim_space (sp_bucket c),
                sp_key_id = trim_space (sp_key_id c), sp_secret = trim_space (sp_secret c)\<rparr>
      in if sp_endpoint c' = [] \<or> sp_region c' = [] \<or> sp_bucket c' = [] \<or> sp_key_id c' = [] \<or>
            sp_secret c' = [] then Inl StoreMisconfigured
         else if \<not> has_prefix ''https://'' (sp_endpoint c') then Inl StoreMisconfigured
         else Inr c')"

definition spaces_put :: "string \<Rightarrow> 's s3_client \<Rightarrow> 's put_object" where
  "spaces_put bucket client key content s =
     (case s3_put client bucket key content s of
        (ok, s') \<Rightarrow> (if ok then Inr () else Inl StoreFailed, s'))"

definition spaces_get :: "string \<Rightarrow> 's s3_client \<Rightarrow> 's get_object" where
  "spaces_get bucket client key s =
     bindE (from_option StoreFailed (s3_get client bucket key s)) (\<lambda>body.
     let content = take (max_pdf_bytes + 1) body
     in if length content > max_pdf_bytes then Inl StoredTooLarge else Inr content)"

section \<open>Splitting and cleaning\<close>

lemma split_path_nonempty [simp]: "split_path s \<noteq> []"
  by (cases s) (simp_all split: list.split)

lemma split_path_no_slash: "c \<in> set (split_path s) \<Longrightarrow> slash \<notin> set c"
proof (induction s arbitrary: c)
  case (Cons x s)
  then show ?case by (cases "split_path s") (auto split: if_splits)
qed simp

lemma split_path_append: "split_path (a @ slash # b) = split_path a @ split_path b"
proof (induction a)
  case (Cons x a)
  then show ?case by (cases "split_path a") simp_all
qed simp

lemma split_path_atom: "slash \<notin> set c \<Longrightarrow> split_path c = [c]"
  by (induction c) auto

lemma split_join: "cs \<noteq> [] \<Longrightarrow> \<forall>c\<in>set cs. slash \<notin> set c \<Longrightarrow> split_path (join_path cs) = cs"
  by (induction cs rule: join_path.induct) (simp_all add: split_path_append split_path_atom)

lemma join_append:
  "cs \<noteq> [] \<Longrightarrow> ds \<noteq> [] \<Longrightarrow> join_path (cs @ ds) = join_path cs @ slash # join_path ds"
proof (induction cs rule: join_path.induct)
  case (2 c)
  then show ?case by (cases ds) simp_all
qed simp_all

text \<open>A proper component, which \<^verbatim>\<open>Clean\<close> keeps.\<close>

definition proper_part :: "string \<Rightarrow> bool" where
  "proper_part c = (c \<noteq> '''' \<and> c \<noteq> ''.'' \<and> c \<noteq> ''..'' \<and> slash \<notin> set c)"

lemma clean_step_proper: "proper_part c \<Longrightarrow> clean_step r ks c = c # ks"
  by (simp add: clean_step_def proper_part_def)

lemma clean_steps_proper:
  "\<forall>c\<in>set cs. proper_part c \<Longrightarrow> foldl (clean_step r) ks cs = rev cs @ ks"
  by (induction cs arbitrary: ks) (simp_all add: clean_step_proper)

text \<open>What the stack holds: proper components over the leading \<open>..\<close> of a relative path.\<close>

definition clean_stack :: "bool \<Rightarrow> string list \<Rightarrow> bool" where
  "clean_stack r ks \<longleftrightarrow> (\<exists>cs n. ks = cs @ replicate n ''..'' \<and> (\<forall>c\<in>set cs. proper_part c) \<and>
     (r \<longrightarrow> n = 0))"

lemma clean_stack_step:
  assumes "clean_stack r ks" and "slash \<notin> set c"
  shows "clean_stack r (clean_step r ks c)"
proof -
  obtain cs n where ks: "ks = cs @ replicate n ''..''" "\<forall>c\<in>set cs. proper_part c" "r \<longrightarrow> n = 0"
    using assms(1) by (auto simp: clean_stack_def)
  consider "c = '''' \<or> c = ''.''" | "c = ''..''" | "proper_part c"
    using assms(2) by (auto simp: proper_part_def)
  then show ?thesis
  proof cases
    case 1
    with assms(1) show ?thesis by (auto simp: clean_step_def)
  next
    case 3
    then have "clean_step r ks c = (c # cs) @ replicate n ''..''"
      by (simp add: clean_step_proper ks(1))
    with 3 ks show ?thesis unfolding clean_stack_def by (intro exI [of _ "c # cs"] exI [of _ n]) simp
  next
    case 2
    show ?thesis
    proof (cases cs)
      case Nil
      then have "clean_step r ks c = (if r then [] else replicate (Suc n) ''..'')"
        using ks 2 by (cases n) (simp_all add: clean_step_def)
      then show ?thesis unfolding clean_stack_def
        by (intro exI [of _ "[]"] exI [of _ "if r then 0 else Suc n"]) simp
    next
      case (Cons k cs')
      then have "clean_step r ks c = cs' @ replicate n ''..''"
        using ks 2 by (simp add: clean_step_def proper_part_def)
      with ks Cons show ?thesis unfolding clean_stack_def
        by (intro exI [of _ cs'] exI [of _ n]) simp
    qed
  qed
qed

lemma clean_stack_steps:
  "clean_stack r ks \<Longrightarrow> \<forall>c\<in>set cs. slash \<notin> set c \<Longrightarrow> clean_stack r (foldl (clean_step r) ks cs)"
  by (induction cs arbitrary: ks) (simp_all add: clean_stack_step)

lemma clean_parts_shape:
  obtains n cs where "clean_parts p = replicate n ''..'' @ cs" and "\<forall>c\<in>set cs. proper_part c"
    and "is_rooted p \<longrightarrow> n = 0"
proof -
  have "clean_stack (is_rooted p) []"
    unfolding clean_stack_def by (intro exI [of _ "[]"] exI [of _ 0]) simp
  then have "clean_stack (is_rooted p) (foldl (clean_step (is_rooted p)) [] (split_path p))"
    by (rule clean_stack_steps) (simp add: split_path_no_slash)
  then obtain cs n where c: "foldl (clean_step (is_rooted p)) [] (split_path p) = cs @ replicate n ''..''"
    "\<forall>c\<in>set cs. proper_part c" "is_rooted p \<longrightarrow> n = 0"
    unfolding clean_stack_def by blast
  show thesis
    by (rule that [of n "rev cs"]) (use c in \<open>simp_all add: clean_parts_def\<close>)
qed

section \<open>A key never leaves the root\<close>

text \<open>The path of the components \<open>cs\<close> inside a cleaned directory.\<close>

definition below :: "string \<Rightarrow> string list \<Rightarrow> string" where
  "below dir cs =
     (if dir = ''.'' then join_path cs
      else if dir = ''/'' then slash # join_path cs
      else dir @ slash # join_path cs)"

lemma below_clean:
  assumes "cs \<noteq> []"
  shows "below (path_clean root) cs = path_text (is_rooted root) (clean_parts root @ cs)"
proof -
  obtain n ps where p: "clean_parts root = replicate n ''..'' @ ps" "\<forall>c\<in>set ps. proper_part c"
    by (rule clean_parts_shape)
  have no_dot: "c \<noteq> ''.'' \<and> c \<noteq> [] \<and> slash \<notin> set c" if "c \<in> set (clean_parts root)" for c
  proof -
    from that consider "c = ''..''" | "proper_part c" using p by (auto simp: p(1))
    then show ?thesis by cases (simp_all add: proper_part_def)
  qed
  show ?thesis
  proof (cases "clean_parts root = []")
    case True
    then show ?thesis using assms by (simp add: below_def path_clean_def path_text_def)
  next
    case False
    define j where "j = join_path (clean_parts root)"
    have split: "split_path j = clean_parts root"
      unfolding j_def using False no_dot by (intro split_join) blast+
    have bad: "t \<noteq> j" if "c \<in> set (split_path t)" and "c = ''.'' \<or> c = []" for t c
    proof
      assume "t = j"
      then have "c \<in> set (clean_parts root)" using that(1) split by simp
      with no_dot [of c] that(2) show False by blast
    qed
    have "j \<noteq> ''.''" "j \<noteq> []" "j \<noteq> ''/''"
      using bad [of "''.''" "''.''"] bad [of "[]" "[]"] bad [of "[]" "''/''"] by simp_all
    with False assms show ?thesis
      by (simp add: below_def path_clean_def path_text_def join_append flip: j_def)
  qed
qed

text \<open>Where the directory store puts a key: under the root, along proper components only.\<close>

lemma file_path_Inr:
  assumes "file_path root key = Inr p" and "root \<noteq> []"
  obtains cs where "cs \<noteq> []" and "\<forall>c\<in>set cs. proper_part c" and "clean_parts key = cs"
    and "\<not> is_rooted key" and "p = below (path_clean root) cs"
proof -
  obtain n cs where k: "clean_parts key = replicate n ''..'' @ cs" "\<forall>c\<in>set cs. proper_part c"
      "is_rooted key \<longrightarrow> n = 0"
    by (rule clean_parts_shape)
  from assms(1) have g: "path_clean key \<noteq> ''.''" "\<not> is_rooted (path_clean key)"
      "\<not> has_prefix ''..'' (path_clean key)" and p: "p = path_join root (path_clean key)"
    by (auto simp: file_path_def Let_def split: if_splits)
  have r: "\<not> is_rooted key"
    using g(2) by (auto simp: path_clean_def path_text_def is_rooted_def)
  then have kt: "clean_parts key \<noteq> []" "path_clean key = join_path (clean_parts key)"
    using g(1) by (auto simp: path_clean_def path_text_def split: if_splits)
  have n: "n = 0"
  proof (rule ccontr)
    assume "n \<noteq> 0"
    then obtain m where "n = Suc m" by (cases n) auto
    then have "clean_parts key = ''..'' # replicate m ''..'' @ cs" by (simp add: k(1))
    then obtain t where "path_clean key = ''..'' @ t"
      unfolding kt(2) by (cases "replicate m ''..'' @ cs") auto
    then have "has_prefix ''..'' (path_clean key)" by (simp only: has_prefix_append)
    with g(3) show False by contradiction
  qed
  have cs: "cs \<noteq> []" "clean_parts key = cs" using kt(1) k(1) n by simp_all
  have ne: "path_clean key \<noteq> []"
    using cs k(2) unfolding kt(2) by (cases cs rule: join_path.cases) (auto simp: proper_part_def)
  have "split_path (root @ slash # path_clean key) = split_path root @ cs"
    using cs k(2) by (simp add: split_path_append kt(2) split_join proper_part_def)
  moreover have "is_rooted (root @ slash # path_clean key) = is_rooted root"
    using assms(2) by (simp add: is_rooted_def)
  ultimately have "p = path_text (is_rooted root) (clean_parts root @ cs)"
    using assms(2) ne k(2)
    by (simp add: p path_join_def path_clean_def [of "root @ _"] clean_parts_def clean_steps_proper)
  with cs k(2) r show thesis by (intro that [of cs]) (simp_all add: below_clean)
qed

section \<open>What the packages rely on\<close>

text \<open>
  The contract of \<^verbatim>\<open>resumes.Store\<close>: what was put under an accepted key is what the next read
  returns, and a put that fails leaves every read as it was.
\<close>

locale object_store =
  fixes put :: "'s put_object"
    and get :: "'s get_object"
    and accepts :: "string \<Rightarrow> bool"
  assumes get_put: "accepts k \<Longrightarrow> put k c s = (Inr (), s') \<Longrightarrow> get k s' = Inr c"
    and put_failed: "put k c s = (Inl err, s') \<Longrightarrow> s' = s"
begin

lemma get_after_put:
  "accepts k \<Longrightarrow> put k c s = (r, s') \<Longrightarrow> get k s' = (case r of Inl _ \<Rightarrow> get k s | Inr _ \<Rightarrow> Inr c)"
  by (cases r) (auto dest: get_put put_failed)

lemma last_put_wins:
  "accepts k \<Longrightarrow> put k c s = (Inr (), s') \<Longrightarrow> put k c' s' = (Inr (), s'') \<Longrightarrow> get k s'' = Inr c'"
  by (rule get_put)

end

lemma create_temporary_Some:
  "create_temporary w dir d = Some t \<Longrightarrow> d t = None \<and> (\<exists>r. t = temporary_name dir r)"
  by (auto simp: create_temporary_def split: if_splits dest!: find_SomeD)

lemma last_temporary [simp]: "last (temporary_name dir r) = CHR ''p''"
  by (simp add: temporary_name_def)

lemma file_put_cases:
  assumes "file_put root w k c d = (r, d')"
  obtains (early) err where "r = Inl err" and "d' = d"
    | (filled) path t d1 where "file_path root k = Inr path" and "d t = None" and "last t = CHR ''p''"
      and "fill_temporary w t path c (d(t \<mapsto> [])) = (r, d1)" and "d' = d1(t := None)"
proof (cases "file_path root k")
  case (Inr path)
  show thesis
  proof (cases "df_fails w MakeDirectory \<or> create_temporary w (path_dir path) d = None")
    case False
    then obtain t where t: "create_temporary w (path_dir path) d = Some t"
      "\<not> df_fails w MakeDirectory" by auto
    obtain r1 d1 where f: "fill_temporary w t path c (d(t \<mapsto> [])) = (r1, d1)" by fastforce
    then have "r = r1" "d' = d1(t := None)"
      using assms Inr t by (simp_all add: file_put_def)
    with filled [OF Inr _ _ _ _] create_temporary_Some [OF t(1)] f show thesis by auto
  next
    case True
    then have "r = Inl StoreFailed" "d' = d"
      using assms Inr by (auto simp: file_put_def split: if_splits)
    then show thesis by (rule early)
  qed
qed (use assms early in \<open>auto simp: file_put_def\<close>)

lemma file_put_failed: "file_put root w k c d = (Inl err, d') \<Longrightarrow> d' = d"
  by (erule file_put_cases)
     (auto simp: fill_temporary_def fun_upd_idem split: if_splits)

text \<open>A write that succeeds changes one file: the temporary one is gone after the rename.\<close>

lemma file_put_Inr:
  assumes "file_put root w k c d = (Inr (), d')"
  obtains path t where "file_path root k = Inr path" and "last t = CHR ''p''"
    and "t \<noteq> path \<longrightarrow> d' = d(path \<mapsto> c)"
proof (rule file_put_cases [OF assms])
  fix path t d1
  assume p: "file_path root k = Inr path" "d t = None" "last t = CHR ''p''"
    and f: "fill_temporary w t path c (d(t \<mapsto> [])) = (Inr (), d1)" and d': "d' = d1(t := None)"
  have "d1 = (d(t := None))(path \<mapsto> c)"
    using f by (auto simp: fill_temporary_def split: if_splits)
  then have "t \<noteq> path \<longrightarrow> d' = d(path \<mapsto> c)"
    using p(2) by (auto simp: d' fun_eq_iff)
  with p show thesis by (intro that)
qed simp

text \<open>The keys an upload uses end in \<^verbatim>\<open>.pdf\<close>, so no temporary name is one of their paths.\<close>

definition pdf_key :: "string \<Rightarrow> bool" where
  "pdf_key k = (last k = CHR ''f'')"

lemma join_nonempty: "cs \<noteq> [] \<Longrightarrow> last cs \<noteq> [] \<Longrightarrow> join_path cs \<noteq> []"
  by (cases cs rule: join_path.cases) auto

lemma last_join: "cs \<noteq> [] \<Longrightarrow> last cs \<noteq> [] \<Longrightarrow> last (join_path cs) = last (last cs)"
proof (induction cs rule: join_path.induct)
  case (3 c d cs)
  with join_nonempty [of "d # cs"] show ?case by simp
qed simp_all

lemma last_split: "s \<noteq> [] \<Longrightarrow> last s \<noteq> slash \<Longrightarrow>
    last (split_path s) \<noteq> [] \<and> last (last (split_path s)) = last s"
proof (induction s)
  case (Cons x s)
  show ?case
  proof (cases "s = []")
    case False
    with Cons show ?thesis by (cases "split_path s") auto
  qed (use Cons in auto)
qed simp

lemma last_below:
  "cs \<noteq> [] \<Longrightarrow> last cs \<noteq> [] \<Longrightarrow> last (below dir cs) = last (last cs)"
  using join_nonempty [of cs] by (simp add: below_def last_join)

lemma foldl_clean_last:
  assumes "proper_part c"
  shows "rev (foldl (clean_step r) ks (cs @ [c])) = rev (foldl (clean_step r) ks cs) @ [c]"
  using assms by (simp add: clean_step_proper)

lemma pdf_key_path:
  assumes "file_path root k = Inr path" and "pdf_key k" and "k \<noteq> []" and "root \<noteq> []"
  shows "last path = CHR ''f''"
proof -
  obtain cs where cs: "cs \<noteq> []" "\<forall>c\<in>set cs. proper_part c" "clean_parts k = cs"
    and path: "path = below (path_clean root) cs"
    by (rule file_path_Inr [OF assms(1,4)])
  let ?b = "butlast (split_path k)" and ?l = "last (split_path k)"
  have l: "?l \<noteq> []" "last ?l = CHR ''f''"
    using last_split [OF assms(3)] assms(2) by (simp_all add: pdf_key_def)
  then have "proper_part ?l"
    using split_path_no_slash [of ?l k] by (auto simp: proper_part_def)
  then have "clean_parts k = rev (foldl (clean_step (is_rooted k)) [] ?b) @ [?l]"
    using foldl_clean_last [of ?l "is_rooted k" "[]" ?b] by (simp add: clean_parts_def)
  then have "last cs = ?l" using cs(3) by simp
  with cs(1) l show ?thesis by (simp add: path last_below)
qed

lemma file_put_pdf:
  assumes "file_put root w k c d = (Inr (), d')" and "pdf_key k" and "k \<noteq> []" and "root \<noteq> []"
  obtains path where "file_path root k = Inr path" and "d' = d(path \<mapsto> c)"
proof -
  obtain path t where "file_path root k = Inr path" "t \<noteq> path \<longrightarrow> d' = d(path \<mapsto> c)"
      "last t = CHR ''p''"
    by (rule file_put_Inr [OF assms(1)])
  moreover from this have "t \<noteq> path" using pdf_key_path [OF _ assms(2-4)] by auto
  ultimately show thesis by (intro that) auto
qed

text \<open>A read of the same directory that meets no fault.\<close>

definition calm :: "disk_faults \<Rightarrow> disk_faults" where
  "calm w = w\<lparr>df_fails := (\<lambda>_. False)\<rparr>"

interpretation disk_store: object_store
  "file_put root w" "file_get root (calm v)" "\<lambda>k. root \<noteq> [] \<and> k \<noteq> [] \<and> pdf_key k"
  for root w v
proof unfold_locales
  fix k c s s'
  assume "root \<noteq> [] \<and> k \<noteq> [] \<and> pdf_key k" "file_put root w k c s = (Inr (), s')"
  then obtain path where "file_path root k = Inr path" "s' = s(path \<mapsto> c)"
    by (auto elim: file_put_pdf)
  then show "file_get root (calm v) k s' = Inr c"
    by (simp add: file_get_def calm_def)
qed (rule file_put_failed)

lemma new_file_store_root: "new_file_store w raw = Inr root \<Longrightarrow> root \<noteq> []"
  by (auto simp: new_file_store_def Let_def split: if_splits)

text \<open>What the bucket store returns is at most the largest resume, and the object itself.\<close>

lemma spaces_get_Inr:
  "spaces_get bucket client key s = Inr content \<longleftrightarrow>
     s3_get client bucket key s = Some content \<and> length content \<le> max_pdf_bytes"
  by (auto simp: spaces_get_def Let_def from_option_def bindE_def min_def
      split: option.splits if_splits)

end
