(* ===== verification/Resumes.thy ===== *)
theory Resumes
  imports Files Applications Sha256
begin

text \<open>
  Package \<^verbatim>\<open>resumes\<close>: the check that an upload is a PDF, the upload with its object and its
  metadata row, and the reads of the applicant and of the organizers, over the statements of
  \<^verbatim>\<open>sqlc/resumes.sql.go\<close>. An upload is not a transaction: it reads the target, writes the object
  and then writes the row, so its state is the database and the store.
\<close>

section \<open>Errors and values\<close>

datatype resume_error = RsForbidden | RsNotFound | RsInvalidPdf | RsInternal

record resume_metadata =
  rm_application :: string
  rm_filename :: string
  rm_media :: string
  rm_size :: int
  rm_uploaded :: timestamp
  rm_updated :: timestamp

record resume_pdf =
  rp_metadata :: resume_metadata
  rp_content :: bytes

definition metadata_of :: "env \<Rightarrow> resume_row \<Rightarrow> resume_metadata" where
  "metadata_of e r = \<lparr>rm_application = uuid_text e (rs_application r), rm_filename = rs_filename r,
     rm_media = rs_media r, rm_size = rs_size r, rm_uploaded = rs_uploaded r,
     rm_updated = rs_updated r\<rparr>"

section \<open>Statements\<close>

definition get_draft_application_resume_target :: "uuid \<Rightarrow> uuid \<Rightarrow> db \<Rightarrow> uuid option" where
  "get_draft_application_resume_target i applicant d =
     map_option ap_id (List.find (\<lambda>a. ap_id a = i \<and> ap_applicant a = applicant \<and>
       ap_status a = StDraft) (applications d))"

definition get_application_resume_for_applicant :: "uuid \<Rightarrow> uuid \<Rightarrow> db \<Rightarrow> resume_row option" where
  "get_application_resume_for_applicant i applicant d =
     List.find (\<lambda>r. rs_application r = i \<and>
       list_ex (\<lambda>a. ap_id a = rs_application r \<and> ap_applicant a = applicant) (applications d))
       (resumes d)"

definition released_status :: "app_status \<Rightarrow> bool" where
  "released_status s = (s = StSubmitted \<or> s = StAccepted \<or> s = StWaitlisted \<or> s = StRejected)"

definition get_application_resume_for_admin :: "uuid \<Rightarrow> db \<Rightarrow> resume_row option" where
  "get_application_resume_for_admin i d =
     List.find (\<lambda>r. rs_application r = i \<and>
       list_ex (\<lambda>a. ap_id a = rs_application r \<and> released_status (ap_status a)) (applications d))
       (resumes d)"

text \<open>The checks of the table come before its keys.\<close>

definition resume_row_ok :: "resume_row \<Rightarrow> bool" where
  "resume_row_ok r \<longleftrightarrow> rs_object r \<noteq> [] \<and> rs_filename r \<noteq> [] \<and> rs_media r = ''application/pdf'' \<and>
     0 < rs_size r \<and> rs_size r \<le> 5242880 \<and> length (rs_sha r) = 32"

definition upsert_application_resume ::
    "env \<Rightarrow> uuid \<Rightarrow> string \<Rightarrow> string \<Rightarrow> int \<Rightarrow> bytes \<Rightarrow> db \<Rightarrow> db_error + resume_row \<times> db" where
  "upsert_application_resume e i key filename sz sha d =
     (let row = \<lparr>rs_application = i, rs_object = key, rs_filename = filename,
                 rs_media = ''application/pdf'', rs_size = sz, rs_sha = sha,
                 rs_uploaded = now e, rs_updated = now e\<rparr>
      in if \<not> resume_row_ok row then Inl CheckViolation
         else if list_ex (\<lambda>r. rs_object r = key \<and> rs_application r \<noteq> i) (resumes d)
         then Inl UniqueViolation
         else if list_ex (\<lambda>r. rs_application r = i) (resumes d)
         then Inr (row, d\<lparr>resumes := upd_rows (\<lambda>r. rs_application r = i) (\<lambda>_. row) (resumes d)\<rparr>)
         else if \<not> list_ex (\<lambda>a. ap_id a = i) (applications d) then Inl ForeignKeyViolation
         else Inr (row, d\<lparr>resumes := resumes d @ [row]\<rparr>))"

section \<open>The service\<close>

fun contains_bytes :: "bytes \<Rightarrow> bytes \<Rightarrow> bool" where
  "contains_bytes sub [] = (sub = [])"
| "contains_bytes sub (b # bs) = (strip_prefix sub (b # bs) \<noteq> None \<or> contains_bytes sub bs)"

definition byte_string :: "string \<Rightarrow> bytes" where
  "byte_string s = map of_char s"

text \<open>No rune outside ASCII folds to one of \<^verbatim>\<open>.pdf\<close>, so \<^verbatim>\<open>EqualFold\<close> is ASCII here.\<close>

definition valid_pdf :: "string \<Rightarrow> bytes \<Rightarrow> bool" where
  "valid_pdf filename content \<longleftrightarrow>
     map ascii_lower (path_ext filename) = ''.pdf'' \<and> 8 \<le> length content \<and>
     length content \<le> max_pdf_bytes \<and>
     contains_bytes (byte_string ''%PDF-'') (take (min 1024 (length content)) content) \<and>
     contains_bytes (byte_string ''%%EOF'') (drop (length content - 1024) content)"

definition resume_ids :: "env \<Rightarrow> string \<Rightarrow> string \<Rightarrow> (uuid \<times> uuid) option" where
  "resume_ids e application actor =
     Option.bind (parse_uuid e application) (\<lambda>i. map_option (Pair i) (parse_uuid e actor))"

definition object_key :: "string \<Rightarrow> int \<Rightarrow> string" where
  "object_key application nanos = ''applications/'' @ application @ ''/'' @ itoa nanos @ ''.pdf''"

text \<open>\<^verbatim>\<open>Service.Upload\<close>, with the store's \<^verbatim>\<open>Put\<close> and the clock's nanoseconds.\<close>

definition upload ::
    "env \<Rightarrow> 's put_object \<Rightarrow> int \<Rightarrow> user \<Rightarrow> string \<Rightarrow> string \<Rightarrow> bytes \<Rightarrow>
       (db \<times> 's, resume_error, resume_metadata) tx" where
  "upload e put nanos actor application filename content = (\<lambda>(d, s).
     if \<not> has_role actor RoleApplicant then (Inl RsForbidden, d, s)
     else if \<not> valid_pdf filename content then (Inl RsInvalidPdf, d, s)
     else (case resume_ids e application (user_id actor) of
       None \<Rightarrow> (Inl RsNotFound, d, s)
     | Some (i, applicant) \<Rightarrow>
         if get_draft_application_resume_target i applicant d = None then (Inl RsNotFound, d, s)
         else let key = object_key application nanos in
           (case put key content s of
              (Inl _, s') \<Rightarrow> (Inl RsInternal, d, s')
            | (Inr _, s') \<Rightarrow>
                (case upsert_application_resume e i key (path_base filename)
                        (int (length content)) (sha256 content) d of
                   Inl _ \<Rightarrow> (Inl RsInternal, d, s')
                 | Inr (row, d') \<Rightarrow> (Inr (metadata_of e row), d', s')))))"

definition resume_for_applicant :: "env \<Rightarrow> user \<Rightarrow> string \<Rightarrow> (db, resume_error, resume_metadata) tx" where
  "resume_for_applicant e actor application = query (\<lambda>d.
     bindE (from_option RsNotFound (resume_ids e application (user_id actor))) (\<lambda>(i, applicant).
     bindE (from_option RsNotFound (get_application_resume_for_applicant i applicant d)) (\<lambda>row.
     Inr (metadata_of e row))))"

definition resume_for_admin ::
    "env \<Rightarrow> 's get_object \<Rightarrow> user \<Rightarrow> string \<Rightarrow> (db \<times> 's, resume_error, resume_pdf) tx" where
  "resume_for_admin e get actor application = query (\<lambda>(d, s).
     bindE (guardE (has_role actor RoleOrganizer) RsForbidden) (\<lambda>_.
     bindE (from_option RsNotFound (resume_ids e application (user_id actor))) (\<lambda>(i, _).
     bindE (from_option RsNotFound (get_application_resume_for_admin i d)) (\<lambda>row.
     bindE (wrap_err (\<lambda>_. RsInternal) (get (rs_object row) s)) (\<lambda>content.
     Inr \<lparr>rp_metadata = metadata_of e row, rp_content = content\<rparr>)))))"

section \<open>The invariant of the table\<close>

definition resumes_inv :: "db \<Rightarrow> bool" where
  "resumes_inv d \<longleftrightarrow>
     distinct_on rs_application (resumes d) \<and> distinct_on rs_object (resumes d) \<and>
     (\<forall>r\<in>set (resumes d). resume_row_ok r \<and> rs_application r \<in> ap_id ` set (applications d))"

definition upload_row ::
    "env \<Rightarrow> uuid \<Rightarrow> string \<Rightarrow> int \<Rightarrow> string \<Rightarrow> bytes \<Rightarrow> resume_row" where
  "upload_row e i application nanos filename content =
     \<lparr>rs_application = i, rs_object = object_key application nanos, rs_filename = path_base filename,
      rs_media = ''application/pdf'', rs_size = int (length content), rs_sha = sha256 content,
      rs_uploaded = now e, rs_updated = now e\<rparr>"

lemma path_base_nonempty: "path_base p \<noteq> []"
proof -
  define q where "q = rev (dropWhile (\<lambda>c. c = slash) (rev p))"
  have "last q \<noteq> slash" if "q \<noteq> []"
    using that hd_dropWhile [of "\<lambda>c. c = slash" "rev p"] by (simp add: q_def last_rev)
  then have "q \<noteq> [] \<Longrightarrow> last (split_path q) \<noteq> []" using last_split [of q] by blast
  then show ?thesis by (auto simp: path_base_def Let_def simp flip: q_def)
qed

lemma object_key_ok: "object_key a n \<noteq> [] \<and> pdf_key (object_key a n)"
  by (simp add: object_key_def pdf_key_def)

lemma valid_pdf_length: "valid_pdf f c \<Longrightarrow> 8 \<le> length c \<and> length c \<le> 5242880"
  by (simp add: valid_pdf_def max_pdf_bytes_def)

lemma upload_row_ok: "valid_pdf f c \<Longrightarrow> resume_row_ok (upload_row e i a n f c)"
  using valid_pdf_length [of f c]
  by (auto simp: resume_row_ok_def upload_row_def path_base_nonempty object_key_ok)

lemma filter_key: "distinct_on k rs \<Longrightarrow> r \<in> set rs \<Longrightarrow> filter (\<lambda>x. k x = k r) rs = [r]"
proof (induction rs)
  case (Cons x rs)
  then show ?case by (cases "r = x") (auto simp: filter_empty_conv rev_image_eqI)
qed simp

lemma distinct_on_replace:
  "distinct_on k rs \<Longrightarrow> \<forall>x\<in>set rs. P x \<longrightarrow> x = r \<Longrightarrow> \<forall>x\<in>set rs. k x = k row \<longrightarrow> P x \<Longrightarrow>
     distinct_on k (upd_rows P (\<lambda>_. row) rs)"
proof (induction rs)
  case (Cons x rs)
  then show ?case by (auto simp: set_upd_rows image_iff split: if_splits)
qed simp

text \<open>After an upsert the row is the only one of its application; the others stay.\<close>

lemma upsert_Inr:
  assumes "upsert_application_resume e i key filename sz sha d = Inr (row, d')" and "resumes_inv d"
  shows "resumes_inv d'" and "d' = d\<lparr>resumes := resumes d'\<rparr>"
    and "filter (\<lambda>r. rs_application r = i) (resumes d') = [row]"
    and "filter (\<lambda>r. rs_application r \<noteq> i) (resumes d') = filter (\<lambda>r. rs_application r \<noteq> i) (resumes d)"
    and "row = \<lparr>rs_application = i, rs_object = key, rs_filename = filename,
                 rs_media = ''application/pdf'', rs_size = sz, rs_sha = sha,
                 rs_uploaded = now e, rs_updated = now e\<rparr>"
proof -
  let ?P = "\<lambda>r. rs_application r = i"
  show row: "row = \<lparr>rs_application = i, rs_object = key, rs_filename = filename,
                 rs_media = ''application/pdf'', rs_size = sz, rs_sha = sha,
                 rs_uploaded = now e, rs_updated = now e\<rparr>"
    using assms(1) by (auto simp: upsert_application_resume_def Let_def split: if_splits)
  have ok: "resume_row_ok row" and free: "\<forall>r\<in>set (resumes d). rs_object r = key \<longrightarrow> ?P r"
    using assms(1) by (auto simp: upsert_application_resume_def Let_def list_ex_iff split: if_splits)
  consider (new) "\<forall>r\<in>set (resumes d). \<not> ?P r" "i \<in> ap_id ` set (applications d)"
      "d' = d\<lparr>resumes := resumes d @ [row]\<rparr>"
    | (old) r where "r \<in> set (resumes d)" "?P r" "d' = d\<lparr>resumes := upd_rows ?P (\<lambda>_. row) (resumes d)\<rparr>"
    using assms(1) row
    by (auto simp: upsert_application_resume_def Let_def list_ex_iff split: if_splits)
  then have "resumes_inv d' \<and> d' = d\<lparr>resumes := resumes d'\<rparr> \<and> filter ?P (resumes d') = [row] \<and>
      filter (\<lambda>r. \<not> ?P r) (resumes d') = filter (\<lambda>r. \<not> ?P r) (resumes d)"
  proof cases
    case new
    then have "filter ?P (resumes d) = []" by (simp add: filter_empty_conv)
    moreover have "resumes_inv d'"
      using new assms(2) ok free by (auto simp: resumes_inv_def row)
    ultimately show ?thesis using new(3) by (simp add: row)
  next
    case old
    have "filter ?P (upd_rows ?P (\<lambda>_. row) (resumes d)) = map (\<lambda>_. row) (filter ?P (resumes d))"
      by (induction "resumes d") (auto simp: upd_rows_def row filter_map comp_def)
    moreover have one: "filter ?P (resumes d) = [r]"
      using filter_key [of rs_application "resumes d" r] assms(2) old(1,2) by (simp add: resumes_inv_def)
    moreover have "filter (\<lambda>r. \<not> ?P r) (upd_rows ?P (\<lambda>_. row) rs) = filter (\<lambda>r. \<not> ?P r) rs" for rs
      by (induction rs) (auto simp: row)
    moreover have "resumes_inv d'"
    proof -
      have rk: "rs_application row = i" "rs_object row = key" by (simp_all add: row)
      have inv: "distinct_on rs_application (resumes d)" "distinct_on rs_object (resumes d)"
        "\<forall>r\<in>set (resumes d). resume_row_ok r \<and> rs_application r \<in> ap_id ` set (applications d)"
        using assms(2) by (simp_all add: resumes_inv_def)
      have only: "\<forall>x\<in>set (resumes d). ?P x \<longrightarrow> x = r"
        using distinct_onD [OF inv(1) _ old(1)] old(2) by simp
      have "distinct_on rs_application (resumes d')" "distinct_on rs_object (resumes d')"
        unfolding old(3)
        by (simp_all add: distinct_on_replace [OF inv(1) only] distinct_on_replace [OF inv(2) only] rk free)
      moreover have "resume_row_ok x \<and> rs_application x \<in> ap_id ` set (applications d')"
        if x: "x \<in> set (resumes d')" for x
      proof -
        have "x \<in> set (upd_rows ?P (\<lambda>_. row) (resumes d))" using x by (simp add: old(3))
        then obtain y where "y \<in> set (resumes d)" "x = (if ?P y then row else y)" by (rule upd_rowsE)
        moreover from this(1) have "resume_row_ok y \<and> rs_application y \<in> ap_id ` set (applications d)"
          using inv(3) by blast
        ultimately show ?thesis using ok rk by (cases "?P y") (simp_all add: old(3))
      qed
      ultimately show ?thesis unfolding resumes_inv_def by blast
    qed
    ultimately show ?thesis using old(3) by simp
  qed
  then show "resumes_inv d'" and "d' = d\<lparr>resumes := resumes d'\<rparr>" and "filter ?P (resumes d') = [row]"
    and "filter (\<lambda>r. \<not> ?P r) (resumes d') = filter (\<lambda>r. \<not> ?P r) (resumes d)"
    by blast+
qed

section \<open>Uploads\<close>

text \<open>What an upload that returned left behind, and what each error says.\<close>

definition upload_contract ::
    "env \<Rightarrow> 's put_object \<Rightarrow> int \<Rightarrow> user \<Rightarrow> string \<Rightarrow> string \<Rightarrow> bytes \<Rightarrow> db \<Rightarrow> 's \<Rightarrow>
       resume_error + resume_metadata \<Rightarrow> db \<Rightarrow> 's \<Rightarrow> bool" where
  "upload_contract e put nanos actor application filename content d s r d' s' \<longleftrightarrow>
     (case r of
        Inr m \<Rightarrow> has_role actor RoleApplicant \<and> valid_pdf filename content \<and>
          put (object_key application nanos) content s = (Inr (), s') \<and>
          (\<exists>a\<in>set (applications d). \<exists>row.
             parse_uuid e application = Some (ap_id a) \<and>
             parse_uuid e (user_id actor) = Some (ap_applicant a) \<and> ap_status a = StDraft \<and>
             row = upload_row e (ap_id a) application nanos filename content \<and>
             m = metadata_of e row \<and> d' = d\<lparr>resumes := resumes d'\<rparr> \<and>
             filter (\<lambda>r. rs_application r = ap_id a) (resumes d') = [row] \<and>
             filter (\<lambda>r. rs_application r \<noteq> ap_id a) (resumes d') =
               filter (\<lambda>r. rs_application r \<noteq> ap_id a) (resumes d))
      | Inl err \<Rightarrow> d' = d \<and> (err \<noteq> RsInternal \<longrightarrow> s' = s) \<and>
          (err = RsForbidden \<longleftrightarrow> \<not> has_role actor RoleApplicant) \<and>
          (err = RsInvalidPdf \<longleftrightarrow> has_role actor RoleApplicant \<and> \<not> valid_pdf filename content) \<and>
          (err = RsNotFound \<longleftrightarrow> has_role actor RoleApplicant \<and> valid_pdf filename content \<and>
             \<not> (\<exists>a\<in>set (applications d). parse_uuid e application = Some (ap_id a) \<and>
                  parse_uuid e (user_id actor) = Some (ap_applicant a) \<and> ap_status a = StDraft)))"

lemma resume_target_iff:
  "(case resume_ids e application (user_id actor) of None \<Rightarrow> False
    | Some (i, applicant) \<Rightarrow> get_draft_application_resume_target i applicant d \<noteq> None) \<longleftrightarrow>
   (\<exists>a\<in>set (applications d). parse_uuid e application = Some (ap_id a) \<and>
      parse_uuid e (user_id actor) = Some (ap_applicant a) \<and> ap_status a = StDraft)"
  by (auto simp: resume_ids_def get_draft_application_resume_target_def find_None_iff
      split: option.splits Option.bind_splits)

text \<open>An upload past its checks: the store, then the row.\<close>

lemma upload_cases:
  assumes "upload e put nanos actor application filename content (d, s) = (r, d', s')"
  obtains (forbidden) "r = Inl RsForbidden" "\<not> has_role actor RoleApplicant" "d' = d" "s' = s"
    | (invalid) "r = Inl RsInvalidPdf" "has_role actor RoleApplicant" "\<not> valid_pdf filename content"
        "d' = d" "s' = s"
    | (missing) "r = Inl RsNotFound" "has_role actor RoleApplicant" "valid_pdf filename content"
        "\<not> (case resume_ids e application (user_id actor) of None \<Rightarrow> False
           | Some (i, applicant) \<Rightarrow> get_draft_application_resume_target i applicant d \<noteq> None)"
        "d' = d" "s' = s"
    | (failed) "r = Inl RsInternal" "has_role actor RoleApplicant" "valid_pdf filename content"
        "(case resume_ids e application (user_id actor) of None \<Rightarrow> False
           | Some (i, applicant) \<Rightarrow> get_draft_application_resume_target i applicant d \<noteq> None)"
        "d' = d"
    | (saved) i applicant row where "has_role actor RoleApplicant" "valid_pdf filename content"
        "resume_ids e application (user_id actor) = Some (i, applicant)"
        "get_draft_application_resume_target i applicant d \<noteq> None"
        "put (object_key application nanos) content s = (Inr (), s')"
        "upsert_application_resume e i (object_key application nanos) (path_base filename)
           (int (length content)) (sha256 content) d = Inr (row, d')"
        "r = Inr (metadata_of e row)"
  using assms
  by (auto simp: upload_def Let_def split: if_splits option.splits sum.splits prod.splits)

lemma upload_holds:
  assumes run: "upload e put nanos actor application filename content (d, s) = (r, d', s')"
    and inv: "resumes_inv d"
  shows "upload_contract e put nanos actor application filename content d s r d' s'"
    and "resumes_inv d'"
proof -
  have "upload_contract e put nanos actor application filename content d s r d' s' \<and> resumes_inv d'"
  proof (rule upload_cases [OF run])
    fix i applicant row
    assume g: "has_role actor RoleApplicant" "valid_pdf filename content"
        "resume_ids e application (user_id actor) = Some (i, applicant)"
        "get_draft_application_resume_target i applicant d \<noteq> None"
        "put (object_key application nanos) content s = (Inr (), s')"
        "upsert_application_resume e i (object_key application nanos) (path_base filename)
           (int (length content)) (sha256 content) d = Inr (row, d')"
        "r = Inr (metadata_of e row)"
    note u = upsert_Inr [OF g(6) inv]
    have row: "row = upload_row e i application nanos filename content"
      using u(5) by (simp add: upload_row_def)
    obtain a where a: "a \<in> set (applications d)" "parse_uuid e application = Some (ap_id a)"
        "parse_uuid e (user_id actor) = Some (ap_applicant a)" "ap_status a = StDraft"
      using resume_target_iff [of d e application actor] g(3,4) by auto
    then have "ap_id a = i" using g(3) by (auto simp: resume_ids_def)
    then have "upload_contract e put nanos actor application filename content d s r d' s'"
      unfolding upload_contract_def g(7) sum.case
      using g(1,2,5) a u(2-4) row by (intro conjI bexI [of _ a] exI [of _ row]) simp_all
    with u(1) show ?thesis by blast
  qed (use inv resume_target_iff [of d e application actor] in \<open>simp_all add: upload_contract_def\<close>)
  then show "upload_contract e put nanos actor application filename content d s r d' s'"
    and "resumes_inv d'" by blast+
qed

text \<open>C28. An upload succeeds only for an applicant, with a file named and framed as a PDF of 8
  bytes to 5 MiB, for the applicant's own draft; then the object is in the store, the row of the
  application is the only one it has, with the object's key, size and SHA-256 digest, and no
  other row changed. Each error but the internal one says exactly which check failed and leaves
  database and store as they were; the internal one leaves the database. The table's constraints
  hold after every outcome.\<close>

theorem upload_spec:
  assumes "upload e put nanos actor application filename content (d, s) = (r, d', s')"
    and "resumes_inv d"
  shows "upload_contract e put nanos actor application filename content d s r d' s' \<and> resumes_inv d'"
  using upload_holds [OF assms] by blast

subsection \<open>A concrete upload\<close>

definition sample_disk_calls :: disk_faults where
  "sample_disk_calls = \<lparr>df_fails = (\<lambda>_. False), df_written = 0, df_random = [''7'']\<rparr>"

definition sample_pdf :: bytes where
  "sample_pdf = byte_string ''%PDF-1%%EOF''"

definition sample_uploader :: user where
  "sample_uploader = \<lparr>user_id = ''xx'', user_clerk = ''b'', user_email = ''b@x.ca'', user_name = None,
     user_role_set = {RoleApplicant}\<rparr>"

abbreviation sample_upload :: "(db \<times> disk, resume_error, resume_metadata) tx" where
  "sample_upload \<equiv> upload sample_env (file_put ''/srv'' sample_disk_calls) 5 sample_uploader
     ''xxxxxxxxx'' ''cv.PDF'' sample_pdf"

definition sample_resume_row :: resume_row where
  "sample_resume_row = upload_row sample_env 9 ''xxxxxxxxx'' 5 ''cv.PDF'' sample_pdf"

lemma sample_pdf_valid: "valid_pdf ''cv.PDF'' sample_pdf"
proof -
  have "map ascii_lower (path_ext ''cv.PDF'') = ''.pdf''" by code_simp
  then show ?thesis
    by (simp add: valid_pdf_def byte_string_def sample_pdf_def max_pdf_bytes_def)
qed

lemma sample_stored:
  "\<exists>s'. file_put ''/srv'' sample_disk_calls (object_key ''xxxxxxxxx'' 5) sample_pdf (\<lambda>_. None) =
     (Inr (), s')"
proof -
  have "(char_of (53 :: nat) :: char) = CHR ''5''" by code_simp
  then have "object_key ''xxxxxxxxx'' 5 = ''applications/xxxxxxxxx/5.pdf''"
    by (simp add: object_key_def itoa_def digits.simps)
  moreover have
    "file_path ''/srv'' ''applications/xxxxxxxxx/5.pdf'' = Inr ''/srv/applications/xxxxxxxxx/5.pdf''"
    "path_dir ''/srv/applications/xxxxxxxxx/5.pdf'' = ''/srv/applications/xxxxxxxxx''"
    by code_simp+
  ultimately show ?thesis
    by (simp add: file_put_def fill_temporary_def create_temporary_def sample_disk_calls_def)
qed

lemma sample_upload_runs:
  "\<exists>s'. sample_upload (sample_submittable_db, \<lambda>_. None) =
     (Inr (metadata_of sample_env sample_resume_row),
      sample_submittable_db\<lparr>resumes := [sample_resume_row]\<rparr>, s')"
proof -
  obtain s' where put: "file_put ''/srv'' sample_disk_calls (object_key ''xxxxxxxxx'' 5) sample_pdf
      (\<lambda>_. None) = (Inr (), s')" using sample_stored by blast
  have ids: "resume_ids sample_env ''xxxxxxxxx'' (user_id sample_uploader) = Some (9, 2)"
    by code_simp
  have target: "get_draft_application_resume_target 9 2 sample_submittable_db \<noteq> None"
    by code_simp
  have role: "has_role sample_uploader RoleApplicant"
    by (simp add: has_role_def sample_uploader_def)
  have "upsert_application_resume sample_env 9 (object_key ''xxxxxxxxx'' 5) (path_base ''cv.PDF'')
      (int (length sample_pdf)) (sha256 sample_pdf) sample_submittable_db =
      Inr (sample_resume_row, sample_submittable_db\<lparr>resumes := [sample_resume_row]\<rparr>)"
    using upload_row_ok [OF sample_pdf_valid, of sample_env 9 "''xxxxxxxxx''" 5]
    by (simp add: upsert_application_resume_def Let_def sample_resume_row_def upload_row_def
        sample_submittable_db_def sample_intake_db_def sample_users_db_def empty_db_def)
  then show ?thesis
    using put ids target role sample_pdf_valid by (simp add: upload_def)
qed

lemma sample_resumes_inv: "resumes_inv sample_submittable_db"
  by (simp add: resumes_inv_def sample_submittable_db_def sample_intake_db_def sample_users_db_def
      empty_db_def)

theorem upload_spec_witness:
  "\<exists>m d' s'. sample_upload (sample_submittable_db, \<lambda>_. None) = (Inr m, d', s') \<and>
     upload_contract sample_env (file_put ''/srv'' sample_disk_calls) 5 sample_uploader ''xxxxxxxxx''
       ''cv.PDF'' sample_pdf sample_submittable_db (\<lambda>_. None) (Inr m) d' s'"
proof -
  obtain m d' s' where "sample_upload (sample_submittable_db, \<lambda>_. None) = (Inr m, d', s')"
    using sample_upload_runs by blast
  with upload_spec [OF this sample_resumes_inv] show ?thesis by blast
qed

section \<open>From the upload to the organizer\<close>

lemma resume_for_admin_Inr:
  assumes "has_role actor RoleOrganizer" and "resume_ids e application (user_id actor) = Some (i, u)"
    and "distinct_on rs_application (resumes d)" and "row \<in> set (resumes d)" and "rs_application row = i"
    and "a \<in> set (applications d)" and "ap_id a = i" and "released_status (ap_status a)"
    and "get (rs_object row) s = Inr content"
  shows "resume_for_admin e get actor application (d, s) =
    (Inr \<lparr>rp_metadata = metadata_of e row, rp_content = content\<rparr>, d, s)"
proof -
  have "get_application_resume_for_admin i d = Some row"
    unfolding get_application_resume_for_admin_def
    using assms by (intro find_key_and) (auto simp: list_ex_iff)
  with assms show ?thesis by (simp add: resume_for_admin_def query_def)
qed

lemma intake_inv_resumes [simp]: "intake_inv pa (d\<lparr>resumes := x\<rparr>) = intake_inv pa d"
  by (simp add: intake_inv_def stored_answers_ok_def answers_of_def)

text \<open>After a submission that returned, the application is released to the organizers.\<close>

lemma submitted_released:
  assumes "submit e a input d = (Inr v, d')" and "intake_inv (parse_address e) d"
    and "parse_uuid e (si_application input) = Some i"
  obtains x where "x \<in> set (applications d')" and "ap_id x = i" and "released_status (ap_status x)"
    and "resumes d' = resumes d"
proof -
  obtain row where row: "row \<in> set (applications d)" "ap_id row = i"
    and eff: "if projected_status (ap_status row) = StSubmitted then d' = d
       else submitted_effect e (apl_email a) row d d'"
    using submit_contract_holds(1) [OF assms(1,2)] assms(3)
    by (auto simp: submit_contract_def split: if_splits)
  show thesis
  proof (cases "projected_status (ap_status row) = StSubmitted")
    case True
    with row eff that [of row] show thesis by (auto simp: projected_submitted released_status_def)
  next
    case False
    with eff obtain X where "d' = d\<lparr>applications := upd_rows (\<lambda>x. ap_id x = ap_id row)
        (mark_submitted e (apl_email a)) (applications d), outbox := X\<rparr>"
      by (auto simp: submitted_effect_def)
    moreover have "mark_submitted e (apl_email a) row \<in> set (upd_rows (\<lambda>x. ap_id x = ap_id row)
        (mark_submitted e (apl_email a)) (applications d))"
      using row(1) by (rule upd_rows_hit) simp
    ultimately show thesis
      using row(2) by (intro that [of "mark_submitted e (apl_email a) row"])
        (simp_all add: mark_submitted_def [of e _ row] released_status_def)
  qed
qed

text \<open>C29. What an applicant uploads is what the organizers download: once the draft is
  submitted, an organizer's request returns the metadata the upload answered and the very bytes,
  read back from the directory store. The upload wrote one file, below the store's root, along
  components none of which is empty, a dot or a double dot.\<close>

theorem resume_roundtrip:
  assumes "new_file_store w raw = Inr root"
    and "upload e (file_put root w) nanos owner application filename content (d, s) = (Inr m, d1, s1)"
    and "resumes_inv d" and "intake_inv (parse_address e) d"
    and "submit (e\<lparr>now := t\<rparr>) a input d1 = (Inr v, d2)" and "si_application input = application"
    and "has_role admin RoleOrganizer" and "parse_uuid e (user_id admin) = Some u"
  shows "resume_for_admin e (file_get root (calm w')) admin application (d2, s1) =
      (Inr \<lparr>rp_metadata = m, rp_content = content\<rparr>, d2, s1) \<and>
    (\<exists>cs. cs \<noteq> [] \<and> (\<forall>c\<in>set cs. proper_part c) \<and> s1 = s(below (path_clean root) cs \<mapsto> content))"
proof -
  have root: "root \<noteq> []" by (rule new_file_store_root [OF assms(1)])
  have c: "upload_contract e (file_put root w) nanos owner application filename content d s
      (Inr m) d1 s1" and inv1: "resumes_inv d1"
    using upload_holds [OF assms(2,3)] by blast+
  then obtain i row where put: "file_put root w (object_key application nanos) content s = (Inr (), s1)"
    and i: "parse_uuid e application = Some i" and d1: "d1 = d\<lparr>resumes := resumes d1\<rparr>"
    and only: "filter (\<lambda>r. rs_application r = i) (resumes d1) = [row]"
    and row: "row = upload_row e i application nanos filename content" "m = metadata_of e row"
    by (auto simp: upload_contract_def)
  have key: "rs_object row = object_key application nanos" by (simp add: row upload_row_def)
  have "intake_inv (parse_address (e\<lparr>now := t\<rparr>)) d1"
    using assms(4) unfolding d1 [symmetric] by (subst d1) (simp add: intake_inv_resumes)
  then obtain x where x: "x \<in> set (applications d2)" "ap_id x = i" "released_status (ap_status x)"
    and same: "resumes d2 = resumes d1"
    using submitted_released [OF assms(5)] assms(6) i by auto
  have mem: "row \<in> set (resumes d2)" "rs_application row = i"
    using only same by (metis (mono_tags) filter_eq_ConsD in_set_conv_decomp)+
  have got: "file_get root (calm w') (rs_object row) s1 = Inr content"
    using disk_store.get_put [OF _ put] root object_key_ok by (simp add: key)
  have "distinct_on rs_application (resumes d2)" using inv1 by (simp add: same resumes_inv_def)
  moreover have "resume_ids e application (user_id admin) = Some (i, u)"
    using i assms(8) by (simp add: resume_ids_def)
  ultimately have "resume_for_admin e (file_get root (calm w')) admin application (d2, s1) =
      (Inr \<lparr>rp_metadata = m, rp_content = content\<rparr>, d2, s1)"
    unfolding row(2) using assms(7) mem x got by (intro resume_for_admin_Inr)
  moreover obtain path where "file_path root (object_key application nanos) = Inr path"
    "s1 = s(path \<mapsto> content)"
    by (rule file_put_pdf [OF put]) (use root object_key_ok in auto)
  ultimately show ?thesis by (metis file_path_Inr root)
qed

theorem resume_roundtrip_witness:
  "\<exists>m d1 s1 v d2. sample_upload (sample_submittable_db, \<lambda>_. None) = (Inr m, d1, s1) \<and>
     submit sample_env sample_applicant \<lparr>si_application = ''xxxxxxxxx'', si_lock = 0\<rparr> d1 = (Inr v, d2) \<and>
     resume_for_admin sample_env (file_get ''/srv'' (calm sample_disk_calls)) sample_organizer
       ''xxxxxxxxx'' (d2, s1) = (Inr \<lparr>rp_metadata = m, rp_content = sample_pdf\<rparr>, d2, s1)"
proof -
  obtain m s1 where up: "sample_upload (sample_submittable_db, \<lambda>_. None) =
      (Inr m, sample_submittable_db\<lparr>resumes := [sample_resume_row]\<rparr>, s1)"
    using sample_upload_runs by blast
  have "\<not> isl (fst (submit sample_env sample_applicant \<lparr>si_application = ''xxxxxxxxx'', si_lock = 0\<rparr>
      (sample_submittable_db\<lparr>resumes := rs\<rparr>)))" for rs
    by code_simp
  then obtain v d2 where sub: "submit sample_env sample_applicant
      \<lparr>si_application = ''xxxxxxxxx'', si_lock = 0\<rparr>
      (sample_submittable_db\<lparr>resumes := [sample_resume_row]\<rparr>) = (Inr v, d2)"
    by (metis isl_def prod.collapse sum.collapse(2))
  have sub': "submit (sample_env\<lparr>now := now sample_env\<rparr>) sample_applicant
      \<lparr>si_application = ''xxxxxxxxx'', si_lock = 0\<rparr>
      (sample_submittable_db\<lparr>resumes := [sample_resume_row]\<rparr>) = (Inr v, d2)"
    using sub by simp
  have store: "new_file_store sample_disk_calls ''/srv'' = Inr ''/srv''" by code_simp
  have "has_role sample_organizer RoleOrganizer" "parse_uuid sample_env (user_id sample_organizer) = Some 1"
    by code_simp+
  then show ?thesis
    using up sub resume_roundtrip [OF store up sample_resumes_inv sample_submittable_inv sub'] by simp
qed

end
