(* ===== verification/Reviews.thy ===== *)
theory Reviews
  imports Applications
begin

text \<open>
  Package \<^verbatim>\<open>reviews\<close>: the organizers' and reviewers' views of submitted applications, the reviewer
  role, the queue assignments and the reviews with their optimistic lock, over the statements of
  \<^verbatim>\<open>sqlc/reviews.sql.go\<close>.
\<close>

section \<open>Errors and scores\<close>

datatype review_error =
    RvForbidden
  | RvNotFound
  | RvInvalidFilter
  | RvInvalidReview
  | RvInvalidReviewer
  | RvNotSubmitted
  | RvNotStarted
  | RvConflict int
  | RvInternal

abbreviation rv_db :: "db_error + 'a \<Rightarrow> review_error + 'a" where
  "rv_db \<equiv> wrap_err (\<lambda>_. RvInternal)"

text \<open>A JSON number literal as an \<^verbatim>\<open>int32\<close>: an optional sign and digits, nothing else.\<close>

definition digit_value :: "char \<Rightarrow> int option" where
  "digit_value c = (if in_range 48 57 c then Some (int (of_char c) - 48) else None)"

fun parse_digits :: "int \<Rightarrow> string \<Rightarrow> int option" where
  "parse_digits n [] = Some n"
| "parse_digits n (c # cs) =
     (case digit_value c of None \<Rightarrow> None | Some v \<Rightarrow> parse_digits (10 * n + v) cs)"

definition parse_int32 :: "string \<Rightarrow> int option" where
  "parse_int32 s =
     (case (case s of [] \<Rightarrow> None
            | c # cs \<Rightarrow> if c = CHR ''-'' then (if cs = [] then None else map_option uminus (parse_digits 0 cs))
                       else parse_digits 0 s) of
        None \<Rightarrow> None | Some n \<Rightarrow> if int4_ok n then Some n else None)"

text \<open>\<^verbatim>\<open>encoding/json\<close> matches the keys of a struct under case folding; the long s is the only
  non-ASCII rune that folds to a letter of \<^verbatim>\<open>score\<close>.\<close>

fun fold_key :: "string \<Rightarrow> string" where
  "fold_key (a # b # cs) =
     (if a = CHR 0xC5 \<and> b = CHR 0xBF then CHR ''s'' # fold_key cs else ascii_lower a # fold_key (b # cs))"
| "fold_key [a] = [ascii_lower a]"
| "fold_key [] = []"

fun score_fields :: "int option \<Rightarrow> (string \<times> json) list \<Rightarrow> int option option" where
  "score_fields s [] = Some s"
| "score_fields s ((k, v) # kvs) =
     (if fold_key k \<noteq> ''score'' then None
      else case v of
        JNull \<Rightarrow> score_fields None kvs
      | JNumber t \<Rightarrow> (case parse_int32 t of None \<Rightarrow> None | Some n \<Rightarrow> score_fields (Some n) kvs)
      | _ \<Rightarrow> None)"

definition decode_score :: "json \<Rightarrow> int option" where
  "decode_score j =
     (case j of
        JObject kvs \<Rightarrow> (case score_fields None kvs of
            Some (Some n) \<Rightarrow> if n < 1 \<or> n > 5 then None else Some n
          | _ \<Rightarrow> None)
      | _ \<Rightarrow> None)"

definition encode_score :: "int \<Rightarrow> json" where
  "encode_score n = JObject [(''score'', JNumber (itoa n))]"

definition valid_recommendation :: "string \<Rightarrow> bool" where
  "valid_recommendation s = (s \<in> {''strong_yes'', ''yes'', ''neutral'', ''no'', ''strong_no''})"

section \<open>Statements of reviews.sql\<close>

definition staff_visible :: "app_status \<Rightarrow> bool" where
  "staff_visible s = (s \<in> {StSubmitted, StAccepted, StWaitlisted, StRejected})"

record staff_row =
  stf_id :: uuid
  stf_cycle :: uuid
  stf_form :: uuid
  stf_version :: int
  stf_status :: app_status
  stf_submitted :: "timestamp option"
  stf_applicant :: uuid
  stf_email :: string
  stf_name :: "string option"
  stf_answers :: "(string \<times> json) list"
  stf_created :: timestamp
  stf_updated :: timestamp

text \<open>The joins with the form and the applicant; \<open>snapshot\<close> says whether the address at submission
  comes before the current one.\<close>

definition staff_row_of :: "bool \<Rightarrow> db \<Rightarrow> application_row \<Rightarrow> staff_row option" where
  "staff_row_of snapshot d a =
     (case List.find (\<lambda>f. fm_id f = ap_form a) (forms d) of None \<Rightarrow> None
      | Some f \<Rightarrow> (case List.find (\<lambda>u. u_id u = ap_applicant a) (users d) of None \<Rightarrow> None
        | Some u \<Rightarrow> Some
          \<lparr>stf_id = ap_id a, stf_cycle = ap_cycle a, stf_form = ap_form a, stf_version = fm_version f,
           stf_status = ap_status a, stf_submitted = ap_submitted a, stf_applicant = u_id u,
           stf_email = (case (snapshot, ap_email a) of (True, Some m) \<Rightarrow> m | _ \<Rightarrow> u_email u),
           stf_name = u_name u, stf_answers = answers_of (ap_id a) d, stf_created = ap_created a,
           stf_updated = ap_updated a\<rparr>))"

definition get_organizer_application :: "uuid \<Rightarrow> db \<Rightarrow> staff_row option" where
  "get_organizer_application i d =
     (case List.find (\<lambda>a. ap_id a = i \<and> staff_visible (ap_status a)) (applications d) of
        None \<Rightarrow> None | Some a \<Rightarrow> staff_row_of True d a)"

text \<open>PostgreSQL's \<^verbatim>\<open>ILIKE\<close>, the text of a UUID and the text of a \<^verbatim>\<open>jsonb\<close> value are parameters.\<close>

record text_functions =
  tf_ilike :: "string \<Rightarrow> string \<Rightarrow> bool"
  tf_json :: "json \<Rightarrow> string"

definition matches_search :: "env \<Rightarrow> text_functions \<Rightarrow> string \<Rightarrow> db \<Rightarrow> staff_row \<Rightarrow> string \<Rightarrow> bool" where
  "matches_search e tf search d r primary =
     (let like = (\<lambda>t. tf_ilike tf t (''%'' @ search @ ''%'')) in
      search = [] \<or> like (uuid_text e (stf_id r)) \<or> like primary \<or>
      like (case stf_name r of None \<Rightarrow> [] | Some n \<Rightarrow> n) \<or>
      list_ex (\<lambda>(k, v). like (tf_json tf v)) (stf_answers r))"

definition nulls_last_desc :: "('r \<Rightarrow> timestamp option) \<Rightarrow> 'r list \<Rightarrow> 'r list" where
  "nulls_last_desc k rs =
     sort_key (\<lambda>r. if k r = None then (1::nat) else 0)
       (sort_key (\<lambda>r. case k r of None \<Rightarrow> 0 | Some t \<Rightarrow> - t) rs)"

text \<open>\<open>status\<close> is absent for the empty filter.\<close>

definition list_organizer_rows ::
    "env \<Rightarrow> text_functions \<Rightarrow> app_status option \<Rightarrow> string \<Rightarrow> db \<Rightarrow> staff_row list" where
  "list_organizer_rows e tf status search d =
     nulls_last_desc stf_submitted (sort_key (\<lambda>r. - stf_created r)
       (concat (map (\<lambda>a. case (staff_row_of True d a, staff_row_of False d a) of
            (Some r, Some p) \<Rightarrow> if matches_search e tf search d r (stf_email p) then [r] else []
          | _ \<Rightarrow> [])
         (filter (\<lambda>a. staff_visible (ap_status a) \<and>
            (case status of None \<Rightarrow> True | Some s \<Rightarrow> ap_status a = s)) (applications d)))))"

record reviewer_row = staff_row +
  rvr_assignment :: "assignment_row option"
  rvr_review :: "review_row option"

definition own_assignment :: "uuid \<Rightarrow> uuid \<Rightarrow> db \<Rightarrow> assignment_row option" where
  "own_assignment i reviewer d =
     List.find (\<lambda>x. ra_application x = i \<and> ra_reviewer x = reviewer) (assignments d)"

definition own_review :: "uuid \<Rightarrow> uuid \<Rightarrow> db \<Rightarrow> review_row option" where
  "own_review i reviewer d =
     List.find (\<lambda>x. rv_application x = i \<and> rv_reviewer x = reviewer) (reviews d)"

definition reviewer_row_of :: "uuid \<Rightarrow> db \<Rightarrow> staff_row \<Rightarrow> reviewer_row" where
  "reviewer_row_of reviewer d r =
     staff_row.extend r \<lparr>rvr_assignment = own_assignment (stf_id r) reviewer d,
                         rvr_review = own_review (stf_id r) reviewer d\<rparr>"

definition get_reviewer_row :: "uuid \<Rightarrow> uuid \<Rightarrow> db \<Rightarrow> reviewer_row option" where
  "get_reviewer_row i reviewer d =
     (case List.find (\<lambda>a. ap_id a = i \<and> ap_status a = StSubmitted) (applications d) of
        None \<Rightarrow> None | Some a \<Rightarrow> map_option (reviewer_row_of reviewer d) (staff_row_of False d a))"

text \<open>Assigned applications first, the latest assignment before the others; a missing submission
  time would come before the others, as \<^verbatim>\<open>DESC\<close> puts it.\<close>

definition list_reviewer_rows :: "uuid \<Rightarrow> db \<Rightarrow> reviewer_row list" where
  "list_reviewer_rows reviewer d =
     nulls_last_desc (\<lambda>r. map_option ra_at (rvr_assignment r))
       (sort_key (\<lambda>r. if stf_submitted r = None then (0::nat) else 1)
         (sort_key (\<lambda>r. case stf_submitted r of None \<Rightarrow> 0 | Some t \<Rightarrow> - t)
           (sort_key (\<lambda>r. - stf_created r)
             (concat (map (\<lambda>a. case staff_row_of True d a of None \<Rightarrow> []
                 | Some r \<Rightarrow> [reviewer_row_of reviewer d r])
               (filter (\<lambda>a. ap_status a = StSubmitted) (applications d)))))))"

definition grant_reviewer_role :: "env \<Rightarrow> uuid \<Rightarrow> uuid \<Rightarrow> db \<Rightarrow> db_error + bool \<times> db" where
  "grant_reviewer_role e i by d =
     (if user_exists i d then insert_role e i RoleReviewer (Some by) d else Inr (False, d))"

definition insert_reviewer_role_audit :: "env \<Rightarrow> uuid \<Rightarrow> uuid \<Rightarrow> db \<Rightarrow> db_error + db" where
  "insert_reviewer_role_audit e actor subject d =
     insert_audit e (Some actor) ''reviewer_role_assigned'' ''user'' subject
       (JObject [(''role'', JString ''reviewer'')]) d"

definition user_has_reviewer_role :: "uuid \<Rightarrow> db \<Rightarrow> bool" where
  "user_has_reviewer_role i d = has_role_row i RoleReviewer d"

definition submitted_application :: "uuid \<Rightarrow> db \<Rightarrow> bool" where
  "submitted_application i d =
     list_ex (\<lambda>a. ap_id a = i \<and> ap_status a = StSubmitted) (applications d)"

definition insert_assignment ::
    "env \<Rightarrow> uuid \<Rightarrow> uuid \<Rightarrow> uuid \<Rightarrow> db \<Rightarrow> db_error + bool \<times> db" where
  "insert_assignment e i reviewer by d =
     (if \<not> (submitted_application i d \<and> user_has_reviewer_role reviewer d) then Inr (False, d)
      else if own_assignment i reviewer d \<noteq> None then Inr (False, d)
      else if \<not> user_exists reviewer d \<or> \<not> user_exists by d then Inl ForeignKeyViolation
      else Inr (True, d\<lparr>assignments := assignments d @
        [\<lparr>ra_application = i, ra_reviewer = reviewer, ra_by = by, ra_at = now e\<rparr>]\<rparr>))"

definition insert_assignment_audit :: "env \<Rightarrow> uuid \<Rightarrow> uuid \<Rightarrow> string \<Rightarrow> db \<Rightarrow> db_error + db" where
  "insert_assignment_audit e actor subject reviewer d =
     insert_audit e (Some actor) ''reviewer_assigned'' ''application'' subject
       (JObject [(''reviewerUserId'', JString reviewer)]) d"

text \<open>\<open>UpdateReviewDraft\<close>: the \<^verbatim>\<open>SELECT\<close> offers a row only for the lock version 0; the row already
  there is replaced when it is a draft of that version. No value when no row was written.\<close>

definition new_review :: "env \<Rightarrow> uuid \<Rightarrow> uuid \<Rightarrow> json \<Rightarrow> string \<Rightarrow> string \<Rightarrow> review_row" where
  "new_review e i reviewer score recommendation notes =
     \<lparr>rv_id = fresh e 0, rv_application = i, rv_reviewer = reviewer, rv_status = RevDraft,
      rv_score = score, rv_recommendation = Some recommendation,
      rv_notes = (if notes = [] then None else Some notes), rv_submitted = None, rv_lock = 1,
      rv_created = now e, rv_updated = now e\<rparr>"

definition redrafted :: "env \<Rightarrow> json \<Rightarrow> string \<Rightarrow> string \<Rightarrow> review_row \<Rightarrow> review_row" where
  "redrafted e score recommendation notes r =
     r\<lparr>rv_score := score, rv_recommendation := Some recommendation,
       rv_notes := (if notes = [] then None else Some notes), rv_lock := rv_lock r + 1,
       rv_updated := now e\<rparr>"

definition review_at :: "uuid \<Rightarrow> uuid \<Rightarrow> int \<Rightarrow> review_row \<Rightarrow> bool" where
  "review_at i reviewer lock r =
     (rv_application r = i \<and> rv_reviewer r = reviewer \<and> rv_status r = RevDraft \<and> rv_lock r = lock)"

definition update_review_draft ::
    "env \<Rightarrow> uuid \<Rightarrow> uuid \<Rightarrow> json \<Rightarrow> string \<Rightarrow> string \<Rightarrow> int \<Rightarrow> db \<Rightarrow> db_error + (uuid \<times> db) option" where
  "update_review_draft e i reviewer score recommendation notes lock d =
     (if \<not> (submitted_application i d \<and> lock = 0) then Inr None
      else if (case score of JObject _ \<Rightarrow> False | _ \<Rightarrow> True) then Inl CheckViolation
      else case own_review i reviewer d of
        Some r \<Rightarrow>
          if \<not> review_at i reviewer lock r then Inr None
          else if \<not> int4_ok (rv_lock r + 1) then Inl IntegerOutOfRange
          else Inr (Some (rv_id r, d\<lparr>reviews := upd_rows (review_at i reviewer lock)
                 (redrafted e score recommendation notes) (reviews d)\<rparr>))
      | None \<Rightarrow>
          if fresh e 0 \<in> rv_id ` set (reviews d) then Inl UniqueViolation
          else if \<not> user_exists reviewer d then Inl ForeignKeyViolation
          else Inr (Some (fresh e 0, d\<lparr>reviews := reviews d @
                 [new_review e i reviewer score recommendation notes]\<rparr>)))"

definition submitted_review :: "env \<Rightarrow> review_row \<Rightarrow> review_row" where
  "submitted_review e r =
     r\<lparr>rv_status := RevSubmitted, rv_submitted := Some (now e), rv_lock := rv_lock r + 1,
       rv_updated := now e\<rparr>"

definition submit_review_row ::
    "env \<Rightarrow> uuid \<Rightarrow> uuid \<Rightarrow> int \<Rightarrow> db \<Rightarrow> db_error + (uuid \<times> db) option" where
  "submit_review_row e i reviewer lock d =
     (if \<not> submitted_application i d then Inr None
      else case List.find (review_at i reviewer lock) (reviews d) of
        None \<Rightarrow> Inr None
      | Some r \<Rightarrow>
          if \<not> int4_ok (rv_lock r + 1) then Inl IntegerOutOfRange
          else Inr (Some (rv_id r, d\<lparr>reviews := upd_rows (review_at i reviewer lock)
                 (submitted_review e) (reviews d)\<rparr>)))"

definition insert_review_submission_audit ::
    "env \<Rightarrow> uuid \<Rightarrow> uuid \<Rightarrow> string \<Rightarrow> db \<Rightarrow> db_error + db" where
  "insert_review_submission_audit e actor subject application d =
     insert_audit e (Some actor) ''review_submitted'' ''review'' subject
       (JObject [(''applicationId'', JString application)]) d"

section \<open>Views\<close>

record staff_application =
  sv_id :: string
  sv_cycle :: string
  sv_form :: string
  sv_version :: int
  sv_status :: app_status
  sv_submitted :: "timestamp option"
  sv_applicant :: "string \<times> string \<times> string option"
  sv_answers :: answers
  sv_created :: timestamp
  sv_updated :: timestamp

definition application_from_values :: "env \<Rightarrow> 'a staff_row_scheme \<Rightarrow> staff_application" where
  "application_from_values e r =
     \<lparr>sv_id = uuid_text e (stf_id r), sv_cycle = uuid_text e (stf_cycle r),
      sv_form = uuid_text e (stf_form r), sv_version = stf_version r, sv_status = stf_status r,
      sv_submitted = stf_submitted r,
      sv_applicant = (uuid_text e (stf_applicant r), stf_email r, stf_name r),
      sv_answers = answers_from_json (stf_answers r), sv_created = stf_created r,
      sv_updated = stf_updated r\<rparr>"

record review_view =
  rw_id :: string
  rw_status :: review_status
  rw_score :: int
  rw_recommendation :: string
  rw_notes :: "string option"
  rw_lock :: int
  rw_submitted :: "timestamp option"
  rw_created :: timestamp
  rw_updated :: timestamp

record reviewer_application = staff_application +
  rap_assignment :: "(string \<times> timestamp) option"
  rap_review :: "review_view option"

definition review_from_row :: "env \<Rightarrow> review_row \<Rightarrow> review_error + review_view" where
  "review_from_row e r =
     bindE (from_option RvInternal (decode_score (rv_score r))) (\<lambda>score.
     bindE (from_option RvInternal (rv_recommendation r)) (\<lambda>recommendation.
     Inr \<lparr>rw_id = uuid_text e (rv_id r), rw_status = rv_status r, rw_score = score,
          rw_recommendation = recommendation, rw_notes = rv_notes r, rw_lock = rv_lock r,
          rw_submitted = rv_submitted r, rw_created = rv_created r, rw_updated = rv_updated r\<rparr>))"

definition reviewer_application_from_row ::
    "env \<Rightarrow> reviewer_row \<Rightarrow> review_error + reviewer_application" where
  "reviewer_application_from_row e r =
     bindE (case rvr_review r of None \<Rightarrow> Inr None
            | Some x \<Rightarrow> bindE (review_from_row e x) (\<lambda>v. Inr (Some v))) (\<lambda>review.
     Inr (staff_application.extend (application_from_values e r)
       \<lparr>rap_assignment = map_option (\<lambda>x. (uuid_text e (ra_by x), ra_at x)) (rvr_assignment r),
        rap_review = review\<rparr>))"

fun sequence_views :: "('e + 'a) list \<Rightarrow> 'e + 'a list" where
  "sequence_views [] = Inr []"
| "sequence_views (x # xs) = bindE x (\<lambda>v. bindE (sequence_views xs) (\<lambda>vs. Inr (v # vs)))"

section \<open>Operations\<close>

record list_filter =
  lf_status :: string
  lf_search :: string

text \<open>\<open>validApplicationStatus\<close>, with the status the text names.\<close>

definition valid_application_status :: "string \<Rightarrow> app_status option" where
  "valid_application_status s =
     (if s = ''submitted'' then Some StSubmitted else if s = ''accepted'' then Some StAccepted
      else if s = ''waitlisted'' then Some StWaitlisted else if s = ''rejected'' then Some StRejected
      else None)"

definition list_organizer_applications ::
    "env \<Rightarrow> text_functions \<Rightarrow> user \<Rightarrow> list_filter \<Rightarrow> (db, review_error, staff_application list) tx" where
  "list_organizer_applications e tf actor fl = query (\<lambda>d.
     if \<not> has_role actor RoleOrganizer then Inl RvForbidden
     else let status = trim_space (lf_status fl); search = trim_space (lf_search fl) in
       if status \<noteq> [] \<and> valid_application_status status = None then Inl RvInvalidFilter
       else Inr (map (application_from_values e)
              (list_organizer_rows e tf (valid_application_status status) search d)))"

definition get_application_for_organizer ::
    "env \<Rightarrow> user \<Rightarrow> string \<Rightarrow> (db, review_error, staff_application) tx" where
  "get_application_for_organizer e actor application = query (\<lambda>d.
     if \<not> has_role actor RoleOrganizer then Inl RvForbidden
     else bindE (from_option RvNotFound (parse_uuid e application)) (\<lambda>i.
          bindE (from_option RvNotFound (get_organizer_application i d)) (\<lambda>r.
          Inr (application_from_values e r))))"

definition grant_reviewer :: "env \<Rightarrow> user \<Rightarrow> string \<Rightarrow> (db, review_error, unit) tx" where
  "grant_reviewer e actor target = transact (\<lambda>d.
     if \<not> has_role actor RoleOrganizer \<or> user_id actor = target then Inl RvForbidden
     else bindE (from_option RvInternal (parse_uuid e (user_id actor))) (\<lambda>actor_id.
          bindE (from_option RvNotFound (parse_uuid e target)) (\<lambda>target_id.
          if \<not> user_exists target_id d then Inl RvNotFound
          else bindE (rv_db (grant_reviewer_role e target_id actor_id d)) (\<lambda>(assigned, d1).
               bindE (if assigned then rv_db (insert_reviewer_role_audit e actor_id target_id d1)
                      else Inr d1) (\<lambda>d2.
               Inr ((), d2))))))"

definition assign_reviewer ::
    "env \<Rightarrow> user \<Rightarrow> string \<Rightarrow> string \<Rightarrow> (db, review_error, unit) tx" where
  "assign_reviewer e actor application reviewer = transact (\<lambda>d.
     if \<not> has_role actor RoleOrganizer then Inl RvForbidden
     else bindE (from_option RvInternal (parse_uuid e (user_id actor))) (\<lambda>actor_id.
          bindE (from_option RvNotFound (parse_uuid e application)) (\<lambda>i.
          bindE (from_option RvInvalidReviewer (parse_uuid e reviewer)) (\<lambda>reviewer_id.
          bindE (from_option RvNotFound (get_organizer_application i d)) (\<lambda>a.
          if stf_status a \<noteq> StSubmitted then Inl RvNotSubmitted
          else if \<not> user_has_reviewer_role reviewer_id d then Inl RvInvalidReviewer
          else bindE (rv_db (insert_assignment e i reviewer_id actor_id d)) (\<lambda>(assigned, d1).
               bindE (if assigned then rv_db (insert_assignment_audit e actor_id i reviewer d1)
                      else Inr d1) (\<lambda>d2.
               Inr ((), d2))))))))"

definition load_reviewer_application ::
    "env \<Rightarrow> uuid \<Rightarrow> uuid \<Rightarrow> db \<Rightarrow> review_error + reviewer_application" where
  "load_reviewer_application e i reviewer d =
     bindE (from_option RvNotFound (get_reviewer_row i reviewer d)) (reviewer_application_from_row e)"

definition list_reviewer_applications ::
    "env \<Rightarrow> user \<Rightarrow> (db, review_error, reviewer_application list) tx" where
  "list_reviewer_applications e actor = query (\<lambda>d.
     if \<not> has_role actor RoleReviewer then Inl RvForbidden
     else bindE (from_option RvInternal (parse_uuid e (user_id actor))) (\<lambda>reviewer.
          sequence_views (map (reviewer_application_from_row e) (list_reviewer_rows reviewer d))))"

definition get_reviewer_application ::
    "env \<Rightarrow> user \<Rightarrow> string \<Rightarrow> (db, review_error, reviewer_application) tx" where
  "get_reviewer_application e actor application = query (\<lambda>d.
     if \<not> has_role actor RoleReviewer then Inl RvForbidden
     else bindE (from_option RvNotFound (parse_uuid e application)) (\<lambda>i.
          bindE (from_option RvInternal (parse_uuid e (user_id actor))) (\<lambda>reviewer.
          load_reviewer_application e i reviewer d)))"

record review_draft_input =
  ri_application :: string
  ri_lock :: int
  ri_score :: int
  ri_recommendation :: string
  ri_notes :: "string option"

definition review_conflict :: "env \<Rightarrow> uuid \<Rightarrow> uuid \<Rightarrow> db \<Rightarrow> review_error" where
  "review_conflict e i reviewer d =
     (case load_reviewer_application e i reviewer d of
        Inl err \<Rightarrow> err
      | Inr v \<Rightarrow> (case rap_review v of None \<Rightarrow> RvConflict 0 | Some r \<Rightarrow> RvConflict (rw_lock r)))"

text \<open>\<open>submissionConflict\<close> differs for a review that is gone.\<close>

definition review_submission_conflict :: "env \<Rightarrow> uuid \<Rightarrow> uuid \<Rightarrow> db \<Rightarrow> review_error" where
  "review_submission_conflict e i reviewer d =
     (case load_reviewer_application e i reviewer d of
        Inl err \<Rightarrow> err
      | Inr v \<Rightarrow> (case rap_review v of None \<Rightarrow> RvNotStarted | Some r \<Rightarrow> RvConflict (rw_lock r)))"

definition draft_guard :: "reviewer_application \<Rightarrow> int \<Rightarrow> review_error + unit" where
  "draft_guard before lock =
     (case rap_review before of
        Some r \<Rightarrow> if rw_status r \<noteq> RevDraft \<or> rw_lock r \<noteq> lock then Inl (RvConflict (rw_lock r)) else Inr ()
      | None \<Rightarrow> if lock \<noteq> 0 then Inl (RvConflict 0) else Inr ())"

definition save_review_body ::
    "env \<Rightarrow> uuid \<Rightarrow> uuid \<Rightarrow> review_draft_input \<Rightarrow> db \<Rightarrow> review_error + reviewer_application \<times> db" where
  "save_review_body e i reviewer input d =
     bindE (load_reviewer_application e i reviewer d) (\<lambda>before.
     bindE (draft_guard before (ri_lock input)) (\<lambda>_.
     bindE (rv_db (update_review_draft e i reviewer (encode_score (ri_score input))
             (ri_recommendation input) (case ri_notes input of None \<Rightarrow> [] | Some n \<Rightarrow> n)
             (ri_lock input) d)) (\<lambda>written.
     (case written of None \<Rightarrow> Inl (review_conflict e i reviewer d)
      | Some (_, d1) \<Rightarrow>
          bindE (load_reviewer_application e i reviewer d1) (\<lambda>updated. Inr (updated, d1))))))"

definition save_review_draft ::
    "env \<Rightarrow> user \<Rightarrow> review_draft_input \<Rightarrow> (db, review_error, reviewer_application) tx" where
  "save_review_draft e actor input = transact (\<lambda>d.
     if \<not> has_role actor RoleReviewer then Inl RvForbidden
     else if ri_lock input < 0 \<or> ri_score input < 1 \<or> ri_score input > 5
       \<or> \<not> valid_recommendation (ri_recommendation input) then Inl RvInvalidReview
     else bindE (from_option RvNotFound (parse_uuid e (ri_application input))) (\<lambda>i.
          bindE (from_option RvInternal (parse_uuid e (user_id actor))) (\<lambda>reviewer.
          save_review_body e i reviewer input d)))"

definition submit_review_body ::
    "env \<Rightarrow> uuid \<Rightarrow> uuid \<Rightarrow> string \<Rightarrow> int \<Rightarrow> db \<Rightarrow> review_error + reviewer_application \<times> db" where
  "submit_review_body e i reviewer application lock d =
     bindE (load_reviewer_application e i reviewer d) (\<lambda>before.
     case rap_review before of None \<Rightarrow> Inl RvNotStarted
     | Some r \<Rightarrow>
       if rw_status r \<noteq> RevDraft then Inl (RvConflict (rw_lock r))
       else if rw_lock r \<noteq> lock then Inl (RvConflict (rw_lock r))
       else bindE (rv_db (submit_review_row e i reviewer lock d)) (\<lambda>written.
         (case written of None \<Rightarrow> Inl (review_submission_conflict e i reviewer d)
          | Some (j, d1) \<Rightarrow>
              bindE (rv_db (insert_review_submission_audit e reviewer j application d1)) (\<lambda>d2.
              bindE (load_reviewer_application e i reviewer d2) (\<lambda>updated.
              Inr (updated, d2))))))"

record review_submit_input =
  rsi_application :: string
  rsi_lock :: int

definition submit_review ::
    "env \<Rightarrow> user \<Rightarrow> review_submit_input \<Rightarrow> (db, review_error, reviewer_application) tx" where
  "submit_review e actor input = transact (\<lambda>d.
     if \<not> has_role actor RoleReviewer then Inl RvForbidden
     else if rsi_lock input < 0 then Inl RvInvalidReview
     else bindE (from_option RvNotFound (parse_uuid e (rsi_application input))) (\<lambda>i.
          bindE (from_option RvInternal (parse_uuid e (user_id actor))) (\<lambda>reviewer.
          submit_review_body e i reviewer (rsi_application input) (rsi_lock input) d)))"

section \<open>Scores round trip\<close>

lemma digit_value_char [simp]: "k < 10 \<Longrightarrow> digit_value (char_of (48 + k)) = Some (int k)"
  by (simp add: digit_value_def in_range_def)

lemma parse_digits_append:
  "parse_digits n (xs @ ys) = (case parse_digits n xs of None \<Rightarrow> None | Some m \<Rightarrow> parse_digits m ys)"
  by (induction n xs rule: parse_digits.induct) (simp_all split: option.split)

lemma parse_digits_digits: "parse_digits 0 (digits n) = Some (int n)"
proof (induction n rule: digits.induct)
  case (1 n)
  show ?case
  proof (cases "n < 10")
    case True
    then show ?thesis by (subst digits.simps) simp
  next
    case False
    then have "parse_digits 0 (digits (n div 10)) = Some (int (n div 10))" by (rule 1)
    then have "parse_digits 0 (digits n) = Some (10 * int (n div 10) + int (n mod 10))"
      using False by (subst digits.simps) (simp add: parse_digits_append)
    then show ?thesis by (simp add: of_nat_div of_nat_mod)
  qed
qed

lemma digits_first: "\<exists>c cs. digits n = c # cs \<and> c \<noteq> CHR ''-''"
proof (induction n rule: digits.induct)
  case (1 n)
  have c: "char_of (48 + n) \<noteq> CHR ''-''" if "n < 10"
  proof
    assume "char_of (48 + n) = CHR ''-''"
    then have "of_char (char_of (48 + n) :: char) = (of_char (CHR ''-'') :: nat)" by simp
    then show False using that by simp
  qed
  show ?case
  proof (cases "n < 10")
    case True
    then show ?thesis using c by (subst digits.simps) simp
  next
    case False
    with 1 show ?thesis by (subst digits.simps) auto
  qed
qed

lemma parse_itoa:
  assumes "int4_ok n"
  shows "parse_int32 (itoa n) = Some n"
proof -
  obtain c cs where d: "digits (nat (if n < 0 then - n else n)) = c # cs" "c \<noteq> CHR ''-''"
    using digits_first by blast
  have "parse_digits 0 (c # cs) = Some (int (nat (if n < 0 then - n else n)))"
    unfolding d(1) [symmetric] by (rule parse_digits_digits)
  with d assms show ?thesis
    by (cases "n < 0") (simp_all add: parse_int32_def itoa_def del: parse_digits.simps)
qed

lemma decode_encode_score: "1 \<le> n \<Longrightarrow> n \<le> 5 \<Longrightarrow> decode_score (encode_score n) = Some n"
  using parse_itoa [of n] by (simp add: decode_score_def encode_score_def int4_ok_def ascii_lower_def)

lemma decode_score_range: "decode_score j = Some n \<Longrightarrow> 1 \<le> n \<and> n \<le> 5"
  by (auto simp: decode_score_def split: json.split_asm option.split_asm if_split_asm)

section \<open>Lookups\<close>

definition review_key :: "review_row \<Rightarrow> uuid \<times> uuid" where
  "review_key r = (rv_application r, rv_reviewer r)"

definition review_ok :: "review_row \<Rightarrow> bool" where
  "review_ok r \<longleftrightarrow>
     (rv_status r = RevSubmitted \<longleftrightarrow> rv_submitted r \<noteq> None) \<and> 0 \<le> rv_lock r \<and> int4_ok (rv_lock r) \<and>
     decode_score (rv_score r) \<noteq> None \<and>
     (\<exists>x. rv_recommendation r = Some x \<and> valid_recommendation x)"

definition reviews_inv :: "db \<Rightarrow> bool" where
  "reviews_inv d \<longleftrightarrow>
     distinct_on rv_id (reviews d) \<and> distinct_on review_key (reviews d) \<and>
     (\<forall>r\<in>set (reviews d). review_ok r)"

lemma own_review_find: "own_review i j d = List.find (\<lambda>r. review_key r = (i, j)) (reviews d)"
  by (simp add: own_review_def review_key_def)

lemma own_review_Some:
  assumes "own_review i j d = Some r"
  shows "r \<in> set (reviews d)" and "rv_application r = i" and "rv_reviewer r = j"
  using find_SomeD [OF assms [unfolded own_review_def]] by simp_all

lemma own_review_cong: "reviews d' = reviews d \<Longrightarrow> own_review i j d' = own_review i j d"
  by (simp add: own_review_def)

lemma own_review_append:
  "own_review i j (d\<lparr>reviews := reviews d @ [r]\<rparr>) =
     (case own_review i j d of Some x \<Rightarrow> Some x
      | None \<Rightarrow> if review_key r = (i, j) then Some r else None)"
  by (simp add: own_review_find find_append split: option.split)

lemma own_review_upd:
  assumes "\<And>r. review_key (f r) = review_key r"
  shows "own_review i j (d\<lparr>reviews := upd_rows P f (reviews d)\<rparr>) =
    map_option (\<lambda>r. if P r then f r else r) (own_review i j d)"
  by (simp add: own_review_find) (rule find_upd_rows, simp add: assms)

lemma review_at_own:
  assumes "reviews_inv d" and "List.find (review_at i j lock) (reviews d) = Some r"
  shows "own_review i j d = Some r" and "review_at i j lock r"
proof -
  have r: "r \<in> set (reviews d)" "review_at i j lock r" using find_SomeD [OF assms(2)] by auto
  then have "review_key r = (i, j)" by (simp add: review_at_def review_key_def)
  with r(1) assms(1) show "own_review i j d = Some r"
    by (simp add: own_review_find find_key_iff reviews_inv_def)
  show "review_at i j lock r" by (rule r(2))
qed

lemma review_from_row_Inr:
  assumes "review_from_row e r = Inr w"
  shows "rw_status w = rv_status r" and "rw_lock w = rv_lock r" and "rw_notes w = rv_notes r"
    and "rw_submitted w = rv_submitted r" and "rv_recommendation r = Some (rw_recommendation w)"
    and "decode_score (rv_score r) = Some (rw_score w)" and "rw_id w = uuid_text e (rv_id r)"
  using assms by (auto simp: review_from_row_def)

lemma review_from_row_total: "review_ok r \<Longrightarrow> \<exists>w. review_from_row e r = Inr w"
  by (auto simp: review_ok_def review_from_row_def)

definition shown_review :: "env \<Rightarrow> review_row option \<Rightarrow> review_view option \<Rightarrow> bool" where
  "shown_review e x v \<longleftrightarrow>
     (case x of None \<Rightarrow> v = None | Some r \<Rightarrow> \<exists>w. review_from_row e r = Inr w \<and> v = Some w)"

lemma staff_row_of_id: "staff_row_of b d a = Some r \<Longrightarrow> stf_id r = ap_id a"
  by (auto simp: staff_row_of_def split: option.split_asm)

lemma load_reviewer_Inr:
  assumes "load_reviewer_application e i j d = Inr v"
  shows "submitted_application i d" and "shown_review e (own_review i j d) (rap_review v)"
proof -
  obtain row where row: "get_reviewer_row i j d = Some row"
    and v: "reviewer_application_from_row e row = Inr v"
    using assms by (auto simp: load_reviewer_application_def)
  obtain a r where a: "a \<in> set (applications d)" "ap_id a = i" "ap_status a = StSubmitted"
    and r: "staff_row_of False d a = Some r" "row = reviewer_row_of j d r"
    using row by (auto simp: get_reviewer_row_def split: option.split_asm dest!: find_SomeD)
  show "submitted_application i d" using a by (auto simp: submitted_application_def list_ex_iff)
  have "rvr_review row = own_review i j d"
    using staff_row_of_id [OF r(1)] a(2) by (simp add: r(2) reviewer_row_of_def staff_row.defs)
  with v show "shown_review e (own_review i j d) (rap_review v)"
    by (auto simp: reviewer_application_from_row_def shown_review_def staff_application.defs
        split: option.split_asm)
qed

text \<open>A view that loads before a change of the reviews loads after it.\<close>

lemma load_reviewer_total:
  assumes "load_reviewer_application e i j d = Inr v" and "reviews_inv d'"
    and "applications d' = applications d" and "forms d' = forms d" and "users d' = users d"
    and "answers_table d' = answers_table d" and "assignments d' = assignments d"
  shows "\<exists>v'. load_reviewer_application e' i j d' = Inr v'"
proof -
  have same: "staff_row_of False d' = staff_row_of False d"
    by (simp add: fun_eq_iff staff_row_of_def assms(4,5) answers_of_def assms(6) cong: option.case_cong)
  obtain a s where a: "List.find (\<lambda>a. ap_id a = i \<and> ap_status a = StSubmitted) (applications d) = Some a"
    and s: "staff_row_of False d a = Some s"
    using assms(1) by (auto simp: load_reviewer_application_def get_reviewer_row_def split: option.split_asm)
  have "ap_id a = i" using find_SomeD [OF a] by simp
  then have r: "get_reviewer_row i j d' = Some (reviewer_row_of j d' s)" "stf_id s = i"
    using a s by (simp_all add: get_reviewer_row_def assms(3) same staff_row_of_id)
  have "\<exists>w. review_from_row e' x = Inr w" if "own_review i j d' = Some x" for x
    using review_from_row_total assms(2) own_review_Some(1) [OF that] by (simp add: reviews_inv_def)
  then show ?thesis
    using r(2) by (auto simp: load_reviewer_application_def r(1) reviewer_application_from_row_def
        reviewer_row_of_def staff_row.defs split: option.split)
qed

section \<open>Writes of a review\<close>

text \<open>The review of one reviewer for one application is replaced, and nothing else.\<close>

definition review_written :: "uuid \<Rightarrow> uuid \<Rightarrow> review_row \<Rightarrow> db \<Rightarrow> db \<Rightarrow> bool" where
  "review_written i j r d d' \<longleftrightarrow>
     own_review i j d' = Some r \<and>
     (\<forall>k l. (k, l) \<noteq> (i, j) \<longrightarrow> own_review k l d' = own_review k l d) \<and>
     (\<exists>R. d' = d\<lparr>reviews := R\<rparr>)"

lemma upd_review_inv:
  assumes "reviews_inv d" and "\<And>r. rv_id (f r) = rv_id r" and "\<And>r. review_key (f r) = review_key r"
    and "\<And>r. r \<in> set (reviews d) \<Longrightarrow> P r \<Longrightarrow> review_ok (f r)"
  shows "reviews_inv (d\<lparr>reviews := upd_rows P f (reviews d)\<rparr>)"
  using assms by (auto simp: reviews_inv_def distinct_on_upd_rows set_upd_rows)

lemma upd_review_written:
  assumes own: "own_review i j d = Some r" and at: "review_at i j lock r"
    and key: "\<And>r. review_key (f r) = review_key r"
  shows "review_written i j (f r) d (d\<lparr>reviews := upd_rows (review_at i j lock) f (reviews d)\<rparr>)"
proof -
  let ?d = "d\<lparr>reviews := upd_rows (review_at i j lock) f (reviews d)\<rparr>"
  have "own_review k l ?d = own_review k l d" if "(k, l) \<noteq> (i, j)" for k l
  proof (cases "own_review k l d")
    case None
    then show ?thesis by (simp add: own_review_upd key)
  next
    case (Some x)
    then have "\<not> review_at i j lock x" using own_review_Some(2,3) [OF Some] that by (auto simp: review_at_def)
    with Some show ?thesis by (simp add: own_review_upd key)
  qed
  moreover have "own_review i j ?d = Some (f r)" using own at by (simp add: own_review_upd key)
  ultimately show ?thesis unfolding review_written_def by blast
qed

definition drafted :: "env \<Rightarrow> uuid \<Rightarrow> uuid \<Rightarrow> review_draft_input \<Rightarrow> review_row option \<Rightarrow> review_row" where
  "drafted e i j input x =
     (let notes = (case ri_notes input of None \<Rightarrow> [] | Some n \<Rightarrow> n); score = encode_score (ri_score input) in
      case x of None \<Rightarrow> new_review e i j score (ri_recommendation input) notes
      | Some r \<Rightarrow> redrafted e score (ri_recommendation input) notes r)"

lemma drafted_row:
  assumes "\<forall>r. x = Some r \<longrightarrow> rv_status r = RevDraft \<and> rv_lock r = 0"
  shows "rv_status (drafted e i j input x) = RevDraft" and "rv_lock (drafted e i j input x) = 1"
    and "rv_score (drafted e i j input x) = encode_score (ri_score input)"
    and "rv_recommendation (drafted e i j input x) = Some (ri_recommendation input)"
    and "rv_notes (drafted e i j input x) = (if ri_notes input = Some [] then None else ri_notes input)"
  using assms
  by (cases x; cases "ri_notes input"; simp add: drafted_def new_review_def redrafted_def)+

lemma update_review_draft_Some:
  assumes run: "update_review_draft e i j (encode_score (ri_score input)) (ri_recommendation input)
      (case ri_notes input of None \<Rightarrow> [] | Some n \<Rightarrow> n) lock d = Inr (Some (k, d'))"
    and inv: "reviews_inv d" and ok: "1 \<le> ri_score input" "ri_score input \<le> 5"
      "valid_recommendation (ri_recommendation input)"
  shows "lock = 0" and "submitted_application i d"
    and "\<forall>r. own_review i j d = Some r \<longrightarrow> rv_status r = RevDraft \<and> rv_lock r = 0"
    and "review_written i j (drafted e i j input (own_review i j d)) d d'" and "reviews_inv d'"
proof -
  let ?n = "case ri_notes input of None \<Rightarrow> [] | Some n \<Rightarrow> n"
  show g: "lock = 0" "submitted_application i d"
    using run by (auto simp: update_review_draft_def split: if_split_asm)
  have score: "decode_score (encode_score (ri_score input)) \<noteq> None"
    using decode_encode_score [OF ok(1,2)] by simp
  have "(\<forall>r. own_review i j d = Some r \<longrightarrow> rv_status r = RevDraft \<and> rv_lock r = 0) \<and>
    review_written i j (drafted e i j input (own_review i j d)) d d' \<and> reviews_inv d'"
  proof (cases "own_review i j d")
    case None
    let ?r = "new_review e i j (encode_score (ri_score input)) (ri_recommendation input) ?n"
    have d': "d' = d\<lparr>reviews := reviews d @ [?r]\<rparr>" and id: "fresh e 0 \<notin> rv_id ` set (reviews d)"
      using run g None by (auto simp: update_review_draft_def encode_score_def split: if_split_asm)
    have key: "review_key ?r = (i, j)" "rv_id ?r = fresh e 0" by (simp_all add: review_key_def new_review_def)
    have fresh_key: "(i, j) \<notin> review_key ` set (reviews d)"
      using None by (auto simp: own_review_find find_None_iff)
    have "review_ok ?r" using ok score by (simp add: review_ok_def new_review_def int4_ok_def)
    then have "reviews_inv d'" using inv key id fresh_key by (auto simp: d' reviews_inv_def)
    moreover have "review_written i j ?r d d'"
      unfolding review_written_def d' own_review_append key by (auto simp: None split: option.split)
    ultimately show ?thesis using None by (simp add: drafted_def)
  next
    case (Some r)
    let ?f = "redrafted e (encode_score (ri_score input)) (ri_recommendation input) ?n"
    have at: "review_at i j 0 r" and d': "d' = d\<lparr>reviews := upd_rows (review_at i j 0) ?f (reviews d)\<rparr>"
      using run g Some by (auto simp: update_review_draft_def encode_score_def split: if_split_asm)
    have key: "\<And>r. review_key (?f r) = review_key r" "\<And>r. rv_id (?f r) = rv_id r"
      by (simp_all add: review_key_def redrafted_def)
    have "review_ok (?f x)" if "x \<in> set (reviews d)" "review_at i j 0 x" for x
      using that inv ok score by (auto simp: review_ok_def redrafted_def reviews_inv_def int4_ok_def review_at_def)
    then have "reviews_inv d'" unfolding d' by (intro upd_review_inv [OF inv key(2,1)]) simp_all
    moreover have "review_written i j (?f r) d d'"
      unfolding d' by (rule upd_review_written [OF Some at key(1)])
    ultimately show ?thesis using Some at by (simp add: drafted_def review_at_def)
  qed
  then show "\<forall>r. own_review i j d = Some r \<longrightarrow> rv_status r = RevDraft \<and> rv_lock r = 0"
    "review_written i j (drafted e i j input (own_review i j d)) d d'" "reviews_inv d'"
    by blast+
qed

section \<open>Drafts\<close>

definition save_review_contract ::
    "env \<Rightarrow> user \<Rightarrow> review_draft_input \<Rightarrow> db \<Rightarrow> reviewer_application \<Rightarrow> db \<Rightarrow> bool" where
  "save_review_contract e actor input d v d' \<longleftrightarrow>
     (\<exists>i j w. has_role actor RoleReviewer \<and> parse_uuid e (ri_application input) = Some i \<and>
        parse_uuid e (user_id actor) = Some j \<and> submitted_application i d \<and>
        1 \<le> ri_score input \<and> ri_score input \<le> 5 \<and> valid_recommendation (ri_recommendation input) \<and>
        ri_lock input = 0 \<and>
        (\<forall>r. own_review i j d = Some r \<longrightarrow> rv_status r = RevDraft \<and> rv_lock r = 0) \<and>
        review_written i j (drafted e i j input (own_review i j d)) d d' \<and>
        rap_review v = Some w \<and> rw_status w = RevDraft \<and> rw_lock w = 1 \<and> rw_submitted w = None \<and>
        rw_score w = ri_score input \<and> rw_recommendation w = ri_recommendation input \<and>
        rw_notes w = (if ri_notes input = Some [] then None else ri_notes input))"

lemma save_review_Inr:
  assumes run: "save_review_draft e actor input d = (Inr v, d')" and inv: "reviews_inv d"
  obtains i j where "has_role actor RoleReviewer" and "parse_uuid e (ri_application input) = Some i"
    and "parse_uuid e (user_id actor) = Some j" and "1 \<le> ri_score input" and "ri_score input \<le> 5"
    and "valid_recommendation (ri_recommendation input)" and "ri_lock input = 0"
    and "submitted_application i d"
    and "\<forall>r. own_review i j d = Some r \<longrightarrow> rv_status r = RevDraft \<and> rv_lock r = 0"
    and "review_written i j (drafted e i j input (own_review i j d)) d d'" and "reviews_inv d'"
    and "load_reviewer_application e i j d' = Inr v"
proof -
  from run obtain i j where g: "has_role actor RoleReviewer"
    "parse_uuid e (ri_application input) = Some i" "parse_uuid e (user_id actor) = Some j"
    "1 \<le> ri_score input" "ri_score input \<le> 5" "valid_recommendation (ri_recommendation input)" and
    b: "save_review_body e i j input d = Inr (v, d')"
    unfolding save_review_draft_def transact_Inr by (auto split: if_split_asm)
  from b obtain k where w: "update_review_draft e i j (encode_score (ri_score input)) (ri_recommendation input)
      (case ri_notes input of None \<Rightarrow> [] | Some n \<Rightarrow> n) (ri_lock input) d = Inr (Some (k, d'))" and
    l: "load_reviewer_application e i j d' = Inr v"
    unfolding save_review_body_def by (auto split: option.split_asm)
  note u = update_review_draft_Some [OF w inv g(4-6)]
  show thesis by (rule that [OF g u(1-5) l])
qed

lemma save_review_holds:
  assumes run: "save_review_draft e actor input d = (Inr v, d')" and inv: "reviews_inv d"
  shows "save_review_contract e actor input d v d'" and "reviews_inv d'"
proof -
  obtain i j where g: "has_role actor RoleReviewer" "parse_uuid e (ri_application input) = Some i"
    "parse_uuid e (user_id actor) = Some j" "1 \<le> ri_score input" "ri_score input \<le> 5"
    "valid_recommendation (ri_recommendation input)" "ri_lock input = 0" "submitted_application i d"
    "\<forall>r. own_review i j d = Some r \<longrightarrow> rv_status r = RevDraft \<and> rv_lock r = 0" and
    w: "review_written i j (drafted e i j input (own_review i j d)) d d'" and inv': "reviews_inv d'" and
    l: "load_reviewer_application e i j d' = Inr v"
    by (rule save_review_Inr [OF run inv])
  let ?r = "drafted e i j input (own_review i j d)"
  obtain x where x: "review_from_row e ?r = Inr x" "rap_review v = Some x"
    using load_reviewer_Inr(2) [OF l] w by (auto simp: shown_review_def review_written_def)
  have ok: "review_ok ?r"
    using w inv' own_review_Some(1) [of i j d' ?r] by (simp add: review_written_def reviews_inv_def)
  have row: "rv_status ?r = RevDraft" "rv_lock ?r = 1" "rv_score ?r = encode_score (ri_score input)"
    "rv_recommendation ?r = Some (ri_recommendation input)"
    "rv_notes ?r = (if ri_notes input = Some [] then None else ri_notes input)"
    using drafted_row [OF g(9)] by simp_all
  have sub: "rv_submitted ?r = None" using ok row(1) by (simp add: review_ok_def)
  note f = review_from_row_Inr [OF x(1), unfolded row sub]
  have view: "rw_status x = RevDraft" "rw_lock x = 1" "rw_submitted x = None"
    "rw_score x = ri_score input" "rw_recommendation x = ri_recommendation input"
    "rw_notes x = (if ri_notes input = Some [] then None else ri_notes input)"
    using f decode_encode_score [OF g(4,5)] by simp_all
  show "save_review_contract e actor input d v d'"
    unfolding save_review_contract_def
    by (intro exI [of _ i] exI [of _ j] exI [of _ x] conjI g w x(2) view)
  show "reviews_inv d'" by (rule inv')
qed

text \<open>C22. Saving a draft succeeds only for a reviewer, with a score from 1 to 5 and a known
  recommendation, on a submitted application: the reviewer's own review becomes the draft of the
  input with the lock version 1, which the answer shows, and no other review and no other table
  changes.\<close>

theorem save_review_spec:
  assumes "save_review_draft e actor input d = (Inr v, d')" and "reviews_inv d"
  shows "save_review_contract e actor input d v d' \<and> reviews_inv d'"
  using save_review_holds [OF assms] by blast

text \<open>A review that has a lock version above 0 cannot be drafted again, whatever the input.\<close>

lemma save_review_stuck:
  assumes l: "load_reviewer_application e i j d = Inr v" and own: "own_review i j d = Some r"
    and lock: "1 \<le> rv_lock r" and ids: "parse_uuid e (ri_application input) = Some i"
    "parse_uuid e (user_id actor) = Some j" and role: "has_role actor RoleReviewer"
    and valid: "0 \<le> ri_lock input" "1 \<le> ri_score input" "ri_score input \<le> 5"
    "valid_recommendation (ri_recommendation input)"
  shows "save_review_draft e actor input d = (Inl (RvConflict (rv_lock r)), d)"
proof -
  obtain w where w: "rap_review v = Some w" "rw_lock w = rv_lock r"
    using load_reviewer_Inr(2) [OF l] own by (auto simp: shown_review_def review_from_row_Inr)
  have "save_review_body e i j input d = Inl (RvConflict (rv_lock r))"
  proof (cases "rw_status w = RevDraft \<and> rv_lock r = ri_lock input")
    case True
    then have "update_review_draft e i j sc rec ns (ri_lock input) d = Inr None" for sc rec ns
      using lock by (simp add: update_review_draft_def)
    moreover have "review_conflict e i j d = RvConflict (rv_lock r)"
      by (simp add: review_conflict_def l w)
    ultimately show ?thesis using True by (simp add: save_review_body_def l draft_guard_def w)
  next
    case False
    then show ?thesis by (auto simp: save_review_body_def l draft_guard_def w)
  qed
  then show ?thesis
    using ids role valid by (simp add: save_review_draft_def transact_def)
qed

text \<open>A divergence from the API description: a saved draft cannot be saved again, not even with
  its own current version, since \<open>UpdateReviewDraft\<close> offers a row for the version 0 only.\<close>

lemma review_draft_once:
  assumes "save_review_draft e actor input d = (Inr v, d')" and "reviews_inv d"
    and "ri_application again = ri_application input" and "0 \<le> ri_lock again"
    and "1 \<le> ri_score again" and "ri_score again \<le> 5"
    and "valid_recommendation (ri_recommendation again)"
    and "parse_uuid e2 = parse_uuid e"
  shows "save_review_draft e2 actor again d' = (Inl (RvConflict 1), d')"
proof -
  obtain i j where g: "has_role actor RoleReviewer" "parse_uuid e (ri_application input) = Some i"
    "parse_uuid e (user_id actor) = Some j"
    "\<forall>r. own_review i j d = Some r \<longrightarrow> rv_status r = RevDraft \<and> rv_lock r = 0" and
    w: "review_written i j (drafted e i j input (own_review i j d)) d d'" and inv': "reviews_inv d'" and
    l: "load_reviewer_application e i j d' = Inr v"
    by (rule save_review_Inr [OF assms(1,2)])
  obtain v' where l2: "load_reviewer_application e2 i j d' = Inr v'"
    using load_reviewer_total [OF l inv'] by blast
  have own: "own_review i j d' = Some (drafted e i j input (own_review i j d))"
    using w by (simp add: review_written_def)
  show ?thesis
    using save_review_stuck [OF l2 own _ _ _ g(1) assms(4-7)] g(2,3) assms(3,8) drafted_row(2) [OF g(4)]
    by simp
qed

text \<open>When a draft is refused, and with what: in the order of the guards, and a stale version or a
  submitted review is a conflict that names the version now in the table.\<close>

definition save_review_refusal :: "env \<Rightarrow> user \<Rightarrow> review_draft_input \<Rightarrow> db \<Rightarrow> review_error option" where
  "save_review_refusal e actor input d =
     (if \<not> has_role actor RoleReviewer then Some RvForbidden
      else if ri_lock input < 0 \<or> ri_score input \<notin> {1..5} \<or> \<not> valid_recommendation (ri_recommendation input)
        then Some RvInvalidReview
      else case parse_uuid e (ri_application input) of None \<Rightarrow> Some RvNotFound
      | Some i \<Rightarrow> (case parse_uuid e (user_id actor) of None \<Rightarrow> Some RvInternal
      | Some j \<Rightarrow>
          if \<not> submitted_application i d then Some RvNotFound
          else (case own_review i j d of
                  None \<Rightarrow> if ri_lock input = 0 then None else Some (RvConflict 0)
                | Some r \<Rightarrow> if rv_status r = RevDraft \<and> rv_lock r = ri_lock input then None
                            else Some (RvConflict (rv_lock r)))))"

text \<open>The foreign keys the views of an application join over.\<close>

definition references_ok :: "db \<Rightarrow> bool" where
  "references_ok d \<longleftrightarrow>
     (\<forall>a\<in>set (applications d). user_exists (ap_applicant a) d \<and> ap_form a \<in> fm_id ` set (forms d))"

text \<open>A first draft, by a user that exists, under an identifier not drawn before.\<close>

definition draft_insertable :: "env \<Rightarrow> user \<Rightarrow> review_draft_input \<Rightarrow> db \<Rightarrow> bool" where
  "draft_insertable e actor input d \<longleftrightarrow>
     ri_lock input = 0 \<and> fresh e 0 \<notin> rv_id ` set (reviews d) \<and>
     (case parse_uuid e (user_id actor) of None \<Rightarrow> False | Some j \<Rightarrow> user_exists j d)"

lemma staff_row_exists:
  assumes "references_ok d" and "a \<in> set (applications d)"
  shows "\<exists>r. staff_row_of b d a = Some r"
  using assms by (fastforce simp: references_ok_def staff_row_of_def user_exists_def list_ex_iff find_None_iff
      split: option.split)

lemma load_reviewer_outcome:
  assumes inv: "reviews_inv d" and refs: "references_ok d"
  shows "if submitted_application i d then \<exists>v. load_reviewer_application e i j d = Inr v
    else load_reviewer_application e i j d = Inl RvNotFound"
proof (cases "List.find (\<lambda>a. ap_id a = i \<and> ap_status a = StSubmitted) (applications d)")
  case None
  then have "\<not> submitted_application i d" by (auto simp: submitted_application_def list_ex_iff find_None_iff)
  with None show ?thesis by (simp add: load_reviewer_application_def get_reviewer_row_def)
next
  case (Some a)
  then have a: "a \<in> set (applications d)" "ap_id a = i" "ap_status a = StSubmitted"
    by (auto dest: find_SomeD)
  obtain s where s: "staff_row_of False d a = Some s" using staff_row_exists [OF refs a(1)] by blast
  have "\<exists>w. review_from_row e x = Inr w" if "own_review i j d = Some x" for x
    using review_from_row_total inv own_review_Some(1) [OF that] by (simp add: reviews_inv_def)
  then have "\<exists>v. load_reviewer_application e i j d = Inr v"
    using Some s staff_row_of_id [OF s] a(2)
    by (auto simp: load_reviewer_application_def get_reviewer_row_def reviewer_application_from_row_def
        reviewer_row_of_def staff_row.defs split: option.split)
  then show ?thesis using a by (auto simp: submitted_application_def list_ex_iff)
qed

lemma draft_guard_outcome:
  assumes "load_reviewer_application e i j d = Inr v"
  shows "draft_guard v lock =
    (case own_review i j d of
       None \<Rightarrow> if lock = 0 then Inr () else Inl (RvConflict 0)
     | Some r \<Rightarrow> if rv_status r = RevDraft \<and> rv_lock r = lock then Inr () else Inl (RvConflict (rv_lock r)))"
  using load_reviewer_Inr(2) [OF assms]
  by (auto simp: shown_review_def draft_guard_def review_from_row_Inr split: option.splits)

lemma first_draft_written:
  assumes inv: "reviews_inv d" and l: "load_reviewer_application e i j d = Inr v"
    and own: "\<forall>r. own_review i j d = Some r \<longrightarrow> rv_status r = RevDraft \<and> rv_lock r = 0"
    and ok: "1 \<le> ri_score input" "ri_score input \<le> 5" "valid_recommendation (ri_recommendation input)"
    and fits: "ri_lock input = 0" "fresh e 0 \<notin> rv_id ` set (reviews d)" "user_exists j d"
  shows "\<exists>w d'. save_review_body e i j input d = Inr (w, d')"
proof -
  let ?n = "case ri_notes input of None \<Rightarrow> [] | Some n \<Rightarrow> n"
  let ?u = "update_review_draft e i j (encode_score (ri_score input)) (ri_recommendation input) ?n 0 d"
  have sub: "submitted_application i d" by (rule load_reviewer_Inr(1) [OF l])
  have "\<exists>k d1. ?u = Inr (Some (k, d1))"
    using sub own fits own_review_Some(2,3)
    by (auto simp: update_review_draft_def encode_score_def review_at_def int4_ok_def split: option.split)
  then obtain k d1 where u: "?u = Inr (Some (k, d1))" by blast
  note w = update_review_draft_Some [OF u inv ok]
  have same: "applications d1 = applications d" "forms d1 = forms d" "users d1 = users d"
    "answers_table d1 = answers_table d" "assignments d1 = assignments d"
    using w(4) by (auto simp: review_written_def)
  obtain x where "load_reviewer_application e i j d1 = Inr x"
    using load_reviewer_total [OF l w(5) same] by blast
  moreover have "draft_guard v 0 = Inr ()"
    using own by (auto simp: draft_guard_outcome [OF l] split: option.split)
  ultimately show ?thesis using l u fits(1) by (simp add: save_review_body_def)
qed

text \<open>C23. A draft is refused, and nothing written, in these cases and with these errors, in this
  order: the caller is no reviewer; the version, score or recommendation is invalid; the
  application is unknown or not submitted; the reviewer's review is submitted, or has another
  version than the draft says, which is a conflict naming the current version, so that no
  update is lost. A first draft outside these cases is written.\<close>

theorem save_review_refusals:
  assumes "reviews_inv d" and "references_ok d"
  shows "case save_review_refusal e actor input d of
      Some err \<Rightarrow> save_review_draft e actor input d = (Inl err, d)
    | None \<Rightarrow> draft_insertable e actor input d \<longrightarrow>
        (\<exists>v d'. save_review_draft e actor input d = (Inr v, d'))"
proof (cases "has_role actor RoleReviewer \<and> 0 \<le> ri_lock input \<and> 1 \<le> ri_score input \<and> ri_score input \<le> 5 \<and>
    valid_recommendation (ri_recommendation input) \<and> parse_uuid e (ri_application input) \<noteq> None \<and>
    parse_uuid e (user_id actor) \<noteq> None")
  case False
  then show ?thesis
    by (auto simp: save_review_refusal_def save_review_draft_def transact_def split: option.split)
next
  case True
  then obtain i j where g: "has_role actor RoleReviewer" "0 \<le> ri_lock input" "1 \<le> ri_score input"
    "ri_score input \<le> 5" "valid_recommendation (ri_recommendation input)"
    "parse_uuid e (ri_application input) = Some i" "parse_uuid e (user_id actor) = Some j" by blast
  then have run: "save_review_draft e actor input d =
      (case save_review_body e i j input d of Inl err \<Rightarrow> (Inl err, d) | Inr (v, d') \<Rightarrow> (Inr v, d'))"
    by (simp add: save_review_draft_def transact_def)
  note load = load_reviewer_outcome [OF assms, of i e j]
  show ?thesis
  proof (cases "submitted_application i d")
    case False
    then show ?thesis using g load by (simp add: save_review_refusal_def run save_review_body_def)
  next
    case True
    then obtain v where l: "load_reviewer_application e i j d = Inr v" using load by auto
    show ?thesis
    proof (cases "draft_guard v (ri_lock input)")
      case (Inl err)
      then have "save_review_draft e actor input d = (Inl err, d)"
        by (simp add: run save_review_body_def l)
      moreover have "save_review_refusal e actor input d = Some err"
        using Inl g True by (cases "own_review i j d")
          (auto simp: save_review_refusal_def draft_guard_outcome [OF l] split: if_split_asm)
      ultimately show ?thesis by simp
    next
      case (Inr u)
      then have own: "case own_review i j d of None \<Rightarrow> ri_lock input = 0
          | Some r \<Rightarrow> rv_status r = RevDraft \<and> rv_lock r = ri_lock input"
        by (simp add: draft_guard_outcome [OF l] split: option.splits if_splits)
      then have "save_review_refusal e actor input d = None"
        using g True by (cases "own_review i j d") (auto simp: save_review_refusal_def)
      moreover have "\<exists>w d'. save_review_body e i j input d = Inr (w, d')"
        if "draft_insertable e actor input d"
        using that own g first_draft_written [OF assms(1) l _ g(3-5)]
        by (auto simp: draft_insertable_def split: option.splits)
      ultimately show ?thesis unfolding run by fastforce
    qed
  qed
qed

section \<open>Submission\<close>

lemma submit_review_row_Some:
  assumes "submit_review_row e i j lock d = Inr (Some (k, d'))" and inv: "reviews_inv d"
  obtains r where "own_review i j d = Some r" and "review_at i j lock r" and "k = rv_id r"
    and "review_written i j (submitted_review e r) d d'" and "reviews_inv d'"
proof -
  obtain r where r: "List.find (review_at i j lock) (reviews d) = Some r" "k = rv_id r"
    "int4_ok (rv_lock r + 1)" and
    d': "d' = d\<lparr>reviews := upd_rows (review_at i j lock) (submitted_review e) (reviews d)\<rparr>"
    using assms(1) by (auto simp: submit_review_row_def split: if_split_asm option.split_asm)
  note own = review_at_own [OF inv r(1)]
  have key: "\<And>r. review_key (submitted_review e r) = review_key r"
    "\<And>r. rv_id (submitted_review e r) = rv_id r"
    by (simp_all add: review_key_def submitted_review_def)
  have lock: "lock = rv_lock r" using own(2) by (simp add: review_at_def)
  have "review_ok (submitted_review e x)" if "x \<in> set (reviews d)" "review_at i j lock x" for x
    using that inv r(3) lock by (auto simp: review_ok_def submitted_review_def reviews_inv_def review_at_def)
  then have "reviews_inv d'" unfolding d' by (intro upd_review_inv [OF inv key(2,1)]) simp_all
  moreover have "review_written i j (submitted_review e r) d d'"
    unfolding d' by (rule upd_review_written [OF own key(1)])
  ultimately show thesis by (intro that [OF own r(2)])
qed

lemma reviews_inv_audit [simp]: "reviews_inv (d\<lparr>audit := x\<rparr>) = reviews_inv d"
  by (simp add: reviews_inv_def)

lemma own_review_audit [simp]: "own_review i j (d\<lparr>audit := x\<rparr>) = own_review i j d"
  by (simp add: own_review_def)

definition submit_review_contract ::
    "env \<Rightarrow> user \<Rightarrow> review_submit_input \<Rightarrow> db \<Rightarrow> reviewer_application \<Rightarrow> db \<Rightarrow> bool" where
  "submit_review_contract e actor input d v d' \<longleftrightarrow>
     (\<exists>i j r w d1 x. has_role actor RoleReviewer \<and> parse_uuid e (rsi_application input) = Some i \<and>
        parse_uuid e (user_id actor) = Some j \<and> submitted_application i d \<and>
        own_review i j d = Some r \<and> rv_status r = RevDraft \<and> rv_lock r = rsi_lock input \<and>
        review_written i j (submitted_review e r) d d1 \<and> d' = d1\<lparr>audit := audit d @ [x]\<rparr> \<and>
        au_event x = ''review_submitted'' \<and> au_actor x = Some j \<and> au_subject x = rv_id r \<and>
        rap_review v = Some w \<and> rw_status w = RevSubmitted \<and> rw_lock w = rv_lock r + 1 \<and>
        rw_submitted w = Some (now e))"

lemma submit_review_Inr:
  assumes run: "submit_review e actor input d = (Inr v, d')" and inv: "reviews_inv d"
  obtains i j r d1 x where "has_role actor RoleReviewer"
    and "parse_uuid e (rsi_application input) = Some i" and "parse_uuid e (user_id actor) = Some j"
    and "submitted_application i d" and "own_review i j d = Some r" and "rv_status r = RevDraft"
    and "rv_lock r = rsi_lock input" and "review_written i j (submitted_review e r) d d1"
    and "d' = d1\<lparr>audit := audit d @ [x]\<rparr>" and "au_event x = ''review_submitted''"
    and "au_actor x = Some j" and "au_subject x = rv_id r" and "reviews_inv d'"
    and "load_reviewer_application e i j d' = Inr v"
proof -
  from run obtain i j where g: "has_role actor RoleReviewer"
    "parse_uuid e (rsi_application input) = Some i" "parse_uuid e (user_id actor) = Some j" and
    b: "submit_review_body e i j (rsi_application input) (rsi_lock input) d = Inr (v, d')"
    unfolding submit_review_def transact_Inr by (auto split: if_split_asm)
  from b obtain before k d1 where bf: "load_reviewer_application e i j d = Inr before" and
    w: "submit_review_row e i j (rsi_lock input) d = Inr (Some (k, d1))" and
    a: "insert_review_submission_audit e j k (rsi_application input) d1 = Inr d'" and
    l: "load_reviewer_application e i j d' = Inr v"
    unfolding submit_review_body_def by (auto split: option.split_asm if_split_asm)
  obtain r where r: "own_review i j d = Some r" "review_at i j (rsi_lock input) r" "k = rv_id r"
    "review_written i j (submitted_review e r) d d1" "reviews_inv d1"
    by (rule submit_review_row_Some [OF w inv])
  have au: "audit d1 = audit d" using r(4) by (auto simp: review_written_def)
  obtain x where x: "d' = d1\<lparr>audit := audit d @ [x]\<rparr>" "au_event x = ''review_submitted''"
    "au_actor x = Some j" "au_subject x = rv_id r"
    using a unfolding insert_review_submission_audit_def insert_audit_Inr au r(3) by auto
  show thesis
    by (rule that [OF g load_reviewer_Inr(1) [OF bf] r(1) _ _ r(4) x _ l])
      (use r(2,5) x(1) in \<open>auto simp: review_at_def\<close>)
qed

lemma submit_review_holds:
  assumes run: "submit_review e actor input d = (Inr v, d')" and inv: "reviews_inv d"
  shows "submit_review_contract e actor input d v d'" and "reviews_inv d'"
    and "submit_review e actor input d' = (Inl (RvConflict (rsi_lock input + 1)), d')"
proof -
  obtain i j r d1 x where g: "has_role actor RoleReviewer"
    "parse_uuid e (rsi_application input) = Some i" "parse_uuid e (user_id actor) = Some j"
    "submitted_application i d" "own_review i j d = Some r" "rv_status r = RevDraft"
    "rv_lock r = rsi_lock input" and w: "review_written i j (submitted_review e r) d d1" and
    x: "d' = d1\<lparr>audit := audit d @ [x]\<rparr>" "au_event x = ''review_submitted''"
    "au_actor x = Some j" "au_subject x = rv_id r" and inv': "reviews_inv d'" and
    l: "load_reviewer_application e i j d' = Inr v"
    by (rule submit_review_Inr [OF run inv])
  have own': "own_review i j d' = Some (submitted_review e r)"
    using w by (simp add: x(1) review_written_def)
  obtain y where y: "review_from_row e (submitted_review e r) = Inr y" "rap_review v = Some y"
    using load_reviewer_Inr(2) [OF l] own' by (auto simp: shown_review_def)
  have f: "rw_status y = RevSubmitted" "rw_lock y = rv_lock r + 1" "rw_submitted y = Some (now e)"
    using review_from_row_Inr [OF y(1)] by (simp_all add: submitted_review_def)
  show "submit_review_contract e actor input d v d'"
    unfolding submit_review_contract_def
    by (intro exI [of _ i] exI [of _ j] exI [of _ r] exI [of _ y] exI [of _ d1] exI [of _ x] conjI
        g w x y(2) f)
  show "reviews_inv d'" by (rule inv')
  have "0 \<le> rsi_lock input"
    using g(5,7) inv own_review_Some(1) by (fastforce simp: reviews_inv_def review_ok_def)
  then show "submit_review e actor input d' = (Inl (RvConflict (rsi_lock input + 1)), d')"
    using g(1-3,7) l y(2) f by (simp add: submit_review_def submit_review_body_def transact_def)
qed

text \<open>C24. Submitting turns the reviewer's own draft of the given lock version into a submitted
  review of the next version, with one audit event, on a submitted application; no other review
  and no other table changes, and the same submission again is a conflict that names the new
  version.\<close>

theorem submit_review_spec:
  assumes "submit_review e actor input d = (Inr v, d')" and "reviews_inv d"
  shows "submit_review_contract e actor input d v d' \<and> reviews_inv d' \<and>
    submit_review e actor input d' = (Inl (RvConflict (rsi_lock input + 1)), d')"
  using submit_review_holds [OF assms] by blast

section \<open>Reviewers and assignments\<close>

lemma grant_reviewer_Inr:
  assumes "grant_reviewer e actor target d = (Inr u, d')"
  obtains t a where "has_role actor RoleOrganizer" and "user_id actor \<noteq> target"
    and "parse_uuid e target = Some t" and "parse_uuid e (user_id actor) = Some a"
    and "user_exists t d" and "role_pairs d' = insert (t, RoleReviewer) (role_pairs d)"
    and "users_inv d \<Longrightarrow> users_inv d'"
    and "\<exists>R A. d' = d\<lparr>user_roles := R, audit := audit d @ A\<rparr> \<and>
      length A = (if (t, RoleReviewer) \<in> role_pairs d then 0 else 1)"
proof -
  from assms obtain t a assigned d1 where g: "has_role actor RoleOrganizer" "user_id actor \<noteq> target"
    "parse_uuid e target = Some t" "parse_uuid e (user_id actor) = Some a" "user_exists t d" and
    r: "insert_role e t RoleReviewer (Some a) d = Inr (assigned, d1)" and
    u: "(if assigned then rv_db (insert_reviewer_role_audit e a t d1) else Inr d1) = Inr d'"
    unfolding grant_reviewer_def transact_Inr grant_reviewer_role_def
    by (auto split: if_split_asm prod.split_asm)
  note i = insert_role_Inr [OF r]
  obtain A where A: "d' = d1\<lparr>audit := audit d1 @ A\<rparr>" "length A = (if assigned then 1 else 0)"
    using u by (cases assigned) (auto simp: insert_reviewer_role_audit_def insert_audit_Inr intro: that [of "[]"])
  have d1: "d1 = d\<lparr>user_roles := user_roles d1\<rparr>" by (rule i(3))
  have fr: "audit d1 = audit d" by (subst d1) simp
  have "d' = d\<lparr>user_roles := user_roles d1, audit := audit d @ A\<rparr>"
    unfolding A(1) fr by (subst d1) simp
  then have ex: "\<exists>R A. d' = d\<lparr>user_roles := R, audit := audit d @ A\<rparr> \<and>
      length A = (if (t, RoleReviewer) \<in> role_pairs d then 0 else 1)"
    using A(2) i(2) by (intro exI [of _ "user_roles d1"] exI [of _ A]) simp
  have same: "role_pairs d' = role_pairs d1" "users_inv d' = users_inv d1"
    by (simp_all add: A(1) role_pairs_def users_inv_def)
  show thesis
    by (rule that [OF g _ _ ex]) (use i(1,5) same in simp_all)
qed

lemma own_assignment_append:
  "own_assignment i j (d\<lparr>assignments := assignments d @ [x]\<rparr>) =
     (case own_assignment i j d of Some y \<Rightarrow> Some y
      | None \<Rightarrow> if ra_application x = i \<and> ra_reviewer x = j then Some x else None)"
  by (auto simp: own_assignment_def find_append split: option.split)

definition assign_reviewer_contract ::
    "env \<Rightarrow> user \<Rightarrow> string \<Rightarrow> string \<Rightarrow> db \<Rightarrow> db \<Rightarrow> bool" where
  "assign_reviewer_contract e actor application reviewer d d' \<longleftrightarrow>
     (\<exists>i j a. has_role actor RoleOrganizer \<and> parse_uuid e (user_id actor) = Some a \<and>
        parse_uuid e application = Some i \<and> parse_uuid e reviewer = Some j \<and>
        (\<exists>r. get_organizer_application i d = Some r \<and> stf_status r = StSubmitted) \<and>
        submitted_application i d \<and> user_has_reviewer_role j d \<and>
        (case own_assignment i j d of
           Some x \<Rightarrow> d' = d
         | None \<Rightarrow>
             (\<exists>x. own_assignment i j d' = Some \<lparr>ra_application = i, ra_reviewer = j, ra_by = a, ra_at = now e\<rparr> \<and>
                au_event x = ''reviewer_assigned'' \<and> au_subject x = i \<and> au_actor x = Some a \<and>
                d' = d\<lparr>assignments := assignments d @
                    [\<lparr>ra_application = i, ra_reviewer = j, ra_by = a, ra_at = now e\<rparr>],
                  audit := audit d @ [x]\<rparr>)))"

lemma get_organizer_application_Some:
  assumes "get_organizer_application i d = Some r"
  shows "\<exists>a\<in>set (applications d). ap_id a = i \<and> ap_status a = stf_status r \<and> staff_visible (ap_status a)"
proof -
  obtain a where "List.find (\<lambda>a. ap_id a = i \<and> staff_visible (ap_status a)) (applications d) = Some a"
    "staff_row_of True d a = Some r"
    using assms by (auto simp: get_organizer_application_def split: option.split_asm)
  then have "a \<in> set (applications d)" "ap_id a = i" "staff_visible (ap_status a)" "stf_status r = ap_status a"
    by (auto simp: staff_row_of_def dest!: find_SomeD split: option.split_asm)
  then show ?thesis by auto
qed

lemma assign_reviewer_Inr:
  assumes "assign_reviewer e actor application reviewer d = (Inr u, d')"
  shows "assign_reviewer_contract e actor application reviewer d d'"
proof -
  from assms obtain a i j r assigned d1 where g: "has_role actor RoleOrganizer"
    "parse_uuid e (user_id actor) = Some a" "parse_uuid e application = Some i"
    "parse_uuid e reviewer = Some j" "get_organizer_application i d = Some r"
    "stf_status r = StSubmitted" "user_has_reviewer_role j d" and
    w: "insert_assignment e i j a d = Inr (assigned, d1)" and
    u: "(if assigned then rv_db (insert_assignment_audit e a i reviewer d1) else Inr d1) = Inr d'"
    unfolding assign_reviewer_def transact_Inr by (auto split: if_split_asm prod.split_asm)
  have sub: "submitted_application i d"
    using get_organizer_application_Some [OF g(5)] g(6) by (auto simp: submitted_application_def list_ex_iff)
  have "case own_assignment i j d of Some x \<Rightarrow> d' = d
      | None \<Rightarrow>
          (\<exists>x. own_assignment i j d' = Some \<lparr>ra_application = i, ra_reviewer = j, ra_by = a, ra_at = now e\<rparr> \<and>
             au_event x = ''reviewer_assigned'' \<and> au_subject x = i \<and> au_actor x = Some a \<and>
             d' = d\<lparr>assignments := assignments d @
                 [\<lparr>ra_application = i, ra_reviewer = j, ra_by = a, ra_at = now e\<rparr>], audit := audit d @ [x]\<rparr>)"
  proof (cases "own_assignment i j d")
    case (Some x)
    then show ?thesis using w u by (auto simp: insert_assignment_def split: if_split_asm)
  next
    case None
    let ?x = "\<lparr>ra_application = i, ra_reviewer = j, ra_by = a, ra_at = now e\<rparr>"
    have d1: "d1 = d\<lparr>assignments := assignments d @ [?x]\<rparr>" "assigned"
      using w sub g(7) None by (auto simp: insert_assignment_def split: if_split_asm)
    have own: "own_assignment i j d1 = Some ?x" unfolding d1(1) own_assignment_append by (simp add: None)
    obtain y where y: "d' = d1\<lparr>audit := audit d1 @ [y]\<rparr>" "au_event y = ''reviewer_assigned''"
      "au_subject y = i" "au_actor y = Some a"
      using u d1(2) by (auto simp: insert_assignment_audit_def insert_audit_Inr)
    have "own_assignment i j d' = own_assignment i j d1" by (simp add: y(1) own_assignment_def)
    then show ?thesis using own y d1(1) None by (auto intro!: exI [of _ y])
  qed
  then show ?thesis
    unfolding assign_reviewer_contract_def
    using g sub by (intro exI [of _ i] exI [of _ j] exI [of _ a]) blast
qed

lemma assign_contract_reviews:
  assumes "assign_reviewer_contract e actor application reviewer d d'"
  shows "reviews d' = reviews d"
proof -
  obtain i j a where w: "case own_assignment i j d of Some x \<Rightarrow> d' = d
      | None \<Rightarrow> (\<exists>x. own_assignment i j d' = Some \<lparr>ra_application = i, ra_reviewer = j, ra_by = a, ra_at = now e\<rparr> \<and>
             au_event x = ''reviewer_assigned'' \<and> au_subject x = i \<and> au_actor x = Some a \<and>
             d' = d\<lparr>assignments := assignments d @
                 [\<lparr>ra_application = i, ra_reviewer = j, ra_by = a, ra_at = now e\<rparr>], audit := audit d @ [x]\<rparr>)"
    using assms unfolding assign_reviewer_contract_def by blast
  show ?thesis
  proof (cases "own_assignment i j d")
    case None
    with w obtain A B where "d' = d\<lparr>assignments := A, audit := B\<rparr>" by auto
    then show ?thesis by simp
  next
    case (Some x)
    with w show ?thesis by simp
  qed
qed

text \<open>Assigning a reviewer succeeds only for an organizer, on a submitted application and for a
  user with the reviewer role: a new pair gets one assignment and one audit event, a known pair
  changes nothing, and the same call again changes nothing.\<close>

theorem assign_reviewer_spec:
  assumes "assign_reviewer e actor application reviewer d = (Inr u, d')"
  shows "assign_reviewer_contract e actor application reviewer d d' \<and>
    assign_reviewer e actor application reviewer d' = (Inr (), d')"
proof -
  obtain i j a r where g: "has_role actor RoleOrganizer" "parse_uuid e (user_id actor) = Some a"
    "parse_uuid e application = Some i" "parse_uuid e reviewer = Some j"
    "get_organizer_application i d = Some r" "stf_status r = StSubmitted" "submitted_application i d"
    "user_has_reviewer_role j d" and
    w: "case own_assignment i j d of Some x \<Rightarrow> d' = d
      | None \<Rightarrow> (\<exists>x. own_assignment i j d' = Some \<lparr>ra_application = i, ra_reviewer = j, ra_by = a, ra_at = now e\<rparr> \<and>
             au_event x = ''reviewer_assigned'' \<and> au_subject x = i \<and> au_actor x = Some a \<and>
             d' = d\<lparr>assignments := assignments d @
                 [\<lparr>ra_application = i, ra_reviewer = j, ra_by = a, ra_at = now e\<rparr>], audit := audit d @ [x]\<rparr>)"
    using assign_reviewer_Inr [OF assms] unfolding assign_reviewer_contract_def by blast
  obtain A B where d': "d' = d\<lparr>assignments := A, audit := B\<rparr>" "own_assignment i j d' \<noteq> None"
  proof (cases "own_assignment i j d")
    case None
    then show thesis using w that by auto
  next
    case (Some x)
    then have "d' = d\<lparr>assignments := assignments d, audit := audit d\<rparr>" "own_assignment i j d' \<noteq> None"
      using w by simp_all
    then show thesis by (rule that)
  qed
  have "staff_row_of True d' = staff_row_of True d"
    by (simp add: fun_eq_iff staff_row_of_def d'(1) answers_of_def cong: option.case_cong)
  then have "get_organizer_application i d' = Some r"
    using g(5) by (simp add: get_organizer_application_def d'(1) cong: option.case_cong)
  moreover have "submitted_application i d'" "user_has_reviewer_role j d'"
    using g(7,8) by (simp_all add: submitted_application_def user_has_reviewer_role_def has_role_row_def d'(1))
  ultimately have "assign_reviewer e actor application reviewer d' = (Inr (), d')"
    using g d'(2) by (simp add: assign_reviewer_def transact_def insert_assignment_def)
  with assign_reviewer_Inr [OF assms] show ?thesis by blast
qed

section \<open>The reviewer's queue\<close>

lemma insort_flag:
  assumes "\<forall>y\<in>set ys. \<not> P y" and "\<forall>z\<in>set zs. P z"
  shows "insort_key (\<lambda>r. if P r then (1::nat) else 0) x (ys @ zs) =
      (if P x then ys @ x # zs else x # ys @ zs)"
  using assms
proof (induction ys)
  case Nil
  then show ?case by (cases zs) simp_all
next
  case (Cons y ys)
  then show ?case by (cases "P x") simp_all
qed

lemma sort_flag:
  "sort_key (\<lambda>r. if P r then (1::nat) else 0) xs = filter (\<lambda>r. \<not> P r) xs @ filter P xs"
proof (induction xs)
  case (Cons x xs)
  show ?case
    unfolding sort_key_simps Cons.IH by (subst insort_flag) simp_all
qed simp

definition later_or_null :: "('r \<Rightarrow> timestamp option) \<Rightarrow> 'r \<Rightarrow> 'r \<Rightarrow> bool" where
  "later_or_null k x y \<longleftrightarrow> (\<forall>t. k y = Some t \<longrightarrow> (\<exists>s. k x = Some s \<and> t \<le> s))"

lemma nulls_last_sorted: "sorted_wrt (later_or_null k) (nulls_last_desc k rs)"
proof -
  let ?S = "sort_key (\<lambda>r. case k r of None \<Rightarrow> 0 | Some t \<Rightarrow> - t) rs"
  have "sorted_wrt (\<lambda>x y. (case k x of None \<Rightarrow> 0 | Some t \<Rightarrow> - t) \<le> (case k y of None \<Rightarrow> 0 | Some t \<Rightarrow> - t)) ?S"
    using sorted_sort_key [of "\<lambda>r. case k r of None \<Rightarrow> 0 | Some t \<Rightarrow> - t" rs] by (simp add: sorted_map)
  then have "sorted_wrt (\<lambda>x y. (case k x of None \<Rightarrow> 0 | Some t \<Rightarrow> - t) \<le> (case k y of None \<Rightarrow> 0 | Some t \<Rightarrow> - t))
      (filter (\<lambda>r. k r \<noteq> None) ?S)"
    by (rule sorted_wrt_filter)
  then have "sorted_wrt (later_or_null k) (filter (\<lambda>r. k r \<noteq> None) ?S)"
    by (rule sorted_wrt_mono_rel [rotated]) (auto simp: later_or_null_def)
  moreover have "sorted_wrt (later_or_null k) (filter (\<lambda>r. k r = None) ?S)"
    by (rule sorted_wrt_mono_rel [of _ "\<lambda>_ _. True"]) (auto simp: later_or_null_def sorted_wrt_true)
  ultimately show ?thesis
    by (simp add: nulls_last_desc_def sort_flag sorted_wrt_append) (simp add: later_or_null_def)
qed

lemma set_nulls_last [simp]: "set (nulls_last_desc k rs) = set rs"
  by (simp add: nulls_last_desc_def)

lemma sequence_views_Inr: "sequence_views xs = Inr vs \<longleftrightarrow> xs = map Inr vs"
  by (induction xs arbitrary: vs) (auto simp: bindE_Inr Cons_eq_map_conv)

lemma reviewer_view_facts:
  assumes "reviewer_application_from_row e r = Inr v"
  shows "sv_id v = uuid_text e (stf_id r)" and "sv_status v = stf_status r"
    and "shown_review e (rvr_review r) (rap_review v)"
    and "rap_assignment v = map_option (\<lambda>x. (uuid_text e (ra_by x), ra_at x)) (rvr_assignment r)"
  using assms
  by (auto simp: reviewer_application_from_row_def shown_review_def staff_application.defs
      application_from_values_def split: option.split_asm)

lemma reviewer_row_facts:
  "stf_id (reviewer_row_of j d r) = stf_id r" "stf_status (reviewer_row_of j d r) = stf_status r"
  "rvr_review (reviewer_row_of j d r) = own_review (stf_id r) j d"
  "rvr_assignment (reviewer_row_of j d r) = own_assignment (stf_id r) j d"
  by (simp_all add: reviewer_row_of_def staff_row.defs)

lemma staff_row_of_facts:
  "staff_row_of b d a = Some r \<Longrightarrow> stf_id r = ap_id a \<and> stf_status r = ap_status a \<and>
     stf_answers r = answers_of (ap_id a) d"
  by (auto simp: staff_row_of_def split: option.split_asm)

lemma list_reviewer_rows_set:
  "r \<in> set (list_reviewer_rows j d) \<longleftrightarrow>
     (\<exists>a\<in>set (applications d). \<exists>s. ap_status a = StSubmitted \<and> staff_row_of True d a = Some s \<and>
        r = reviewer_row_of j d s)"
proof -
  have "x \<in> set (case y of None \<Rightarrow> [] | Some s \<Rightarrow> [f s]) \<longleftrightarrow> (\<exists>s. y = Some s \<and> x = f s)" for x f and y :: "staff_row option"
    by (cases y) auto
  note one = this
  show ?thesis
    unfolding list_reviewer_rows_def set_nulls_last set_sort set_concat set_map set_filter
    by (simp add: one) metis
qed

text \<open>The reviewer's queue shows submitted applications only, every one whose form and
  applicant are on record, each with the reviewer's own assignment and review and nobody else's;
  assigned applications come first, the latest assignment at the head.\<close>

theorem list_reviewer_spec:
  assumes "list_reviewer_applications e actor d = (Inr vs, d')"
  shows "d' = d \<and> has_role actor RoleReviewer \<and>
    (\<exists>j. parse_uuid e (user_id actor) = Some j \<and>
      (\<forall>v\<in>set vs. \<exists>a\<in>set (applications d). ap_status a = StSubmitted \<and> sv_status v = StSubmitted \<and>
         sv_id v = uuid_text e (ap_id a) \<and> shown_review e (own_review (ap_id a) j d) (rap_review v) \<and>
         rap_assignment v = map_option (\<lambda>x. (uuid_text e (ra_by x), ra_at x)) (own_assignment (ap_id a) j d)) \<and>
      (\<forall>a\<in>set (applications d). ap_status a = StSubmitted \<and> staff_row_of True d a \<noteq> None \<longrightarrow>
         uuid_text e (ap_id a) \<in> sv_id ` set vs)) \<and>
    sorted_wrt (later_or_null (\<lambda>v. map_option snd (rap_assignment v))) vs"
proof -
  obtain j where g: "d' = d" "has_role actor RoleReviewer" "parse_uuid e (user_id actor) = Some j" and
    m: "map (reviewer_application_from_row e) (list_reviewer_rows j d) = map Inr vs"
    using assms by (auto simp: list_reviewer_applications_def query_eq sequence_views_Inr split: if_split_asm)
  have len: "length vs = length (list_reviewer_rows j d)" by (metis m length_map)
  have nth: "reviewer_application_from_row e (list_reviewer_rows j d ! k) = Inr (vs ! k)"
    if "k < length vs" for k
    using arg_cong [OF m, of "\<lambda>xs. xs ! k"] that len by simp
  have shown: "\<exists>a\<in>set (applications d). ap_status a = StSubmitted \<and> sv_status v = StSubmitted \<and>
      sv_id v = uuid_text e (ap_id a) \<and> shown_review e (own_review (ap_id a) j d) (rap_review v) \<and>
      rap_assignment v = map_option (\<lambda>x. (uuid_text e (ra_by x), ra_at x)) (own_assignment (ap_id a) j d)"
    if v: "v \<in> set vs" for v
  proof -
    obtain k where k: "k < length vs" "v = vs ! k" using v by (auto simp: in_set_conv_nth)
    then obtain a s where a: "a \<in> set (applications d)" "ap_status a = StSubmitted"
      "staff_row_of True d a = Some s" and row: "list_reviewer_rows j d ! k = reviewer_row_of j d s"
      using list_reviewer_rows_set [of "list_reviewer_rows j d ! k" j d] len by auto
    show ?thesis
      using reviewer_view_facts [OF nth [OF k(1)], unfolded row reviewer_row_facts] k(2) a
        staff_row_of_facts [OF a(3)] by (intro bexI [of _ a]) simp_all
  qed
  have all: "uuid_text e (ap_id a) \<in> sv_id ` set vs"
    if a: "a \<in> set (applications d)" "ap_status a = StSubmitted" "staff_row_of True d a = Some s" for a s
  proof -
    have "reviewer_row_of j d s \<in> set (list_reviewer_rows j d)"
      using a unfolding list_reviewer_rows_set by blast
    then obtain k where k: "k < length vs" "list_reviewer_rows j d ! k = reviewer_row_of j d s"
      using len by (auto simp: in_set_conv_nth)
    have "sv_id (vs ! k) = uuid_text e (ap_id a)"
      using reviewer_view_facts(1) [OF nth [OF k(1)]] staff_row_of_facts [OF a(3)]
      by (simp add: k(2) reviewer_row_facts)
    then show ?thesis using k(1) by (metis image_eqI nth_mem)
  qed
  have time: "map_option snd (rap_assignment (vs ! k)) =
      map_option ra_at (rvr_assignment (list_reviewer_rows j d ! k))" if "k < length vs" for k
    using reviewer_view_facts(4) [OF nth [OF that]] by (simp add: option.map_comp comp_def)
  have "sorted_wrt (later_or_null (\<lambda>r. map_option ra_at (rvr_assignment r))) (list_reviewer_rows j d)"
    unfolding list_reviewer_rows_def by (rule nulls_last_sorted)
  then have "sorted_wrt (later_or_null (\<lambda>v. map_option snd (rap_assignment v))) vs"
    unfolding sorted_wrt_iff_nth_less later_or_null_def using len time by simp
  then show ?thesis using g shown all by blast
qed

section \<open>The life of a review\<close>

text \<open>
  What a review may do, as a step relation on what one reviewer has for one application: nothing
  becomes a draft of version 1, a draft of version 0 (a row from before the lock was introduced)
  one of version 1, and a draft a submitted review of the next version. Nothing leaves the
  submitted state.
\<close>

inductive review_move :: "review_row option \<Rightarrow> review_row option \<Rightarrow> bool" where
  start: "rv_status r = RevDraft \<Longrightarrow> rv_lock r = 1 \<Longrightarrow> review_move None (Some r)"
| redraft: "rv_status r = RevDraft \<Longrightarrow> rv_lock r = 0 \<Longrightarrow> rv_status r' = RevDraft \<Longrightarrow> rv_lock r' = 1 \<Longrightarrow>
    rv_id r' = rv_id r \<Longrightarrow> review_move (Some r) (Some r')"
| finish: "rv_status r = RevDraft \<Longrightarrow> rv_status r' = RevSubmitted \<Longrightarrow> rv_lock r' = rv_lock r + 1 \<Longrightarrow>
    rv_id r' = rv_id r \<Longrightarrow> rv_score r' = rv_score r \<Longrightarrow> rv_recommendation r' = rv_recommendation r \<Longrightarrow>
    rv_notes r' = rv_notes r \<Longrightarrow> review_move (Some r) (Some r')"

inductive_cases review_moveE: "review_move x y"

inductive_simps review_move_some: "review_move (Some r) y"

definition review_state_ok :: "review_row option \<Rightarrow> review_row option \<Rightarrow> bool" where
  "review_state_ok x y \<longleftrightarrow>
     (case x of None \<Rightarrow> True
      | Some r \<Rightarrow> (\<exists>r'. y = Some r' \<and> rv_id r' = rv_id r \<and> rv_lock r \<le> rv_lock r' \<and>
          (rv_status r = RevSubmitted \<longrightarrow> r' = r)))"

lemma review_moves_ok: "review_move\<^sup>*\<^sup>* x y \<Longrightarrow> review_state_ok x y"
proof (induction rule: rtranclp_induct)
  case base
  then show ?case by (simp add: review_state_ok_def split: option.split)
next
  case (step y z)
  then show ?case
    by (cases x) (auto simp: review_state_ok_def review_move_some)
qed

datatype review_call =
    SaveReview env user review_draft_input
  | SubmitReview env user review_submit_input
  | GrantReviewer env user string
  | AssignReviewer env user string string

definition forget_value :: "('d, 'e, 'a) tx \<Rightarrow> ('d, 'e, unit) tx" where
  "forget_value t d = (case t d of (Inl x, d') \<Rightarrow> (Inl x, d') | (Inr v, d') \<Rightarrow> (Inr (), d'))"

lemma forget_value_Inr: "forget_value t d = (Inr u, d') \<longleftrightarrow> (\<exists>v. t d = (Inr v, d'))"
  by (auto simp: forget_value_def split: prod.split sum.split)

lemma forget_value_Inl: "forget_value t d = (Inl x, d') \<longleftrightarrow> t d = (Inl x, d')"
  by (auto simp: forget_value_def split: prod.split sum.split)

definition run_review :: "review_call \<Rightarrow> (db, review_error, unit) tx" where
  "run_review c =
     (case c of
        SaveReview e actor input \<Rightarrow> forget_value (save_review_draft e actor input)
      | SubmitReview e actor input \<Rightarrow> forget_value (submit_review e actor input)
      | GrantReviewer e actor target \<Rightarrow> grant_reviewer e actor target
      | AssignReviewer e actor application reviewer \<Rightarrow> assign_reviewer e actor application reviewer)"

lemma run_review_rollback: "run_review c d = (Inl x, d') \<Longrightarrow> d' = d"
  by (auto simp: run_review_def forget_value_Inl save_review_draft_def submit_review_def
      grant_reviewer_def assign_reviewer_def transact_Inl split: review_call.split_asm)

lemma same_reviews:
  assumes "reviews d' = reviews d"
  shows "own_review i j d' = own_review i j d" and "reviews_inv d' = reviews_inv d"
  using assms by (simp_all add: own_review_def reviews_inv_def)

lemma written_moves:
  assumes "review_written k l r d d'" and "review_move (own_review k l d) (Some r)"
  shows "review_move\<^sup>*\<^sup>* (own_review i j d) (own_review i j d')"
proof (cases "(i, j) = (k, l)")
  case True
  then show ?thesis using assms by (simp add: review_written_def)
next
  case False
  then have "own_review i j d' = own_review i j d" using assms(1) unfolding review_written_def by blast
  then show ?thesis by simp
qed

lemma drafted_moves:
  assumes "\<forall>r. x = Some r \<longrightarrow> rv_status r = RevDraft \<and> rv_lock r = 0"
  shows "review_move x (Some (drafted e i j input x))"
proof (cases x)
  case None
  then show ?thesis using drafted_row(1,2) [OF assms] by (simp add: review_move.start)
next
  case (Some r)
  have "rv_id (drafted e i j input x) = rv_id r" by (simp add: Some drafted_def redrafted_def Let_def)
  then show ?thesis
    using drafted_row(1,2) [OF assms, of e i j input] assms Some by (auto intro: review_move.redraft)
qed

lemma run_review_moves:
  assumes run: "run_review c d = (Inr u, d')" and inv: "reviews_inv d"
  shows "reviews_inv d'" and "review_move\<^sup>*\<^sup>* (own_review i j d) (own_review i j d')"
proof -
  have "reviews_inv d' \<and> review_move\<^sup>*\<^sup>* (own_review i j d) (own_review i j d')"
  proof (cases c)
    case (SaveReview e actor input)
    then obtain v where "save_review_draft e actor input d = (Inr v, d')"
      using run by (auto simp: run_review_def forget_value_Inr)
    then obtain k l where s: "\<forall>r. own_review k l d = Some r \<longrightarrow> rv_status r = RevDraft \<and> rv_lock r = 0"
      "review_written k l (drafted e k l input (own_review k l d)) d d'" "reviews_inv d'"
      by (rule save_review_Inr [OF _ inv])
    then show ?thesis using written_moves [OF s(2) drafted_moves [OF s(1)]] by blast
  next
    case (SubmitReview e actor input)
    then obtain v where "submit_review e actor input d = (Inr v, d')"
      using run by (auto simp: run_review_def forget_value_Inr)
    then obtain k l r d1 x where s: "own_review k l d = Some r" "rv_status r = RevDraft"
      "review_written k l (submitted_review e r) d d1" "d' = d1\<lparr>audit := audit d @ [x]\<rparr>" "reviews_inv d'"
      by (rule submit_review_Inr [OF _ inv])
    have "review_move (own_review k l d) (Some (submitted_review e r))"
      unfolding s(1) by (rule review_move.finish) (simp_all add: s(2) submitted_review_def)
    then show ?thesis using written_moves [OF s(3)] s(4,5) by simp
  next
    case (GrantReviewer e actor target)
    then have g: "grant_reviewer e actor target d = (Inr u, d')" using run by (simp add: run_review_def)
    obtain R A where "d' = d\<lparr>user_roles := R, audit := audit d @ A\<rparr>"
      by (rule grant_reviewer_Inr [OF g]) blast
    then have "reviews d' = reviews d" by simp
    from same_reviews [OF this] inv show ?thesis by simp
  next
    case (AssignReviewer e actor application reviewer)
    then have "assign_reviewer_contract e actor application reviewer d d'"
      using run by (auto simp: run_review_def intro: assign_reviewer_Inr)
    then have "reviews d' = reviews d"
      by (rule assign_contract_reviews)
    from same_reviews [OF this] inv show ?thesis by simp
  qed
  then show "reviews_inv d'" "review_move\<^sup>*\<^sup>* (own_review i j d) (own_review i j d')" by blast+
qed

definition review_run_inv :: "uuid \<Rightarrow> uuid \<Rightarrow> review_row option \<Rightarrow> db \<Rightarrow> bool" where
  "review_run_inv i j x d \<longleftrightarrow> reviews_inv d \<and> review_move\<^sup>*\<^sup>* x (own_review i j d)"

lemma run_review_inv:
  assumes "review_run_inv i j x d" and "run_review c d = (Inr u, d')"
  shows "review_run_inv i j x d'"
  using assms(1) run_review_moves [OF assms(2)] unfolding review_run_inv_def
  by (blast intro: rtranclp_trans)

interpretation reviewing: transaction_contract run_review "\<lambda>_. True" "review_run_inv i j x"
  by unfold_locales (erule run_review_rollback, erule (1) run_review_inv)

text \<open>C25. Over any sequence of review calls, refused ones included: the reviews stay well formed,
  every reviewer's review of an application moves only along the life cycle, a review never
  vanishes or loses a version, and a submitted one stays as it is.\<close>

theorem review_life_cycle:
  assumes "reviews_inv d"
  shows "reviews_inv (run_calls (map run_review cs) d) \<and>
    review_move\<^sup>*\<^sup>* (own_review i j d) (own_review i j (run_calls (map run_review cs) d)) \<and>
    review_state_ok (own_review i j d) (own_review i j (run_calls (map run_review cs) d))"
proof -
  have "review_run_inv i j (own_review i j d) (run_calls (map run_review cs) d)"
    by (rule reviewing.run_calls_inv) (simp_all add: review_run_inv_def assms)
  then show ?thesis by (auto simp: review_run_inv_def intro: review_moves_ok)
qed

section \<open>Witnesses\<close>

definition sample_review_db :: db where
  "sample_review_db = empty_db\<lparr>
     users := [sample_user 1 ''clerk_1'', sample_user 2 ''clerk_2'', sample_user 3 ''clerk_3''],
     user_roles := [\<lparr>ur_user = 2, ur_role = RoleReviewer, ur_created = 1, ur_by = None\<rparr>],
     forms := [\<lparr>fm_id = 9, fm_cycle = 5, fm_version = 1, fm_schema = None, fm_published = Some 1, fm_by = 1\<rparr>],
     applications := [\<lparr>ap_id = 4, ap_cycle = 5, ap_form = 9, ap_applicant = 3, ap_status = StSubmitted,
       ap_submitted = Some 6, ap_withdrawn = None, ap_decision = None, ap_decision_id = None,
       ap_released = None, ap_email = Some ''a@x.ca'', ap_lock = 2, ap_created = 1, ap_updated = 6\<rparr>]\<rparr>"

definition sample_reviewer :: user where
  "sample_reviewer = \<lparr>user_id = unary_text 2, user_clerk = ''clerk_2'', user_email = ''r@x.ca'',
     user_name = None, user_role_set = {RoleReviewer}\<rparr>"

definition sample_chair :: user where
  "sample_chair = \<lparr>user_id = unary_text 1, user_clerk = ''clerk_1'', user_email = ''o@x.ca'',
     user_name = None, user_role_set = {RoleOrganizer}\<rparr>"

definition sample_draft :: review_draft_input where
  "sample_draft = \<lparr>ri_application = unary_text 4, ri_lock = 0, ri_score = 4,
     ri_recommendation = ''yes'', ri_notes = Some ''ok''\<rparr>"

lemma sample_reviews_inv: "reviews_inv sample_review_db"
  by (simp add: reviews_inv_def sample_review_db_def empty_db_def)

lemma sample_saved:
  obtains v d where "save_review_draft sample_env sample_reviewer sample_draft sample_review_db = (Inr v, d)"
proof -
  have "\<not> isl (fst (save_review_draft sample_env sample_reviewer sample_draft sample_review_db))"
    by code_simp
  then show thesis by (metis isl_def prod.collapse sum.collapse(2) that)
qed

theorem save_review_spec_witness:
  "\<exists>v d. save_review_draft sample_env sample_reviewer sample_draft sample_review_db = (Inr v, d) \<and>
     save_review_contract sample_env sample_reviewer sample_draft sample_review_db v d \<and> reviews_inv d"
proof -
  obtain v d where r: "save_review_draft sample_env sample_reviewer sample_draft sample_review_db = (Inr v, d)"
    by (rule sample_saved)
  from save_review_spec [OF r sample_reviews_inv] r show ?thesis by blast
qed

theorem save_review_refusals_witness:
  "save_review_draft sample_env sample_reviewer (sample_draft\<lparr>ri_lock := 3\<rparr>) sample_review_db =
     (Inl (RvConflict 0), sample_review_db) \<and>
   (\<exists>v d. save_review_draft sample_env sample_reviewer sample_draft sample_review_db = (Inr v, d))"
proof
  have refs: "references_ok sample_review_db"
    by (simp add: references_ok_def sample_review_db_def empty_db_def user_exists_def sample_user_def)
  have "save_review_refusal sample_env sample_reviewer (sample_draft\<lparr>ri_lock := 3\<rparr>) sample_review_db =
      Some (RvConflict 0)" by code_simp
  then show "save_review_draft sample_env sample_reviewer (sample_draft\<lparr>ri_lock := 3\<rparr>) sample_review_db =
      (Inl (RvConflict 0), sample_review_db)"
    using save_review_refusals [OF sample_reviews_inv refs, of sample_env sample_reviewer "sample_draft\<lparr>ri_lock := 3\<rparr>"]
    by simp
  have "save_review_refusal sample_env sample_reviewer sample_draft sample_review_db = None" by code_simp
  moreover have "draft_insertable sample_env sample_reviewer sample_draft sample_review_db" by code_simp
  ultimately show "\<exists>v d. save_review_draft sample_env sample_reviewer sample_draft sample_review_db = (Inr v, d)"
    using save_review_refusals [OF sample_reviews_inv refs, of sample_env sample_reviewer sample_draft] by simp
qed

definition sample_drafted_db :: db where
  "sample_drafted_db = snd (save_review_draft sample_env sample_reviewer sample_draft sample_review_db)"

lemma sample_drafted_inv: "reviews_inv sample_drafted_db"
  by (metis sample_drafted_db_def sample_saved save_review_holds(2) sample_reviews_inv snd_conv)

theorem submit_review_spec_witness:
  "\<exists>v d. submit_review sample_env sample_reviewer \<lparr>rsi_application = unary_text 4, rsi_lock = 1\<rparr>
       sample_drafted_db = (Inr v, d) \<and>
     submit_review_contract sample_env sample_reviewer \<lparr>rsi_application = unary_text 4, rsi_lock = 1\<rparr>
       sample_drafted_db v d"
proof -
  have "\<not> isl (fst (submit_review sample_env sample_reviewer
      \<lparr>rsi_application = unary_text 4, rsi_lock = 1\<rparr> sample_drafted_db))" by code_simp
  then obtain v d where r: "submit_review sample_env sample_reviewer
      \<lparr>rsi_application = unary_text 4, rsi_lock = 1\<rparr> sample_drafted_db = (Inr v, d)"
    by (metis isl_def prod.collapse sum.collapse(2))
  from submit_review_spec [OF r sample_drafted_inv] r show ?thesis by blast
qed

theorem assign_reviewer_spec_witness:
  "\<exists>d. assign_reviewer sample_env sample_chair (unary_text 4) (unary_text 2) sample_review_db = (Inr (), d) \<and>
     assign_reviewer sample_env sample_chair (unary_text 4) (unary_text 2) d = (Inr (), d) \<and>
     length (assignments d) = 1"
proof -
  let ?r = "assign_reviewer sample_env sample_chair (unary_text 4) (unary_text 2) sample_review_db"
  have s: "\<not> isl (fst ?r) \<and> length (assignments (snd ?r)) = 1" by code_simp
  then obtain u d where r: "?r = (Inr u, d)" by (metis isl_def prod.collapse sum.collapse(2))
  from assign_reviewer_spec [OF r] r s show ?thesis by simp
qed

theorem list_reviewer_spec_witness:
  "\<exists>vs. list_reviewer_applications sample_env sample_reviewer sample_review_db = (Inr vs, sample_review_db) \<and>
     unary_text 4 \<in> sv_id ` set vs"
proof -
  let ?r = "list_reviewer_applications sample_env sample_reviewer sample_review_db"
  have s: "case fst ?r of Inl _ \<Rightarrow> False | Inr vs \<Rightarrow> list_ex (\<lambda>v. sv_id v = unary_text 4) vs" by code_simp
  then obtain vs d where r: "?r = (Inr vs, d)" by (cases ?r) (auto split: sum.split_asm)
  have "unary_text 4 \<in> sv_id ` set vs" using s r by (force simp: list_ex_iff)
  with list_reviewer_spec [OF r] r show ?thesis by blast
qed

theorem review_life_cycle_witness:
  "review_state_ok (own_review 4 2 sample_drafted_db)
     (own_review 4 2 (run_calls (map run_review
       [SubmitReview sample_env sample_reviewer \<lparr>rsi_application = unary_text 4, rsi_lock = 1\<rparr>,
        SaveReview sample_env sample_reviewer sample_draft]) sample_drafted_db))"
  using review_life_cycle [OF sample_drafted_inv] by blast

end
