(* ===== verification/Operations.thy ===== *)
theory Operations
  imports Redemptions
begin

text \<open>
  Package \<^verbatim>\<open>operations\<close>: the organizers' administration of activities, checkpoints and entitlement
  overrides, the entrance set-up and the redemption reports. Statements are the SQL inline in
  \<^verbatim>\<open>operations/service.go\<close> and \<^verbatim>\<open>operations/checkin.go\<close>.
\<close>

section \<open>Errors, ids and times\<close>

datatype op_error =
    OpForbidden
  | OpInvalidInput
  | OpNotFound
  | OpConflict
  | OpInUse
  | OpInternal

definition parse_id :: "env \<Rightarrow> string \<Rightarrow> op_error + uuid" where
  "parse_id e value = from_option OpInvalidInput (parse_uuid e (trim_space value))"

definition parse_optional_id :: "env \<Rightarrow> string option \<Rightarrow> op_error + uuid option" where
  "parse_optional_id e value =
     (case value of None \<Rightarrow> Inr None | Some s \<Rightarrow> bindE (parse_id e s) (\<lambda>i. Inr (Some i)))"

abbreviation known_id :: "env \<Rightarrow> string \<Rightarrow> op_error + uuid" where
  "known_id e s \<equiv> wrap_err (\<lambda>_. OpNotFound) (parse_id e s)"

definition organizer_id :: "env \<Rightarrow> user \<Rightarrow> op_error + uuid" where
  "organizer_id e actor =
     (if \<not> has_role actor RoleOrganizer then Inl OpForbidden
      else wrap_err (\<lambda>_. OpInternal) (parse_id e (user_id actor)))"

text \<open>
  A \<^verbatim>\<open>time.Time\<close> of an input is its nanosecond since the Unix epoch, the zero time the first one
  of year 1; a stored time is a microsecond, rounded down by the driver.
\<close>

type_synonym go_time = int

definition zero_time :: go_time where
  "zero_time = - 62135596800 * 1000000000"

definition stored_time :: "go_time \<Rightarrow> timestamp" where
  "stored_time t = t div 1000"

definition invalid_time_window :: "go_time option \<Rightarrow> go_time option \<Rightarrow> bool" where
  "invalid_time_window start fin =
     (start = Some zero_time \<or> fin = Some zero_time \<or>
      (case (start, fin) of (Some s, Some t) \<Rightarrow> \<not> s < t | _ \<Rightarrow> False))"

definition window_check :: "timestamp option \<Rightarrow> timestamp option \<Rightarrow> bool" where
  "window_check start fin = (case (start, fin) of (Some s, Some t) \<Rightarrow> s < t | _ \<Rightarrow> True)"

definition maximum_redemption_value :: int where
  "maximum_redemption_value = 2 ^ 31 - 1"

section \<open>Inputs\<close>

record activity_input =
  ai_cycle :: string
  ai_slug :: string
  ai_name :: string
  ai_starts :: "go_time option"
  ai_ends :: "go_time option"

record checkpoint_input =
  ci_cycle :: string
  ci_activity :: "string option"
  ci_slug :: string
  ci_name :: string
  ci_opens :: "go_time option"
  ci_closes :: "go_time option"
  ci_allowed :: bool
  ci_max :: int
  ci_active :: bool

record activity_fields =
  af_slug :: string
  af_name :: string
  af_starts :: "go_time option"
  af_ends :: "go_time option"

record checkpoint_fields =
  cf_activity :: "uuid option"
  cf_slug :: string
  cf_name :: string
  cf_opens :: "go_time option"
  cf_closes :: "go_time option"
  cf_allowed :: bool
  cf_max :: int
  cf_active :: bool

definition validate_activity_input :: "activity_input \<Rightarrow> op_error + activity_fields" where
  "validate_activity_input i =
     (let f = \<lparr>af_slug = trim_space (ai_slug i), af_name = trim_space (ai_name i),
               af_starts = ai_starts i, af_ends = ai_ends i\<rparr>
      in if af_slug f = [] \<or> af_name f = [] \<or> invalid_time_window (af_starts f) (af_ends f)
         then Inl OpInvalidInput else Inr f)"

definition validate_checkpoint_input :: "env \<Rightarrow> checkpoint_input \<Rightarrow> op_error + checkpoint_fields" where
  "validate_checkpoint_input e i =
     bindE (parse_optional_id e (ci_activity i)) (\<lambda>activity.
     let f = \<lparr>cf_activity = activity, cf_slug = trim_space (ci_slug i), cf_name = trim_space (ci_name i),
              cf_opens = ci_opens i, cf_closes = ci_closes i, cf_allowed = ci_allowed i,
              cf_max = ci_max i, cf_active = ci_active i\<rparr>
     in if cf_slug f = [] \<or> cf_name f = [] \<or> cf_max f < 0 \<or> cf_max f > maximum_redemption_value
          \<or> invalid_time_window (cf_opens f) (cf_closes f)
        then Inl OpInvalidInput else Inr f)"

section \<open>Views\<close>

record activity_view =
  acv_id :: string
  acv_cycle :: string
  acv_slug :: string
  acv_name :: string
  acv_starts :: "timestamp option"
  acv_ends :: "timestamp option"
  acv_created :: timestamp
  acv_updated :: timestamp

definition scan_activity :: "env \<Rightarrow> activity_row \<Rightarrow> activity_view" where
  "scan_activity e r =
     \<lparr>acv_id = uuid_text e (ac_id r), acv_cycle = uuid_text e (ac_cycle r), acv_slug = ac_slug r,
      acv_name = ac_name r, acv_starts = ac_starts r, acv_ends = ac_ends r,
      acv_created = ac_created r, acv_updated = ac_updated r\<rparr>"

record checkpoint_view =
  ckv_id :: string
  ckv_cycle :: string
  ckv_activity :: "string option"
  ckv_slug :: string
  ckv_name :: string
  ckv_opens :: "timestamp option"
  ckv_closes :: "timestamp option"
  ckv_allowed :: bool
  ckv_max :: int
  ckv_active :: bool
  ckv_created :: timestamp
  ckv_updated :: timestamp

definition scan_checkpoint :: "env \<Rightarrow> checkpoint_row \<Rightarrow> checkpoint_view" where
  "scan_checkpoint e r =
     \<lparr>ckv_id = uuid_text e (ck_id r), ckv_cycle = uuid_text e (ck_cycle r),
      ckv_activity = map_option (uuid_text e) (ck_activity r), ckv_slug = ck_slug r,
      ckv_name = ck_name r, ckv_opens = ck_opens r, ckv_closes = ck_closes r,
      ckv_allowed = ck_allowed r, ckv_max = ck_max r, ckv_active = ck_active r,
      ckv_created = ck_created r, ckv_updated = ck_updated r\<rparr>"

record entitlement_view =
  env_attendee :: string
  env_checkpoint :: string
  env_allowed :: bool
  env_max :: int
  env_created :: timestamp
  env_updated :: timestamp

definition entitlement_from :: "env \<Rightarrow> entitlement_row \<Rightarrow> entitlement_view" where
  "entitlement_from e r =
     \<lparr>env_attendee = uuid_text e (en_attendee r), env_checkpoint = uuid_text e (en_checkpoint r),
      env_allowed = en_allowed r, env_max = en_max r, env_created = en_created r,
      env_updated = en_updated r\<rparr>"

section \<open>Statements\<close>

definition lock_cycle :: "uuid \<Rightarrow> db \<Rightarrow> cycle_row option" where
  "lock_cycle c d = List.find (\<lambda>x. cy_id x = c) (cycles d)"

definition lock_activity_in_cycle :: "uuid \<Rightarrow> uuid \<Rightarrow> db \<Rightarrow> activity_row option" where
  "lock_activity_in_cycle i c d = List.find (\<lambda>x. ac_id x = i \<and> ac_cycle x = c) (activities d)"

definition lock_checkpoint_cycle :: "uuid \<Rightarrow> db \<Rightarrow> uuid option" where
  "lock_checkpoint_cycle i d = map_option ck_cycle (List.find (\<lambda>c. ck_id c = i) (checkpoints d))"

definition lock_visible_attendee_cycle :: "uuid \<Rightarrow> db \<Rightarrow> uuid option" where
  "lock_visible_attendee_cycle i d =
     (case List.find (\<lambda>t. ad_id t = i) (attendees d) of None \<Rightarrow> None
      | Some t \<Rightarrow> if released_acceptance d t then Some (ad_cycle t) else None)"

text \<open>\<open>insertAudit\<close> parses the subject's text again.\<close>

definition op_audit :: "env \<Rightarrow> uuid \<Rightarrow> string \<Rightarrow> string \<Rightarrow> string \<Rightarrow> json \<Rightarrow> db \<Rightarrow> op_error + db" where
  "op_audit e actor event subject_type subject metadata d =
     bindE (wrap_err (\<lambda>_. OpInternal) (parse_id e subject)) (\<lambda>i.
     wrap_err (\<lambda>_. OpInternal) (insert_audit e (Some actor) event subject_type i metadata d))"

text \<open>A conflict is reported for \<^verbatim>\<open>23505\<close>, a resource in use for \<^verbatim>\<open>23503\<close>.\<close>

definition unique_error :: "db_error \<Rightarrow> op_error" where
  "unique_error x = (if x = UniqueViolation then OpConflict else OpInternal)"

definition reference_error :: "db_error \<Rightarrow> op_error" where
  "reference_error x = (if x = ForeignKeyViolation then OpInUse else OpInternal)"

definition activity_check :: "activity_row \<Rightarrow> bool" where
  "activity_check r = (ac_slug r \<noteq> [] \<and> ac_name r \<noteq> [] \<and> window_check (ac_starts r) (ac_ends r))"

definition insert_activity :: "activity_row \<Rightarrow> db \<Rightarrow> db_error + db" where
  "insert_activity r d =
     (if \<not> activity_check r then Inl CheckViolation
      else if ac_id r \<in> ac_id ` set (activities d)
        \<or> (ac_cycle r, ac_slug r) \<in> (\<lambda>x. (ac_cycle x, ac_slug x)) ` set (activities d)
      then Inl UniqueViolation
      else if ac_cycle r \<notin> cy_id ` set (cycles d) then Inl ForeignKeyViolation
      else Inr (d\<lparr>activities := activities d @ [r]\<rparr>))"

definition edited_activity :: "env \<Rightarrow> activity_fields \<Rightarrow> activity_row \<Rightarrow> activity_row" where
  "edited_activity e f r =
     r\<lparr>ac_slug := af_slug f, ac_name := af_name f, ac_starts := map_option stored_time (af_starts f),
       ac_ends := map_option stored_time (af_ends f), ac_updated := now e\<rparr>"

text \<open>\<^verbatim>\<open>UPDATE ... RETURNING\<close>: no value when the row is not there.\<close>

definition update_activity_row ::
    "env \<Rightarrow> uuid \<Rightarrow> activity_fields \<Rightarrow> db \<Rightarrow> db_error + (activity_row \<times> db) option" where
  "update_activity_row e i f d =
     (case List.find (\<lambda>x. ac_id x = i) (activities d) of None \<Rightarrow> Inr None
      | Some r \<Rightarrow>
          let r' = edited_activity e f r in
          if \<not> activity_check r' then Inl CheckViolation
          else if list_ex (\<lambda>x. ac_id x \<noteq> i \<and> ac_cycle x = ac_cycle r' \<and> ac_slug x = ac_slug r') (activities d)
          then Inl UniqueViolation
          else Inr (Some (r', d\<lparr>activities := upd_rows (\<lambda>x. ac_id x = i) (edited_activity e f) (activities d)\<rparr>)))"

definition delete_activity_row :: "uuid \<Rightarrow> db \<Rightarrow> db_error + db" where
  "delete_activity_row i d =
     (if list_ex (\<lambda>c. ck_activity c = Some i) (checkpoints d) then Inl ForeignKeyViolation
      else Inr (d\<lparr>activities := del_rows (\<lambda>x. ac_id x = i) (activities d)\<rparr>))"

definition checkpoint_check :: "checkpoint_row \<Rightarrow> bool" where
  "checkpoint_check r =
     (ck_slug r \<noteq> [] \<and> ck_name r \<noteq> [] \<and> 0 \<le> ck_max r \<and> window_check (ck_opens r) (ck_closes r))"

definition activity_reference_ok :: "checkpoint_row \<Rightarrow> db \<Rightarrow> bool" where
  "activity_reference_ok r d =
     (case ck_activity r of None \<Rightarrow> True
      | Some a \<Rightarrow> list_ex (\<lambda>x. ac_id x = a \<and> ac_cycle x = ck_cycle r) (activities d))"

definition insert_checkpoint :: "checkpoint_row \<Rightarrow> db \<Rightarrow> db_error + db" where
  "insert_checkpoint r d =
     (if \<not> int4_ok (ck_max r) then Inl IntegerOutOfRange
      else if \<not> checkpoint_check r then Inl CheckViolation
      else if ck_id r \<in> ck_id ` set (checkpoints d)
        \<or> (ck_cycle r, ck_slug r) \<in> (\<lambda>x. (ck_cycle x, ck_slug x)) ` set (checkpoints d)
      then Inl UniqueViolation
      else if ck_cycle r \<notin> cy_id ` set (cycles d) \<or> \<not> activity_reference_ok r d
      then Inl ForeignKeyViolation
      else Inr (d\<lparr>checkpoints := checkpoints d @ [r]\<rparr>))"

definition edited_checkpoint :: "env \<Rightarrow> checkpoint_fields \<Rightarrow> checkpoint_row \<Rightarrow> checkpoint_row" where
  "edited_checkpoint e f r =
     r\<lparr>ck_activity := cf_activity f, ck_slug := cf_slug f, ck_name := cf_name f,
       ck_opens := map_option stored_time (cf_opens f), ck_closes := map_option stored_time (cf_closes f),
       ck_allowed := cf_allowed f, ck_max := cf_max f, ck_active := cf_active f, ck_updated := now e\<rparr>"

definition update_checkpoint_row ::
    "env \<Rightarrow> uuid \<Rightarrow> checkpoint_fields \<Rightarrow> db \<Rightarrow> db_error + (checkpoint_row \<times> db) option" where
  "update_checkpoint_row e i f d =
     (case List.find (\<lambda>x. ck_id x = i) (checkpoints d) of None \<Rightarrow> Inr None
      | Some r \<Rightarrow>
          let r' = edited_checkpoint e f r in
          if \<not> int4_ok (ck_max r') then Inl IntegerOutOfRange
          else if \<not> checkpoint_check r' then Inl CheckViolation
          else if list_ex (\<lambda>x. ck_id x \<noteq> i \<and> ck_cycle x = ck_cycle r' \<and> ck_slug x = ck_slug r') (checkpoints d)
          then Inl UniqueViolation
          else if \<not> activity_reference_ok r' d then Inl ForeignKeyViolation
          else Inr (Some (r', d\<lparr>checkpoints :=
                 upd_rows (\<lambda>x. ck_id x = i) (edited_checkpoint e f) (checkpoints d)\<rparr>)))"

text \<open>Overrides, requests and redemptions refer to checkpoints.\<close>

definition checkpoint_referenced :: "uuid \<Rightarrow> db \<Rightarrow> bool" where
  "checkpoint_referenced i d =
     (list_ex (\<lambda>x. en_checkpoint x = i) (entitlements d) \<or> list_ex (\<lambda>x. rq_checkpoint x = i) (requests d)
      \<or> list_ex (\<lambda>x. rd_checkpoint x = i) (redemptions d))"

definition delete_checkpoint_row :: "uuid \<Rightarrow> db \<Rightarrow> db_error + db" where
  "delete_checkpoint_row i d =
     (if checkpoint_referenced i d then Inl ForeignKeyViolation
      else Inr (d\<lparr>checkpoints := del_rows (\<lambda>x. ck_id x = i) (checkpoints d)\<rparr>))"

definition entitlement_at :: "uuid \<Rightarrow> uuid \<Rightarrow> entitlement_row \<Rightarrow> bool" where
  "entitlement_at a c x = (en_attendee x = a \<and> en_checkpoint x = c)"

definition overridden :: "env \<Rightarrow> bool \<Rightarrow> int \<Rightarrow> entitlement_row \<Rightarrow> entitlement_row" where
  "overridden e allowed maximum x = x\<lparr>en_allowed := allowed, en_max := maximum, en_updated := now e\<rparr>"

definition upsert_entitlement ::
    "env \<Rightarrow> uuid \<Rightarrow> uuid \<Rightarrow> uuid \<Rightarrow> bool \<Rightarrow> int \<Rightarrow> db \<Rightarrow> db_error + entitlement_row \<times> db" where
  "upsert_entitlement e a c cycle allowed maximum d =
     (if \<not> int4_ok maximum then Inl IntegerOutOfRange
      else if maximum < 0 then Inl CheckViolation
      else case List.find (entitlement_at a c) (entitlements d) of
        Some x \<Rightarrow> Inr (overridden e allowed maximum x, d\<lparr>entitlements :=
            upd_rows (entitlement_at a c) (overridden e allowed maximum) (entitlements d)\<rparr>)
      | None \<Rightarrow>
          if (a, cycle) \<notin> (\<lambda>x. (ad_id x, ad_cycle x)) ` set (attendees d)
            \<or> (c, cycle) \<notin> (\<lambda>x. (ck_id x, ck_cycle x)) ` set (checkpoints d)
          then Inl ForeignKeyViolation
          else let x = \<lparr>en_attendee = a, en_checkpoint = c, en_cycle = cycle, en_allowed = allowed,
                        en_max = maximum, en_created = now e, en_updated = now e\<rparr>
               in Inr (x, d\<lparr>entitlements := entitlements d @ [x]\<rparr>))"

section \<open>Activities\<close>

definition new_activity :: "env \<Rightarrow> uuid \<Rightarrow> activity_fields \<Rightarrow> activity_row" where
  "new_activity e cycle f =
     \<lparr>ac_id = fresh e 0, ac_cycle = cycle, ac_slug = af_slug f, ac_name = af_name f,
      ac_starts = map_option stored_time (af_starts f), ac_ends = map_option stored_time (af_ends f),
      ac_created = now e, ac_updated = now e\<rparr>"

definition activity_metadata :: "activity_view \<Rightarrow> json" where
  "activity_metadata v = JObject [(''cycleId'', JString (acv_cycle v)), (''slug'', JString (acv_slug v))]"

text \<open>\<^verbatim>\<open>ORDER BY cycle_id, starts_at NULLS LAST, name, id\<close>; \<open>rank\<close> is the database's collation.\<close>

definition list_activities ::
    "env \<Rightarrow> (string \<Rightarrow> nat) \<Rightarrow> user \<Rightarrow> (db, op_error, activity_view list) tx" where
  "list_activities e rank actor = query (\<lambda>d.
     if \<not> has_role actor RoleOrganizer then Inl OpForbidden
     else Inr (map (scan_activity e)
       (sort_key ac_cycle (sort_key (\<lambda>r. if ac_starts r = None then (1::nat) else 0)
         (sort_key (\<lambda>r. case ac_starts r of None \<Rightarrow> 0 | Some t \<Rightarrow> t)
           (sort_key (\<lambda>r. rank (ac_name r)) (sort_key ac_id (activities d))))))))"

definition create_activity :: "env \<Rightarrow> user \<Rightarrow> activity_input \<Rightarrow> (db, op_error, activity_view) tx" where
  "create_activity e actor input = transact (\<lambda>d.
     bindE (organizer_id e actor) (\<lambda>actor_id.
     bindE (parse_id e (ai_cycle input)) (\<lambda>cycle.
     bindE (validate_activity_input input) (\<lambda>f.
     bindE (from_option OpNotFound (lock_cycle cycle d)) (\<lambda>_.
     let r = new_activity e cycle f; v = scan_activity e r in
     bindE (wrap_err unique_error (insert_activity r d)) (\<lambda>d1.
     bindE (op_audit e actor_id ''activity_created'' ''activity'' (acv_id v) (activity_metadata v) d1) (\<lambda>d2.
     Inr (v, d2))))))))"

definition update_activity ::
    "env \<Rightarrow> user \<Rightarrow> string \<Rightarrow> activity_input \<Rightarrow> (db, op_error, activity_view) tx" where
  "update_activity e actor activity input = transact (\<lambda>d.
     bindE (organizer_id e actor) (\<lambda>actor_id.
     bindE (known_id e activity) (\<lambda>i.
     bindE (validate_activity_input input) (\<lambda>f.
     bindE (wrap_err unique_error (update_activity_row e i f d)) (\<lambda>written.
     bindE (from_option OpNotFound written) (\<lambda>(r, d1).
     let v = scan_activity e r in
     bindE (op_audit e actor_id ''activity_updated'' ''activity'' (acv_id v) (activity_metadata v) d1) (\<lambda>d2.
     Inr (v, d2))))))))"

definition delete_activity :: "env \<Rightarrow> user \<Rightarrow> string \<Rightarrow> (db, op_error, unit) tx" where
  "delete_activity e actor activity = transact (\<lambda>d.
     bindE (organizer_id e actor) (\<lambda>actor_id.
     bindE (known_id e activity) (\<lambda>i.
     bindE (from_option OpNotFound (List.find (\<lambda>x. ac_id x = i) (activities d))) (\<lambda>r.
     bindE (wrap_err reference_error (delete_activity_row i d)) (\<lambda>d1.
     let v = scan_activity e r in
     bindE (op_audit e actor_id ''activity_deleted'' ''activity'' (acv_id v) (activity_metadata v) d1) (\<lambda>d2.
     Inr ((), d2)))))))"

section \<open>Checkpoints\<close>

definition new_checkpoint :: "env \<Rightarrow> uuid \<Rightarrow> checkpoint_fields \<Rightarrow> checkpoint_row" where
  "new_checkpoint e cycle f =
     \<lparr>ck_id = fresh e 0, ck_cycle = cycle, ck_activity = cf_activity f, ck_slug = cf_slug f,
      ck_name = cf_name f, ck_opens = map_option stored_time (cf_opens f),
      ck_closes = map_option stored_time (cf_closes f), ck_allowed = cf_allowed f, ck_max = cf_max f,
      ck_active = cf_active f, ck_created = now e, ck_updated = now e\<rparr>"

text \<open>\<^verbatim>\<open>json.Marshal\<close> writes the keys of a map in order.\<close>

definition checkpoint_audit_metadata :: "checkpoint_view \<Rightarrow> json" where
  "checkpoint_audit_metadata v =
     JObject ([(''active'', JBool (ckv_active v))] @
       (case ckv_activity v of None \<Rightarrow> [] | Some a \<Rightarrow> [(''activityId'', JString a)]) @
       [(''cycleId'', JString (ckv_cycle v)), (''defaultAllowed'', JBool (ckv_allowed v)),
        (''defaultMaxRedemptions'', JNumber (itoa (ckv_max v))), (''slug'', JString (ckv_slug v))])"

definition list_checkpoints ::
    "env \<Rightarrow> (string \<Rightarrow> nat) \<Rightarrow> user \<Rightarrow> (db, op_error, checkpoint_view list) tx" where
  "list_checkpoints e rank actor = query (\<lambda>d.
     if \<not> has_role actor RoleOrganizer then Inl OpForbidden
     else Inr (map (scan_checkpoint e)
       (sort_key ck_cycle (sort_key (\<lambda>r. rank (ck_name r)) (sort_key ck_id (checkpoints d))))))"

definition activity_locked :: "checkpoint_fields \<Rightarrow> uuid \<Rightarrow> db \<Rightarrow> bool" where
  "activity_locked f cycle d =
     (case cf_activity f of None \<Rightarrow> True | Some a \<Rightarrow> lock_activity_in_cycle a cycle d \<noteq> None)"

definition create_checkpoint ::
    "env \<Rightarrow> user \<Rightarrow> checkpoint_input \<Rightarrow> (db, op_error, checkpoint_view) tx" where
  "create_checkpoint e actor input = transact (\<lambda>d.
     bindE (organizer_id e actor) (\<lambda>actor_id.
     bindE (parse_id e (ci_cycle input)) (\<lambda>cycle.
     bindE (validate_checkpoint_input e input) (\<lambda>f.
     bindE (from_option OpNotFound (lock_cycle cycle d)) (\<lambda>_.
     if \<not> activity_locked f cycle d then Inl OpNotFound
     else let r = new_checkpoint e cycle f; v = scan_checkpoint e r in
       bindE (wrap_err unique_error (insert_checkpoint r d)) (\<lambda>d1.
       bindE (op_audit e actor_id ''checkpoint_created'' ''checkpoint'' (ckv_id v)
                (checkpoint_audit_metadata v) d1) (\<lambda>d2.
       Inr (v, d2))))))))"

definition update_checkpoint ::
    "env \<Rightarrow> user \<Rightarrow> string \<Rightarrow> checkpoint_input \<Rightarrow> (db, op_error, checkpoint_view) tx" where
  "update_checkpoint e actor checkpoint input = transact (\<lambda>d.
     bindE (organizer_id e actor) (\<lambda>actor_id.
     bindE (known_id e checkpoint) (\<lambda>i.
     bindE (validate_checkpoint_input e input) (\<lambda>f.
     bindE (from_option OpNotFound (lock_checkpoint_cycle i d)) (\<lambda>cycle.
     if \<not> activity_locked f cycle d then Inl OpNotFound
     else bindE (wrap_err unique_error (update_checkpoint_row e i f d)) (\<lambda>written.
          bindE (from_option OpNotFound written) (\<lambda>(r, d1).
          let v = scan_checkpoint e r in
          bindE (op_audit e actor_id ''checkpoint_updated'' ''checkpoint'' (ckv_id v)
                   (checkpoint_audit_metadata v) d1) (\<lambda>d2.
          Inr (v, d2)))))))))"

definition delete_checkpoint :: "env \<Rightarrow> user \<Rightarrow> string \<Rightarrow> (db, op_error, unit) tx" where
  "delete_checkpoint e actor checkpoint = transact (\<lambda>d.
     bindE (organizer_id e actor) (\<lambda>actor_id.
     bindE (known_id e checkpoint) (\<lambda>i.
     bindE (from_option OpNotFound (lock_checkpoint i d)) (\<lambda>r.
     bindE (wrap_err reference_error (delete_checkpoint_row i d)) (\<lambda>d1.
     let v = scan_checkpoint e r in
     bindE (op_audit e actor_id ''checkpoint_deleted'' ''checkpoint'' (ckv_id v)
              (checkpoint_audit_metadata v) d1) (\<lambda>d2.
     Inr ((), d2)))))))"

section \<open>Entitlement overrides\<close>

text \<open>The attendee of a released acceptance, in the cycle of the checkpoint.\<close>

definition get_entitlement ::
    "env \<Rightarrow> user \<Rightarrow> string \<Rightarrow> string \<Rightarrow> (db, op_error, entitlement_view option) tx" where
  "get_entitlement e actor attendee checkpoint = query (\<lambda>d.
     if \<not> has_role actor RoleOrganizer then Inl OpForbidden
     else bindE (known_id e attendee) (\<lambda>a.
          bindE (known_id e checkpoint) (\<lambda>c.
          case (lock_visible_attendee_cycle a d, lock_checkpoint_cycle c d) of
            (Some x, Some y) \<Rightarrow>
              if x \<noteq> y then Inl OpNotFound
              else Inr (map_option (entitlement_from e) (List.find (entitlement_at a c) (entitlements d)))
          | _ \<Rightarrow> Inl OpNotFound)))"

text \<open>The common start of the two writers: the checkpoint is locked first, then the attendee.\<close>

definition lock_entitlement :: "uuid \<Rightarrow> uuid \<Rightarrow> db \<Rightarrow> op_error + uuid" where
  "lock_entitlement a c d =
     bindE (from_option OpNotFound (lock_checkpoint_cycle c d)) (\<lambda>checkpoint_cycle.
     bindE (from_option OpNotFound (lock_visible_attendee_cycle a d)) (\<lambda>attendee_cycle.
     if attendee_cycle \<noteq> checkpoint_cycle then Inl OpNotFound else Inr attendee_cycle))"

definition put_entitlement ::
    "env \<Rightarrow> user \<Rightarrow> string \<Rightarrow> string \<Rightarrow> bool \<Rightarrow> int \<Rightarrow> (db, op_error, entitlement_view) tx" where
  "put_entitlement e actor attendee checkpoint allowed maximum = transact (\<lambda>d.
     bindE (organizer_id e actor) (\<lambda>actor_id.
     bindE (known_id e attendee) (\<lambda>a.
     bindE (known_id e checkpoint) (\<lambda>c.
     if maximum < 0 \<or> maximum > maximum_redemption_value then Inl OpInvalidInput
     else bindE (lock_entitlement a c d) (\<lambda>cycle.
          bindE (wrap_err (\<lambda>_. OpInternal) (upsert_entitlement e a c cycle allowed maximum d)) (\<lambda>(x, d1).
          let v = entitlement_from e x in
          bindE (op_audit e actor_id ''entitlement_overridden'' ''attendee'' (env_attendee v)
                   (JObject [(''allowed'', JBool (env_allowed v)),
                             (''checkpointId'', JString (env_checkpoint v)),
                             (''maxRedemptions'', JNumber (itoa (env_max v)))]) d1) (\<lambda>d2.
          Inr (v, d2))))))))"

definition delete_entitlement :: "env \<Rightarrow> user \<Rightarrow> string \<Rightarrow> string \<Rightarrow> (db, op_error, unit) tx" where
  "delete_entitlement e actor attendee checkpoint = transact (\<lambda>d.
     bindE (organizer_id e actor) (\<lambda>actor_id.
     bindE (known_id e attendee) (\<lambda>a.
     bindE (known_id e checkpoint) (\<lambda>c.
     bindE (lock_entitlement a c d) (\<lambda>_.
     case List.find (entitlement_at a c) (entitlements d) of
       None \<Rightarrow> Inr ((), d)
     | Some x \<Rightarrow>
         let v = entitlement_from e x in
         bindE (op_audit e actor_id ''entitlement_removed'' ''attendee'' (env_attendee v)
                  (JObject [(''checkpointId'', JString (env_checkpoint v))])
                  (d\<lparr>entitlements := del_rows (entitlement_at a c) (entitlements d)\<rparr>)) (\<lambda>d1.
         Inr ((), d1)))))))"

section \<open>Reports\<close>

text \<open>Confirmed answers to the released acceptances of a cycle.\<close>

definition confirmed_rsvps :: "uuid \<Rightarrow> db \<Rightarrow> int" where
  "confirmed_rsvps cycle d =
     int (length (concat (map (\<lambda>a. filter (\<lambda>t. ap_decision_id a = Some (at_decision t) \<and>
            at_status t = RsvpConfirmed) (attendance d))
       (filter (\<lambda>a. ap_cycle a = cycle \<and> ap_status a = StAccepted \<and> ap_released a \<noteq> None)
         (applications d)))))"

record checkpoint_count =
  cc_id :: string
  cc_name :: string
  cc_total :: int
  cc_unique :: int
  cc_confirmed :: int
  cc_last :: "timestamp option"

definition latest :: "timestamp list \<Rightarrow> timestamp option" where
  "latest ts = (if ts = [] then None else Some (foldr max (tl ts) (hd ts)))"

definition count_checkpoint :: "env \<Rightarrow> db \<Rightarrow> checkpoint_row \<Rightarrow> checkpoint_count" where
  "count_checkpoint e d c =
     (let rs = filter (\<lambda>r. rd_checkpoint r = ck_id c) (redemptions d) in
      \<lparr>cc_id = uuid_text e (ck_id c), cc_name = ck_name c, cc_total = int (length rs),
       cc_unique = int (length (remdups (map rd_attendee rs))), cc_confirmed = confirmed_rsvps (ck_cycle c) d,
       cc_last = latest (map rd_at rs)\<rparr>)"

definition list_checkpoint_counts ::
    "env \<Rightarrow> (string \<Rightarrow> nat) \<Rightarrow> user \<Rightarrow> (db, op_error, checkpoint_count list) tx" where
  "list_checkpoint_counts e rank actor = query (\<lambda>d.
     if \<not> has_role actor RoleOrganizer then Inl OpForbidden
     else Inr (map (count_checkpoint e d)
       (sort_key (\<lambda>c. rank (ck_name c)) (sort_key ck_id (checkpoints d)))))"

record redemption_report =
  rr_id :: string
  rr_at :: timestamp
  rr_ordinal :: int
  rr_checkpoint :: "string \<times> string \<times> string"
  rr_attendee :: "string \<times> string"
  rr_pass :: "string \<times> pass_status"
  rr_scanner :: string

definition report_row :: "env \<Rightarrow> db \<Rightarrow> redemption_row \<Rightarrow> redemption_report option" where
  "report_row e d r =
     (case (List.find (\<lambda>c. ck_id c = rd_checkpoint r) (checkpoints d),
            List.find (\<lambda>t. ad_id t = rd_attendee r) (attendees d),
            List.find (\<lambda>p. pa_id p = rd_pass r \<and> pa_attendee p = rd_attendee r) (passes d)) of
        (Some c, Some t, Some p) \<Rightarrow> Some
          \<lparr>rr_id = uuid_text e (rd_id r), rr_at = rd_at r, rr_ordinal = rd_ordinal r,
           rr_checkpoint = (uuid_text e (ck_id c), ck_slug c, ck_name c),
           rr_attendee = (uuid_text e (ad_id t), ad_name t),
           rr_pass = (uuid_text e (pa_id p), pa_status p), rr_scanner = uuid_text e (rd_scanner r)\<rparr>
      | _ \<Rightarrow> None)"

text \<open>\<open>listRedemptions\<close>, the latest first; a limit that is not positive is none.\<close>

definition redemption_rows :: "env \<Rightarrow> uuid option \<Rightarrow> int \<Rightarrow> db \<Rightarrow> redemption_report list" where
  "redemption_rows e fl limit d =
     (let rows = concat (map (\<lambda>r. case report_row e d r of None \<Rightarrow> [] | Some v \<Rightarrow> [v])
        (rev (sort_key rd_at (sort_key rd_id
          (filter (\<lambda>r. case fl of None \<Rightarrow> True | Some c \<Rightarrow> rd_checkpoint r = c) (redemptions d))))))
      in if limit > 0 then take (nat limit) rows else rows)"

definition list_redemptions ::
    "env \<Rightarrow> user \<Rightarrow> string option \<Rightarrow> int \<Rightarrow> (db, op_error, redemption_report list) tx" where
  "list_redemptions e actor checkpoint limit = query (\<lambda>d.
     if \<not> has_role actor RoleOrganizer then Inl OpForbidden
     else bindE (parse_optional_id e checkpoint) (\<lambda>fl.
          let n = (if limit = 0 then 100 else limit) in
          if n < 1 \<or> n > 500 then Inl OpInvalidInput else Inr (redemption_rows e fl n d)))"

datatype export_kind = ExportAttendance | ExportReconciliation | ExportOther string

definition kind_text :: "export_kind \<Rightarrow> string" where
  "kind_text k =
     (case k of ExportAttendance \<Rightarrow> ''attendance'' | ExportReconciliation \<Rightarrow> ''reconciliation''
      | ExportOther s \<Rightarrow> s)"

definition export_redemptions ::
    "env \<Rightarrow> user \<Rightarrow> export_kind \<Rightarrow> string option \<Rightarrow> (db, op_error, redemption_report list) tx" where
  "export_redemptions e actor kind checkpoint = transact (\<lambda>d.
     bindE (organizer_id e actor) (\<lambda>actor_id.
     if kind \<noteq> ExportAttendance \<and> kind \<noteq> ExportReconciliation then Inl OpInvalidInput
     else bindE (parse_optional_id e checkpoint) (\<lambda>fl.
          let rows = redemption_rows e fl (-1) d in
          bindE (op_audit e actor_id ''redemption_exported'' ''user'' (uuid_text e actor_id)
                   (JObject ((case fl of None \<Rightarrow> [] | Some c \<Rightarrow> [(''checkpointId'', JString (uuid_text e c))]) @
                      [(''kind'', JString (kind_text kind)),
                       (''recordCount'', JNumber (itoa (int (length rows))))])) d) (\<lambda>d1.
          Inr (rows, d1)))))"

section \<open>Check-in set-up\<close>

definition attendance_summary ::
    "env \<Rightarrow> user \<Rightarrow> (db, op_error, string \<times> string \<times> int) tx" where
  "attendance_summary e actor = query (\<lambda>d.
     if \<not> has_role actor RoleOrganizer then Inl OpForbidden
     else bindE (from_option OpNotFound (List.find cy_active (cycles d))) (\<lambda>c.
          Inr (uuid_text e (cy_id c), cy_name c, confirmed_rsvps (cy_id c) d)))"

definition entrance_fields :: checkpoint_fields where
  "entrance_fields = \<lparr>cf_activity = None, cf_slug = ''main-entrance'', cf_name = ''Main entrance'',
     cf_opens = None, cf_closes = None, cf_allowed = True, cf_max = 1, cf_active = True\<rparr>"

definition enable_entrance :: "env \<Rightarrow> user \<Rightarrow> string \<Rightarrow> (db, op_error, checkpoint_view) tx" where
  "enable_entrance e actor cycle_text = transact (\<lambda>d.
     bindE (organizer_id e actor) (\<lambda>actor_id.
     bindE (parse_id e cycle_text) (\<lambda>cycle.
     bindE (from_option OpNotFound (lock_cycle cycle d)) (\<lambda>c.
     if \<not> cy_active c then Inl OpConflict
     else case List.find (\<lambda>k. ck_cycle k = cycle \<and> ck_slug k = ''main-entrance'') (checkpoints d) of
         Some k \<Rightarrow> Inr (scan_checkpoint e k, d)
       | None \<Rightarrow>
           if list_ex (\<lambda>k. ck_cycle k = cycle) (checkpoints d) then Inl OpConflict
           else let r = new_checkpoint e cycle entrance_fields; v = scan_checkpoint e r in
             bindE (wrap_err (\<lambda>_. OpInternal) (insert_checkpoint r d)) (\<lambda>d1.
             bindE (op_audit e actor_id ''checkpoint_created'' ''checkpoint'' (ckv_id v)
                      (checkpoint_audit_metadata v) d1) (\<lambda>d2.
             Inr (v, d2)))))))"

section \<open>The invariant of the event's configuration\<close>

definition checkpoint_pairs :: "db \<Rightarrow> (uuid \<times> uuid) set" where
  "checkpoint_pairs d = (\<lambda>c. (ck_id c, ck_cycle c)) ` set (checkpoints d)"

definition attendee_pairs :: "db \<Rightarrow> (uuid \<times> uuid) set" where
  "attendee_pairs d = (\<lambda>t. (ad_id t, ad_cycle t)) ` set (attendees d)"

definition entitlement_ok :: "db \<Rightarrow> entitlement_row \<Rightarrow> bool" where
  "entitlement_ok d x \<longleftrightarrow> 0 \<le> en_max x \<and> int4_ok (en_max x) \<and>
     (en_checkpoint x, en_cycle x) \<in> checkpoint_pairs d \<and> (en_attendee x, en_cycle x) \<in> attendee_pairs d"

definition ops_inv :: "db \<Rightarrow> bool" where
  "ops_inv d \<longleftrightarrow>
     distinct_on ac_id (activities d) \<and> distinct_on (\<lambda>r. (ac_cycle r, ac_slug r)) (activities d) \<and>
     (\<forall>r\<in>set (activities d). activity_check r) \<and>
     distinct_on ck_id (checkpoints d) \<and> distinct_on (\<lambda>r. (ck_cycle r, ck_slug r)) (checkpoints d) \<and>
     (\<forall>r\<in>set (checkpoints d). checkpoint_check r \<and> int4_ok (ck_max r) \<and> activity_reference_ok r d) \<and>
     distinct_on (\<lambda>x. (en_attendee x, en_checkpoint x)) (entitlements d) \<and>
     (\<forall>x\<in>set (entitlements d). entitlement_ok d x) \<and>
     (\<forall>q\<in>set (requests d). rq_checkpoint q \<in> ck_id ` set (checkpoints d)) \<and>
     (\<forall>r\<in>set (redemptions d). (rd_checkpoint r, rd_cycle r) \<in> checkpoint_pairs d)"

lemma ops_inv_audit [simp]: "ops_inv (d\<lparr>audit := x\<rparr>) = ops_inv d"
  by (simp add: ops_inv_def activity_reference_ok_def entitlement_ok_def checkpoint_pairs_def
      attendee_pairs_def cong: option.case_cong)

text \<open>The part of the ledger invariant that concerns the configuration follows from it.\<close>

lemma scan_inv_config:
  assumes "scan_inv d" and "ops_inv d'" and "requests d' = requests d" and "redemptions d' = redemptions d"
  shows "scan_inv d'"
  using assms by (simp add: scan_inv_def ops_inv_def checkpoint_check_def entitlement_ok_def)

lemma op_audit_Inr:
  assumes "op_audit e actor event st subject md d = Inr d'"
  shows "\<exists>x. d' = d\<lparr>audit := audit d @ [x]\<rparr> \<and> au_event x = event \<and> au_actor x = Some actor \<and>
    parse_uuid e (trim_space subject) = Some (au_subject x)"
  using assms unfolding op_audit_def by (auto simp: parse_id_def insert_audit_Inr)

lemma insert_activity_Inr:
  assumes "insert_activity r d = Inr d'"
  shows "d' = d\<lparr>activities := activities d @ [r]\<rparr>" and "ops_inv d \<Longrightarrow> ops_inv d'"
proof -
  have g: "activity_check r" "ac_id r \<notin> ac_id ` set (activities d)"
    "(ac_cycle r, ac_slug r) \<notin> (\<lambda>x. (ac_cycle x, ac_slug x)) ` set (activities d)"
    "d' = d\<lparr>activities := activities d @ [r]\<rparr>"
    using assms by (auto simp: insert_activity_def split: if_split_asm)
  show "d' = d\<lparr>activities := activities d @ [r]\<rparr>" by (rule g(4))
  assume inv: "ops_inv d"
  have "activity_reference_ok c d'" if "activity_reference_ok c d" for c
    using that by (auto simp: activity_reference_ok_def g(4) split: option.split)
  moreover have "checkpoint_pairs d' = checkpoint_pairs d" "attendee_pairs d' = attendee_pairs d"
    by (simp_all add: checkpoint_pairs_def attendee_pairs_def g(4))
  ultimately show "ops_inv d'"
    using inv g(1-3) by (simp add: ops_inv_def entitlement_ok_def g(4))
qed

lemma edited_activity_simps [simp]:
  "ac_id (edited_activity e f r) = ac_id r" "ac_cycle (edited_activity e f r) = ac_cycle r"
  "ac_slug (edited_activity e f r) = af_slug f"
  by (simp_all add: edited_activity_def)

lemma distinct_on_edit:
  assumes "distinct_on k rs" and "r \<in> set rs" and "distinct_on i rs"
    and "\<And>x. i (f x) = i x" and "\<forall>x\<in>set rs. i x \<noteq> i r \<longrightarrow> k x \<noteq> k (f r)"
  shows "distinct_on k (upd_rows (\<lambda>x. i x = i r) f rs)"
proof -
  have "r' = r" if "r' \<in> set rs" "i r' = i r" for r' using distinct_onD [OF assms(3) that(1) assms(2) that(2)] .
  then have "upd_rows (\<lambda>x. i x = i r) f rs = map (\<lambda>x. if x = r then f r else x) rs"
    unfolding upd_rows_def by (intro map_cong) auto
  moreover have "distinct (map (k \<circ> (\<lambda>x. if x = r then f r else x)) rs)"
  proof -
    have "distinct rs" using assms(1) by (simp add: distinct_on_def distinct_map)
    moreover have "inj_on (k \<circ> (\<lambda>x. if x = r then f r else x)) (set rs)"
    proof (rule inj_onI)
      fix x y assume m: "x \<in> set rs" "y \<in> set rs"
        and eq: "(k \<circ> (\<lambda>x. if x = r then f r else x)) x = (k \<circ> (\<lambda>x. if x = r then f r else x)) y"
      have key: "x = y" if "i x = i y" using distinct_onD [OF assms(3) m that] .
      show "x = y"
        using eq assms(5) m distinct_onD [OF assms(1) m] distinct_onD [OF assms(3) _ assms(2)]
        by (auto split: if_split_asm)
    qed
    ultimately show ?thesis by (simp add: distinct_map)
  qed
  ultimately show ?thesis by (simp add: distinct_on_def)
qed

lemma update_activity_row_Inr:
  assumes "update_activity_row e i f d = Inr (Some (r', d'))" and inv: "ops_inv d"
  shows "\<exists>r\<in>set (activities d). ac_id r = i \<and> r' = edited_activity e f r \<and>
      d' = d\<lparr>activities := upd_rows (\<lambda>x. ac_id x = i) (edited_activity e f) (activities d)\<rparr>" and "ops_inv d'"
proof -
  obtain r where fd: "List.find (\<lambda>x. ac_id x = i) (activities d) = Some r"
    and g: "activity_check (edited_activity e f r)" "r' = edited_activity e f r"
      "\<forall>x\<in>set (activities d). ac_id x \<noteq> i \<longrightarrow> \<not> (ac_cycle x = ac_cycle r \<and> ac_slug x = af_slug f)"
      "d' = d\<lparr>activities := upd_rows (\<lambda>x. ac_id x = i) (edited_activity e f) (activities d)\<rparr>"
    using assms(1)
    by (auto simp: update_activity_row_def Let_def list_ex_iff split: option.split_asm if_split_asm)
  have r: "r \<in> set (activities d)" "ac_id r = i" using find_SomeD [OF fd] by auto
  show "\<exists>r\<in>set (activities d). ac_id r = i \<and> r' = edited_activity e f r \<and>
      d' = d\<lparr>activities := upd_rows (\<lambda>x. ac_id x = i) (edited_activity e f) (activities d)\<rparr>"
    using r g by blast
  have k: "distinct_on ac_id (activities d)" "distinct_on (\<lambda>r. (ac_cycle r, ac_slug r)) (activities d)"
    using inv by (simp_all add: ops_inv_def)
  have "distinct_on (\<lambda>r. (ac_cycle r, ac_slug r)) (upd_rows (\<lambda>x. ac_id x = ac_id r) (edited_activity e f) (activities d))"
    by (rule distinct_on_edit [OF k(2) r(1) k(1)]) (use g(3) r(2) in auto)
  moreover have "activity_reference_ok c d'" if "activity_reference_ok c d" for c
    using that by (auto simp: activity_reference_ok_def g(4) list_ex_iff bex_upd_rows split: option.split)
  moreover have "activity_check x" if x: "x \<in> set (activities d')" for x
  proof -
    obtain y where y: "y \<in> set (activities d)" "x = (if ac_id y = i then edited_activity e f y else y)"
      using x unfolding g(4) by (auto elim: upd_rowsE)
    moreover have "y = r" if "ac_id y = i" using distinct_onD [OF k(1) y(1) r(1)] that r(2) by simp
    ultimately show ?thesis using g(1) inv by (auto simp: ops_inv_def)
  qed
  moreover have "checkpoint_pairs d' = checkpoint_pairs d" "attendee_pairs d' = attendee_pairs d"
    by (simp_all add: checkpoint_pairs_def attendee_pairs_def g(4))
  ultimately show "ops_inv d'"
    using inv r(2) by (simp add: ops_inv_def entitlement_ok_def g(4) distinct_on_upd_rows)
qed

lemma delete_activity_row_Inr:
  assumes "delete_activity_row i d = Inr d'"
  shows "\<forall>c\<in>set (checkpoints d). ck_activity c \<noteq> Some i"
    and "d' = d\<lparr>activities := del_rows (\<lambda>x. ac_id x = i) (activities d)\<rparr>"
    and "ops_inv d \<Longrightarrow> ops_inv d'"
proof -
  show free: "\<forall>c\<in>set (checkpoints d). ck_activity c \<noteq> Some i"
    and d': "d' = d\<lparr>activities := del_rows (\<lambda>x. ac_id x = i) (activities d)\<rparr>"
    using assms by (auto simp: delete_activity_row_def list_ex_iff split: if_split_asm)
  assume inv: "ops_inv d"
  have "activity_reference_ok c d'" if "c \<in> set (checkpoints d)" "activity_reference_ok c d" for c
  proof (cases "ck_activity c")
    case (Some a)
    then have "a \<noteq> i" using that(1) free by blast
    with Some that(2) show ?thesis by (auto simp: activity_reference_ok_def d' list_ex_iff)
  qed (simp add: activity_reference_ok_def)
  moreover have "checkpoint_pairs d' = checkpoint_pairs d" "attendee_pairs d' = attendee_pairs d"
    by (simp_all add: checkpoint_pairs_def attendee_pairs_def d')
  ultimately show "ops_inv d'"
    using inv by (simp add: ops_inv_def entitlement_ok_def d' distinct_on_del_rows)
qed

subsection \<open>Checkpoints and overrides\<close>

lemma activity_reference_cong:
  "activities d' = activities d \<Longrightarrow> activity_reference_ok c d' = activity_reference_ok c d"
  by (simp add: activity_reference_ok_def cong: option.case_cong)

lemma entitlement_ok_mono:
  assumes "entitlement_ok d x" and "checkpoint_pairs d \<subseteq> checkpoint_pairs d'"
    and "attendees d' = attendees d"
  shows "entitlement_ok d' x"
  using assms by (auto simp: entitlement_ok_def attendee_pairs_def)

lemma insert_checkpoint_Inr:
  assumes "insert_checkpoint r d = Inr d'"
  shows "d' = d\<lparr>checkpoints := checkpoints d @ [r]\<rparr>" and "ck_id r \<notin> ck_id ` set (checkpoints d)"
    and "(ck_cycle r, ck_slug r) \<notin> (\<lambda>x. (ck_cycle x, ck_slug x)) ` set (checkpoints d)"
    and "ops_inv d \<Longrightarrow> ops_inv d'"
proof -
  have g: "int4_ok (ck_max r)" "checkpoint_check r" "ck_id r \<notin> ck_id ` set (checkpoints d)"
    "(ck_cycle r, ck_slug r) \<notin> (\<lambda>x. (ck_cycle x, ck_slug x)) ` set (checkpoints d)"
    "activity_reference_ok r d" "d' = d\<lparr>checkpoints := checkpoints d @ [r]\<rparr>"
    using assms by (simp_all add: insert_checkpoint_def split: if_split_asm)
  show "d' = d\<lparr>checkpoints := checkpoints d @ [r]\<rparr>" "ck_id r \<notin> ck_id ` set (checkpoints d)"
    "(ck_cycle r, ck_slug r) \<notin> (\<lambda>x. (ck_cycle x, ck_slug x)) ` set (checkpoints d)"
    by (rule g)+
  assume inv: "ops_inv d"
  have pairs: "checkpoint_pairs d \<subseteq> checkpoint_pairs d'" by (auto simp: checkpoint_pairs_def g(6))
  have "entitlement_ok d' x" if "entitlement_ok d x" for x
    by (rule entitlement_ok_mono [OF that pairs]) (simp add: g(6))
  moreover have "activity_reference_ok c d' = activity_reference_ok c d" for c
    by (rule activity_reference_cong) (simp add: g(6))
  ultimately show "ops_inv d'"
    using inv g(1-5) pairs by (auto simp: ops_inv_def g(6))
qed

lemma edited_checkpoint_simps [simp]:
  "ck_id (edited_checkpoint e f r) = ck_id r" "ck_cycle (edited_checkpoint e f r) = ck_cycle r"
  "ck_slug (edited_checkpoint e f r) = cf_slug f"
  by (simp_all add: edited_checkpoint_def)

lemma update_checkpoint_row_Inr:
  assumes "update_checkpoint_row e i f d = Inr (Some (r', d'))" and inv: "ops_inv d"
  shows "\<exists>r\<in>set (checkpoints d). ck_id r = i \<and> r' = edited_checkpoint e f r \<and>
      d' = d\<lparr>checkpoints := upd_rows (\<lambda>x. ck_id x = i) (edited_checkpoint e f) (checkpoints d)\<rparr>"
    and "ops_inv d'"
proof -
  obtain r where fd: "List.find (\<lambda>x. ck_id x = i) (checkpoints d) = Some r"
    and g: "int4_ok (ck_max (edited_checkpoint e f r))" "checkpoint_check (edited_checkpoint e f r)"
      "activity_reference_ok (edited_checkpoint e f r) d" "r' = edited_checkpoint e f r"
      "\<forall>x\<in>set (checkpoints d). ck_id x \<noteq> i \<longrightarrow> \<not> (ck_cycle x = ck_cycle r \<and> ck_slug x = cf_slug f)"
      "d' = d\<lparr>checkpoints := upd_rows (\<lambda>x. ck_id x = i) (edited_checkpoint e f) (checkpoints d)\<rparr>"
    using assms(1)
    by (auto simp: update_checkpoint_row_def Let_def list_ex_iff split: option.split_asm if_split_asm)
  have r: "r \<in> set (checkpoints d)" "ck_id r = i" using find_SomeD [OF fd] by auto
  show "\<exists>r\<in>set (checkpoints d). ck_id r = i \<and> r' = edited_checkpoint e f r \<and>
      d' = d\<lparr>checkpoints := upd_rows (\<lambda>x. ck_id x = i) (edited_checkpoint e f) (checkpoints d)\<rparr>"
    using r g by blast
  have k: "distinct_on ck_id (checkpoints d)" "distinct_on (\<lambda>r. (ck_cycle r, ck_slug r)) (checkpoints d)"
    using inv by (simp_all add: ops_inv_def)
  have slug: "distinct_on (\<lambda>r. (ck_cycle r, ck_slug r))
      (upd_rows (\<lambda>x. ck_id x = ck_id r) (edited_checkpoint e f) (checkpoints d))"
    by (rule distinct_on_edit [OF k(2) r(1) k(1)]) (use g(5) r(2) in auto)
  have ref: "activity_reference_ok c d' = activity_reference_ok c d" for c
    by (rule activity_reference_cong) (simp add: g(6))
  have row: "checkpoint_check x \<and> int4_ok (ck_max x) \<and> activity_reference_ok x d'"
    if x: "x \<in> set (checkpoints d')" for x
  proof -
    obtain y where y: "y \<in> set (checkpoints d)" "x = (if ck_id y = i then edited_checkpoint e f y else y)"
      using x unfolding g(6) by (auto elim: upd_rowsE)
    moreover have "y = r" if "ck_id y = i" using distinct_onD [OF k(1) y(1) r(1)] that r(2) by simp
    ultimately show ?thesis using g(1-3) inv ref by (auto simp: ops_inv_def)
  qed
  have pairs: "checkpoint_pairs d' = checkpoint_pairs d" "ck_id ` set (checkpoints d') = ck_id ` set (checkpoints d)"
    by (simp_all add: checkpoint_pairs_def g(6) image_upd_rows)
  have at: "attendee_pairs d' = attendee_pairs d" by (simp add: attendee_pairs_def g(6))
  have "distinct_on ck_id (checkpoints d')" using k(1) by (simp add: g(6) distinct_on_upd_rows)
  moreover have "distinct_on (\<lambda>r. (ck_cycle r, ck_slug r)) (checkpoints d')" using slug r(2) by (simp add: g(6))
  ultimately show "ops_inv d'"
    using inv row pairs unfolding ops_inv_def entitlement_ok_def at by (simp add: g(6))
qed

lemma delete_checkpoint_row_Inr:
  assumes "delete_checkpoint_row i d = Inr d'"
  shows "\<not> checkpoint_referenced i d" and "d' = d\<lparr>checkpoints := del_rows (\<lambda>x. ck_id x = i) (checkpoints d)\<rparr>"
    and "ops_inv d \<Longrightarrow> ops_inv d'"
proof -
  show free: "\<not> checkpoint_referenced i d"
    and d': "d' = d\<lparr>checkpoints := del_rows (\<lambda>x. ck_id x = i) (checkpoints d)\<rparr>"
    using assms by (simp_all add: delete_checkpoint_row_def split: if_split_asm)
  assume inv: "ops_inv d"
  have ref: "activity_reference_ok c d' = activity_reference_ok c d" for c
    by (rule activity_reference_cong) (simp add: d')
  have pair: "(c, y) \<in> checkpoint_pairs d'" if "(c, y) \<in> checkpoint_pairs d" "c \<noteq> i" for c y
    using that by (auto simp: checkpoint_pairs_def d')
  have key: "c \<in> ck_id ` set (checkpoints d')" if "c \<in> ck_id ` set (checkpoints d)" "c \<noteq> i" for c
    using that by (auto simp: d')
  have at: "attendee_pairs d' = attendee_pairs d" by (simp add: attendee_pairs_def d')
  have f: "\<forall>x\<in>set (entitlements d). en_checkpoint x \<noteq> i" "\<forall>x\<in>set (requests d). rq_checkpoint x \<noteq> i"
    "\<forall>x\<in>set (redemptions d). rd_checkpoint x \<noteq> i"
    using free by (auto simp: checkpoint_referenced_def list_ex_iff)
  have "\<forall>x\<in>set (entitlements d). entitlement_ok d' x"
    using inv f(1) pair at by (simp add: ops_inv_def entitlement_ok_def)
  moreover have "\<forall>x\<in>set (requests d). rq_checkpoint x \<in> ck_id ` set (checkpoints d')"
    using inv f(2) key by (simp add: ops_inv_def)
  moreover have "\<forall>x\<in>set (redemptions d). (rd_checkpoint x, rd_cycle x) \<in> checkpoint_pairs d'"
    using inv f(3) pair by (simp add: ops_inv_def)
  ultimately show "ops_inv d'"
    using inv ref unfolding ops_inv_def by (simp add: d' distinct_on_del_rows)
qed

lemma overridden_simps [simp]:
  "en_attendee (overridden e a m x) = en_attendee x" "en_checkpoint (overridden e a m x) = en_checkpoint x"
  "en_cycle (overridden e a m x) = en_cycle x" "en_allowed (overridden e a m x) = a"
  "en_max (overridden e a m x) = m"
  by (simp_all add: overridden_def)

lemma upsert_entitlement_Inr:
  assumes "upsert_entitlement e a c cycle allowed maximum d = Inr (x, d')"
  shows "entitlement_at a c x" and "en_allowed x = allowed" and "en_max x = maximum"
    and "\<exists>E. d' = d\<lparr>entitlements := E\<rparr>"
    and "List.find (entitlement_at a c) (entitlements d') = Some x"
    and "(a', c') \<noteq> (a, c) \<Longrightarrow>
      List.find (entitlement_at a' c') (entitlements d') = List.find (entitlement_at a' c') (entitlements d)"
    and "ops_inv d \<Longrightarrow> ops_inv d'"
proof -
  have m: "int4_ok maximum" "0 \<le> maximum"
    using assms by (auto simp: upsert_entitlement_def split: if_split_asm)
  have "entitlement_at a c x \<and> en_allowed x = allowed \<and> en_max x = maximum \<and>
    (\<exists>E. d' = d\<lparr>entitlements := E\<rparr>) \<and> List.find (entitlement_at a c) (entitlements d') = Some x \<and>
    ((a', c') \<noteq> (a, c) \<longrightarrow>
      List.find (entitlement_at a' c') (entitlements d') = List.find (entitlement_at a' c') (entitlements d)) \<and>
    (ops_inv d \<longrightarrow> ops_inv d')"
  proof (cases "List.find (entitlement_at a c) (entitlements d)")
    case None
    let ?x = "\<lparr>en_attendee = a, en_checkpoint = c, en_cycle = cycle, en_allowed = allowed,
                        en_max = maximum, en_created = now e, en_updated = now e\<rparr>"
    have g: "(a, cycle) \<in> attendee_pairs d" "(c, cycle) \<in> checkpoint_pairs d" "x = ?x"
      "d' = d\<lparr>entitlements := entitlements d @ [?x]\<rparr>"
      using assms None
      by (auto simp: upsert_entitlement_def attendee_pairs_def checkpoint_pairs_def Let_def split: if_split_asm)
    have new: "(a, c) \<notin> (\<lambda>x. (en_attendee x, en_checkpoint x)) ` set (entitlements d)"
      using None by (auto simp: find_None_iff entitlement_at_def)
    have fr: "checkpoint_pairs d' = checkpoint_pairs d" "attendee_pairs d' = attendee_pairs d"
      "\<And>c. activity_reference_ok c d' = activity_reference_ok c d"
      by (simp_all add: g(4) checkpoint_pairs_def attendee_pairs_def activity_reference_ok_def cong: option.case_cong)
    have "ops_inv d'" if inv: "ops_inv d"
      using inv g(1,2) new m unfolding ops_inv_def entitlement_ok_def fr by (simp add: g(4))
    moreover have "List.find (entitlement_at a' c') (entitlements d') = List.find (entitlement_at a' c') (entitlements d)"
      if "(a', c') \<noteq> (a, c)"
      using that by (auto simp: g(4) find_append entitlement_at_def split: option.split)
    moreover have "List.find (entitlement_at a c) (entitlements d') = Some ?x"
      by (simp add: g(4) find_append None entitlement_at_def)
    ultimately show ?thesis using g(3,4) by (auto simp: entitlement_at_def)
  next
    case (Some y)
    let ?f = "overridden e allowed maximum"
    have g: "x = ?f y" "d' = d\<lparr>entitlements := upd_rows (entitlement_at a c) ?f (entitlements d)\<rparr>"
      using assms Some by (simp_all add: upsert_entitlement_def split: if_split_asm)
    have y: "entitlement_at a c y" using find_SomeD [OF Some] by simp
    have at: "entitlement_at k l (?f r) = entitlement_at k l r" for k l r by (simp add: entitlement_at_def)
    have fr: "checkpoint_pairs d' = checkpoint_pairs d" "attendee_pairs d' = attendee_pairs d"
      "\<And>c. activity_reference_ok c d' = activity_reference_ok c d"
      by (simp_all add: g(2) checkpoint_pairs_def attendee_pairs_def activity_reference_ok_def cong: option.case_cong)
    have find: "List.find (entitlement_at k l) (entitlements d') =
        map_option (\<lambda>r. if entitlement_at a c r then ?f r else r) (List.find (entitlement_at k l) (entitlements d))"
      for k l
      unfolding g(2) by (simp, rule find_upd_rows) (simp add: at)
    have other: "List.find (entitlement_at a' c') (entitlements d') = List.find (entitlement_at a' c') (entitlements d)"
      if "(a', c') \<noteq> (a, c)"
    proof (cases "List.find (entitlement_at a' c') (entitlements d)")
      case (Some z)
      then have "\<not> entitlement_at a c z" using find_SomeD [OF Some] that by (auto simp: entitlement_at_def)
      then show ?thesis by (simp add: find Some)
    qed (simp add: find)
    have row: "entitlement_ok d z" if z: "z \<in> set (entitlements d')" and inv: "ops_inv d" for z
    proof -
      obtain w where "w \<in> set (entitlements d)" "z = (if entitlement_at a c w then ?f w else w)"
        using z unfolding g(2) by (auto elim: upd_rowsE)
      then show ?thesis using inv m by (auto simp: ops_inv_def entitlement_ok_def)
    qed
    have "ops_inv d'" if inv: "ops_inv d"
      using inv row [OF _ inv] unfolding ops_inv_def entitlement_ok_def fr
      by (simp add: g(2) distinct_on_upd_rows)
    moreover have "List.find (entitlement_at a c) (entitlements d') = Some x"
      using y by (simp add: find Some g(1))
    ultimately show ?thesis using g y at other by auto
  qed
  then show "entitlement_at a c x" "en_allowed x = allowed" "en_max x = maximum"
    "\<exists>E. d' = d\<lparr>entitlements := E\<rparr>" "List.find (entitlement_at a c) (entitlements d') = Some x"
    "(a', c') \<noteq> (a, c) \<Longrightarrow>
      List.find (entitlement_at a' c') (entitlements d') = List.find (entitlement_at a' c') (entitlements d)"
    "ops_inv d \<Longrightarrow> ops_inv d'"
    by blast+
qed

section \<open>What the operations do\<close>

text \<open>One audit event after the write.\<close>

definition audited :: "string \<Rightarrow> uuid \<Rightarrow> db \<Rightarrow> db \<Rightarrow> bool" where
  "audited event actor d d' \<longleftrightarrow>
     (\<exists>x. d' = d\<lparr>audit := audit d @ [x]\<rparr> \<and> au_event x = event \<and> au_actor x = Some actor)"

lemma op_audit_audited: "op_audit e actor event st subject md d = Inr d' \<Longrightarrow> audited event actor d d'"
  using op_audit_Inr unfolding audited_def by blast

lemma audited_inv: "audited event actor d d' \<Longrightarrow> ops_inv d' = ops_inv d"
  by (auto simp: audited_def)

lemma organizer_id_Inr:
  "organizer_id e actor = Inr i \<longleftrightarrow>
     has_role actor RoleOrganizer \<and> parse_uuid e (trim_space (user_id actor)) = Some i"
  by (simp add: organizer_id_def parse_id_def)

lemma parse_id_Inr: "parse_id e s = Inr i \<longleftrightarrow> parse_uuid e (trim_space s) = Some i"
  by (simp add: parse_id_def)

lemma create_activity_Inr:
  assumes "create_activity e actor input d = (Inr v, d')"
  obtains a f cycle d1 where "organizer_id e actor = Inr a" and "validate_activity_input input = Inr f"
    and "insert_activity (new_activity e cycle f) d = Inr d1" and "audited ''activity_created'' a d1 d'"
    and "v = scan_activity e (new_activity e cycle f)"
  using assms op_audit_audited
  unfolding create_activity_def transact_Inr Let_def by (elim bindE_InrE) (auto dest: op_audit_audited)

lemma update_activity_Inr:
  assumes "update_activity e actor activity input d = (Inr v, d')"
  obtains a i f r d1 where "organizer_id e actor = Inr a" and "parse_id e activity = Inr i"
    and "validate_activity_input input = Inr f" and "update_activity_row e i f d = Inr (Some (r, d1))"
    and "audited ''activity_updated'' a d1 d'" and "v = scan_activity e r"
proof -
  from assms obtain a i f w r d1 d2 where g: "organizer_id e actor = Inr a" "parse_id e activity = Inr i"
    "validate_activity_input input = Inr f" "update_activity_row e i f d = Inr w" "w = Some (r, d1)" and
    o: "op_audit e a ''activity_updated'' ''activity'' (acv_id (scan_activity e r))
          (activity_metadata (scan_activity e r)) d1 = Inr d2" "v = scan_activity e r" "d' = d2"
    unfolding update_activity_def transact_Inr Let_def
    by (elim bindE_InrE) (auto split: prod.split_asm)
  show thesis
    by (rule that [OF g(1-3) _ _ o(2)]) (use g(4,5) o in \<open>auto intro: op_audit_audited\<close>)
qed

lemma delete_activity_Inr:
  assumes "delete_activity e actor activity d = (Inr u, d')"
  obtains a i d1 where "organizer_id e actor = Inr a" and "parse_id e activity = Inr i"
    and "delete_activity_row i d = Inr d1" and "audited ''activity_deleted'' a d1 d'"
  using assms
  unfolding delete_activity_def transact_Inr Let_def by (elim bindE_InrE) (auto dest: op_audit_audited)

lemma create_checkpoint_Inr:
  assumes "create_checkpoint e actor input d = (Inr v, d')"
  obtains a f cycle d1 where "organizer_id e actor = Inr a" and "parse_id e (ci_cycle input) = Inr cycle"
    and "validate_checkpoint_input e input = Inr f" and "lock_cycle cycle d \<noteq> None"
    and "activity_locked f cycle d"
    and "insert_checkpoint (new_checkpoint e cycle f) d = Inr d1" and "audited ''checkpoint_created'' a d1 d'"
    and "v = scan_checkpoint e (new_checkpoint e cycle f)"
proof -
  from assms obtain a f cycle k d1 d2 where g: "organizer_id e actor = Inr a"
    "parse_id e (ci_cycle input) = Inr cycle" "validate_checkpoint_input e input = Inr f"
    "lock_cycle cycle d = Some k" "activity_locked f cycle d"
    "insert_checkpoint (new_checkpoint e cycle f) d = Inr d1" and
    o: "op_audit e a ''checkpoint_created'' ''checkpoint'' (ckv_id (scan_checkpoint e (new_checkpoint e cycle f)))
          (checkpoint_audit_metadata (scan_checkpoint e (new_checkpoint e cycle f))) d1 = Inr d2"
      "v = scan_checkpoint e (new_checkpoint e cycle f)" "d' = d2"
    unfolding create_checkpoint_def transact_Inr Let_def
    by (elim bindE_InrE) (auto split: if_split_asm)
  show thesis
    by (rule that [OF g(1-3) _ g(5,6) _ o(2)]) (use g(4) o in \<open>auto intro: op_audit_audited\<close>)
qed

lemma update_checkpoint_Inr:
  assumes "update_checkpoint e actor checkpoint input d = (Inr v, d')"
  obtains a i f r d1 where "organizer_id e actor = Inr a" and "parse_id e checkpoint = Inr i"
    and "validate_checkpoint_input e input = Inr f" and "update_checkpoint_row e i f d = Inr (Some (r, d1))"
    and "audited ''checkpoint_updated'' a d1 d'" and "v = scan_checkpoint e r"
proof -
  from assms obtain a i f cycle w r d1 d2 where g: "organizer_id e actor = Inr a" "parse_id e checkpoint = Inr i"
    "validate_checkpoint_input e input = Inr f" "lock_checkpoint_cycle i d = Some cycle"
    "activity_locked f cycle d" "update_checkpoint_row e i f d = Inr w" "w = Some (r, d1)" and
    o: "op_audit e a ''checkpoint_updated'' ''checkpoint'' (ckv_id (scan_checkpoint e r))
          (checkpoint_audit_metadata (scan_checkpoint e r)) d1 = Inr d2" "v = scan_checkpoint e r" "d' = d2"
    unfolding update_checkpoint_def transact_Inr Let_def
    by (elim bindE_InrE) (auto split: prod.split_asm if_split_asm)
  show thesis
    by (rule that [OF g(1-3) _ _ o(2)]) (use g(6,7) o in \<open>auto intro: op_audit_audited\<close>)
qed

lemma delete_checkpoint_Inr:
  assumes "delete_checkpoint e actor checkpoint d = (Inr u, d')"
  obtains a i d1 where "organizer_id e actor = Inr a" and "parse_id e checkpoint = Inr i"
    and "delete_checkpoint_row i d = Inr d1" and "audited ''checkpoint_deleted'' a d1 d'"
  using assms
  unfolding delete_checkpoint_def transact_Inr Let_def by (elim bindE_InrE) (auto dest: op_audit_audited)

lemma lock_entitlement_Inr:
  assumes "lock_entitlement a c d = Inr cycle"
  shows "\<exists>k\<in>set (checkpoints d). ck_id k = c \<and> ck_cycle k = cycle"
    and "\<exists>t\<in>set (attendees d). ad_id t = a \<and> ad_cycle t = cycle \<and> released_acceptance d t"
  using assms
  by (auto simp: lock_entitlement_def lock_checkpoint_cycle_def lock_visible_attendee_cycle_def
      split: option.split_asm if_split_asm dest!: find_SomeD)

lemma put_entitlement_Inr:
  assumes "put_entitlement e actor attendee checkpoint allowed maximum d = (Inr v, d')"
  obtains org a c cycle x d1 where "organizer_id e actor = Inr org" and "parse_id e attendee = Inr a"
    and "parse_id e checkpoint = Inr c" and "0 \<le> maximum" and "maximum \<le> maximum_redemption_value"
    and "lock_entitlement a c d = Inr cycle" and "upsert_entitlement e a c cycle allowed maximum d = Inr (x, d1)"
    and "audited ''entitlement_overridden'' org d1 d'" and "v = entitlement_from e x"
proof -
  from assms obtain org a c cycle x d1 where g: "organizer_id e actor = Inr org" "parse_id e attendee = Inr a"
    "parse_id e checkpoint = Inr c" "\<not> maximum < 0" "\<not> maximum > maximum_redemption_value"
    "lock_entitlement a c d = Inr cycle" "upsert_entitlement e a c cycle allowed maximum d = Inr (x, d1)" and
    u: "op_audit e org ''entitlement_overridden'' ''attendee'' (env_attendee (entitlement_from e x))
         (JObject [(''allowed'', JBool (env_allowed (entitlement_from e x))),
                   (''checkpointId'', JString (env_checkpoint (entitlement_from e x))),
                   (''maxRedemptions'', JNumber (itoa (env_max (entitlement_from e x))))]) d1 = Inr d'"
      "v = entitlement_from e x"
    unfolding put_entitlement_def transact_Inr Let_def
    by (elim bindE_InrE) (auto split: prod.split_asm if_split_asm)
  show thesis
    by (rule that [OF g(1-3) _ _ g(6,7) op_audit_audited [OF u(1)] u(2)]) (use g(4,5) in simp_all)
qed

lemma delete_entitlement_Inr:
  assumes "delete_entitlement e actor attendee checkpoint d = (Inr u, d')"
  obtains org a c cycle where "organizer_id e actor = Inr org" and "parse_id e attendee = Inr a"
    and "parse_id e checkpoint = Inr c" and "lock_entitlement a c d = Inr cycle"
    and "(List.find (entitlement_at a c) (entitlements d) = None \<and> d' = d) \<or>
      (List.find (entitlement_at a c) (entitlements d) \<noteq> None \<and> audited ''entitlement_removed'' org
         (d\<lparr>entitlements := del_rows (entitlement_at a c) (entitlements d)\<rparr>) d')"
proof -
  from assms obtain org a c cycle where g: "organizer_id e actor = Inr org" "parse_id e attendee = Inr a"
    "parse_id e checkpoint = Inr c" "lock_entitlement a c d = Inr cycle" and
    r: "(case List.find (entitlement_at a c) (entitlements d) of
       None \<Rightarrow> Inr ((), d)
     | Some x \<Rightarrow> bindE (op_audit e org ''entitlement_removed'' ''attendee'' (env_attendee (entitlement_from e x))
                  (JObject [(''checkpointId'', JString (env_checkpoint (entitlement_from e x)))])
                  (d\<lparr>entitlements := del_rows (entitlement_at a c) (entitlements d)\<rparr>)) (\<lambda>d1.
         Inr ((), d1))) = Inr (u, d')"
    unfolding delete_entitlement_def transact_Inr Let_def by (elim bindE_InrE) auto
  show thesis
    by (rule that [OF g]) (use r in \<open>auto split: option.split_asm intro: op_audit_audited\<close>)
qed

lemma export_redemptions_Inr:
  assumes "export_redemptions e actor kind checkpoint d = (Inr v, d')"
  obtains org fl where "organizer_id e actor = Inr org" and "parse_optional_id e checkpoint = Inr fl"
    and "kind = ExportAttendance \<or> kind = ExportReconciliation" and "v = redemption_rows e fl (-1) d"
    and "audited ''redemption_exported'' org d d'"
  using assms unfolding export_redemptions_def transact_Inr Let_def
  by (elim bindE_InrE) (auto split: if_split_asm dest: op_audit_audited)

lemma enable_entrance_Inr:
  assumes "enable_entrance e actor cycle_text d = (Inr v, d')"
  obtains org c where "organizer_id e actor = Inr org" and "parse_id e cycle_text = Inr (cy_id c)"
    and "c \<in> set (cycles d)" and "cy_active c"
    and "(\<exists>k. List.find (\<lambda>k. ck_cycle k = cy_id c \<and> ck_slug k = ''main-entrance'') (checkpoints d) = Some k \<and>
        v = scan_checkpoint e k \<and> d' = d) \<or>
      (\<exists>d1. (\<forall>k\<in>set (checkpoints d). ck_cycle k \<noteq> cy_id c) \<and>
        insert_checkpoint (new_checkpoint e (cy_id c) entrance_fields) d = Inr d1 \<and>
        audited ''checkpoint_created'' org d1 d' \<and>
        v = scan_checkpoint e (new_checkpoint e (cy_id c) entrance_fields))"
proof -
  from assms obtain org cycle c where g: "organizer_id e actor = Inr org" "parse_id e cycle_text = Inr cycle"
    "lock_cycle cycle d = Some c" "cy_active c" and
    r: "(case List.find (\<lambda>k. ck_cycle k = cycle \<and> ck_slug k = ''main-entrance'') (checkpoints d) of
         Some k \<Rightarrow> Inr (scan_checkpoint e k, d)
       | None \<Rightarrow>
           if list_ex (\<lambda>k. ck_cycle k = cycle) (checkpoints d) then Inl OpConflict
           else bindE (wrap_err (\<lambda>_. OpInternal) (insert_checkpoint (new_checkpoint e cycle entrance_fields) d)) (\<lambda>d1.
             bindE (op_audit e org ''checkpoint_created'' ''checkpoint''
                      (ckv_id (scan_checkpoint e (new_checkpoint e cycle entrance_fields)))
                      (checkpoint_audit_metadata (scan_checkpoint e (new_checkpoint e cycle entrance_fields))) d1) (\<lambda>d2.
             Inr (scan_checkpoint e (new_checkpoint e cycle entrance_fields), d2)))) = Inr (v, d')"
    unfolding enable_entrance_def transact_Inr Let_def by (elim bindE_InrE) (auto split: if_split_asm)
  have c: "c \<in> set (cycles d)" "cy_id c = cycle" using find_SomeD [OF g(3) [unfolded lock_cycle_def]] by simp_all
  show thesis
    by (rule that [OF g(1) _ c(1) g(4)])
      (use g(2) c(2) r in \<open>auto simp: list_ex_iff split: option.split_asm if_split_asm dest: op_audit_audited\<close>)
qed

section \<open>Creating checkpoints\<close>

lemma validate_checkpoint_Inr:
  assumes "validate_checkpoint_input e input = Inr f"
  shows "cf_slug f = trim_space (ci_slug input)" and "cf_name f = trim_space (ci_name input)"
    and "cf_slug f \<noteq> []" and "cf_name f \<noteq> []" and "0 \<le> cf_max f" and "cf_max f \<le> maximum_redemption_value"
    and "cf_max f = ci_max input" and "cf_allowed f = ci_allowed input" and "cf_active f = ci_active input"
    and "\<not> invalid_time_window (ci_opens input) (ci_closes input)"
    and "parse_optional_id e (ci_activity input) = Inr (cf_activity f)"
  using assms unfolding validate_checkpoint_input_def Let_def by (auto split: if_split_asm)

lemma audited_fields:
  assumes "audited event actor d d'"
  shows "checkpoints d' = checkpoints d" and "activities d' = activities d" and "cycles d' = cycles d"
    and "entitlements d' = entitlements d" and "requests d' = requests d" and "redemptions d' = redemptions d"
    and "attendees d' = attendees d" and "applications d' = applications d" and "passes d' = passes d"
    and "attendance d' = attendance d" and "users d' = users d" and "user_roles d' = user_roles d"
  using assms by (auto simp: audited_def)

definition create_checkpoint_contract ::
    "env \<Rightarrow> user \<Rightarrow> checkpoint_input \<Rightarrow> db \<Rightarrow> checkpoint_view \<Rightarrow> db \<Rightarrow> bool" where
  "create_checkpoint_contract e actor input d v d' \<longleftrightarrow>
     (\<exists>a cycle f. organizer_id e actor = Inr a \<and> parse_id e (ci_cycle input) = Inr cycle \<and>
        cycle \<in> cy_id ` set (cycles d) \<and> validate_checkpoint_input e input = Inr f \<and>
        cf_slug f \<noteq> [] \<and> cf_name f \<noteq> [] \<and> 0 \<le> ci_max input \<and> ci_max input \<le> maximum_redemption_value \<and>
        \<not> invalid_time_window (ci_opens input) (ci_closes input) \<and>
        activity_reference_ok (new_checkpoint e cycle f) d \<and>
        (\<forall>c\<in>set (checkpoints d). ck_cycle c = cycle \<longrightarrow> ck_slug c \<noteq> trim_space (ci_slug input)) \<and>
        v = scan_checkpoint e (new_checkpoint e cycle f) \<and>
        audited ''checkpoint_created'' a (d\<lparr>checkpoints := checkpoints d @ [new_checkpoint e cycle f]\<rparr>) d')"

lemma create_checkpoint_holds:
  assumes "create_checkpoint e actor input d = (Inr v, d')"
  shows "create_checkpoint_contract e actor input d v d'"
proof -
  obtain a f cycle d1 where g: "organizer_id e actor = Inr a" "parse_id e (ci_cycle input) = Inr cycle"
    "validate_checkpoint_input e input = Inr f" "lock_cycle cycle d \<noteq> None" "activity_locked f cycle d" and
    i: "insert_checkpoint (new_checkpoint e cycle f) d = Inr d1" and
    a: "audited ''checkpoint_created'' a d1 d'" and v: "v = scan_checkpoint e (new_checkpoint e cycle f)"
    by (rule create_checkpoint_Inr [OF assms])
  note f = validate_checkpoint_Inr [OF g(3)] and r = insert_checkpoint_Inr [OF i]
  have cy: "cycle \<in> cy_id ` set (cycles d)"
    using g(4) by (auto simp: lock_cycle_def dest!: find_SomeD)
  have ref: "activity_reference_ok (new_checkpoint e cycle f) d"
    using i by (auto simp: insert_checkpoint_def split: if_split_asm)
  have slug: "ck_slug c \<noteq> trim_space (ci_slug input)" if "c \<in> set (checkpoints d)" "ck_cycle c = cycle" for c
    using r(3) that f(1) by (auto simp: new_checkpoint_def)
  show ?thesis
    unfolding create_checkpoint_contract_def
    by (intro exI [of _ a] exI [of _ cycle] exI [of _ f]) (use g cy f ref slug v a r(1) in simp)
qed

text \<open>A checkpoint is created only by an organizer, in an existing cycle, with a slug the cycle
  does not use yet, a name, an ordered window, a maximum that fits the column and an activity of
  the same cycle: one row and one audit event. The same request again, with whatever new id, is a
  conflict and writes nothing.\<close>

theorem create_checkpoint_spec:
  assumes "create_checkpoint e actor input d = (Inr v, d')" and "parse_uuid e2 = parse_uuid e"
  shows "create_checkpoint_contract e actor input d v d' \<and>
    create_checkpoint e2 actor input d' = (Inl OpConflict, d')"
proof -
  obtain a f cycle d1 where g: "organizer_id e actor = Inr a" "parse_id e (ci_cycle input) = Inr cycle"
    "validate_checkpoint_input e input = Inr f" "lock_cycle cycle d \<noteq> None" "activity_locked f cycle d" and
    i: "insert_checkpoint (new_checkpoint e cycle f) d = Inr d1" and
    a: "audited ''checkpoint_created'' a d1 d'"
    by (rule create_checkpoint_Inr [OF assms(1)])
  note fr = audited_fields [OF a] and r = insert_checkpoint_Inr [OF i]
  have same: "organizer_id e2 actor = organizer_id e actor" "parse_id e2 = parse_id e"
    "validate_checkpoint_input e2 input = validate_checkpoint_input e input"
    by (simp_all add: organizer_id_def validate_checkpoint_input_def parse_optional_id_def parse_id_def
        fun_eq_iff assms(2) cong: option.case_cong)
  have ok: "int4_ok (ck_max (new_checkpoint e2 cycle f))" "checkpoint_check (new_checkpoint e2 cycle f)"
    using i by (auto simp: insert_checkpoint_def new_checkpoint_def checkpoint_check_def split: if_split_asm)
  have "(ck_cycle (new_checkpoint e2 cycle f), ck_slug (new_checkpoint e2 cycle f)) \<in>
      (\<lambda>x. (ck_cycle x, ck_slug x)) ` set (checkpoints d')"
    by (simp add: fr r(1) new_checkpoint_def)
  then have "insert_checkpoint (new_checkpoint e2 cycle f) d' = Inl UniqueViolation"
    using ok by (simp add: insert_checkpoint_def)
  moreover obtain k where "lock_cycle cycle d' = Some k" using g(4) by (auto simp: lock_cycle_def fr r(1))
  moreover have "activity_locked f cycle d'"
    using g(5) by (simp add: activity_locked_def lock_activity_in_cycle_def fr r(1) cong: option.case_cong)
  ultimately have "create_checkpoint e2 actor input d' = (Inl OpConflict, d')"
    by (simp add: create_checkpoint_def transact_def same g unique_error_def Let_def)
  with create_checkpoint_holds [OF assms(1)] show ?thesis by blast
qed

section \<open>Deleting checkpoints\<close>

definition delete_checkpoint_effect :: "uuid \<Rightarrow> uuid \<Rightarrow> db \<Rightarrow> db \<Rightarrow> bool" where
  "delete_checkpoint_effect a i d d' \<longleftrightarrow>
     audited ''checkpoint_deleted'' a
       (d\<lparr>checkpoints := del_rows (\<lambda>x. ck_id x = i) (checkpoints d)\<rparr>) d' \<and> lock_checkpoint i d' = None"

text \<open>Deleting a checkpoint, for an organizer and a well-formed id, has exactly three outcomes:
  not found when there is none, in use when an override, a request or a redemption refers to it,
  and otherwise the row goes with one audit event; the two refusals write nothing.\<close>

theorem delete_checkpoint_spec:
  assumes "has_role actor RoleOrganizer" and "parse_uuid e (trim_space (user_id actor)) = Some a"
    and "parse_uuid e (trim_space checkpoint) = Some i" and "user_exists a d"
    and "parse_uuid e (trim_space (uuid_text e i)) = Some i"
  shows "if lock_checkpoint i d = None then delete_checkpoint e actor checkpoint d = (Inl OpNotFound, d)
    else if checkpoint_referenced i d then delete_checkpoint e actor checkpoint d = (Inl OpInUse, d)
    else \<exists>d'. delete_checkpoint e actor checkpoint d = (Inr (), d') \<and> delete_checkpoint_effect a i d d'"
proof -
  have g: "organizer_id e actor = Inr a" "known_id e checkpoint = Inr i"
    using assms(1-3) by (simp_all add: organizer_id_Inr parse_id_Inr)
  show ?thesis
  proof (cases "lock_checkpoint i d")
    case None
    then show ?thesis by (simp add: delete_checkpoint_def transact_def g)
  next
    case (Some r)
    have id: "ck_id r = i" using find_SomeD [OF Some [unfolded lock_checkpoint_def]] by simp
    show ?thesis
    proof (cases "checkpoint_referenced i d")
      case True
      then show ?thesis
        by (simp add: Some delete_checkpoint_def transact_def g delete_checkpoint_row_def reference_error_def)
    next
      case False
      let ?d1 = "d\<lparr>checkpoints := del_rows (\<lambda>x. ck_id x = i) (checkpoints d)\<rparr>"
      let ?v = "scan_checkpoint e r"
      have "\<exists>d2. op_audit e a ''checkpoint_deleted'' ''checkpoint'' (ckv_id ?v) (checkpoint_audit_metadata ?v) ?d1 = Inr d2"
        using assms(4,5) id
        by (simp add: op_audit_def parse_id_def scan_checkpoint_def insert_audit_def user_exists_def)
      then obtain d2 where u: "op_audit e a ''checkpoint_deleted'' ''checkpoint'' (ckv_id ?v)
          (checkpoint_audit_metadata ?v) ?d1 = Inr d2" by blast
      then have "delete_checkpoint e actor checkpoint d = (Inr (), d2)"
        using False by (simp add: Some delete_checkpoint_def transact_def g delete_checkpoint_row_def)
      moreover have "lock_checkpoint i d2 = None"
        using audited_fields(1) [OF op_audit_audited [OF u]] by (auto simp: lock_checkpoint_def find_None_iff)
      ultimately show ?thesis
        using Some False op_audit_audited [OF u] by (auto simp: delete_checkpoint_effect_def)
    qed
  qed
qed

section \<open>Overrides and the scanner's rule\<close>

lemma find_cong_set: "(\<And>x. x \<in> set xs \<Longrightarrow> P x = Q x) \<Longrightarrow> List.find P xs = List.find Q xs"
  by (induction xs) auto

text \<open>The override the scanner looks up is the row the organizers write.\<close>

lemma effective_lookup:
  assumes inv: "ops_inv d" and c: "c \<in> set (checkpoints d)" and cycle: "ck_cycle c = lp_cycle p"
  shows "effective_entitlement p c d = resolve_entitlement (ck_allowed c) (ck_max c)
    (map_option (\<lambda>x. (en_allowed x, en_max x))
      (List.find (entitlement_at (lp_attendee p) (ck_id c)) (entitlements d)))"
proof -
  have "(en_attendee x = lp_attendee p \<and> en_checkpoint x = ck_id c \<and> en_cycle x = lp_cycle p) =
      entitlement_at (lp_attendee p) (ck_id c) x" if x: "x \<in> set (entitlements d)" for x
  proof -
    have "en_cycle x = ck_cycle c" if at: "en_checkpoint x = ck_id c"
    proof -
      have "(en_checkpoint x, en_cycle x) \<in> checkpoint_pairs d"
        using inv x by (auto simp: ops_inv_def entitlement_ok_def)
      then obtain k where k: "k \<in> set (checkpoints d)" "ck_id k = ck_id c" "ck_cycle k = en_cycle x"
        using at by (auto simp: checkpoint_pairs_def)
      moreover have "distinct_on ck_id (checkpoints d)" using inv by (simp add: ops_inv_def)
      ultimately show ?thesis using distinct_onD [of ck_id "checkpoints d" k c] c by simp
    qed
    then show ?thesis using cycle by (auto simp: entitlement_at_def)
  qed
  then show ?thesis
    unfolding effective_entitlement_def by (simp cong: find_cong_set)
qed

definition rule_of :: "uuid \<Rightarrow> checkpoint_row \<Rightarrow> db \<Rightarrow> effective" where
  "rule_of a c d = resolve_entitlement (ck_allowed c) (ck_max c)
    (map_option (\<lambda>x. (en_allowed x, en_max x)) (List.find (entitlement_at a (ck_id c)) (entitlements d)))"

definition put_entitlement_contract ::
    "env \<Rightarrow> user \<Rightarrow> string \<Rightarrow> string \<Rightarrow> bool \<Rightarrow> int \<Rightarrow> db \<Rightarrow> entitlement_view \<Rightarrow> db \<Rightarrow> bool" where
  "put_entitlement_contract e actor attendee checkpoint allowed maximum d v d' \<longleftrightarrow>
     (\<exists>a c t. has_role actor RoleOrganizer \<and> parse_uuid e (trim_space attendee) = Some a \<and>
        parse_uuid e (trim_space checkpoint) = Some (ck_id c) \<and> c \<in> set (checkpoints d) \<and>
        t \<in> set (attendees d) \<and> ad_id t = a \<and> ad_cycle t = ck_cycle c \<and> released_acceptance d t \<and>
        0 \<le> maximum \<and> maximum < 2 ^ 31 \<and>
        (\<exists>E A. d' = d\<lparr>entitlements := E, audit := audit d @ [A]\<rparr> \<and> au_event A = ''entitlement_overridden'') \<and>
        rule_of a c d' = \<lparr>ef_allowed = allowed, ef_max = maximum\<rparr> \<and>
        (\<forall>b k. (b, ck_id k) \<noteq> (a, ck_id c) \<longrightarrow> rule_of b k d' = rule_of b k d) \<and>
        env_allowed v = allowed \<and> env_max v = maximum)"

lemma put_entitlement_holds:
  assumes "put_entitlement e actor attendee checkpoint allowed maximum d = (Inr v, d')"
  shows "put_entitlement_contract e actor attendee checkpoint allowed maximum d v d'"
proof -
  obtain org a c cycle x d1 where g: "organizer_id e actor = Inr org" "parse_id e attendee = Inr a"
    "parse_id e checkpoint = Inr c" "0 \<le> maximum" "maximum \<le> maximum_redemption_value"
    "lock_entitlement a c d = Inr cycle" and u: "upsert_entitlement e a c cycle allowed maximum d = Inr (x, d1)" and
    aud: "audited ''entitlement_overridden'' org d1 d'" and v: "v = entitlement_from e x"
    by (rule put_entitlement_Inr [OF assms])
  obtain k t where k: "k \<in> set (checkpoints d)" "ck_id k = c" "ck_cycle k = cycle"
    and t: "t \<in> set (attendees d)" "ad_id t = a" "ad_cycle t = cycle" "released_acceptance d t"
    using lock_entitlement_Inr [OF g(6)] by blast
  note w = upsert_entitlement_Inr [OF u]
  have en: "entitlements d' = entitlements d1" by (rule audited_fields [OF aud])
  obtain E where E: "d1 = d\<lparr>entitlements := E\<rparr>" using w(4) by blast
  obtain A where A: "d' = d1\<lparr>audit := audit d1 @ [A]\<rparr>" "au_event A = ''entitlement_overridden''"
    using aud unfolding audited_def by blast
  have d': "\<exists>E A. d' = d\<lparr>entitlements := E, audit := audit d @ [A]\<rparr> \<and> au_event A = ''entitlement_overridden''"
    using A by (intro exI [of _ E] exI [of _ A]) (simp add: E)
  have new: "rule_of a k d' = \<lparr>ef_allowed = allowed, ef_max = maximum\<rparr>"
    using w(2,3,5) g(4) k(2) by (simp add: rule_of_def en resolve_entitlement_def)
  have old: "rule_of b j d' = rule_of b j d" if "(b, ck_id j) \<noteq> (a, ck_id k)" for b j
    using w(6) [of b "ck_id j"] that k(2) by (simp add: rule_of_def en)
  have m: "maximum < 2 ^ 31" using g(5) by (simp add: maximum_redemption_value_def)
  have ids: "has_role actor RoleOrganizer" "parse_uuid e (trim_space attendee) = Some a"
    "parse_uuid e (trim_space checkpoint) = Some (ck_id k)" "ad_cycle t = ck_cycle k"
    "env_allowed v = allowed" "env_max v = maximum"
    using g(1-3) k t w(2,3) v by (simp_all add: organizer_id_Inr parse_id_Inr entitlement_from_def)
  show ?thesis
    unfolding put_entitlement_contract_def
    using ids k(1) t(1,2,4) g(4) m d' new old
    by (intro exI [of _ a] exI [of _ k] exI [of _ t]) blast
qed

lemma put_entitlement_inv:
  assumes "put_entitlement e actor attendee checkpoint allowed maximum d = (Inr v, d')" and "ops_inv d"
  shows "ops_inv d'"
proof -
  obtain org a c cycle x d1 where u: "upsert_entitlement e a c cycle allowed maximum d = Inr (x, d1)" and
    aud: "audited ''entitlement_overridden'' org d1 d'"
    by (rule put_entitlement_Inr [OF assms(1)])
  show ?thesis using upsert_entitlement_Inr(7) [OF u assms(2)] audited_inv [OF aud] by simp
qed

text \<open>Storing an override succeeds only for an organizer, on an attendee of a released
  acceptance and a checkpoint of the same cycle, with a maximum that fits the column; afterwards
  this attendee's rule at this checkpoint is exactly the input, every other rule is as before, no
  other table changes, and the scanner applies the stored rule.\<close>

theorem put_entitlement_spec:
  assumes "put_entitlement e actor attendee checkpoint allowed maximum d = (Inr v, d')" and "ops_inv d"
  shows "put_entitlement_contract e actor attendee checkpoint allowed maximum d v d' \<and> ops_inv d' \<and>
    (\<forall>p c. c \<in> set (checkpoints d') \<longrightarrow> ck_cycle c = lp_cycle p \<longrightarrow>
       effective_entitlement p c d' = rule_of (lp_attendee p) c d')"
proof -
  have inv: "ops_inv d'" by (rule put_entitlement_inv [OF assms])
  then show ?thesis
    using put_entitlement_holds [OF assms(1)] effective_lookup [OF inv] by (simp add: rule_of_def)
qed

lemma delete_entitlement_inv:
  assumes "ops_inv d"
  shows "ops_inv (d\<lparr>entitlements := del_rows P (entitlements d)\<rparr>)"
proof -
  have "activity_reference_ok c (d\<lparr>entitlements := E\<rparr>) = activity_reference_ok c d" for c E
    by (rule activity_reference_cong) simp
  moreover have "entitlement_ok (d\<lparr>entitlements := E\<rparr>) x = entitlement_ok d x" for x E
    by (simp add: entitlement_ok_def checkpoint_pairs_def attendee_pairs_def)
  ultimately show ?thesis
    using assms by (simp add: ops_inv_def distinct_on_del_rows checkpoint_pairs_def)
qed

lemma find_del_rows: "List.find Q (del_rows P rs) = List.find (\<lambda>x. Q x \<and> \<not> P x) rs"
  by (induction rs) auto

text \<open>Removing an override gives the attendee the checkpoint's defaults back, leaves every
  other rule alone, and a second removal finds nothing, succeeds and writes nothing.\<close>

theorem delete_entitlement_spec:
  assumes "delete_entitlement e actor attendee checkpoint d = (Inr u, d')" and "ops_inv d"
  shows "ops_inv d' \<and>
    (\<exists>a c. parse_uuid e (trim_space attendee) = Some a \<and> parse_uuid e (trim_space checkpoint) = Some c \<and>
       (\<forall>k. ck_id k = c \<longrightarrow> rule_of a k d' = resolve_entitlement (ck_allowed k) (ck_max k) None) \<and>
       (\<forall>b k. (b, ck_id k) \<noteq> (a, c) \<longrightarrow> rule_of b k d' = rule_of b k d) \<and>
       (List.find (entitlement_at a c) (entitlements d) = None \<longrightarrow> d' = d)) \<and>
    delete_entitlement e actor attendee checkpoint d' = (Inr (), d')"
proof -
  obtain org a c cycle where g: "organizer_id e actor = Inr org" "parse_id e attendee = Inr a"
    "parse_id e checkpoint = Inr c" "lock_entitlement a c d = Inr cycle" and
    r: "(List.find (entitlement_at a c) (entitlements d) = None \<and> d' = d) \<or>
      (List.find (entitlement_at a c) (entitlements d) \<noteq> None \<and> audited ''entitlement_removed'' org
         (d\<lparr>entitlements := del_rows (entitlement_at a c) (entitlements d)\<rparr>) d')"
    by (rule delete_entitlement_Inr [OF assms(1)])
  have find: "List.find (entitlement_at b k) (entitlements d') =
      (if (b, k) = (a, c) then None else List.find (entitlement_at b k) (entitlements d))" for b k
  proof -
    let ?D = "d\<lparr>entitlements := del_rows (entitlement_at a c) (entitlements d)\<rparr>"
    have one: "List.find (\<lambda>x. entitlement_at b k x \<and> \<not> entitlement_at a c x) xs =
        (if (b, k) = (a, c) then None else List.find (entitlement_at b k) xs)" for xs
    proof (cases "(b, k) = (a, c)")
      case True
      then show ?thesis by (simp add: find_None_iff)
    next
      case False
      then have eq: "(entitlement_at b k x \<and> \<not> entitlement_at a c x) = entitlement_at b k x" for x
        unfolding entitlement_at_def by blast
      show ?thesis by (simp only: eq if_not_P [OF False])
    qed
    from r show ?thesis
    proof (elim disjE conjE)
      assume "List.find (entitlement_at a c) (entitlements d) = None" "d' = d"
      then show ?thesis by simp
    next
      assume "audited ''entitlement_removed'' org ?D d'"
      then have "entitlements d' = del_rows (entitlement_at a c) (entitlements d)"
        using audited_fields(4) by fastforce
      then show ?thesis by (simp only: find_del_rows one)
    qed
  qed
  have inv: "ops_inv d'"
    using r delete_entitlement_inv [OF assms(2)] assms(2) audited_inv by blast
  have "lock_entitlement a c d' = Inr cycle"
  proof -
    have "checkpoints d' = checkpoints d" "attendees d' = attendees d" "applications d' = applications d"
      using r by (auto dest: audited_fields)
    then show ?thesis
      using g(4) by (simp add: lock_entitlement_def lock_checkpoint_cycle_def lock_visible_attendee_cycle_def
          released_acceptance_def cong: option.case_cong)
  qed
  then have "delete_entitlement e actor attendee checkpoint d' = (Inr (), d')"
    by (simp add: delete_entitlement_def transact_def g find)
  moreover have "\<forall>k. ck_id k = c \<longrightarrow> rule_of a k d' = resolve_entitlement (ck_allowed k) (ck_max k) None"
    "\<forall>b k. (b, ck_id k) \<noteq> (a, c) \<longrightarrow> rule_of b k d' = rule_of b k d"
    by (auto simp: rule_of_def find)
  moreover have "List.find (entitlement_at a c) (entitlements d) = None \<longrightarrow> d' = d" using r by blast
  ultimately show ?thesis
    using inv g(2,3) unfolding parse_id_Inr by (intro conjI exI [of _ a] exI [of _ c])
qed

section \<open>The entrance\<close>

text \<open>The entrance set-up works for the active cycle only: it returns an existing main entrance
  as it is, or creates one that admits every attendee once, in a cycle without checkpoints; the
  same call again returns the same entrance and writes nothing.\<close>

theorem enable_entrance_spec:
  assumes "enable_entrance e actor cycle_text d = (Inr v, d')" and "ops_inv d"
  shows "ops_inv d' \<and> has_role actor RoleOrganizer \<and>
    (\<exists>c\<in>set (cycles d). \<exists>k\<in>set (checkpoints d'). cy_active c \<and>
       parse_uuid e (trim_space cycle_text) = Some (cy_id c) \<and>
       ck_cycle k = cy_id c \<and> ck_slug k = ''main-entrance'' \<and> v = scan_checkpoint e k \<and>
       (d' = d \<or> (\<forall>j\<in>set (checkpoints d). ck_cycle j \<noteq> cy_id c) \<and> ck_allowed k \<and> ck_max k = 1 \<and> ck_active k \<and>
          \<not> window_closed (now e) k \<and> checkpoints d' = checkpoints d @ [k])) \<and>
    enable_entrance e actor cycle_text d' = (Inr v, d')"
proof -
  obtain org c where g: "organizer_id e actor = Inr org" "parse_id e cycle_text = Inr (cy_id c)"
    "c \<in> set (cycles d)" "cy_active c" and
    r: "(\<exists>k. List.find (\<lambda>k. ck_cycle k = cy_id c \<and> ck_slug k = ''main-entrance'') (checkpoints d) = Some k \<and>
        v = scan_checkpoint e k \<and> d' = d) \<or>
      (\<exists>d1. (\<forall>k\<in>set (checkpoints d). ck_cycle k \<noteq> cy_id c) \<and>
        insert_checkpoint (new_checkpoint e (cy_id c) entrance_fields) d = Inr d1 \<and>
        audited ''checkpoint_created'' org d1 d' \<and>
        v = scan_checkpoint e (new_checkpoint e (cy_id c) entrance_fields))"
    by (rule enable_entrance_Inr [OF assms(1)])
  have role: "has_role actor RoleOrganizer" "parse_uuid e (trim_space cycle_text) = Some (cy_id c)"
    using g(1,2) by (simp_all add: organizer_id_Inr parse_id_Inr)
  show ?thesis
    using r
  proof (elim disjE exE conjE)
    fix k assume k: "List.find (\<lambda>k. ck_cycle k = cy_id c \<and> ck_slug k = ''main-entrance'') (checkpoints d) = Some k"
      "v = scan_checkpoint e k" "d' = d"
    then show ?thesis using assms find_SomeD [OF k(1)] g(3,4) role by blast
  next
    fix d1 let ?k = "new_checkpoint e (cy_id c) entrance_fields"
    assume none: "\<forall>k\<in>set (checkpoints d). ck_cycle k \<noteq> cy_id c" and i: "insert_checkpoint ?k d = Inr d1"
      and a: "audited ''checkpoint_created'' org d1 d'" and v: "v = scan_checkpoint e ?k"
    note w = insert_checkpoint_Inr [OF i] and fr = audited_fields [OF a]
    have cks: "checkpoints d' = checkpoints d @ [?k]" "cycles d' = cycles d" by (simp_all add: fr w(1))
    have k: "ck_cycle ?k = cy_id c" "ck_slug ?k = ''main-entrance''" "ck_allowed ?k" "ck_max ?k = 1" "ck_active ?k"
      "\<not> window_closed (now e) ?k"
      by (simp_all add: new_checkpoint_def entrance_fields_def window_closed_def)
    have "List.find (\<lambda>k. ck_cycle k = cy_id c \<and> ck_slug k = ''main-entrance'') (checkpoints d') = Some ?k"
      using none k(1,2) by (auto simp: cks find_append find_None_iff split: option.split dest!: find_SomeD)
    moreover obtain c' where c': "lock_cycle (cy_id c) d = Some c'" "cy_active c'"
    proof -
      obtain u d2 where "enable_entrance e actor cycle_text d = (Inr u, d2)" using assms(1) by blast
      then show thesis
        using that g(1,2) by (auto simp: enable_entrance_def transact_Inr split: if_split_asm)
    qed
    moreover have "lock_cycle (cy_id c) d' = lock_cycle (cy_id c) d" by (simp add: lock_cycle_def cks)
    ultimately have "enable_entrance e actor cycle_text d' = (Inr v, d')"
      by (simp add: enable_entrance_def transact_def g v)
    moreover have "ops_inv d'" using w(4) [OF assms(2)] audited_inv [OF a] by simp
    moreover have "?k \<in> set (checkpoints d')" by (simp add: cks)
    ultimately show ?thesis using g(3,4) role none k cks v by blast
  qed
qed

section \<open>Reports\<close>

lemma sorted_reports:
  "sorted_wrt (\<lambda>x y. rd_at y \<le> rd_at x) (rev (sort_key rd_at rs))"
proof -
  have "sorted_wrt (\<lambda>x y. rd_at x \<le> rd_at y) (sort_key rd_at rs)"
    using sorted_sort_key [of rd_at rs] by (simp add: sorted_map)
  then show ?thesis by (simp add: sorted_wrt_rev)
qed

definition option_list :: "'a option \<Rightarrow> 'a list" where
  "option_list x = (case x of None \<Rightarrow> [] | Some v \<Rightarrow> [v])"

lemma sorted_concat_options:
  assumes "sorted_wrt (\<lambda>x y. k y \<le> (k x :: int)) rs" and "\<And>r v. f r = Some v \<Longrightarrow> j v = k r"
  shows "sorted_wrt (\<lambda>x y. j y \<le> j x) (concat (map (\<lambda>r. option_list (f r)) rs))"
  using assms(1)
proof (induction rs)
  case (Cons r rs)
  have "j y \<le> k r" if y: "y \<in> set (concat (map (\<lambda>r. option_list (f r)) rs))" for y
  proof -
    obtain s where "s \<in> set rs" "f s = Some y"
      using y by (auto simp: option_list_def split: option.split_asm)
    then show ?thesis using Cons.prems assms(2) by auto
  qed
  then show ?case using Cons assms(2) by (cases "f r") (auto simp: option_list_def)
qed simp

lemma redemption_rows_eq:
  "redemption_rows e fl limit d =
     (let rows = concat (map (\<lambda>r. option_list (report_row e d r)) (rev (sort_key rd_at (sort_key rd_id
          (filter (\<lambda>r. case fl of None \<Rightarrow> True | Some c \<Rightarrow> rd_checkpoint r = c) (redemptions d))))))
      in if limit > 0 then take (nat limit) rows else rows)"
  by (simp add: redemption_rows_def option_list_def)

lemma report_row_at: "report_row e d r = Some v \<Longrightarrow> rr_at v = rd_at r"
  by (auto simp: report_row_def split: option.split_asm)

lemma redemption_rows_sorted: "sorted_wrt (\<lambda>x y. rr_at y \<le> rr_at x) (redemption_rows e fl limit d)"
proof -
  have "sorted_wrt (\<lambda>x y. rr_at y \<le> rr_at x) (concat (map (\<lambda>r. option_list (report_row e d r))
      (rev (sort_key rd_at rs))))" for rs
    by (rule sorted_concat_options [OF sorted_reports report_row_at])
  then show ?thesis by (simp add: redemption_rows_eq Let_def sorted_wrt_take)
qed

lemma redemption_rows_from:
  assumes "v \<in> set (redemption_rows e fl limit d)"
  shows "\<exists>r\<in>set (redemptions d). report_row e d r = Some v \<and> (\<forall>c. fl = Some c \<longrightarrow> rd_checkpoint r = c)"
proof -
  have "v \<in> set (concat (map (\<lambda>r. option_list (report_row e d r)) (rev (sort_key rd_at (sort_key rd_id
          (filter (\<lambda>r. case fl of None \<Rightarrow> True | Some c \<Rightarrow> rd_checkpoint r = c) (redemptions d)))))))"
    using assms unfolding redemption_rows_eq Let_def by (auto split: if_split_asm dest: in_set_takeD)
  then show ?thesis by (fastforce simp: option_list_def split: option.split_asm)
qed

text \<open>The redemption report shows recorded redemptions only, of the asked checkpoint when one is
  given, the latest first, and never more than the limit, which is 100 when not given and 500 at
  the most; it writes nothing.\<close>

theorem list_redemptions_spec:
  assumes "list_redemptions e actor checkpoint limit d = (Inr vs, d')"
  shows "d' = d \<and> has_role actor RoleOrganizer \<and> 0 \<le> limit \<and> limit \<le> 500 \<and>
    int (length vs) \<le> (if limit = 0 then 100 else limit) \<and>
    sorted_wrt (\<lambda>x y. rr_at y \<le> rr_at x) vs \<and>
    (\<forall>v\<in>set vs. \<exists>r\<in>set (redemptions d). report_row e d r = Some v \<and>
       (\<forall>s c. checkpoint = Some s \<longrightarrow> parse_uuid e (trim_space s) = Some c \<longrightarrow> rd_checkpoint r = c))"
proof -
  let ?n = "if limit = 0 then 100 else limit"
  obtain fl where g: "d' = d" "has_role actor RoleOrganizer" "parse_optional_id e checkpoint = Inr fl"
    "\<not> (?n < 1 \<or> ?n > 500)" "vs = redemption_rows e fl ?n d"
    using assms unfolding list_redemptions_def query_eq Let_def
    by (auto split: if_split_asm elim!: bindE_InrE)
  have n: "0 < ?n" "?n \<le> 500" using g(4) by linarith+
  have len: "int (length vs) \<le> ?n"
    using n(1) by (simp add: g(5) redemption_rows_eq Let_def)
  have fl: "fl = Some c" if "checkpoint = Some s" "parse_uuid e (trim_space s) = Some c" for s c
    using g(3) that by (simp add: parse_optional_id_def parse_id_def)
  have "\<exists>r\<in>set (redemptions d). report_row e d r = Some v \<and>
       (\<forall>s c. checkpoint = Some s \<longrightarrow> parse_uuid e (trim_space s) = Some c \<longrightarrow> rd_checkpoint r = c)"
    if v: "v \<in> set vs" for v
    using redemption_rows_from [OF v [unfolded g(5)]] fl by blast
  moreover have "0 \<le> limit" "limit \<le> 500" using n by (simp_all split: if_split_asm)
  moreover have "sorted_wrt (\<lambda>x y. rr_at y \<le> rr_at x) vs" unfolding g(5) by (rule redemption_rows_sorted)
  ultimately show ?thesis using g(1,2) len by blast
qed

lemma latest_max: "ts \<noteq> [] \<Longrightarrow> latest ts = Some (Max (set ts))"
proof -
  have "foldr max xs y = Max (insert y (set xs))" for xs and y :: int
  proof (induction xs)
    case (Cons x xs)
    have "foldr max (x # xs) y = Max (insert x (insert y (set xs)))" using Cons by simp
    then show ?case by (simp only: insert_commute list.set)
  qed simp
  then show "ts \<noteq> [] \<Longrightarrow> latest ts = Some (Max (set ts))"
    by (cases ts) (simp_all add: latest_def)
qed

text \<open>C26. The counts of a checkpoint agree with the ledger the scanners keep: the total is the sum
  of the counts of its attendees, the number of attendees is the number of those with a count,
  and it is at most the total; rejected scans never count.\<close>

theorem checkpoint_counts_agree:
  "cc_total (count_checkpoint e d c) =
     (\<Sum>a\<in>rd_attendee ` set (redemptions d). int (count_redemptions a (ck_id c) d)) \<and>
   cc_unique (count_checkpoint e d c) = int (card {a. 0 < count_redemptions a (ck_id c) d}) \<and>
   cc_unique (count_checkpoint e d c) \<le> cc_total (count_checkpoint e d c) \<and>
   cc_last (count_checkpoint e d c) =
     (if cc_total (count_checkpoint e d c) = 0 then None
      else Some (Max (rd_at ` {r \<in> set (redemptions d). rd_checkpoint r = ck_id c})))"
proof -
  let ?k = "ck_id c"
  let ?rs = "filter (\<lambda>r. rd_checkpoint r = ?k) (redemptions d)"
  have v: "cc_total (count_checkpoint e d c) = int (length ?rs)"
    "cc_unique (count_checkpoint e d c) = int (length (remdups (map rd_attendee ?rs)))"
    "cc_last (count_checkpoint e d c) = latest (map rd_at ?rs)"
    by (simp_all add: count_checkpoint_def Let_def)
  have sum: "(\<Sum>a\<in>A. length (filter (\<lambda>r. rd_attendee r = a \<and> rd_checkpoint r = ?k) xs)) =
      length (filter (\<lambda>r. rd_checkpoint r = ?k) xs)"
    if "rd_attendee ` set xs \<subseteq> A" "finite A" for A xs
    using that(1)
  proof (induction xs)
    case (Cons x xs)
    have "(\<Sum>a\<in>A. length (filter (\<lambda>r. rd_attendee r = a \<and> rd_checkpoint r = ?k) (x # xs))) =
        (\<Sum>a\<in>A. (if rd_attendee x = a then (if rd_checkpoint x = ?k then 1 else 0) else 0) +
          length (filter (\<lambda>r. rd_attendee r = a \<and> rd_checkpoint r = ?k) xs))"
      by (intro sum.cong) auto
    also have "\<dots> = (if rd_checkpoint x = ?k then 1 else 0) + length (filter (\<lambda>r. rd_checkpoint r = ?k) xs)"
      using Cons that(2) by (simp add: sum.distrib)
    finally show ?case by simp
  qed simp
  have "(\<Sum>a\<in>rd_attendee ` set (redemptions d). int (count_redemptions a ?k d)) = int (length ?rs)"
    using sum [of "redemptions d" "rd_attendee ` set (redemptions d)"]
    by (simp add: count_redemptions_def count_rows_def flip: of_nat_sum)
  moreover have "{a. 0 < count_redemptions a ?k d} = set (map rd_attendee ?rs)"
    by (auto simp: count_redemptions_def count_rows_def length_greater_0_conv filter_empty_conv)
  moreover have "length (remdups (map rd_attendee ?rs)) \<le> length ?rs"
    using length_remdups_leq [of "map rd_attendee ?rs"] by simp
  moreover have "latest (map rd_at ?rs) = (if ?rs = [] then None
      else Some (Max (rd_at ` {r \<in> set (redemptions d). rd_checkpoint r = ?k})))"
    by (simp add: latest_max) (simp add: latest_def)
  ultimately show ?thesis
    by (simp add: v length_remdups_card_conv)
qed

section \<open>Administration beside the scanners\<close>

datatype event_call =
    CreateActivity env user activity_input
  | UpdateActivity env user string activity_input
  | DeleteActivity env user string
  | CreateCheckpoint env user checkpoint_input
  | UpdateCheckpoint env user string checkpoint_input
  | DeleteCheckpoint env user string
  | PutEntitlement env user string string bool int
  | DeleteEntitlement env user string string
  | ExportRedemptions env user export_kind "string option"
  | EnableEntrance env user string
  | Scan scan_call

definition drop_value :: "('d, 'e, 'a) tx \<Rightarrow> ('d, unit, unit) tx" where
  "drop_value t d = (case t d of (Inl x, d') \<Rightarrow> (Inl (), d') | (Inr v, d') \<Rightarrow> (Inr (), d'))"

lemma drop_value_Inr: "drop_value t d = (Inr u, d') \<longleftrightarrow> (\<exists>v. t d = (Inr v, d'))"
  by (auto simp: drop_value_def split: prod.split sum.split)

lemma drop_value_Inl: "drop_value t d = (Inl u, d') \<longleftrightarrow> (\<exists>x. t d = (Inl x, d'))"
  by (auto simp: drop_value_def split: prod.split sum.split)

definition run_event :: "event_call \<Rightarrow> (db, unit, unit) tx" where
  "run_event c =
     (case c of
        CreateActivity e actor input \<Rightarrow> drop_value (create_activity e actor input)
      | UpdateActivity e actor i input \<Rightarrow> drop_value (update_activity e actor i input)
      | DeleteActivity e actor i \<Rightarrow> drop_value (delete_activity e actor i)
      | CreateCheckpoint e actor input \<Rightarrow> drop_value (create_checkpoint e actor input)
      | UpdateCheckpoint e actor i input \<Rightarrow> drop_value (update_checkpoint e actor i input)
      | DeleteCheckpoint e actor i \<Rightarrow> drop_value (delete_checkpoint e actor i)
      | PutEntitlement e actor a c allowed m \<Rightarrow> drop_value (put_entitlement e actor a c allowed m)
      | DeleteEntitlement e actor a c \<Rightarrow> drop_value (delete_entitlement e actor a c)
      | ExportRedemptions e actor k c \<Rightarrow> drop_value (export_redemptions e actor k c)
      | EnableEntrance e actor c \<Rightarrow> drop_value (enable_entrance e actor c)
      | Scan x \<Rightarrow> drop_value (redeem_call x))"

lemma run_event_rollback:
  assumes "run_event c d = (Inl u, d')"
  shows "d' = d"
  using assms
  by (cases c)
    (auto simp: run_event_def drop_value_Inl create_activity_def update_activity_def delete_activity_def
      create_checkpoint_def update_checkpoint_def delete_checkpoint_def put_entitlement_def
      delete_entitlement_def export_redemptions_def enable_entrance_def transact_Inl
      dest: redeem_call_rollback)

text \<open>An organizer's call keeps the configuration invariant and leaves the ledger alone.\<close>

definition config_step :: "db \<Rightarrow> db \<Rightarrow> bool" where
  "config_step d d' \<longleftrightarrow> (ops_inv d \<longrightarrow> ops_inv d') \<and>
     requests d' = requests d \<and> redemptions d' = redemptions d \<and> passes d' = passes d \<and>
     attendees d' = attendees d \<and> applications d' = applications d"

lemma config_step_audited:
  "audited event actor d1 d' \<Longrightarrow> config_step d d1 \<Longrightarrow> config_step d d'"
  by (simp add: config_step_def audited_fields audited_inv)

lemma config_step_refl: "config_step d d"
  by (simp add: config_step_def)

lemma run_event_config:
  assumes run: "run_event c d = (Inr u, d')" and no: "\<forall>x. c \<noteq> Scan x" and inv: "ops_inv d"
  shows "config_step d d'"
proof (cases c)
  case (CreateActivity e actor input)
  then obtain v where "create_activity e actor input d = (Inr v, d')"
    using run by (auto simp: run_event_def drop_value_Inr)
  then show ?thesis
  proof (rule create_activity_Inr)
    fix a f cycle d1
    assume i: "insert_activity (new_activity e cycle f) d = Inr d1" and a: "audited ''activity_created'' a d1 d'"
    show ?thesis
      by (rule config_step_audited [OF a]) (use insert_activity_Inr [OF i] in \<open>simp add: config_step_def\<close>)
  qed
next
  case (UpdateActivity e actor i input)
  then obtain v where "update_activity e actor i input d = (Inr v, d')"
    using run by (auto simp: run_event_def drop_value_Inr)
  then show ?thesis
  proof (rule update_activity_Inr)
    fix a k f r d1
    assume w: "update_activity_row e k f d = Inr (Some (r, d1))" and a: "audited ''activity_updated'' a d1 d'"
    show ?thesis
      by (rule config_step_audited [OF a])
        (use update_activity_row_Inr [OF w inv] in \<open>auto simp: config_step_def\<close>)
  qed
next
  case (DeleteActivity e actor i)
  then obtain v where "delete_activity e actor i d = (Inr v, d')"
    using run by (auto simp: run_event_def drop_value_Inr)
  then show ?thesis
  proof (rule delete_activity_Inr)
    fix a k d1
    assume w: "delete_activity_row k d = Inr d1" and a: "audited ''activity_deleted'' a d1 d'"
    show ?thesis
      by (rule config_step_audited [OF a]) (use delete_activity_row_Inr [OF w] in \<open>simp add: config_step_def\<close>)
  qed
next
  case (CreateCheckpoint e actor input)
  then obtain v where "create_checkpoint e actor input d = (Inr v, d')"
    using run by (auto simp: run_event_def drop_value_Inr)
  then show ?thesis
  proof (rule create_checkpoint_Inr)
    fix a f cycle d1
    assume i: "insert_checkpoint (new_checkpoint e cycle f) d = Inr d1" and a: "audited ''checkpoint_created'' a d1 d'"
    show ?thesis
      by (rule config_step_audited [OF a]) (use insert_checkpoint_Inr [OF i] in \<open>simp add: config_step_def\<close>)
  qed
next
  case (UpdateCheckpoint e actor i input)
  then obtain v where "update_checkpoint e actor i input d = (Inr v, d')"
    using run by (auto simp: run_event_def drop_value_Inr)
  then show ?thesis
  proof (rule update_checkpoint_Inr)
    fix a k f r d1
    assume w: "update_checkpoint_row e k f d = Inr (Some (r, d1))" and a: "audited ''checkpoint_updated'' a d1 d'"
    show ?thesis
      by (rule config_step_audited [OF a])
        (use update_checkpoint_row_Inr [OF w inv] in \<open>auto simp: config_step_def\<close>)
  qed
next
  case (DeleteCheckpoint e actor i)
  then obtain v where "delete_checkpoint e actor i d = (Inr v, d')"
    using run by (auto simp: run_event_def drop_value_Inr)
  then show ?thesis
  proof (rule delete_checkpoint_Inr)
    fix a k d1
    assume w: "delete_checkpoint_row k d = Inr d1" and a: "audited ''checkpoint_deleted'' a d1 d'"
    show ?thesis
      by (rule config_step_audited [OF a]) (use delete_checkpoint_row_Inr [OF w] in \<open>simp add: config_step_def\<close>)
  qed
next
  case (PutEntitlement e actor a c allowed m)
  then obtain v where "put_entitlement e actor a c allowed m d = (Inr v, d')"
    using run by (auto simp: run_event_def drop_value_Inr)
  then show ?thesis
  proof (rule put_entitlement_Inr)
    fix org b k cycle x d1
    assume w: "upsert_entitlement e b k cycle allowed m d = Inr (x, d1)"
      and a: "audited ''entitlement_overridden'' org d1 d'"
    show ?thesis
      by (rule config_step_audited [OF a]) (use upsert_entitlement_Inr(4,7) [OF w] in \<open>auto simp: config_step_def\<close>)
  qed
next
  case (DeleteEntitlement e actor a c)
  then obtain v where r: "delete_entitlement e actor a c d = (Inr v, d')"
    using run by (auto simp: run_event_def drop_value_Inr)
  have del: "config_step d (d\<lparr>entitlements := del_rows P (entitlements d)\<rparr>)" for P
    using delete_entitlement_inv by (simp add: config_step_def)
  show ?thesis
    by (rule delete_entitlement_Inr [OF r]) (auto intro: config_step_refl config_step_audited del)
next
  case (ExportRedemptions e actor k c)
  then obtain v where r: "export_redemptions e actor k c d = (Inr v, d')"
    using run by (auto simp: run_event_def drop_value_Inr)
  show ?thesis
    by (rule export_redemptions_Inr [OF r]) (erule config_step_audited, rule config_step_refl)
next
  case (EnableEntrance e actor c)
  then obtain v where r: "enable_entrance e actor c d = (Inr v, d')"
    using run by (auto simp: run_event_def drop_value_Inr)
  have ins: "config_step d d1" if "insert_checkpoint k d = Inr d1" for k d1
    using insert_checkpoint_Inr [OF that] by (simp add: config_step_def)
  show ?thesis
    by (rule enable_entrance_Inr [OF r]) (auto intro: config_step_refl config_step_audited ins)
qed (use no in blast)

lemma redeem_ops_inv:
  assumes run: "redeem h e entropy actor input d = (Inr v, d')" and inv: "ops_inv d"
  shows "ops_inv d'"
proof -
  obtain hash scanner checkpoint key qr valid j where
    a: "redeem_attempt e (random_uuid (entropy j)) scanner checkpoint key qr valid d = Inr (v, d')"
    by (rule redeem_Inr [OF run])
  show ?thesis
    using a
  proof (cases rule: redeem_attempt_Inr)
    case (replay q)
    then show ?thesis using inv by simp
  next
    case (new c x out n)
    let ?r = "\<lparr>sc_scanner = scanner, sc_checkpoint = c, sc_key = key, sc_qr = qr, sc_pass = x,
        sc_outcome = out, sc_ordinal = n\<rparr>"
    obtain i au where d': "d' = d\<lparr>requests := requests d @ [request_of e (outcome_redemption i ?r) ?r],
        redemptions := redemptions d @ outcome_rows e i ?r, audit := au\<rparr>"
      using new(5) unfolding outcome_recorded_def by blast
    have rows: "\<forall>r\<in>set (outcome_rows e i ?r). (rd_checkpoint r, rd_cycle r) \<in> checkpoint_pairs d"
      using new(2) by (auto simp: outcome_rows_def redemption_of_def checkpoint_pairs_def split: option.split)
    have q: "rq_checkpoint (request_of e (outcome_redemption i ?r) ?r) = ck_id c"
      by (simp add: request_of_def Let_def)
    have fr: "checkpoint_pairs d' = checkpoint_pairs d" "attendee_pairs d' = attendee_pairs d"
      "\<And>c. activity_reference_ok c d' = activity_reference_ok c d"
      by (simp_all add: d' checkpoint_pairs_def attendee_pairs_def activity_reference_ok_def cong: option.case_cong)
    show ?thesis
      using inv rows q new(2) unfolding ops_inv_def entitlement_ok_def fr by (auto simp: d')
  qed
qed

definition event_inv :: "db \<Rightarrow> db \<Rightarrow> bool" where
  "event_inv start d \<longleftrightarrow> ops_inv d \<and> scan_inv d \<and>
     set (requests start) \<subseteq> set (requests d) \<and> set (redemptions start) \<subseteq> set (redemptions d)"

lemma run_event_inv:
  assumes run: "run_event c d = (Inr u, d')" and inv: "event_inv start d"
  shows "event_inv start d'"
proof (cases "\<exists>x. c = Scan x")
  case False
  then have "config_step d d'" using run_event_config [OF run] inv by (simp add: event_inv_def)
  then have s: "ops_inv d'" "requests d' = requests d" "redemptions d' = redemptions d"
    using inv by (simp_all add: config_step_def event_inv_def)
  then show ?thesis using inv scan_inv_config [OF _ s] by (simp add: event_inv_def)
next
  case True
  then obtain h e entropy actor input v where r: "redeem h e entropy actor input d = (Inr v, d')"
    using run by (auto simp: run_event_def drop_value_Inr redeem_call_def split: prod.split_asm)
  show ?thesis
    using redeem_ops_inv [OF r] redeem_holds(2) [OF r] redeem_frame [OF r] inv by (auto simp: event_inv_def)
qed

interpretation event_day: transaction_contract run_event "\<lambda>_. True" "event_inv start"
  by unfold_locales (erule run_event_rollback, erule (1) run_event_inv [rotated])

text \<open>C27. Organizers may create, change and delete activities, checkpoints and overrides, set up the
  entrance and export reports while scanners redeem, in any order and with any outcome: the
  configuration stays consistent, the ledger invariant holds, and no request or redemption that
  was ever recorded disappears or loses its checkpoint.\<close>

theorem event_day_invariant:
  assumes "ops_inv d" and "scan_inv d"
  shows "ops_inv (run_calls (map run_event cs) d) \<and> scan_inv (run_calls (map run_event cs) d) \<and>
    (\<forall>r\<in>set (redemptions d). r \<in> set (redemptions (run_calls (map run_event cs) d)) \<and>
       (rd_checkpoint r, rd_cycle r) \<in> checkpoint_pairs (run_calls (map run_event cs) d)) \<and>
    set (requests d) \<subseteq> set (requests (run_calls (map run_event cs) d))"
proof -
  have "event_inv d (run_calls (map run_event cs) d)"
    by (rule event_day.run_calls_inv) (simp_all add: event_inv_def assms)
  then show ?thesis by (auto simp: event_inv_def ops_inv_def)
qed

section \<open>Witnesses\<close>

definition sample_cycle :: cycle_row where
  "sample_cycle = \<lparr>cy_id = 2, cy_slug = ''fall'', cy_name = ''Fall'', cy_opens = 1, cy_closes = 90,
     cy_active = True\<rparr>"

definition sample_event_db :: db where
  "sample_event_db = sample_scan_db\<lparr>cycles := [sample_cycle]\<rparr>"

definition sample_planner :: user where
  "sample_planner = \<lparr>user_id = unary_text 1, user_clerk = ''clerk_1'', user_email = ''o@x.ca'',
     user_name = None, user_role_set = {RoleOrganizer}\<rparr>"

definition sample_dinner :: checkpoint_input where
  "sample_dinner = \<lparr>ci_cycle = unary_text 2, ci_activity = None, ci_slug = ''dinner'', ci_name = '' Dinner'',
     ci_opens = Some 1000, ci_closes = Some 9000, ci_allowed = True, ci_max = 2, ci_active = True\<rparr>"

lemma sample_ops_inv: "ops_inv sample_event_db" "scan_inv sample_event_db"
proof -
  show "ops_inv sample_event_db"
    by (simp add: ops_inv_def sample_event_db_def sample_scan_db_def empty_db_def sample_checkpoint_def
        checkpoint_check_def window_check_def int4_ok_def activity_reference_ok_def)
  then show "scan_inv sample_event_db"
    by (rule scan_inv_config [OF sample_scan_inv(1)]) (simp_all add: sample_event_db_def)
qed

theorem create_checkpoint_spec_witness:
  "\<exists>v d. create_checkpoint sample_env sample_planner sample_dinner sample_event_db = (Inr v, d) \<and>
     create_checkpoint_contract sample_env sample_planner sample_dinner sample_event_db v d \<and>
     create_checkpoint (sample_env\<lparr>fresh := (\<lambda>n. 77)\<rparr>) sample_planner sample_dinner d = (Inl OpConflict, d)"
proof -
  have "\<not> isl (fst (create_checkpoint sample_env sample_planner sample_dinner sample_event_db))" by code_simp
  then obtain v d where r: "create_checkpoint sample_env sample_planner sample_dinner sample_event_db = (Inr v, d)"
    by (metis isl_def prod.collapse sum.collapse(2))
  have "parse_uuid (sample_env\<lparr>fresh := (\<lambda>n. 77)\<rparr>) = parse_uuid sample_env" by simp
  from create_checkpoint_spec [OF r this] r show ?thesis by blast
qed

theorem delete_checkpoint_spec_witness:
  "\<exists>d. delete_checkpoint sample_env sample_planner (unary_text 5) sample_event_db = (Inr (), d) \<and>
     delete_checkpoint_effect 1 5 sample_event_db d"
proof -
  have h: "has_role sample_planner RoleOrganizer"
    "parse_uuid sample_env (trim_space (user_id sample_planner)) = Some 1"
    "parse_uuid sample_env (trim_space (unary_text 5)) = Some 5" "user_exists 1 sample_event_db"
    "parse_uuid sample_env (trim_space (uuid_text sample_env 5)) = Some 5"
    by code_simp+
  have "lock_checkpoint 5 sample_event_db \<noteq> None" "\<not> checkpoint_referenced 5 sample_event_db"
    by code_simp+
  with delete_checkpoint_spec [OF h] show ?thesis by simp
qed

lemma sample_put:
  obtains v d where "put_entitlement sample_env sample_planner (unary_text 6) (unary_text 5) True 3 sample_event_db = (Inr v, d)"
proof -
  have "\<not> isl (fst (put_entitlement sample_env sample_planner (unary_text 6) (unary_text 5) True 3 sample_event_db))"
    by code_simp
  then show thesis by (metis isl_def prod.collapse sum.collapse(2) that)
qed

theorem put_entitlement_spec_witness:
  "\<exists>v d. put_entitlement sample_env sample_planner (unary_text 6) (unary_text 5) True 3 sample_event_db = (Inr v, d) \<and>
     put_entitlement_contract sample_env sample_planner (unary_text 6) (unary_text 5) True 3 sample_event_db v d"
proof -
  obtain v d where r: "put_entitlement sample_env sample_planner (unary_text 6) (unary_text 5) True 3 sample_event_db = (Inr v, d)"
    by (rule sample_put)
  from put_entitlement_spec [OF r sample_ops_inv(1)] r show ?thesis by blast
qed

definition sample_put_db :: db where
  "sample_put_db = snd (put_entitlement sample_env sample_planner (unary_text 6) (unary_text 5) True 3 sample_event_db)"

theorem delete_entitlement_spec_witness:
  "\<exists>d. entitlements sample_put_db \<noteq> [] \<and>
     delete_entitlement sample_env sample_planner (unary_text 6) (unary_text 5) sample_put_db = (Inr (), d) \<and>
     delete_entitlement sample_env sample_planner (unary_text 6) (unary_text 5) d = (Inr (), d)"
proof -
  have s: "entitlements sample_put_db \<noteq> []" by code_simp
  have "\<not> isl (fst (delete_entitlement sample_env sample_planner (unary_text 6) (unary_text 5) sample_put_db))" by code_simp
  then obtain u d where r: "delete_entitlement sample_env sample_planner (unary_text 6) (unary_text 5) sample_put_db = (Inr u, d)"
    by (metis isl_def prod.collapse sum.collapse(2))
  obtain v d1 where p: "put_entitlement sample_env sample_planner (unary_text 6) (unary_text 5) True 3 sample_event_db = (Inr v, d1)"
    by (rule sample_put)
  have "ops_inv sample_put_db"
    using put_entitlement_inv [OF p sample_ops_inv(1)] by (simp add: sample_put_db_def p)
  from delete_entitlement_spec [OF r this] r s show ?thesis by simp
qed

definition sample_bare_db :: db where
  "sample_bare_db = sample_event_db\<lparr>checkpoints := []\<rparr>"

theorem enable_entrance_spec_witness:
  "\<exists>v d. enable_entrance sample_env sample_planner (unary_text 2) sample_bare_db = (Inr v, d) \<and>
     enable_entrance sample_env sample_planner (unary_text 2) d = (Inr v, d) \<and> length (checkpoints d) = 1"
proof -
  let ?r = "enable_entrance sample_env sample_planner (unary_text 2) sample_bare_db"
  have s: "\<not> isl (fst ?r) \<and> length (checkpoints (snd ?r)) = 1" by code_simp
  then obtain v d where r: "?r = (Inr v, d)" by (metis isl_def prod.collapse sum.collapse(2))
  have "ops_inv sample_bare_db"
    by (simp add: ops_inv_def sample_bare_db_def sample_event_db_def sample_scan_db_def empty_db_def)
  from enable_entrance_spec [OF r this] r s show ?thesis by auto
qed

theorem list_redemptions_spec_witness:
  "\<exists>vs. list_redemptions sample_env sample_planner (Some (unary_text 5)) 0 sample_event_db = (Inr vs, sample_event_db) \<and>
     int (length vs) \<le> 100"
proof -
  have "\<not> isl (fst (list_redemptions sample_env sample_planner (Some (unary_text 5)) 0 sample_event_db))" by code_simp
  then obtain vs d where r: "list_redemptions sample_env sample_planner (Some (unary_text 5)) 0 sample_event_db = (Inr vs, d)"
    by (metis isl_def prod.collapse sum.collapse(2))
  from list_redemptions_spec [OF r] r show ?thesis by simp
qed

theorem event_day_invariant_witness:
  "ops_inv (run_calls (map run_event
     [PutEntitlement sample_env sample_planner (unary_text 6) (unary_text 5) True 2,
      Scan (Some sample_hasher, scan_env, sample_entropy, sample_scanner, sample_scan),
      DeleteCheckpoint sample_env sample_planner (unary_text 5)]) sample_event_db)"
  using event_day_invariant [OF sample_ops_inv] by blast

text \<open>A window that is ordered in nanoseconds only passes the validation and is refused by the
  table, so that the answer is an internal error and not an invalid input.\<close>

lemma submicrosecond_window:
  "validate_checkpoint_input sample_env (sample_dinner\<lparr>ci_opens := Some 1000, ci_closes := Some 1500\<rparr>) \<noteq> Inl OpInvalidInput"
  "fst (create_checkpoint sample_env sample_planner
     (sample_dinner\<lparr>ci_opens := Some 1000, ci_closes := Some 1500\<rparr>) sample_event_db) = Inl OpInternal"
  by code_simp+

end
