(* ===== verification/RateLimit.thy ===== *)
theory RateLimit
  imports GoStrings
begin

text \<open>
  The claim rate limiter of \<^verbatim>\<open>httpapi/passes.go\<close>: fixed windows per client address, at most
  \<open>lm_entries\<close> addresses at a time, and the client address behind trusted proxies. Times are
  nanoseconds. A Go map has no order, so which of several equally old buckets is evicted is
  open there; here it is the first.
\<close>

section \<open>The limiter\<close>

record rate_bucket =
  rb_started :: int
  rb_count :: int

record rate_limiter =
  lm_buckets :: "(string \<times> rate_bucket) list"
  lm_limit :: int
  lm_window :: int
  lm_entries :: int

definition new_claim_rate_limiter :: "int \<Rightarrow> int \<Rightarrow> int \<Rightarrow> rate_limiter" where
  "new_claim_rate_limiter limit window entries =
     \<lparr>lm_buckets = [], lm_limit = (if limit < 1 then 30 else limit),
      lm_window = (if window \<le> 0 then 60 * 10 ^ 9 else window),
      lm_entries = (if entries < 1 then 10000 else entries)\<rparr>"

text \<open>The loop over the buckets for the oldest one.\<close>

fun oldest_bucket :: "(string \<times> rate_bucket) list \<Rightarrow> (string \<times> int) option \<Rightarrow> (string \<times> int) option" where
  "oldest_bucket [] best = best"
| "oldest_bucket ((k, b) # bs) best =
     oldest_bucket bs (case best of
        None \<Rightarrow> Some (k, rb_started b)
      | Some (_, t) \<Rightarrow> if rb_started b < t then Some (k, rb_started b) else best)"

definition delete_bucket :: "string \<Rightarrow> (string \<times> rate_bucket) list \<Rightarrow> (string \<times> rate_bucket) list" where
  "delete_bucket k bs = filter (\<lambda>(k', _). k' \<noteq> k) bs"

definition evict_oldest :: "(string \<times> rate_bucket) list \<Rightarrow> (string \<times> rate_bucket) list" where
  "evict_oldest bs = (case oldest_bucket bs None of None \<Rightarrow> bs | Some (k, _) \<Rightarrow> delete_bucket k bs)"

fun set_bucket :: "string \<Rightarrow> rate_bucket \<Rightarrow> (string \<times> rate_bucket) list \<Rightarrow> (string \<times> rate_bucket) list" where
  "set_bucket k b [] = [(k, b)]"
| "set_bucket k b ((k', b') # bs) = (if k' = k then (k, b) # bs else (k', b') # set_bucket k b bs)"

definition live_buckets :: "int \<Rightarrow> rate_limiter \<Rightarrow> (string \<times> rate_bucket) list" where
  "live_buckets t l = filter (\<lambda>(_, b). \<not> t - rb_started b \<ge> lm_window l) (lm_buckets l)"

text \<open>\<^verbatim>\<open>Allow\<close> for a client address at a time.\<close>

definition allow :: "string \<Rightarrow> int \<Rightarrow> rate_limiter \<Rightarrow> bool \<times> rate_limiter" where
  "allow address t l =
     (let bs = live_buckets t l in
      case map_of bs address of
        None \<Rightarrow>
          (let kept = (if int (length bs) \<ge> lm_entries l then evict_oldest bs else bs)
           in (True, l\<lparr>lm_buckets := set_bucket address \<lparr>rb_started = t, rb_count = 1\<rparr> kept\<rparr>))
      | Some b \<Rightarrow>
          if rb_count b \<ge> lm_limit l then (False, l\<lparr>lm_buckets := bs\<rparr>)
          else (True, l\<lparr>lm_buckets := set_bucket address (b\<lparr>rb_count := rb_count b + 1\<rparr>) bs\<rparr>))"

section \<open>The client address\<close>

text \<open>\<open>split_host\<close> is \<^verbatim>\<open>net.SplitHostPort\<close>, \<open>parse_ip\<close> the printed form of \<^verbatim>\<open>net.ParseIP\<close> and
  \<open>trusted\<close> membership in one of the configured networks.\<close>

definition trust_proxy_cidrs :: "(string \<Rightarrow> 'n option) \<Rightarrow> string list \<Rightarrow> 'n list option" where
  "trust_proxy_cidrs parse_cidr values = those (map (\<lambda>v. parse_cidr (trim_space v)) values)"

definition is_trusted_proxy :: "('n \<Rightarrow> string \<Rightarrow> bool) \<Rightarrow> 'n list \<Rightarrow> string \<Rightarrow> bool" where
  "is_trusted_proxy contains networks address = list_ex (\<lambda>n. contains n address) networks"

fun forwarded_client :: "(string \<Rightarrow> string option) \<Rightarrow> (string \<Rightarrow> bool) \<Rightarrow> string \<Rightarrow> string list \<Rightarrow> string" where
  "forwarded_client parse_ip trusted peer [] = peer"
| "forwarded_client parse_ip trusted peer (x # xs) =
     (case parse_ip (trim_space x) of
        None \<Rightarrow> peer
      | Some a \<Rightarrow> if trusted a then forwarded_client parse_ip trusted peer xs else a)"

definition request_client_address ::
    "(string \<Rightarrow> string option) \<Rightarrow> (string \<Rightarrow> string option) \<Rightarrow> (string \<Rightarrow> bool) \<Rightarrow>
       string \<Rightarrow> string \<Rightarrow> string" where
  "request_client_address split_host parse_ip trusted remote forwarded =
     (let host = (case split_host remote of None \<Rightarrow> remote | Some h \<Rightarrow> if h = [] then remote else h) in
      case parse_ip host of
        None \<Rightarrow> ''unknown''
      | Some peer \<Rightarrow>
          if \<not> trusted peer then peer
          else forwarded_client parse_ip trusted peer (rev (split_char (CHR '','') forwarded)))"

text \<open>A request whose peer is not a trusted proxy cannot choose its address.\<close>

lemma untrusted_peer_decides:
  "parse_ip (case split_host remote of None \<Rightarrow> remote | Some h \<Rightarrow> if h = [] then remote else h) = Some peer \<Longrightarrow>
     \<not> trusted peer \<Longrightarrow> request_client_address split_host parse_ip trusted remote forwarded = peer"
  by (simp add: request_client_address_def)

text \<open>Behind trusted proxies only the part after the last untrusted address counts: what a client
  writes to the left of it is ignored.\<close>

lemma forwarded_prefix_ignored:
  assumes "parse_ip (trim_space x) = Some a" and "\<not> trusted a"
  shows "forwarded_client parse_ip trusted peer (ys @ x # zs) =
    forwarded_client parse_ip trusted peer (ys @ [x])"
  using assms by (induction ys) (auto split: option.splits)

section \<open>Bounded state\<close>

definition limiter_ok :: "rate_limiter \<Rightarrow> bool" where
  "limiter_ok l \<longleftrightarrow>
     1 \<le> lm_limit l \<and> 0 < lm_window l \<and> 1 \<le> lm_entries l \<and>
     distinct (map fst (lm_buckets l)) \<and> int (length (lm_buckets l)) \<le> lm_entries l \<and>
     (\<forall>(k, b)\<in>set (lm_buckets l). 1 \<le> rb_count b \<and> rb_count b \<le> lm_limit l)"

lemma new_limiter_ok: "limiter_ok (new_claim_rate_limiter limit window entries)"
  by (simp add: limiter_ok_def new_claim_rate_limiter_def)

lemma oldest_bucket_Some: "oldest_bucket bs (Some x) \<noteq> None"
  by (induction bs "Some x" arbitrary: x rule: oldest_bucket.induct) (auto split: if_splits)

lemma oldest_bucket_in:
  "oldest_bucket bs best = Some (k, t) \<Longrightarrow> best = Some (k, t) \<or> k \<in> fst ` set bs"
proof (induction bs best rule: oldest_bucket.induct)
  case (2 k' b bs best)
  then show ?case by (fastforce split: option.splits if_splits)
qed simp

lemma set_delete: "set (delete_bucket k bs) \<subseteq> set bs"
  by (auto simp: delete_bucket_def)

lemma distinct_delete: "distinct (map fst bs) \<Longrightarrow> distinct (map fst (delete_bucket k bs))"
  unfolding delete_bucket_def by (rule distinct_map_filter)

lemma length_delete: "k \<in> fst ` set bs \<Longrightarrow> length (delete_bucket k bs) < length bs"
proof -
  assume "k \<in> fst ` set bs"
  then obtain x where "x \<in> set bs" "\<not> (case x of (k', _) \<Rightarrow> k' \<noteq> k)" by auto
  then show ?thesis unfolding delete_bucket_def by (rule length_filter_less)
qed

lemma evict_facts:
  assumes "distinct (map fst bs)"
  shows "distinct (map fst (evict_oldest bs))" and "set (evict_oldest bs) \<subseteq> set bs"
    and "bs \<noteq> [] \<Longrightarrow> length (evict_oldest bs) < length bs"
proof -
  show "distinct (map fst (evict_oldest bs))" and "set (evict_oldest bs) \<subseteq> set bs"
    using assms set_delete by (auto simp: evict_oldest_def distinct_delete split: option.splits)
  assume "bs \<noteq> []"
  then obtain k b bs' where "bs = (k, b) # bs'" by (cases bs) auto
  then obtain k' t where o: "oldest_bucket bs None = Some (k', t)"
    using oldest_bucket_Some [of bs' "(k, rb_started b)"] by auto
  then have "k' \<in> fst ` set bs" using oldest_bucket_in by fastforce
  then show "length (evict_oldest bs) < length bs"
    by (simp add: evict_oldest_def o length_delete)
qed

lemma keys_set_bucket: "fst ` set (set_bucket k b bs) = insert k (fst ` set bs)"
proof (induction bs)
  case (Cons x bs)
  then show ?case by (cases x; cases "fst x = k") auto
qed simp

lemma distinct_set_bucket:
  "distinct (map fst bs) \<Longrightarrow> distinct (map fst (set_bucket k b bs))"
proof (induction bs)
  case (Cons x bs)
  then show ?case using keys_set_bucket [of k b bs] by (cases x) auto
qed simp

lemma set_set_bucket: "set (set_bucket k b bs) \<subseteq> insert (k, b) (set bs)"
proof (induction bs)
  case (Cons x bs)
  then show ?case by (cases x; cases "fst x = k") auto
qed simp

lemma length_set_bucket:
  "length (set_bucket k b bs) = (if k \<in> fst ` set bs then length bs else Suc (length bs))"
proof (induction bs)
  case (Cons x bs)
  then show ?case by (cases x; cases "fst x = k") auto
qed simp

lemma map_of_set_bucket: "map_of (set_bucket k b bs) = (map_of bs)(k \<mapsto> b)"
  by (induction bs) (auto simp: fun_eq_iff)

lemma allow_ok:
  assumes "limiter_ok l" and "allow a t l = (r, l')"
  shows "limiter_ok l'" and "lm_limit l' = lm_limit l" and "lm_window l' = lm_window l"
    and "lm_entries l' = lm_entries l"
proof -
  define bs where "bs = live_buckets t l"
  have bs: "distinct (map fst bs)" "set bs \<subseteq> set (lm_buckets l)" "length bs \<le> length (lm_buckets l)"
    using assms(1) by (auto simp: bs_def live_buckets_def limiter_ok_def distinct_map_filter)
  have counts: "\<forall>(k, b)\<in>set bs. 1 \<le> rb_count b \<and> rb_count b \<le> lm_limit l"
    using assms(1) bs(2) by (auto simp: limiter_ok_def)
  have lim: "1 \<le> lm_limit l" "0 < lm_window l" "1 \<le> lm_entries l" "int (length bs) \<le> lm_entries l"
    using assms(1) bs(3) by (auto simp: limiter_ok_def)
  have "limiter_ok l' \<and> lm_limit l' = lm_limit l \<and> lm_window l' = lm_window l \<and>
      lm_entries l' = lm_entries l"
  proof (cases "map_of bs a")
    case None
    define kept where "kept = (if int (length bs) \<ge> lm_entries l then evict_oldest bs else bs)"
    have l': "l' = l\<lparr>lm_buckets := set_bucket a \<lparr>rb_started = t, rb_count = 1\<rparr> kept\<rparr>"
      using assms(2) None by (simp add: allow_def Let_def kept_def flip: bs_def)
    have k: "distinct (map fst kept)" "set kept \<subseteq> set bs"
      using evict_facts [OF bs(1)] bs(1) by (simp_all add: kept_def)
    have "int (Suc (length kept)) \<le> lm_entries l"
      using evict_facts(3) [OF bs(1)] lim by (cases "bs = []") (auto simp: kept_def)
    then have len: "int (length (set_bucket a \<lparr>rb_started = t, rb_count = 1\<rparr> kept)) \<le> lm_entries l"
      by (simp add: length_set_bucket)
    have "\<forall>(k, b)\<in>set (set_bucket a \<lparr>rb_started = t, rb_count = 1\<rparr> kept).
        1 \<le> rb_count b \<and> rb_count b \<le> lm_limit l"
      using set_set_bucket [of a "\<lparr>rb_started = t, rb_count = 1\<rparr>" kept] k(2) counts lim(1) by fastforce
    with len k(1) lim show ?thesis by (simp add: l' limiter_ok_def distinct_set_bucket)
  next
    case (Some b)
    then have b: "(a, b) \<in> set bs" by (rule map_of_SomeD)
    show ?thesis
    proof (cases "rb_count b \<ge> lm_limit l")
      case True
      then have "l' = l\<lparr>lm_buckets := bs\<rparr>"
        using assms(2) Some by (simp add: allow_def Let_def flip: bs_def)
      then show ?thesis using bs(1) counts lim by (simp add: limiter_ok_def)
    next
      case False
      let ?b = "b\<lparr>rb_count := rb_count b + 1\<rparr>"
      have l': "l' = l\<lparr>lm_buckets := set_bucket a ?b bs\<rparr>"
        using assms(2) Some False by (simp add: allow_def Let_def flip: bs_def)
      have "\<forall>(k, b)\<in>set (set_bucket a ?b bs). 1 \<le> rb_count b \<and> rb_count b \<le> lm_limit l"
        using set_set_bucket [of a ?b bs] b counts False by fastforce
      moreover have "a \<in> fst ` set bs" using b by force
      ultimately show ?thesis
        using bs(1) lim by (simp add: l' limiter_ok_def distinct_set_bucket length_set_bucket)
    qed
  qed
  then show "limiter_ok l'" and "lm_limit l' = lm_limit l" and "lm_window l' = lm_window l"
    and "lm_entries l' = lm_entries l" by blast+
qed

section \<open>Within one window\<close>

fun admitted :: "string \<Rightarrow> (string \<times> int) list \<Rightarrow> rate_limiter \<Rightarrow> int" where
  "admitted a [] l = 0"
| "admitted a ((x, t) # cs) l =
     (case allow x t l of (r, l') \<Rightarrow> (if r \<and> x = a then 1 else 0) + admitted a cs l')"

fun attempts :: "string \<Rightarrow> (string \<times> int) list \<Rightarrow> int" where
  "attempts a [] = 0"
| "attempts a ((x, t) # cs) = (if x = a then 1 else 0) + attempts a cs"

definition bucket_count :: "string \<Rightarrow> rate_limiter \<Rightarrow> int" where
  "bucket_count a l = (case map_of (lm_buckets l) a of None \<Rightarrow> 0 | Some b \<Rightarrow> rb_count b)"

text \<open>All buckets started in the window of length \<open>lm_window\<close> from \<open>t\<^sub>0\<close>.\<close>

definition in_window :: "int \<Rightarrow> rate_limiter \<Rightarrow> bool" where
  "in_window t0 l \<longleftrightarrow>
     (\<forall>(k, b)\<in>set (lm_buckets l). t0 \<le> rb_started b \<and> rb_started b < t0 + lm_window l)"

lemma live_in_window:
  "in_window t0 l \<Longrightarrow> t0 \<le> t \<Longrightarrow> t < t0 + lm_window l \<Longrightarrow> live_buckets t l = lm_buckets l"
  by (fastforce simp: live_buckets_def in_window_def intro!: filter_True)

text \<open>One call in the window: no bucket expires, and none is evicted while the addresses fit.\<close>

lemma allow_in_window:
  assumes l: "limiter_ok l" "in_window t0 l" and t: "t0 \<le> t" "t < t0 + lm_window l"
    and fits: "finite X" "fst ` set (lm_buckets l) \<subseteq> X" "x \<in> X" "int (card X) \<le> lm_entries l"
    and run: "allow x t l = (r, l')"
  shows "r \<longleftrightarrow> bucket_count x l < lm_limit l"
    and "bucket_count a l' = bucket_count a l + (if r \<and> a = x then 1 else 0)"
    and "in_window t0 l'" and "fst ` set (lm_buckets l') \<subseteq> X"
proof -
  have live: "live_buckets t l = lm_buckets l" by (rule live_in_window [OF l(2) t])
  have lim: "1 \<le> lm_limit l" "distinct (map fst (lm_buckets l))" using l(1) by (simp_all add: limiter_ok_def)
  have "(r \<longleftrightarrow> bucket_count x l < lm_limit l) \<and>
      bucket_count a l' = bucket_count a l + (if r \<and> a = x then 1 else 0) \<and>
      in_window t0 l' \<and> fst ` set (lm_buckets l') \<subseteq> X"
  proof (cases "map_of (lm_buckets l) x")
    case None
    then have "x \<notin> fst ` set (lm_buckets l)" by (simp add: map_of_eq_None_iff)
    then have "card (fst ` set (lm_buckets l)) < card X"
      using fits by (intro psubset_card_mono) auto
    moreover have "card (fst ` set (lm_buckets l)) = length (lm_buckets l)"
      using distinct_card [OF lim(2)] by simp
    ultimately have "\<not> int (length (lm_buckets l)) \<ge> lm_entries l" using fits(4) by simp
    then have "r" and l': "l' = l\<lparr>lm_buckets := set_bucket x \<lparr>rb_started = t, rb_count = 1\<rparr> (lm_buckets l)\<rparr>"
      using run None by (simp_all add: allow_def live)
    moreover have "in_window t0 l'"
      using l(2) t set_set_bucket [of x "\<lparr>rb_started = t, rb_count = 1\<rparr>" "lm_buckets l"]
      by (fastforce simp: in_window_def l')
    ultimately show ?thesis
      using None lim(1) fits(2,3) by (simp add: bucket_count_def map_of_set_bucket keys_set_bucket)
  next
    case (Some b)
    show ?thesis
    proof (cases "rb_count b \<ge> lm_limit l")
      case True
      then have "\<not> r" "l' = l" using run Some by (simp_all add: allow_def live)
      then show ?thesis using Some True l(2) fits(2) by (simp add: bucket_count_def)
    next
      case False
      let ?b = "b\<lparr>rb_count := rb_count b + 1\<rparr>"
      have "r" and l': "l' = l\<lparr>lm_buckets := set_bucket x ?b (lm_buckets l)\<rparr>"
        using run Some False by (simp_all add: allow_def live)
      moreover have "in_window t0 l'"
        using l(2) map_of_SomeD [OF Some] set_set_bucket [of x ?b "lm_buckets l"]
        by (fastforce simp: in_window_def l')
      ultimately show ?thesis
        using Some False fits(2,3) by (simp add: bucket_count_def map_of_set_bucket keys_set_bucket)
    qed
  qed
  then show "r \<longleftrightarrow> bucket_count x l < lm_limit l"
    and "bucket_count a l' = bucket_count a l + (if r \<and> a = x then 1 else 0)"
    and "in_window t0 l'" and "fst ` set (lm_buckets l') \<subseteq> X" by blast+
qed

lemma admitted_in_window:
  assumes "limiter_ok l" and "in_window t0 l"
    and "\<forall>(x, t)\<in>set cs. t0 \<le> t \<and> t < t0 + lm_window l"
    and "finite X" and "fst ` set (lm_buckets l) \<subseteq> X" and "fst ` set cs \<subseteq> X"
    and "int (card X) \<le> lm_entries l" and "bucket_count a l \<le> lm_limit l"
  shows "admitted a cs l = min (lm_limit l) (bucket_count a l + attempts a cs) - bucket_count a l"
  using assms
proof (induction cs arbitrary: l)
  case (Cons c cs)
  obtain x t where c: "c = (x, t)" by (cases c)
  obtain r l' where run: "allow x t l = (r, l')" by fastforce
  note step = allow_in_window [OF Cons.prems(1,2) _ _ Cons.prems(4,5) _ Cons.prems(7) run]
  note ok = allow_ok [OF Cons.prems(1) run]
  have t: "t0 \<le> t" "t < t0 + lm_window l" "x \<in> X" using Cons.prems(3,6) by (auto simp: c)
  have r: "r \<longleftrightarrow> bucket_count x l < lm_limit l" and w: "in_window t0 l'" "fst ` set (lm_buckets l') \<subseteq> X"
    using step [OF t] by blast+
  have n: "bucket_count a l' = bucket_count a l + (if r \<and> a = x then 1 else 0)"
    by (rule step [OF t])
  have "bucket_count a l' \<le> lm_limit l'" using n r Cons.prems(8) ok(2) by (auto split: if_splits)
  then have "admitted a cs l' =
      min (lm_limit l) (bucket_count a l' + attempts a cs) - bucket_count a l'"
    using Cons.IH [OF ok(1) w(1) _ Cons.prems(4) w(2)] Cons.prems(3,6,7) ok by (auto simp: c)
  moreover have "0 \<le> attempts a cs" by (induction cs) auto
  ultimately show ?case using n r Cons.prems(8) by (auto simp: c run)
qed simp

section \<open>Within any window\<close>

text \<open>What an address may still be granted before \<open>s\<close> + window: the rest of its bucket, and a whole
  bucket more when its bucket is older than \<open>s\<close>.\<close>

definition credit :: "int \<Rightarrow> string \<Rightarrow> rate_limiter \<Rightarrow> int" where
  "credit s a l =
     (case map_of (lm_buckets l) a of
        None \<Rightarrow> lm_limit l
      | Some b \<Rightarrow> lm_limit l - rb_count b + (if rb_started b < s then lm_limit l else 0))"

lemma map_of_filter_snd:
  "distinct (map fst bs) \<Longrightarrow> map_of (filter (\<lambda>(_, b). P b) bs) a =
     (case map_of bs a of None \<Rightarrow> None | Some b \<Rightarrow> if P b then Some b else None)"
proof (induction bs)
  case (Cons x bs)
  then show ?case
    by (cases x) (auto simp: map_of_eq_None_iff image_iff split: option.splits dest: map_of_SomeD)
qed simp

lemmas map_of_live = map_of_filter_snd [where P = "\<lambda>b. \<not> t - rb_started b \<ge> w" for t w]

lemma bucket_bounds:
  "limiter_ok l \<Longrightarrow> map_of (lm_buckets l) a = Some b \<Longrightarrow> 1 \<le> rb_count b \<and> rb_count b \<le> lm_limit l"
  by (fastforce simp: limiter_ok_def dest: map_of_SomeD)

lemma credit_bounds: "limiter_ok l \<Longrightarrow> 0 \<le> credit s a l \<and> credit s a l \<le> 2 * lm_limit l"
  by (fastforce simp: credit_def limiter_ok_def dest: map_of_SomeD split: option.splits)

lemma fits_not_full:
  assumes "distinct (map fst bs)" "fst ` set bs \<subseteq> X" "x \<in> X" "map_of bs x = None"
    and "finite X" "int (card X) \<le> n"
  shows "int (length bs) < n"
proof -
  have "card (fst ` set bs) < card X"
    using assms by (intro psubset_card_mono) (auto simp: map_of_eq_None_iff)
  then show ?thesis using assms(6) distinct_card [OF assms(1)] by simp
qed

lemma allow_credit:
  assumes l: "limiter_ok l" and t: "s \<le> t" "t < s + lm_window l"
    and fits: "finite X" "fst ` set (lm_buckets l) \<subseteq> X" "x \<in> X" "int (card X) \<le> lm_entries l"
    and run: "allow x t l = (r, l')"
  shows "credit s a l' + (if r \<and> x = a then 1 else 0) \<le> credit s a l"
    and "fst ` set (lm_buckets l') \<subseteq> X"
proof -
  define bs where "bs = live_buckets t l"
  have keys: "distinct (map fst (lm_buckets l))" and one: "1 \<le> lm_limit l"
    using l by (simp_all add: limiter_ok_def)
  have look: "map_of bs y = (case map_of (lm_buckets l) y of None \<Rightarrow> None
      | Some b \<Rightarrow> if \<not> t - rb_started b \<ge> lm_window l then Some b else None)" for y
    unfolding bs_def live_buckets_def by (rule map_of_live [OF keys])
  have sub: "distinct (map fst bs)" "fst ` set bs \<subseteq> X"
    using keys fits(2) by (auto simp: bs_def live_buckets_def distinct_map_filter)
  have "credit s a l' + (if r \<and> x = a then 1 else 0) \<le> credit s a l \<and> fst ` set (lm_buckets l') \<subseteq> X"
  proof (cases "map_of bs x")
    case None
    then have "int (length bs) < lm_entries l"
      using fits_not_full [OF sub fits(3) None fits(1,4)] by simp
    then have l': "r" "l' = l\<lparr>lm_buckets := set_bucket x \<lparr>rb_started = t, rb_count = 1\<rparr> bs\<rparr>"
      using run None by (simp_all add: allow_def Let_def flip: bs_def)
    have "credit s a l' + (if x = a then 1 else 0) \<le> credit s a l"
      using None t look [of a] bucket_bounds [OF l, of a] one
      by (auto simp: l' credit_def map_of_set_bucket split: option.splits if_splits)
    then show ?thesis using sub(2) fits(3) l' by (simp add: keys_set_bucket)
  next
    case (Some b)
    show ?thesis
    proof (cases "rb_count b \<ge> lm_limit l")
      case True
      then have "\<not> r" "l' = l\<lparr>lm_buckets := bs\<rparr>"
        using run Some by (simp_all add: allow_def Let_def flip: bs_def)
      then show ?thesis
        using sub t look [of a] bucket_bounds [OF l, of a]
        by (auto simp: credit_def split: option.splits if_splits)
    next
      case False
      then have l': "r" "l' = l\<lparr>lm_buckets := set_bucket x (b\<lparr>rb_count := rb_count b + 1\<rparr>) bs\<rparr>"
        using run Some by (simp_all add: allow_def Let_def flip: bs_def)
      have "credit s a l' + (if x = a then 1 else 0) \<le> credit s a l"
        using Some t look [of a] bucket_bounds [OF l, of a]
        by (auto simp: l' credit_def map_of_set_bucket split: option.splits if_splits)
      then show ?thesis using sub(2) fits(3) l' by (simp add: keys_set_bucket)
    qed
  qed
  then show "credit s a l' + (if r \<and> x = a then 1 else 0) \<le> credit s a l"
    and "fst ` set (lm_buckets l') \<subseteq> X" by blast+
qed

lemma admitted_credit:
  assumes "limiter_ok l" and "\<forall>(x, t)\<in>set cs. s \<le> t \<and> t < s + lm_window l"
    and "finite X" and "fst ` set (lm_buckets l) \<subseteq> X" and "fst ` set cs \<subseteq> X"
    and "int (card X) \<le> lm_entries l"
  shows "admitted a cs l \<le> credit s a l"
  using assms
proof (induction cs arbitrary: l)
  case Nil
  then show ?case using credit_bounds [of l s a] by simp
next
  case (Cons c cs)
  obtain x t where c: "c = (x, t)" by (cases c)
  obtain r l' where run: "allow x t l = (r, l')" by fastforce
  have t: "s \<le> t" "t < s + lm_window l" "x \<in> X" using Cons.prems(2,5) by (auto simp: c)
  note step = allow_credit [OF Cons.prems(1) t(1,2) Cons.prems(3,4) t(3) Cons.prems(6) run]
  note ok = allow_ok [OF Cons.prems(1) run]
  have "admitted a cs l' \<le> credit s a l'"
    using Cons.IH [OF ok(1) _ Cons.prems(3) step(2)] Cons.prems(2,5,6) ok by (auto simp: c)
  then show ?case using step(1) [of a] by (simp add: c run split: if_splits)
qed

text \<open>The limiter a sequence of calls leaves.\<close>

fun limiter_after :: "(string \<times> int) list \<Rightarrow> rate_limiter \<Rightarrow> rate_limiter" where
  "limiter_after [] l = l"
| "limiter_after ((x, t) # cs) l = limiter_after cs (snd (allow x t l))"

lemma limiter_after_ok:
  "limiter_ok l \<Longrightarrow> limiter_ok (limiter_after cs l) \<and> lm_limit (limiter_after cs l) = lm_limit l \<and>
     lm_window (limiter_after cs l) = lm_window l \<and> lm_entries (limiter_after cs l) = lm_entries l"
proof (induction cs arbitrary: l)
  case (Cons c cs)
  obtain x t where c: "c = (x, t)" by (cases c)
  obtain r l' where run: "allow x t l = (r, l')" by fastforce
  show ?case using Cons.IH [OF allow_ok(1) [OF Cons.prems run]] allow_ok [OF Cons.prems run]
    by (simp add: c run)
qed simp

text \<open>One call in full. Only the addresses whose window has not passed are remembered. Such an address
  is granted the call while it is below the limit and nothing is forgotten; another address is
  granted it and starts to count, and if the cap was reached one address with the earliest start is
  forgotten for it.\<close>

definition live_at :: "int \<Rightarrow> rate_limiter \<Rightarrow> (string \<times> rate_bucket) set" where
  "live_at t l = {(k, b) \<in> set (lm_buckets l). t < rb_started b + lm_window l}"

definition allow_contract :: "string \<Rightarrow> int \<Rightarrow> rate_limiter \<Rightarrow> bool \<Rightarrow> rate_limiter \<Rightarrow> bool" where
  "allow_contract x t l r l' \<longleftrightarrow>
     (let live = fst ` live_at t l; kept = fst ` set (lm_buckets l') in
      if x \<in> live then (r \<longleftrightarrow> bucket_count x l < lm_limit l) \<and> kept = live
      else r \<and> bucket_count x l' = 1 \<and>
        (if int (card live) < lm_entries l then kept = insert x live
         else \<exists>(k, b)\<in>live_at t l. (\<forall>(k', b')\<in>live_at t l. rb_started b \<le> rb_started b') \<and>
                kept = insert x (live - {k})))"

lemma oldest_bucket_min:
  "oldest_bucket bs best = Some (k, t) \<Longrightarrow>
     (best = Some (k, t) \<or> (\<exists>b. (k, b) \<in> set bs \<and> rb_started b = t)) \<and>
     (\<forall>(k', b')\<in>set bs. t \<le> rb_started b') \<and> (\<forall>k' t'. best = Some (k', t') \<longrightarrow> t \<le> t')"
proof (induction bs best rule: oldest_bucket.induct)
  case (2 k' b bs best)
  show ?case
  proof (cases best)
    case None
    with 2 show ?thesis by auto
  next
    case (Some x)
    obtain k1 t1 where x: "x = (k1, t1)" by (cases x)
    show ?thesis
    proof (cases "rb_started b < t1")
      case True
      with 2 show ?thesis by (auto simp: Some x)
    next
      case False
      with 2 show ?thesis by (auto simp: Some x)
    qed
  qed
qed simp

lemma evicted_oldest:
  assumes "bs \<noteq> []"
  shows "\<exists>(k, b)\<in>set bs. (\<forall>(k', b')\<in>set bs. rb_started b \<le> rb_started b') \<and>
    fst ` set (evict_oldest bs) = fst ` set bs - {k}"
proof -
  obtain k b bs' where bs: "bs = (k, b) # bs'" using assms by (cases bs) auto
  obtain k' t where o: "oldest_bucket bs None = Some (k', t)"
    using oldest_bucket_Some [of bs' "(k, rb_started b)"] by (auto simp: bs)
  obtain b' where b': "(k', b') \<in> set bs" "rb_started b' = t" "\<forall>(k, b)\<in>set bs. t \<le> rb_started b"
    using oldest_bucket_min [OF o] by auto
  have "fst ` set (evict_oldest bs) = fst ` set bs - {k'}"
    by (auto simp: evict_oldest_def o delete_bucket_def image_iff)
  with b' show ?thesis by (intro bexI [of _ "(k', b')"]) auto
qed

lemma allow_contract_holds:
  assumes l: "limiter_ok l" and run: "allow x t l = (r, l')"
  shows "allow_contract x t l r l'"
proof -
  define bs where "bs = live_buckets t l"
  have keys: "distinct (map fst (lm_buckets l))" and lim: "1 \<le> lm_limit l" "1 \<le> lm_entries l"
    using l by (simp_all add: limiter_ok_def)
  have live: "live_at t l = set bs" by (auto simp: live_at_def bs_def live_buckets_def)
  have d: "distinct (map fst bs)" using keys by (simp add: bs_def live_buckets_def distinct_map_filter)
  have card: "card (fst ` set bs) = length bs" using distinct_card [OF d] by simp
  show ?thesis
  proof (cases "map_of bs x")
    case None
    then have x: "x \<notin> fst ` set bs" by (simp add: map_of_eq_None_iff)
    let ?kept = "if int (length bs) \<ge> lm_entries l then evict_oldest bs else bs"
    have r: "r" and l': "l' = l\<lparr>lm_buckets := set_bucket x \<lparr>rb_started = t, rb_count = 1\<rparr> ?kept\<rparr>"
      using run None by (simp_all add: allow_def Let_def flip: bs_def)
    have count: "bucket_count x l' = 1" by (simp add: l' bucket_count_def map_of_set_bucket)
    have kept: "fst ` set (lm_buckets l') = insert x (fst ` set ?kept)" by (simp add: l' keys_set_bucket)
    show ?thesis
    proof (cases "int (length bs) < lm_entries l")
      case True
      then show ?thesis using r count kept x card by (simp add: allow_contract_def live Let_def)
    next
      case False
      then have "bs \<noteq> []" using lim by auto
      then obtain y where "y \<in> set bs" and "case y of (k, b) \<Rightarrow>
          (\<forall>(k', b')\<in>set bs. rb_started b \<le> rb_started b') \<and> fst ` set (evict_oldest bs) = fst ` set bs - {k}"
        by (rule evicted_oldest [THEN bexE])
      then have "\<exists>(k, b)\<in>set bs. (\<forall>(k', b')\<in>set bs. rb_started b \<le> rb_started b') \<and>
          fst ` set (lm_buckets l') = insert x (fst ` set bs - {k})"
        using False by (intro bexI [of _ y]) (simp_all add: kept case_prod_beta)
      then show ?thesis using r count x card False by (simp add: allow_contract_def live Let_def)
    qed
  next
    case (Some b)
    then have b: "(x, b) \<in> set bs" by (rule map_of_SomeD)
    then have x: "x \<in> fst ` set bs" and "(x, b) \<in> set (lm_buckets l)"
      by (force, simp add: bs_def live_buckets_def)
    then have count: "bucket_count x l = rb_count b" using keys by (simp add: bucket_count_def)
    have "(r \<longleftrightarrow> rb_count b < lm_limit l) \<and> fst ` set (lm_buckets l') = fst ` set bs"
    proof (cases "rb_count b \<ge> lm_limit l")
      case True
      then show ?thesis using run Some by (auto simp: allow_def Let_def simp flip: bs_def)
    next
      case False
      then have "r" and l': "l' = l\<lparr>lm_buckets := set_bucket x (b\<lparr>rb_count := rb_count b + 1\<rparr>) bs\<rparr>"
        using run Some by (simp_all add: allow_def Let_def flip: bs_def)
      then show ?thesis using False x by (simp add: keys_set_bucket insert_absorb)
    qed
    then show ?thesis using x count by (simp add: allow_contract_def live Let_def)
  qed
qed



end
