(* ===== verification/Csv.thy ===== *)
theory Csv
  imports GoStrings
begin

text \<open>
  The CSV exports of \<^verbatim>\<open>httpapi/operations.go\<close>: the cells made safe for spreadsheets, and the
  records as \<^verbatim>\<open>encoding/csv\<close> writes them (comma, line feed, quotes where needed). A reader of
  the format is defined beside the writer; what is written reads back.
\<close>

section \<open>Safe cells\<close>

definition blank_char :: "char \<Rightarrow> bool" where
  "blank_char c = (c = CHR '' '' \<or> c = CHR 0x09 \<or> c = CHR 0x0D \<or> c = CHR 0x0A)"

definition formula_char :: "char \<Rightarrow> bool" where
  "formula_char c = (c = CHR ''='' \<or> c = CHR ''+'' \<or> c = CHR ''-'' \<or> c = CHR ''@'')"

definition spreadsheet_safe_cell :: "string \<Rightarrow> string" where
  "spreadsheet_safe_cell v =
     (let trimmed = dropWhile blank_char v
      in if v = [] \<or> trimmed = [] then v
         else if formula_char (hd trimmed) \<or> hd v = CHR 0x09 \<or> hd v = CHR 0x0D \<or> hd v = CHR 0x0A
         then CHR 0x27 # v
         else v)"

definition spreadsheet_safe_record :: "string list \<Rightarrow> string list" where
  "spreadsheet_safe_record r = map spreadsheet_safe_cell r"

text \<open>What a spreadsheet would evaluate: a formula character behind blanks.\<close>

definition evaluated :: "string \<Rightarrow> bool" where
  "evaluated v = (dropWhile blank_char v \<noteq> [] \<and> formula_char (hd (dropWhile blank_char v)))"

lemma safe_cell_not_evaluated: "\<not> evaluated (spreadsheet_safe_cell v)"
  by (auto simp: evaluated_def spreadsheet_safe_cell_def Let_def blank_char_def [of "CHR 0x27"]
      formula_char_def [of "CHR 0x27"])

text \<open>A cell keeps its text, possibly behind a quote.\<close>

lemma safe_cell_text:
  "spreadsheet_safe_cell v = v \<or> spreadsheet_safe_cell v = CHR 0x27 # v"
  by (simp add: spreadsheet_safe_cell_def Let_def)

section \<open>The writer\<close>

abbreviation quote :: char where "quote \<equiv> CHR 0x22"
abbreviation comma :: char where "comma \<equiv> CHR '',''"
abbreviation newline :: char where "newline \<equiv> CHR 0x0A"

definition field_needs_quotes :: "string \<Rightarrow> bool" where
  "field_needs_quotes f =
     (if f = [] then False
      else if f = [CHR 0x5C, CHR ''.''] then True
      else comma \<in> set f \<or> quote \<in> set f \<or> CHR 0x0D \<in> set f \<or> newline \<in> set f \<or>
        strip_first space_runes f \<noteq> None)"

fun escape_quotes :: "string \<Rightarrow> string" where
  "escape_quotes [] = []"
| "escape_quotes (c # s) = (if c = quote then [quote, quote] else [c]) @ escape_quotes s"

definition csv_field :: "string \<Rightarrow> string" where
  "csv_field f = (if field_needs_quotes f then quote # escape_quotes f @ [quote] else f)"

fun csv_record :: "string list \<Rightarrow> string" where
  "csv_record [] = [newline]"
| "csv_record [f] = csv_field f @ [newline]"
| "csv_record (f # fs) = csv_field f @ comma # csv_record fs"

definition csv_text :: "string list list \<Rightarrow> string" where
  "csv_text rs = concat (map csv_record rs)"

section \<open>A reader\<close>

text \<open>The rest of a quoted field after its opening quote.\<close>

fun read_quoted :: "string \<Rightarrow> (string \<times> string) option" where
  "read_quoted [] = None"
| "read_quoted (c # s) =
     (if c \<noteq> quote then map_option (\<lambda>(f, r). (c # f, r)) (read_quoted s)
      else (case s of
          d # t \<Rightarrow> if d = quote then map_option (\<lambda>(f, r). (quote # f, r)) (read_quoted t) else Some ([], s)
        | [] \<Rightarrow> Some ([], [])))"

definition read_field :: "string \<Rightarrow> (string \<times> string) option" where
  "read_field s =
     (case s of
        c # t \<Rightarrow> if c = quote then read_quoted t
          else Some (takeWhile (\<lambda>x. x \<noteq> comma \<and> x \<noteq> newline) s, dropWhile (\<lambda>x. x \<noteq> comma \<and> x \<noteq> newline) s)
      | [] \<Rightarrow> Some ([], []))"

lemma read_quoted_shorter: "read_quoted s = Some (f, r) \<Longrightarrow> length r < length s"
  by (induction s arbitrary: f r rule: read_quoted.induct)
     (fastforce split: if_splits list.splits option.splits)+

lemma read_field_le: "read_field s = Some (f, r) \<Longrightarrow> length r \<le> length s"
  by (auto simp: read_field_def dest!: read_quoted_shorter split: list.splits if_splits
      intro: le_SucI length_dropWhile_le)

function read_record :: "string \<Rightarrow> (string list \<times> string) option" where
  "read_record s =
     (case read_field s of
        Some (f, c # r) \<Rightarrow>
          if c = comma then map_option (\<lambda>(fs, t). (f # fs, t)) (read_record r)
          else if c = newline then Some ([f], r) else None
      | _ \<Rightarrow> None)"
  by pat_completeness auto
termination
  by (relation "measure length") (auto dest!: read_field_le)

declare read_record.simps [simp del]

lemma read_record_shorter: "read_record s = Some (fs, r) \<Longrightarrow> length r < length s"
proof (induction s arbitrary: fs r rule: read_record.induct)
  case (1 s)
  obtain f c t where f: "read_field s = Some (f, c # t)"
    using "1.prems" by (auto simp: read_record.simps [of s] split: option.splits list.splits)
  have t: "length t < length s" using read_field_le [OF f] by simp
  show ?case
  proof (cases "c = comma")
    case True
    then obtain gs where "read_record t = Some (gs, r)"
      using "1.prems" f by (auto simp: read_record.simps [of s])
    then have "length r < length t" using "1.IH" [OF f] True by blast
    with t show ?thesis by simp
  next
    case False
    then show ?thesis using "1.prems" f t by (auto simp: read_record.simps [of s] split: if_splits)
  qed
qed

function read_csv :: "string \<Rightarrow> string list list option" where
  "read_csv s =
     (if s = [] then Some []
      else (case read_record s of
          Some (r, t) \<Rightarrow> map_option ((#) r) (read_csv t)
        | None \<Rightarrow> None))"
  by pat_completeness auto
termination
  by (relation "measure length") (auto dest!: read_record_shorter)

declare read_csv.simps [simp del]

section \<open>What is written reads back\<close>

lemma read_quoted_escaped:
  "t = [] \<or> hd t \<noteq> quote \<Longrightarrow> read_quoted (escape_quotes f @ quote # t) = Some (f, t)"
  by (induction f) (auto split: list.splits)

lemma read_csv_field:
  assumes "c = comma \<or> c = newline"
  shows "read_field (csv_field f @ c # t) = Some (f, c # t)"
proof (cases "field_needs_quotes f")
  case True
  have "read_quoted (escape_quotes f @ quote # c # t) = Some (f, c # t)"
    using assms by (intro read_quoted_escaped) auto
  with True show ?thesis by (simp add: csv_field_def read_field_def)
next
  case False
  then have plain: "comma \<notin> set f" "newline \<notin> set f" "quote \<notin> set f"
    by (auto simp: field_needs_quotes_def split: if_splits)
  then have "takeWhile (\<lambda>x. x \<noteq> comma \<and> x \<noteq> newline) (f @ c # t) = f"
    "dropWhile (\<lambda>x. x \<noteq> comma \<and> x \<noteq> newline) (f @ c # t) = c # t"
    using assms by (auto simp: takeWhile_append dropWhile_append)
  moreover have "hd (f @ c # t) \<noteq> quote" using plain assms by (cases f) auto
  ultimately show ?thesis using False
    by (cases f) (auto simp: csv_field_def read_field_def)
qed

lemma read_csv_record: "fs \<noteq> [] \<Longrightarrow> read_record (csv_record fs @ t) = Some (fs, t)"
proof (induction fs rule: csv_record.induct)
  case (2 f)
  then show ?case using read_csv_field [of newline f t] by (simp add: read_record.simps)
next
  case (3 f g fs)
  then show ?case
    using read_csv_field [of comma f "csv_record (g # fs) @ t"] by (simp add: read_record.simps)
qed simp

lemma csv_record_nonempty: "csv_record fs \<noteq> []"
  by (cases fs rule: csv_record.cases) auto

lemma read_csv_text: "\<forall>r\<in>set rs. r \<noteq> [] \<Longrightarrow> read_csv (csv_text rs) = Some rs"
proof (induction rs)
  case Nil
  then show ?case by (simp add: csv_text_def read_csv.simps)
next
  case (Cons r rs)
  then have "read_record (csv_text (r # rs)) = Some (r, csv_text rs)"
    by (simp add: csv_text_def read_csv_record)
  moreover have "csv_text (r # rs) \<noteq> []" by (simp add: csv_text_def csv_record_nonempty)
  ultimately show ?case using Cons by (subst read_csv.simps) simp
qed

end
