(* ===== verification/Http.thy ===== *)
theory Http
  imports Auth Resumes Reviews StaffPasses Operations RateLimit Csv
begin

text \<open>
  The transport of package \<^verbatim>\<open>httpapi\<close>: requests, responses and the values they carry, the
  strict decoding of JSON bodies, the runtime dependencies and the authentication every
  protected handler starts with (\<^verbatim>\<open>requireRole\<close>, \<^verbatim>\<open>requireApplicant\<close>). A handler maps a
  request and the state to a response and the state it leaves.
\<close>

section \<open>Responses\<close>

record build_info =
  bi_version :: string
  bi_sha :: string
  bi_built :: string
  bi_environment :: string

record me_view =
  me_id :: string
  me_email :: string
  me_name :: "string option"
  me_roles :: "role list"

text \<open>What \<^verbatim>\<open>writeJSON\<close> is given to encode.\<close>

datatype json_value =
    VService string string
  | VHealth string
  | VBuild build_info
  | VMe me_view
  | VForm form_view
  | VApplication application_view
  | VApplications "application_view list"
  | VResume resume_metadata
  | VDecision decision_view
  | VApplicantDecision "string \<times> outcome \<times> timestamp"
  | VRsvp rsvp_response
  | VOrganizerApplications "(staff_application \<times> rsvp_response option) list"
  | VOrganizerApplication staff_application "rsvp_response option" "decision_view option"
      "(string \<times> pass_view option) option"
  | VAssignment string string
  | VReviewerApplications "reviewer_application list"
  | VReviewerApplication reviewer_application
  | VScannerUser scanner_access_user
  | VVolunteer "volunteer_request option" bool
  | VVolunteers "volunteer_request list"
  | VIssuance issuance
  | VPass pass_view
  | VWebPass "pass_view \<times> string"
  | VClaimPass "string \<times> string \<times> pass_status \<times> timestamp"
  | VStaffPass staff_pass_view
  | VActivities "activity_view list"
  | VActivity activity_view
  | VCheckpoints "checkpoint_view list"
  | VCheckpoint checkpoint_view
  | VSummary "string \<times> string \<times> int"
  | VEntitlement "entitlement_view option"
  | VOverride entitlement_view
  | VCounts "checkpoint_count list"
  | VRedemptions "redemption_report list"
  | VScannerCheckpoints "(string \<times> string) list"
  | VLookup "string \<times> pass_status \<times> staff_kind option"
  | VScan scan_result

datatype body =
    EmptyBody
  | ErrorBody string string "int option"
  | JsonBody json_value
  | RawBody bytes

record response =
  hs_status :: int
  hs_headers :: "(string \<times> string) list"
  hs_body :: body

definition write_json :: "int \<Rightarrow> json_value \<Rightarrow> response" where
  "write_json status v =
     \<lparr>hs_status = status, hs_headers = [(''Content-Type'', ''application/json'')],
      hs_body = JsonBody v\<rparr>"

definition write_error_details :: "int \<Rightarrow> string \<Rightarrow> string \<Rightarrow> int option \<Rightarrow> response" where
  "write_error_details status code message lock =
     \<lparr>hs_status = status, hs_headers = [(''Content-Type'', ''application/json'')],
      hs_body = ErrorBody code message lock\<rparr>"

definition write_error :: "int \<Rightarrow> string \<Rightarrow> string \<Rightarrow> response" where
  "write_error status code message = write_error_details status code message None"

definition no_content :: response where
  "no_content = \<lparr>hs_status = 204, hs_headers = [], hs_body = EmptyBody\<rparr>"

definition not_ready :: response where
  "not_ready = write_error 503 ''dependency_unavailable'' ''The API is not ready.''"

definition internal_error :: response where
  "internal_error = write_error 500 ''internal_error'' ''An unexpected error occurred.''"

definition invalid_body :: response where
  "invalid_body = write_error 400 ''invalid_request'' ''The request body is invalid.''"

lemmas response_defs = write_json_def write_error_def write_error_details_def no_content_def
  not_ready_def internal_error_def invalid_body_def

section \<open>Requests\<close>

text \<open>The path arrives as its decoded segments, a query as its values per name, the body as the
  bytes that could be read. \<open>hr_path\<close> holds the values the router bound.\<close>

record request =
  hr_method :: string
  hr_segments :: "string list"
  hr_path :: "(string \<times> string) list"
  hr_auth :: "string list"
  hr_header :: "string \<Rightarrow> string"
  hr_query :: "(string \<times> string list) list"
  hr_remote :: string
  hr_body :: "bytes option"

definition path_value :: "request \<Rightarrow> string \<Rightarrow> string" where
  "path_value r name = (case map_of (hr_path r) name of None \<Rightarrow> [] | Some v \<Rightarrow> v)"

text \<open>\<^verbatim>\<open>URL.Query().Get\<close>: the first value, or the empty string.\<close>

definition query_value :: "request \<Rightarrow> string \<Rightarrow> string" where
  "query_value r name =
     (case map_of (hr_query r) name of Some (v # _) \<Rightarrow> v | _ \<Rightarrow> [])"

subsection \<open>JSON bodies\<close>

text \<open>Field names match under simple case folding; the long s and the Kelvin sign are the runes
  outside ASCII that fold into it.\<close>

fun fold_name :: "string \<Rightarrow> string" where
  "fold_name (a # b # c # s) =
     (if a = CHR 0xE2 \<and> b = CHR 0x84 \<and> c = CHR 0xAA then CHR ''k'' # fold_name s
      else if a = CHR 0xC5 \<and> b = CHR 0xBF then CHR ''s'' # fold_name (c # s)
      else ascii_lower a # fold_name (b # c # s))"
| "fold_name [a, b] =
     (if a = CHR 0xC5 \<and> b = CHR 0xBF then [CHR ''s''] else [ascii_lower a, ascii_lower b])"
| "fold_name [a] = [ascii_lower a]"
| "fold_name [] = []"

type_synonym 'r field = "string \<times> (json \<Rightarrow> 'r \<Rightarrow> 'r option)"

fun decode_fields :: "'r field list \<Rightarrow> (string \<times> json) list \<Rightarrow> 'r \<Rightarrow> 'r option" where
  "decode_fields fs [] r = Some r"
| "decode_fields fs ((k, v) # kvs) r =
     (case List.find (\<lambda>(n, _). fold_name n = fold_name k) fs of
        None \<Rightarrow> None
      | Some (_, set_field) \<Rightarrow>
          (case set_field v r of None \<Rightarrow> None | Some r' \<Rightarrow> decode_fields fs kvs r'))"

text \<open>A decoder with \<^verbatim>\<open>DisallowUnknownFields\<close>; null leaves a struct as it is.\<close>

definition decode_struct :: "'r field list \<Rightarrow> 'r \<Rightarrow> json \<Rightarrow> 'r option" where
  "decode_struct fs r j =
     (case j of JNull \<Rightarrow> Some r | JObject kvs \<Rightarrow> decode_fields fs kvs r | _ \<Rightarrow> None)"

text \<open>The fields the requests have: pointers, which null clears, strings, which null leaves, and
  raw messages.\<close>

definition parse_int_in :: "int \<Rightarrow> int \<Rightarrow> string \<Rightarrow> int option" where
  "parse_int_in lo hi s =
     (case (case s of [] \<Rightarrow> None
            | c # cs \<Rightarrow> if c = CHR ''-'' then (if cs = [] then None else map_option uminus (parse_digits 0 cs))
                       else parse_digits 0 s) of
        None \<Rightarrow> None | Some n \<Rightarrow> if lo \<le> n \<and> n < hi then Some n else None)"

definition string_field :: "((string \<Rightarrow> string) \<Rightarrow> 'r \<Rightarrow> 'r) \<Rightarrow> json \<Rightarrow> 'r \<Rightarrow> 'r option" where
  "string_field upd j r =
     (case j of JString s \<Rightarrow> Some (upd (\<lambda>_. s) r) | JNull \<Rightarrow> Some r | _ \<Rightarrow> None)"

definition string_pointer ::
    "((string option \<Rightarrow> string option) \<Rightarrow> 'r \<Rightarrow> 'r) \<Rightarrow> json \<Rightarrow> 'r \<Rightarrow> 'r option" where
  "string_pointer upd j r =
     (case j of JString s \<Rightarrow> Some (upd (\<lambda>_. Some s) r) | JNull \<Rightarrow> Some (upd (\<lambda>_. None) r) | _ \<Rightarrow> None)"

definition bool_pointer ::
    "((bool option \<Rightarrow> bool option) \<Rightarrow> 'r \<Rightarrow> 'r) \<Rightarrow> json \<Rightarrow> 'r \<Rightarrow> 'r option" where
  "bool_pointer upd j r =
     (case j of JBool b \<Rightarrow> Some (upd (\<lambda>_. Some b) r) | JNull \<Rightarrow> Some (upd (\<lambda>_. None) r) | _ \<Rightarrow> None)"

definition int_pointer ::
    "int \<Rightarrow> ((int option \<Rightarrow> int option) \<Rightarrow> 'r \<Rightarrow> 'r) \<Rightarrow> json \<Rightarrow> 'r \<Rightarrow> 'r option" where
  "int_pointer bound upd j r =
     (case j of
        JNumber t \<Rightarrow> map_option (\<lambda>n. upd (\<lambda>_. Some n) r) (parse_int_in (- bound) bound t)
      | JNull \<Rightarrow> Some (upd (\<lambda>_. None) r)
      | _ \<Rightarrow> None)"

definition raw_field ::
    "((json option \<Rightarrow> json option) \<Rightarrow> 'r \<Rightarrow> 'r) \<Rightarrow> json \<Rightarrow> 'r \<Rightarrow> 'r option" where
  "raw_field upd j r = Some (upd (\<lambda>_. Some j) r)"

abbreviation int32_pointer where "int32_pointer \<equiv> int_pointer (2 ^ 31)"
abbreviation int64_pointer where "int64_pointer \<equiv> int_pointer (2 ^ 63)"

section \<open>The state and the dependencies\<close>

record 's api_state =
  as_db :: db
  as_store :: 's
  as_limiter :: rate_limiter

text \<open>
  The dependencies as one request finds them; \<open>None\<close> or \<open>False\<close> is Go's nil. The environment
  of the sign-in is apart from the one of the operation, since each draws its own ids. The rest
  are the functions the services are parameterised by, and the standard library's JSON, time and
  address parsers.
\<close>

record 's deps =
  dp_build :: build_info
  dp_ready :: "bool option"
  dp_verifier :: "verifier option"
  dp_users :: "profile_source option"
  dp_staff_roles :: "profile_source option"
  dp_volunteers :: "(string \<Rightarrow> string) option"
  dp_applications :: bool
  dp_reviews :: "text_functions option"
  dp_decisions :: bool
  dp_rsvps :: bool
  dp_passes :: "pass_service option"
  dp_staff_passes :: "(pass_service \<times> (string \<Rightarrow> string)) option"
  dp_checkpoints :: "(string \<Rightarrow> nat) option"
  dp_redemptions :: "((string \<Rightarrow> bytes \<times> bool) option \<times>
     (env \<Rightarrow> bytes \<Rightarrow> (db, pass_error, string \<times> staff_kind) tx) option) option"
  dp_operations :: "(string \<Rightarrow> nat) option"
  dp_resumes :: "('s put_object \<times> 's get_object) option"
  dp_origins :: "string list"
  dp_sign_in :: env
  dp_env :: env
  dp_draws :: draws
  dp_entropy :: "nat \<Rightarrow> bytes"
  dp_nanos :: int
  dp_parse_json :: "bytes \<Rightarrow> json option"
  dp_parse_time :: "string \<Rightarrow> go_time option"
  dp_format_time :: "timestamp \<Rightarrow> string"
  dp_split_host :: "string \<Rightarrow> string option"
  dp_parse_ip :: "string \<Rightarrow> string option"
  dp_trusted :: "string \<Rightarrow> bool"

type_synonym 's handler = "request \<Rightarrow> 's api_state \<Rightarrow> response \<times> 's api_state"

definition reply :: "response \<Rightarrow> 's handler" where
  "reply r req st = (r, st)"

text \<open>A service call on the database.\<close>

definition on_db :: "(db, 'e, 'a) tx \<Rightarrow> 's api_state \<Rightarrow> ('e + 'a) \<times> 's api_state" where
  "on_db run st = (case run (as_db st) of (r, d) \<Rightarrow> (r, st\<lparr>as_db := d\<rparr>))"

definition on_db_store ::
    "(db \<times> 's, 'e, 'a) tx \<Rightarrow> 's api_state \<Rightarrow> ('e + 'a) \<times> 's api_state" where
  "on_db_store run st =
     (case run (as_db st, as_store st) of (r, d, s) \<Rightarrow> (r, st\<lparr>as_db := d, as_store := s\<rparr>))"

text \<open>The answer to a call: an error through its table, a value through its writer.\<close>

definition answer ::
    "('e \<Rightarrow> response) \<Rightarrow> ('a \<Rightarrow> response) \<Rightarrow> ('e + 'a) \<times> 's api_state \<Rightarrow> response \<times> 's api_state" where
  "answer on_error on_value rs =
     (case rs of (Inl err, st) \<Rightarrow> (on_error err, st) | (Inr v, st) \<Rightarrow> (on_value v, st))"

definition max_json_request_bytes :: int where
  "max_json_request_bytes = 1048576"

definition decode_intake_json :: "'s deps \<Rightarrow> 'r field list \<Rightarrow> 'r \<Rightarrow> request \<Rightarrow> 'r option" where
  "decode_intake_json dp fs r req =
     (case hr_body req of None \<Rightarrow> None
      | Some b \<Rightarrow>
          if int (length b) > max_json_request_bytes then None
          else (case dp_parse_json dp b of None \<Rightarrow> None | Some j \<Rightarrow> decode_struct fs r j))"

section \<open>Authentication\<close>

definition unauthenticated :: response where
  "unauthenticated = write_error 401 ''unauthenticated'' ''Authentication is required.''"

definition identity_unavailable :: response where
  "identity_unavailable = write_error 503 ''identity_unavailable''
     ''Identity information is temporarily unavailable.''"

definition verify_token :: "'s deps \<Rightarrow> verifier" where
  "verify_token dp = (case dp_verifier dp of None \<Rightarrow> rejecting_verifier | Some v \<Rightarrow> v)"

text \<open>The subject the request proves.\<close>

definition principal :: "'s deps \<Rightarrow> request \<Rightarrow> string option" where
  "principal dp req = Option.bind (bearer_token (hr_auth req)) (verify_token dp)"

definition sign_in ::
    "'s deps \<Rightarrow> profile_source \<Rightarrow> string \<Rightarrow> 's api_state \<Rightarrow> (user_error + user) \<times> 's api_state" where
  "sign_in dp profiles subject = on_db (resolve (dp_sign_in dp) profiles subject)"

definition role_refusal :: "role \<Rightarrow> response" where
  "role_refusal r =
     (case r of
        RoleApplicant \<Rightarrow> write_error 403 ''not_applicant'' ''Applicant access is required.''
      | RoleScanner \<Rightarrow> write_error 403 ''not_scanner'' ''Scanner access is required.''
      | _ \<Rightarrow> write_error 403 ''not_admin'' ''Admin access is required.'')"

definition require_role ::
    "'s deps \<Rightarrow> role \<Rightarrow> request \<Rightarrow> 's api_state \<Rightarrow> (response + user) \<times> 's api_state" where
  "require_role dp r req st =
     (case principal dp req of
        None \<Rightarrow> (Inl unauthenticated, st)
      | Some subject \<Rightarrow>
          (case dp_users dp of
             None \<Rightarrow> (Inl identity_unavailable, st)
           | Some profiles \<Rightarrow>
               (case sign_in dp profiles subject st of
                  (Inl _, st') \<Rightarrow> (Inl identity_unavailable, st')
                | (Inr actor, st') \<Rightarrow>
                    (if has_role actor r then Inr actor else Inl (role_refusal r), st'))))"

text \<open>\<^verbatim>\<open>user, ok := requireRole(...)\<close> with its early return.\<close>

definition with_role :: "'s deps \<Rightarrow> role \<Rightarrow> (user \<Rightarrow> 's handler) \<Rightarrow> 's handler" where
  "with_role dp r k req st =
     (case require_role dp r req st of
        (Inl refused, st') \<Rightarrow> (refused, st')
      | (Inr actor, st') \<Rightarrow> k actor req st')"

text \<open>\<^verbatim>\<open>requireApplicant\<close> repeats the steps and hands on the id and the e-mail only.\<close>

definition with_applicant :: "'s deps \<Rightarrow> (applicant \<Rightarrow> 's handler) \<Rightarrow> 's handler" where
  "with_applicant dp k =
     with_role dp RoleApplicant (\<lambda>u. k \<lparr>apl_id = user_id u, apl_email = user_email u\<rparr>)"

text \<open>A dependency that may be missing.\<close>

definition with_dependency :: "response \<Rightarrow> 'a option \<Rightarrow> ('a \<Rightarrow> 's handler) \<Rightarrow> 's handler" where
  "with_dependency missing dep k = (case dep of None \<Rightarrow> reply missing | Some x \<Rightarrow> k x)"

definition present :: "bool \<Rightarrow> unit option" where
  "present b = (if b then Some () else None)"

text \<open>A body that decodes to a value \<open>ok\<close>.\<close>

definition with_body ::
    "'s deps \<Rightarrow> 'r field list \<Rightarrow> 'r \<Rightarrow> response \<Rightarrow> ('r \<Rightarrow> 's handler) \<Rightarrow> 's handler" where
  "with_body dp fs r refused k req =
     (case decode_intake_json dp fs r req of None \<Rightarrow> reply refused req | Some v \<Rightarrow> k v req)"

definition me_handler :: "'s deps \<Rightarrow> 's handler" where
  "me_handler dp req st =
     (case dp_users dp of
        None \<Rightarrow> (not_ready, st)
      | Some profiles \<Rightarrow>
          (case principal dp req of
             None \<Rightarrow> (unauthenticated, st)
           | Some subject \<Rightarrow>
               answer (\<lambda>_. identity_unavailable)
                 (\<lambda>u. write_json 200 (VMe \<lparr>me_id = user_id u, me_email = user_email u,
                     me_name = user_name u,
                     me_roles = filter (\<lambda>r. r \<in> user_role_set u) [RoleApplicant, RoleAdmin, RoleScanner]\<rparr>))
                 (sign_in dp profiles subject st)))"

definition ready_handler :: "'s deps \<Rightarrow> 's handler" where
  "ready_handler dp =
     reply (if dp_ready dp = Some True then write_json 200 (VHealth ''ready'') else not_ready)"

section \<open>What a guard lets through\<close>

text \<open>The effect of the sign-in alone.\<close>

definition signed_in :: "'s deps \<Rightarrow> request \<Rightarrow> 's api_state \<Rightarrow> 's api_state" where
  "signed_in dp req st =
     (case (principal dp req, dp_users dp) of
        (Some subject, Some profiles) \<Rightarrow> snd (sign_in dp profiles subject st)
      | _ \<Rightarrow> st)"

text \<open>The caller that signs in, if one does.\<close>

definition caller :: "'s deps \<Rightarrow> request \<Rightarrow> 's api_state \<Rightarrow> user option" where
  "caller dp req st =
     (case (principal dp req, dp_users dp) of
        (Some subject, Some profiles) \<Rightarrow>
          (case fst (sign_in dp profiles subject st) of Inl _ \<Rightarrow> None | Inr u \<Rightarrow> Some u)
      | _ \<Rightarrow> None)"

lemma require_role_cases:
  "require_role dp r req st =
     ((case caller dp req st of
         Some u \<Rightarrow> if has_role u r then Inr u else Inl (role_refusal r)
       | None \<Rightarrow> Inl (if principal dp req = None then unauthenticated else identity_unavailable)),
      signed_in dp req st)"
  by (auto simp: require_role_def caller_def signed_in_def split: option.splits sum.splits prod.splits)

lemma with_role_refused:
  assumes "case caller dp req st of None \<Rightarrow> True | Some u \<Rightarrow> \<not> has_role u r"
  shows "with_role dp r k req st =
    ((case caller dp req st of
        Some u \<Rightarrow> role_refusal r
      | None \<Rightarrow> if principal dp req = None then unauthenticated else identity_unavailable),
     signed_in dp req st)"
  using assms by (auto simp: with_role_def require_role_cases split: option.splits)

lemma with_role_admitted:
  "caller dp req st = Some u \<Longrightarrow> has_role u r \<Longrightarrow>
     with_role dp r k req st = k u req (signed_in dp req st)"
  by (simp add: with_role_def require_role_cases)

lemma signed_in_frame [simp]:
  "as_store (signed_in dp req st) = as_store st" "as_limiter (signed_in dp req st) = as_limiter st"
  by (auto simp: signed_in_def sign_in_def on_db_def split: option.splits prod.splits)

lemma signed_in_none: "principal dp req = None \<Longrightarrow> signed_in dp req st = st"
  by (simp add: signed_in_def)

end
