(* ===== verification/HttpIntake.thy ===== *)
theory HttpIntake
  imports Http
begin

text \<open>
  The handlers of the applicants' side and of the staff's work on applications:
  \<^verbatim>\<open>httpapi/applications.go\<close>, \<^verbatim>\<open>resumes.go\<close>, \<^verbatim>\<open>decisions.go\<close>, \<^verbatim>\<open>rsvps.go\<close>, \<^verbatim>\<open>reviews.go\<close>,
  \<^verbatim>\<open>staff_roles.go\<close> and \<^verbatim>\<open>volunteers.go\<close>, each with the table that turns its service's errors
  into statuses and codes.
\<close>

section \<open>Applications\<close>

definition write_application_error :: "app_error \<Rightarrow> response" where
  "write_application_error err =
     (case err of
        AppNoCurrentForm \<Rightarrow> write_error 404 ''current_form_not_found'' ''There is no open application form.''
      | AppNotFound \<Rightarrow> write_error 404 ''application_not_found'' ''Application not found.''
      | AppWindowClosed \<Rightarrow> write_error 409 ''application_window_closed''
          ''This application's submission window is closed.''
      | AppConflict lock \<Rightarrow> write_error_details 409 ''application_conflict''
          ''This application changed or is no longer a draft.'' (Some lock)
      | AppInvalidAnswers \<Rightarrow> write_error 422 ''invalid_answers''
          ''Application answers do not match the published form.''
      | AppIncomplete \<Rightarrow> write_error 422 ''incomplete_application''
          ''Complete all required questions before submitting.''
      | _ \<Rightarrow> internal_error)"

abbreviation with_applications :: "'s deps \<Rightarrow> 's handler \<Rightarrow> 's handler" where
  "with_applications dp k \<equiv> with_dependency not_ready (present (dp_applications dp)) (\<lambda>_. k)"

definition current_application_form_handler :: "'s deps \<Rightarrow> 's handler" where
  "current_application_form_handler dp =
     with_applicant dp (\<lambda>_. with_applications dp (\<lambda>req st.
       answer write_application_error (\<lambda>v. write_json 200 (VForm v))
         (on_db (current_form (dp_env dp)) st)))"

definition create_application_handler :: "'s deps \<Rightarrow> 's handler" where
  "create_application_handler dp =
     with_applicant dp (\<lambda>a. with_applications dp (\<lambda>req st.
       answer write_application_error (\<lambda>v. write_json 200 (VApplication v))
         (on_db (create (dp_env dp) a) st)))"

definition list_my_applications_handler :: "'s deps \<Rightarrow> 's handler" where
  "list_my_applications_handler dp =
     with_applicant dp (\<lambda>a. with_applications dp (\<lambda>req st.
       answer write_application_error (\<lambda>v. write_json 200 (VApplications v))
         (on_db (list_applications (dp_env dp) a) st)))"

record save_draft_request =
  sdr_lock :: "int option"
  sdr_answers :: "json option"

definition save_draft_fields :: "save_draft_request field list" where
  "save_draft_fields =
     [(''lockVersion'', int32_pointer sdr_lock_update), (''answers'', raw_field sdr_answers_update)]"

text \<open>A Go map keeps the last value of a key.\<close>

fun put_answer :: "string \<Rightarrow> json \<Rightarrow> answers \<Rightarrow> answers" where
  "put_answer k v [] = [(k, Some v)]"
| "put_answer k v ((k', v') # kvs) =
     (if k' = k then (k, Some v) # kvs else (k', v') # put_answer k v kvs)"

definition answer_map :: "json \<Rightarrow> answers option" where
  "answer_map j =
     (case j of JObject kvs \<Rightarrow> Some (foldl (\<lambda>m (k, v). put_answer k v m) [] kvs) | _ \<Rightarrow> None)"

datatype draft_body = DraftMalformed | DraftInvalidAnswers | DraftBody int answers

definition decode_save_draft_request :: "'s deps \<Rightarrow> request \<Rightarrow> draft_body" where
  "decode_save_draft_request dp req =
     (case decode_intake_json dp save_draft_fields \<lparr>sdr_lock = None, sdr_answers = None\<rparr> req of
        None \<Rightarrow> DraftMalformed
      | Some p \<Rightarrow>
          (case (sdr_lock p, sdr_answers p) of
             (Some lock, Some j) \<Rightarrow>
               if lock < 0 then DraftMalformed
               else (case answer_map j of None \<Rightarrow> DraftInvalidAnswers | Some m \<Rightarrow> DraftBody lock m)
           | _ \<Rightarrow> DraftMalformed))"

definition save_application_draft_handler :: "'s deps \<Rightarrow> 's handler" where
  "save_application_draft_handler dp =
     with_applicant dp (\<lambda>a. with_applications dp (\<lambda>req st.
       case decode_save_draft_request dp req of
         DraftInvalidAnswers \<Rightarrow>
           (write_error 422 ''invalid_answers'' ''Application answers do not match the published form.'', st)
       | DraftMalformed \<Rightarrow> (invalid_body, st)
       | DraftBody lock m \<Rightarrow>
           answer write_application_error (\<lambda>v. write_json 200 (VApplication v))
             (on_db (save_draft (dp_env dp) a
                \<lparr>sd_application = path_value req ''applicationId'', sd_lock = lock, sd_answers = Some m\<rparr>) st)))"

definition lock_fields :: "int option field list" where
  "lock_fields = [(''lockVersion'', int32_pointer (\<lambda>f. f))]"

definition decode_submit_request :: "'s deps \<Rightarrow> request \<Rightarrow> int option" where
  "decode_submit_request dp req =
     (case decode_intake_json dp lock_fields None req of
        Some (Some lock) \<Rightarrow> if lock < 0 then None else Some lock
      | _ \<Rightarrow> None)"

definition submit_application_handler :: "'s deps \<Rightarrow> 's handler" where
  "submit_application_handler dp =
     with_applicant dp (\<lambda>a. with_applications dp (\<lambda>req st.
       case decode_submit_request dp req of
         None \<Rightarrow> (invalid_body, st)
       | Some lock \<Rightarrow>
           answer write_application_error (\<lambda>v. write_json 200 (VApplication v))
             (on_db (submit (dp_env dp) a
                \<lparr>si_application = path_value req ''applicationId'', si_lock = lock\<rparr>) st)))"

section \<open>Resumes\<close>

definition write_resume_error :: "resume_error \<Rightarrow> response" where
  "write_resume_error err =
     (case err of
        RsInvalidPdf \<Rightarrow> write_error 422 ''invalid_resume''
          ''Resume must be a valid PDF file no larger than 5 MB.''
      | RsForbidden \<Rightarrow> write_error 403 ''forbidden'' ''Resume access is forbidden.''
      | RsNotFound \<Rightarrow> write_error 404 ''resume_not_found'' ''Resume not found.''
      | RsInternal \<Rightarrow> internal_error)"

definition resumes_missing :: response where
  "resumes_missing = write_error 503 ''dependency_unavailable'' ''Resume storage is unavailable.''"

definition upload_application_resume_handler :: "'s deps \<Rightarrow> 's handler" where
  "upload_application_resume_handler dp =
     with_role dp RoleApplicant (\<lambda>u. with_dependency resumes_missing (dp_resumes dp) (\<lambda>(put, _) req st.
       if hr_header req ''Content-Type'' \<noteq> ''application/pdf'' \<or>
          trim_space (hr_header req ''X-File-Name'') = []
       then (write_error 422 ''invalid_resume'' ''Resume must be a PDF file.'', st)
       else (case hr_body req of
           None \<Rightarrow> (write_error 413 ''resume_too_large'' ''Resume must be 5 MB or smaller.'', st)
         | Some content \<Rightarrow>
             if length content > max_pdf_bytes
             then (write_error 413 ''resume_too_large'' ''Resume must be 5 MB or smaller.'', st)
             else answer write_resume_error (\<lambda>v. write_json 200 (VResume v))
               (on_db_store (upload (dp_env dp) put (dp_nanos dp) u (path_value req ''applicationId'')
                  (hr_header req ''X-File-Name'') content) st))))"

definition get_applicant_resume_handler :: "'s deps \<Rightarrow> 's handler" where
  "get_applicant_resume_handler dp =
     with_role dp RoleApplicant (\<lambda>u. with_dependency resumes_missing (dp_resumes dp) (\<lambda>_ req st.
       answer write_resume_error (\<lambda>v. write_json 200 (VResume v))
         (on_db (resume_for_applicant (dp_env dp) u (path_value req ''applicationId'')) st)))"

definition pdf_response :: "resume_pdf \<Rightarrow> response" where
  "pdf_response p =
     \<lparr>hs_status = 200,
      hs_headers = [(''Content-Type'', ''application/pdf''),
        (''Content-Disposition'', ''inline; filename='' @ [CHR 0x22] @
           filter (\<lambda>c. c \<noteq> CHR 0x22) (rm_filename (rp_metadata p)) @ [CHR 0x22]),
        (''Content-Length'', itoa (int (length (rp_content p))))],
      hs_body = RawBody (rp_content p)\<rparr>"

definition get_admin_resume_handler :: "'s deps \<Rightarrow> 's handler" where
  "get_admin_resume_handler dp =
     with_role dp RoleOrganizer (\<lambda>u. with_dependency resumes_missing (dp_resumes dp) (\<lambda>(_, get) req st.
       answer write_resume_error pdf_response
         (on_db_store (resume_for_admin (dp_env dp) get u (path_value req ''applicationId'')) st)))"

section \<open>Decisions\<close>

definition write_decision_record_error :: "decision_error \<Rightarrow> response" where
  "write_decision_record_error err =
     (case err of
        DecForbidden \<Rightarrow> write_error 403 ''forbidden'' ''Admin access is required.''
      | DecNotFound \<Rightarrow> write_error 404 ''application_not_found'' ''Application not found.''
      | DecNotSubmitted \<Rightarrow> write_error 409 ''application_not_submitted''
          ''Only submitted applications can receive decisions.''
      | DecInvalidOutcome \<Rightarrow> write_error 422 ''invalid_decision'' ''The decision outcome is invalid.''
      | _ \<Rightarrow> internal_error)"

definition write_decision_release_error :: "decision_error \<Rightarrow> response" where
  "write_decision_release_error err =
     (case err of
        DecForbidden \<Rightarrow> write_error 403 ''forbidden'' ''Admin access is required.''
      | DecNotFound \<Rightarrow> write_error 404 ''decision_not_found'' ''Decision not found.''
      | _ \<Rightarrow> internal_error)"

definition write_applicant_decision_error :: "decision_error \<Rightarrow> response" where
  "write_applicant_decision_error err =
     (case err of
        DecForbidden \<Rightarrow> write_error 403 ''forbidden'' ''Applicant access is required.''
      | DecNotFound \<Rightarrow> write_error 404 ''decision_not_found'' ''Decision not found.''
      | _ \<Rightarrow> internal_error)"

abbreviation with_decisions :: "'s deps \<Rightarrow> 's handler \<Rightarrow> 's handler" where
  "with_decisions dp k \<equiv> with_dependency not_ready (present (dp_decisions dp)) (\<lambda>_. k)"

record record_decision_request =
  rdr_outcome :: "string option"
  rdr_reason :: "string option"

definition record_decision_fields :: "record_decision_request field list" where
  "record_decision_fields =
     [(''outcome'', string_pointer rdr_outcome_update),
      (''internalReason'', string_pointer rdr_reason_update)]"

definition record_decision_handler :: "'s deps \<Rightarrow> 's handler" where
  "record_decision_handler dp =
     with_role dp RoleOrganizer (\<lambda>u. with_decisions dp (
       with_body dp record_decision_fields \<lparr>rdr_outcome = None, rdr_reason = None\<rparr> invalid_body
         (\<lambda>p req st. case rdr_outcome p of
            None \<Rightarrow> (invalid_body, st)
          | Some outcome \<Rightarrow>
              answer write_decision_record_error (\<lambda>v. write_json 201 (VDecision v))
                (on_db (record_decision (dp_env dp) u (path_value req ''applicationId'') outcome
                   (rdr_reason p)) st))))"

definition release_decision_handler :: "'s deps \<Rightarrow> 's handler" where
  "release_decision_handler dp =
     with_role dp RoleOrganizer (\<lambda>u. with_decisions dp (\<lambda>req st.
       answer write_decision_release_error (\<lambda>v. write_json 200 (VDecision v))
         (on_db (release (dp_env dp) u (path_value req ''decisionId'')) st)))"

definition get_applicant_decision_handler :: "'s deps \<Rightarrow> 's handler" where
  "get_applicant_decision_handler dp =
     with_role dp RoleApplicant (\<lambda>u. with_decisions dp (\<lambda>req st.
       answer write_applicant_decision_error (\<lambda>v. write_json 200 (VApplicantDecision v))
         (on_db (get_released_for_applicant (dp_env dp) u (path_value req ''applicationId'')) st)))"

section \<open>Attendance responses\<close>

definition write_rsvp_error :: "rsvp_error \<Rightarrow> response" where
  "write_rsvp_error err =
     (case err of
        RsvpForbidden \<Rightarrow> write_error 403 ''forbidden'' ''You cannot access this RSVP.''
      | RsvpNotFound \<Rightarrow> write_error 404 ''rsvp_not_available''
          ''RSVP is available only for your current released acceptance.''
      | RsvpConflict \<Rightarrow> write_error 409 ''rsvp_conflict''
          ''Your response or acceptance has changed. Refresh before responding again.''
      | RsvpInvalid \<Rightarrow> write_error 422 ''invalid_rsvp''
          ''Choose confirmed or declined with the current response version.''
      | RsvpInternal \<Rightarrow> write_error 500 ''internal_error''
          ''Your RSVP could not be saved. Please try again.'')"

record rsvp_request =
  rsq_decision :: string
  rsq_status :: string
  rsq_lock :: "int option"

definition rsvp_fields :: "rsvp_request field list" where
  "rsvp_fields =
     [(''decisionId'', string_field rsq_decision_update), (''status'', string_field rsq_status_update),
      (''lockVersion'', int32_pointer rsq_lock_update)]"

definition rsvps_missing :: response where
  "rsvps_missing = write_error 503 ''dependency_unavailable'' ''RSVP is temporarily unavailable.''"

definition invalid_rsvp_body :: response where
  "invalid_rsvp_body = write_error 400 ''invalid_request'' ''The RSVP request is invalid.''"

definition rsvp_answer :: "(rsvp_error + rsvp_response) \<times> 's api_state \<Rightarrow> response \<times> 's api_state" where
  "rsvp_answer = answer write_rsvp_error (\<lambda>v. write_json 200 (VRsvp v))"

definition applicant_rsvp_handler :: "'s deps \<Rightarrow> 's handler" where
  "applicant_rsvp_handler dp =
     with_role dp RoleApplicant (\<lambda>u. with_dependency rsvps_missing (present (dp_rsvps dp)) (\<lambda>_ req st.
       let i = path_value req ''applicationId'' in
       if hr_method req = ''GET'' \<or> hr_method req = ''HEAD''
       then rsvp_answer (on_db (rsvp_for_applicant (dp_env dp) u i) st)
       else with_body dp rsvp_fields \<lparr>rsq_decision = [], rsq_status = [], rsq_lock = None\<rparr>
         invalid_rsvp_body
         (\<lambda>p req st. case rsq_lock p of
            None \<Rightarrow> (invalid_rsvp_body, st)
          | Some lock \<Rightarrow>
              rsvp_answer (on_db (respond (dp_env dp) u
                (rsvp_input.make i (rsq_decision p) (rsq_status p) lock)) st)) req st))"

end
