(* ===== verification/HttpStaff.thy ===== *)
theory HttpStaff
  imports HttpIntake
begin

text \<open>
  The handlers of the staff: \<^verbatim>\<open>httpapi/reviews.go\<close> with the organizer's views, which compose the
  reviews, attendance responses, decisions and passes, \<^verbatim>\<open>staff_roles.go\<close> and
  \<^verbatim>\<open>volunteers.go\<close>.
\<close>

section \<open>Passes' errors\<close>

definition write_pass_error :: "pass_error \<Rightarrow> response" where
  "write_pass_error err =
     (case err of
        PassForbidden \<Rightarrow> write_error 403 ''forbidden'' ''The requested pass operation is not permitted.''
      | PassActiveExists \<Rightarrow> write_error 409 ''pass_active'' ''The attendee already has an active pass.''
      | PassRSVPRequired \<Rightarrow> write_error 409 ''rsvp_required''
          ''The attendee must confirm their RSVP before a pass can be issued or reissued.''
      | PassNotFound \<Rightarrow> write_error 404 ''pass_not_found'' ''Pass not found.''
      | PassInternal \<Rightarrow> internal_error)"

section \<open>Reviews\<close>

definition write_workflow_error :: "review_error \<Rightarrow> response" where
  "write_workflow_error err =
     (case err of
        RvForbidden \<Rightarrow> write_error 403 ''forbidden'' ''Staff access is required.''
      | RvNotFound \<Rightarrow> write_error 404 ''application_not_found'' ''Application not found.''
      | RvInvalidFilter \<Rightarrow> write_error 422 ''invalid_filter'' ''The application filter is invalid.''
      | RvInvalidReview \<Rightarrow> write_error 422 ''invalid_review''
          ''A review requires a score from 1 to 5 and a valid recommendation.''
      | RvInvalidReviewer \<Rightarrow> write_error 422 ''invalid_reviewer''
          ''The target user does not have reviewer access.''
      | RvNotSubmitted \<Rightarrow> write_error 409 ''application_not_submitted''
          ''Only submitted applications can be assigned or reviewed.''
      | RvNotStarted \<Rightarrow> write_error 409 ''review_not_started''
          ''Save a review draft before submitting it.''
      | RvConflict lock \<Rightarrow> write_error_details 409 ''review_conflict''
          ''This review changed or is no longer a draft.'' (Some lock)
      | RvInternal \<Rightarrow> internal_error)"

abbreviation with_reviews :: "'s deps \<Rightarrow> (text_functions \<Rightarrow> 's handler) \<Rightarrow> 's handler" where
  "with_reviews dp k \<equiv> with_dependency not_ready (dp_reviews dp) k"

text \<open>The attendance responses of the listed applications, when that service is configured.\<close>

definition organizer_rsvps ::
    "'s deps \<Rightarrow> user \<Rightarrow> string list \<Rightarrow> 's api_state \<Rightarrow>
       (rsvp_error + (string \<times> rsvp_response) list) \<times> 's api_state" where
  "organizer_rsvps dp u ids st =
     (if dp_rsvps dp then on_db (rsvps_for_organizer (dp_env dp) u ids) st else (Inr [], st))"

definition rsvp_text :: "rsvp_response \<Rightarrow> string" where
  "rsvp_text r = (case rr_status r of None \<Rightarrow> ''pending'' | Some s \<Rightarrow> string_of_rsvp s)"

definition project_applications ::
    "string \<Rightarrow> (string \<times> rsvp_response) list \<Rightarrow> staff_application list \<Rightarrow>
       (staff_application \<times> rsvp_response option) list" where
  "project_applications rsvp responses items =
     filter (\<lambda>(_, r). \<not> (rsvp \<noteq> [] \<and> (case r of None \<Rightarrow> True | Some x \<Rightarrow> rsvp_text x \<noteq> rsvp)))
       (map (\<lambda>a. (a, map_of responses (staff_application.sv_id a))) items)"

definition list_organizer_applications_handler :: "'s deps \<Rightarrow> 's handler" where
  "list_organizer_applications_handler dp =
     with_role dp RoleOrganizer (\<lambda>u req st.
       let rsvp = query_value req ''rsvp'' in
       if \<not> valid_rsvp_filter rsvp
       then (write_error 422 ''invalid_filter'' ''The RSVP filter is invalid.'', st)
       else with_reviews dp (\<lambda>tf req st.
         case on_db (list_organizer_applications (dp_env dp) tf u
                \<lparr>lf_status = query_value req ''status'', lf_search = query_value req ''q''\<rparr>) st of
           (Inl err, st1) \<Rightarrow> (write_workflow_error err, st1)
         | (Inr items, st1) \<Rightarrow>
             answer write_rsvp_error
               (\<lambda>responses. write_json 200 (VOrganizerApplications (project_applications rsvp responses items)))
               (organizer_rsvps dp u (map staff_application.sv_id items) st1)) req st)"

text \<open>The optional parts of an application's detail: a missing service or a missing item leaves
  the part out, any other error is the answer.\<close>

definition optional_part ::
    "bool \<Rightarrow> (db, 'e, 'a) tx \<Rightarrow> 'e \<Rightarrow> ('e \<Rightarrow> response) \<Rightarrow> 's api_state \<Rightarrow>
       (response + 'a option) \<times> 's api_state" where
  "optional_part configured run absent on_error st =
     (if \<not> configured then (Inr None, st)
      else (case on_db run st of
          (Inr v, st') \<Rightarrow> (Inr (Some v), st')
        | (Inl err, st') \<Rightarrow> (if err = absent then Inr None else Inl (on_error err), st')))"

definition organizer_detail ::
    "'s deps \<Rightarrow> user \<Rightarrow> staff_application \<Rightarrow> 's api_state \<Rightarrow> response \<times> 's api_state" where
  "organizer_detail dp u a st =
     (let i = staff_application.sv_id a in
      case organizer_rsvps dp u [i] st of
        (Inl err, st1) \<Rightarrow> (write_rsvp_error err, st1)
      | (Inr responses, st1) \<Rightarrow>
          (case optional_part (dp_decisions dp) (current_for_organizer (dp_env dp) u i) DecNoCurrent
                  write_decision_record_error st1 of
             (Inl r, st2) \<Rightarrow> (r, st2)
           | (Inr decision, st2) \<Rightarrow>
               (case optional_part (dp_passes dp \<noteq> None) (summary_for_application (dp_env dp) u i)
                       PassNotFound write_pass_error st2 of
                  (Inl r, st3) \<Rightarrow> (r, st3)
                | (Inr summary, st3) \<Rightarrow>
                    (write_json 200 (VOrganizerApplication a (map_of responses i) decision summary), st3))))"

definition get_organizer_application_handler :: "'s deps \<Rightarrow> 's handler" where
  "get_organizer_application_handler dp =
     with_role dp RoleOrganizer (\<lambda>u. with_reviews dp (\<lambda>_ req st.
       case on_db (get_application_for_organizer (dp_env dp) u (path_value req ''applicationId'')) st of
         (Inl err, st1) \<Rightarrow> (write_workflow_error err, st1)
       | (Inr a, st1) \<Rightarrow> organizer_detail dp u a st1))"

definition grant_reviewer_role_handler :: "'s deps \<Rightarrow> 's handler" where
  "grant_reviewer_role_handler dp =
     with_role dp RoleOrganizer (\<lambda>u. with_reviews dp (\<lambda>_ req st.
       answer (\<lambda>err. if err = RvNotFound then write_error 404 ''user_not_found'' ''User not found.''
                     else write_workflow_error err)
         (\<lambda>_. no_content)
         (on_db (grant_reviewer (dp_env dp) u (path_value req ''userId'')) st)))"

definition assign_fields :: "string option field list" where
  "assign_fields = [(''reviewerUserId'', string_pointer (\<lambda>f. f))]"

definition assign_reviewer_handler :: "'s deps \<Rightarrow> 's handler" where
  "assign_reviewer_handler dp =
     with_role dp RoleOrganizer (\<lambda>u. with_reviews dp (\<lambda>_.
       with_body dp assign_fields None invalid_body (\<lambda>p req st. case p of
         None \<Rightarrow> (invalid_body, st)
       | Some reviewer \<Rightarrow>
           if trim_space reviewer = [] then (invalid_body, st)
           else let i = path_value req ''applicationId'' in
             answer write_workflow_error (\<lambda>_. write_json 200 (VAssignment i reviewer))
               (on_db (assign_reviewer (dp_env dp) u i reviewer) st))))"

definition list_reviewer_applications_handler :: "'s deps \<Rightarrow> 's handler" where
  "list_reviewer_applications_handler dp =
     with_role dp RoleReviewer (\<lambda>u. with_reviews dp (\<lambda>_ req st.
       answer write_workflow_error (\<lambda>v. write_json 200 (VReviewerApplications v))
         (on_db (list_reviewer_applications (dp_env dp) u) st)))"

definition get_reviewer_application_handler :: "'s deps \<Rightarrow> 's handler" where
  "get_reviewer_application_handler dp =
     with_role dp RoleReviewer (\<lambda>u. with_reviews dp (\<lambda>_ req st.
       answer write_workflow_error (\<lambda>v. write_json 200 (VReviewerApplication v))
         (on_db (get_reviewer_application (dp_env dp) u (path_value req ''applicationId'')) st)))"

record save_review_request =
  srr_lock :: "int option"
  srr_score :: "int option"
  srr_recommendation :: "string option"
  srr_notes :: "string option"

definition save_review_fields :: "save_review_request field list" where
  "save_review_fields =
     [(''lockVersion'', int32_pointer srr_lock_update), (''score'', int32_pointer srr_score_update),
      (''recommendation'', string_pointer srr_recommendation_update),
      (''internalNotes'', string_pointer srr_notes_update)]"

definition save_review_draft_handler :: "'s deps \<Rightarrow> 's handler" where
  "save_review_draft_handler dp =
     with_role dp RoleReviewer (\<lambda>u. with_reviews dp (\<lambda>_.
       with_body dp save_review_fields
         \<lparr>srr_lock = None, srr_score = None, srr_recommendation = None, srr_notes = None\<rparr> invalid_body
         (\<lambda>p req st. case (srr_lock p, srr_score p, srr_recommendation p) of
            (Some lock, Some score, Some recommendation) \<Rightarrow>
              answer write_workflow_error (\<lambda>v. write_json 200 (VReviewerApplication v))
                (on_db (save_review_draft (dp_env dp) u
                   (review_draft_input.make (path_value req ''applicationId'') lock score
                      recommendation (srr_notes p))) st)
          | _ \<Rightarrow> (invalid_body, st))))"

definition submit_review_handler :: "'s deps \<Rightarrow> 's handler" where
  "submit_review_handler dp =
     with_role dp RoleReviewer (\<lambda>u. with_reviews dp (\<lambda>_.
       with_body dp lock_fields None invalid_body (\<lambda>p req st. case p of
         None \<Rightarrow> (invalid_body, st)
       | Some lock \<Rightarrow>
           answer write_workflow_error (\<lambda>v. write_json 200 (VReviewerApplication v))
             (on_db (submit_review (dp_env dp) u
                \<lparr>rsi_application = path_value req ''applicationId'', rsi_lock = lock\<rparr>) st))))"

section \<open>Scanner access\<close>

definition write_staff_role_error :: "user_error \<Rightarrow> response" where
  "write_staff_role_error err =
     (case err of
        UserForbidden \<Rightarrow> write_error 403 ''forbidden''
          ''Admin access is required and self-service role changes are not allowed.''
      | UserNotFound \<Rightarrow> write_error 404 ''user_not_found''
          ''No matching account found. Ask the volunteer to sign up, verify this email, and open HackAtlantic once, then try again.''
      | UserInvalidEmail \<Rightarrow> write_error 422 ''invalid_email'' ''Enter a valid email address.''
      | UserAmbiguousEmail \<Rightarrow> write_error 409 ''ambiguous_email''
          ''More than one account matches this email. Resolve the duplicate accounts before changing access.''
      | UserProfileUnavailable \<Rightarrow> write_error 503 ''identity_unavailable''
          ''Unable to verify this account right now. Try again shortly.''
      | _ \<Rightarrow> internal_error)"

definition staff_roles_missing :: response where
  "staff_roles_missing = write_error 503 ''dependency_unavailable''
     ''Staff role management is temporarily unavailable.''"

definition email_fields :: "string field list" where
  "email_fields = [(''email'', string_field (\<lambda>f. f))]"

definition lookup_scanner_user_handler :: "'s deps \<Rightarrow> 's handler" where
  "lookup_scanner_user_handler dp =
     with_role dp RoleAdmin (\<lambda>u.
       with_body dp email_fields []
         (write_error 400 ''invalid_request'' ''Enter a valid email address.'')
         (\<lambda>email. with_dependency staff_roles_missing (dp_staff_roles dp) (\<lambda>profiles req st.
            answer write_staff_role_error (\<lambda>v. write_json 200 (VScannerUser v))
              (on_db (lookup_scanner_user (dp_env dp) profiles u email) st))))"

definition grant_scanner_role_handler :: "'s deps \<Rightarrow> 's handler" where
  "grant_scanner_role_handler dp =
     with_role dp RoleOrganizer (\<lambda>u. with_dependency staff_roles_missing (dp_staff_roles dp) (\<lambda>_ req st.
       answer write_staff_role_error (\<lambda>_. no_content)
         (on_db (grant_scanner (dp_env dp) u (path_value req ''userId'')) st)))"

definition revoke_scanner_role_handler :: "'s deps \<Rightarrow> 's handler" where
  "revoke_scanner_role_handler dp =
     with_role dp RoleOrganizer (\<lambda>u. with_dependency staff_roles_missing (dp_staff_roles dp) (\<lambda>_ req st.
       answer write_staff_role_error (\<lambda>_. no_content)
         (on_db (revoke_scanner (dp_env dp) u (path_value req ''userId'')) st)))"

section \<open>Volunteers\<close>

definition write_volunteer_error :: "user_error \<Rightarrow> response" where
  "write_volunteer_error err =
     (case err of
        UserVolunteerInvalid \<Rightarrow> write_error 422 ''invalid_request''
          ''Use a real name between 2 and 100 characters, or refresh the request before reviewing.''
      | UserVolunteerConflict \<Rightarrow> write_error 409 ''request_changed''
          ''This request has changed. Refresh the list before reviewing it.''
      | _ \<Rightarrow> write_staff_role_error err)"

definition volunteers_missing :: response where
  "volunteers_missing = write_error 503 ''dependency_unavailable''
     ''Volunteer requests are temporarily unavailable.''"

definition name_fields :: "string field list" where
  "name_fields = [(''realName'', string_field (\<lambda>f. f))]"

definition volunteer_request_handler :: "'s deps \<Rightarrow> 's handler" where
  "volunteer_request_handler dp =
     with_role dp RoleApplicant (\<lambda>u. with_dependency volunteers_missing (dp_volunteers dp) (\<lambda>_ req st.
       let respond = answer write_volunteer_error
             (\<lambda>v. write_json 200 (VVolunteer v (has_role u RoleScanner)))
       in if hr_method req = ''POST''
          then with_body dp name_fields []
            (write_error 400 ''invalid_request'' ''Enter your name as it appears on the volunteer schedule.'')
            (\<lambda>name req st. respond (on_db (request_volunteer_access (dp_env dp) u name) st)) req st
          else respond (on_db (get_volunteer_request (dp_env dp) u) st)))"

text \<open>\<^verbatim>\<open>strconv.Atoi\<close>: an optional sign and decimal digits within 64 bits.\<close>

definition atoi :: "string \<Rightarrow> int option" where
  "atoi s = parse_int_in (- (2 ^ 63)) (2 ^ 63)
     (case s of c # d # cs \<Rightarrow> if c = CHR ''+'' \<and> d \<noteq> CHR ''-'' then d # cs else s | _ \<Rightarrow> s)"

definition volunteer_offset :: "request \<Rightarrow> int option" where
  "volunteer_offset req =
     (let v = query_value req ''offset'' in
      if v = [] then Some 0
      else (case atoi v of None \<Rightarrow> None | Some n \<Rightarrow> if n < 0 \<or> n > 100000 then None else Some n))"

definition volunteer_queue_handler :: "'s deps \<Rightarrow> 's handler" where
  "volunteer_queue_handler dp =
     with_role dp RoleAdmin (\<lambda>u. with_dependency volunteers_missing (dp_volunteers dp) (\<lambda>_ req st.
       case volunteer_offset req of
         None \<Rightarrow> (write_volunteer_error UserVolunteerInvalid, st)
       | Some offset \<Rightarrow>
           answer write_volunteer_error (\<lambda>v. write_json 200 (VVolunteers v))
             (on_db (list_volunteer_requests (dp_env dp) u offset) st)))"

record volunteer_review_request =
  vrr_status :: string
  vrr_expected :: string

definition volunteer_review_fields :: "volunteer_review_request field list" where
  "volunteer_review_fields =
     [(''status'', string_field vrr_status_update), (''expectedStatus'', string_field vrr_expected_update)]"

definition volunteer_review_handler :: "'s deps \<Rightarrow> 's handler" where
  "volunteer_review_handler dp =
     with_role dp RoleAdmin (\<lambda>u. with_dependency volunteers_missing (dp_volunteers dp) (\<lambda>lower.
       with_body dp volunteer_review_fields \<lparr>vrr_status = [], vrr_expected = []\<rparr>
         (write_volunteer_error UserVolunteerInvalid)
         (\<lambda>p req st.
            answer write_volunteer_error (\<lambda>_. no_content)
              (on_db (review_volunteer_request (dp_env dp) lower u (path_value req ''userId'')
                 (vrr_status p) (vrr_expected p)) st))))"

end
