(* ===== verification/HttpEvent.thy ===== *)
theory HttpEvent
  imports HttpStaff
begin

text \<open>
  The handlers of the event: \<^verbatim>\<open>httpapi/operations.go\<close> with its request parsing and CSV exports,
  \<^verbatim>\<open>passes.go\<close> with the rate-limited public claim, \<^verbatim>\<open>scanner.go\<close> and \<^verbatim>\<open>staff_passes.go\<close>.
\<close>

section \<open>Event operations: requests\<close>

definition write_operations_error :: "op_error \<Rightarrow> response" where
  "write_operations_error err =
     (case err of
        OpForbidden \<Rightarrow> write_error 403 ''not_admin'' ''Admin access is required.''
      | OpNotFound \<Rightarrow> write_error 404 ''operations_not_found''
          ''The requested event operations resource was not found.''
      | OpConflict \<Rightarrow> write_error 409 ''operations_conflict''
          ''The requested change conflicts with existing event operations state.''
      | OpInUse \<Rightarrow> write_error 409 ''operations_in_use''
          ''The resource has attendance or entitlement history and cannot be deleted.''
      | OpInvalidInput \<Rightarrow> write_error 422 ''invalid_operations_input''
          ''The requested event operations values are invalid.''
      | OpInternal \<Rightarrow> internal_error)"

definition blank :: "string \<Rightarrow> bool" where
  "blank s = (trim_space s = [])"

record activity_request =
  aq_cycle :: "string option"
  aq_slug :: "string option"
  aq_name :: "string option"
  aq_starts :: "json option"
  aq_ends :: "json option"

definition activity_fields_of :: "activity_request field list" where
  "activity_fields_of =
     [(''cycleId'', string_pointer aq_cycle_update), (''slug'', string_pointer aq_slug_update),
      (''name'', string_pointer aq_name_update), (''startsAt'', raw_field aq_starts_update),
      (''endsAt'', raw_field aq_ends_update)]"

definition no_activity :: activity_request where
  "no_activity = \<lparr>aq_cycle = None, aq_slug = None, aq_name = None, aq_starts = None, aq_ends = None\<rparr>"

record checkpoint_request =
  kq_cycle :: "string option"
  kq_activity :: "json option"
  kq_slug :: "string option"
  kq_name :: "string option"
  kq_opens :: "json option"
  kq_closes :: "json option"
  kq_allowed :: "bool option"
  kq_max :: "int option"
  kq_active :: "bool option"

definition checkpoint_fields_of :: "checkpoint_request field list" where
  "checkpoint_fields_of =
     [(''cycleId'', string_pointer kq_cycle_update), (''activityId'', raw_field kq_activity_update),
      (''slug'', string_pointer kq_slug_update), (''name'', string_pointer kq_name_update),
      (''opensAt'', raw_field kq_opens_update), (''closesAt'', raw_field kq_closes_update),
      (''defaultAllowed'', bool_pointer kq_allowed_update),
      (''defaultMaxRedemptions'', int64_pointer kq_max_update),
      (''active'', bool_pointer kq_active_update)]"

definition no_checkpoint :: checkpoint_request where
  "no_checkpoint = \<lparr>kq_cycle = None, kq_activity = None, kq_slug = None, kq_name = None,
     kq_opens = None, kq_closes = None, kq_allowed = None, kq_max = None, kq_active = None\<rparr>"

record entitlement_request =
  eq_allowed :: "bool option"
  eq_max :: "int option"

definition entitlement_fields :: "entitlement_request field list" where
  "entitlement_fields =
     [(''allowed'', bool_pointer eq_allowed_update), (''maxRedemptions'', int64_pointer eq_max_update)]"

text \<open>A nullable field of a raw message: an error, or the value it sets. An absent field is null
  unless it is required.\<close>

definition nullable ::
    "(json \<Rightarrow> 'v option) \<Rightarrow> json option \<Rightarrow> bool \<Rightarrow> 'v option option" where
  "nullable parse raw required =
     (case raw of
        None \<Rightarrow> if required then None else Some None
      | Some JNull \<Rightarrow> Some None
      | Some j \<Rightarrow> map_option Some (parse j))"

definition nullable_string :: "json option \<Rightarrow> bool \<Rightarrow> string option option" where
  "nullable_string = nullable (\<lambda>j. case j of JString s \<Rightarrow> Some s | _ \<Rightarrow> None)"

definition nullable_timestamp ::
    "(string \<Rightarrow> go_time option) \<Rightarrow> json option \<Rightarrow> bool \<Rightarrow> go_time option option" where
  "nullable_timestamp parse_time = nullable (\<lambda>j. case j of JString s \<Rightarrow> parse_time s | _ \<Rightarrow> None)"

definition dereference :: "string option \<Rightarrow> string" where
  "dereference v = (case v of None \<Rightarrow> [] | Some s \<Rightarrow> s)"

definition dereference_bool :: "bool option \<Rightarrow> bool" where
  "dereference_bool v = (case v of None \<Rightarrow> False | Some b \<Rightarrow> b)"

definition dereference_int :: "int option \<Rightarrow> int" where
  "dereference_int v = (case v of None \<Rightarrow> 0 | Some n \<Rightarrow> n)"

definition activity_input_of ::
    "(string \<Rightarrow> go_time option) \<Rightarrow> activity_request \<Rightarrow> bool \<Rightarrow> activity_input option" where
  "activity_input_of parse_time p required =
     Option.bind (nullable_timestamp parse_time (aq_starts p) required) (\<lambda>starts.
     Option.bind (nullable_timestamp parse_time (aq_ends p) required) (\<lambda>ends.
     Some \<lparr>ai_cycle = dereference (aq_cycle p), ai_slug = dereference (aq_slug p),
           ai_name = dereference (aq_name p), ai_starts = starts, ai_ends = ends\<rparr>))"

definition checkpoint_input_of ::
    "(string \<Rightarrow> go_time option) \<Rightarrow> checkpoint_request \<Rightarrow> bool \<Rightarrow> checkpoint_input option" where
  "checkpoint_input_of parse_time p required =
     Option.bind (nullable_string (kq_activity p) required) (\<lambda>activity.
     Option.bind (nullable_timestamp parse_time (kq_opens p) required) (\<lambda>opens.
     Option.bind (nullable_timestamp parse_time (kq_closes p) required) (\<lambda>closes.
     Some \<lparr>ci_cycle = dereference (kq_cycle p), ci_activity = activity,
           ci_slug = dereference (kq_slug p), ci_name = dereference (kq_name p), ci_opens = opens,
           ci_closes = closes, ci_allowed = dereference_bool (kq_allowed p),
           ci_max = dereference_int (kq_max p), ci_active = dereference_bool (kq_active p)\<rparr>)))"

definition filled :: "string option \<Rightarrow> bool" where
  "filled v = (case v of None \<Rightarrow> False | Some s \<Rightarrow> \<not> blank s)"

definition valid_checkpoint_request :: "checkpoint_request \<Rightarrow> bool \<Rightarrow> bool" where
  "valid_checkpoint_request p creating =
     (if creating \<and> \<not> filled (kq_cycle p) then False
      else if \<not> creating \<and> (kq_activity p = None \<or> kq_opens p = None \<or> kq_closes p = None) then False
      else filled (kq_slug p) \<and> filled (kq_name p) \<and> kq_allowed p \<noteq> None \<and> kq_max p \<noteq> None \<and>
        kq_active p \<noteq> None)"

definition optional_query :: "request \<Rightarrow> string \<Rightarrow> string option" where
  "optional_query req name =
     (case map_of (hr_query req) name of Some (v # _) \<Rightarrow> Some (trim_space v) | _ \<Rightarrow> None)"

text \<open>The limit of a report: absent is zero, which the service reads as its default.\<close>

definition report_limit :: "request \<Rightarrow> int option" where
  "report_limit req =
     (case optional_query req ''limit'' of
        None \<Rightarrow> Some 0
      | Some v \<Rightarrow> (case atoi v of None \<Rightarrow> None | Some n \<Rightarrow> if n < 1 then None else Some n))"

section \<open>Event operations: handlers\<close>

abbreviation with_operations :: "'s deps \<Rightarrow> ((string \<Rightarrow> nat) \<Rightarrow> 's handler) \<Rightarrow> 's handler" where
  "with_operations dp k \<equiv> with_dependency not_ready (dp_operations dp) k"

definition attendance_summary_handler :: "'s deps \<Rightarrow> 's handler" where
  "attendance_summary_handler dp =
     with_role dp RoleOrganizer (\<lambda>u. with_operations dp (\<lambda>_ req st.
       answer write_operations_error (\<lambda>v. write_json 200 (VSummary v))
         (on_db (attendance_summary (dp_env dp) u) st)))"

definition cycle_fields :: "string field list" where
  "cycle_fields = [(''cycleId'', string_field (\<lambda>f. f))]"

definition enable_entrance_handler :: "'s deps \<Rightarrow> 's handler" where
  "enable_entrance_handler dp =
     with_role dp RoleOrganizer (\<lambda>u. with_body dp cycle_fields [] invalid_body (\<lambda>cycle req st.
       if blank cycle then (invalid_body, st)
       else with_operations dp (\<lambda>_ req st.
         answer write_operations_error (\<lambda>v. write_json 200 (VCheckpoint v))
           (on_db (enable_entrance (dp_env dp) u cycle) st)) req st))"

definition list_activities_handler :: "'s deps \<Rightarrow> 's handler" where
  "list_activities_handler dp =
     with_role dp RoleOrganizer (\<lambda>u. with_operations dp (\<lambda>rank req st.
       answer write_operations_error (\<lambda>v. write_json 200 (VActivities v))
         (on_db (list_activities (dp_env dp) rank u) st)))"

definition create_activity_handler :: "'s deps \<Rightarrow> 's handler" where
  "create_activity_handler dp =
     with_role dp RoleOrganizer (\<lambda>u. with_body dp activity_fields_of no_activity invalid_body (\<lambda>p req st.
       if \<not> filled (aq_cycle p) \<or> \<not> filled (aq_slug p) \<or> \<not> filled (aq_name p) then (invalid_body, st)
       else (case activity_input_of (dp_parse_time dp) p False of
           None \<Rightarrow> (invalid_body, st)
         | Some input \<Rightarrow> with_operations dp (\<lambda>_ req st.
             answer write_operations_error (\<lambda>v. write_json 201 (VActivity v))
               (on_db (create_activity (dp_env dp) u input) st)) req st)))"

definition update_activity_handler :: "'s deps \<Rightarrow> 's handler" where
  "update_activity_handler dp =
     with_role dp RoleOrganizer (\<lambda>u. with_body dp activity_fields_of no_activity invalid_body (\<lambda>p req st.
       if \<not> filled (aq_slug p) \<or> \<not> filled (aq_name p) then (invalid_body, st)
       else (case activity_input_of (dp_parse_time dp) p True of
           None \<Rightarrow> (invalid_body, st)
         | Some input \<Rightarrow> with_operations dp (\<lambda>_ req st.
             answer write_operations_error (\<lambda>v. write_json 200 (VActivity v))
               (on_db (update_activity (dp_env dp) u (path_value req ''activityId'') input) st)) req st)))"

definition delete_activity_handler :: "'s deps \<Rightarrow> 's handler" where
  "delete_activity_handler dp =
     with_role dp RoleOrganizer (\<lambda>u. with_operations dp (\<lambda>_ req st.
       answer write_operations_error (\<lambda>_. no_content)
         (on_db (delete_activity (dp_env dp) u (path_value req ''activityId'')) st)))"

definition list_checkpoints_handler :: "'s deps \<Rightarrow> 's handler" where
  "list_checkpoints_handler dp =
     with_role dp RoleOrganizer (\<lambda>u. with_operations dp (\<lambda>rank req st.
       answer write_operations_error (\<lambda>v. write_json 200 (VCheckpoints v))
         (on_db (list_checkpoints (dp_env dp) rank u) st)))"

definition create_checkpoint_handler :: "'s deps \<Rightarrow> 's handler" where
  "create_checkpoint_handler dp =
     with_role dp RoleOrganizer (\<lambda>u. with_body dp checkpoint_fields_of no_checkpoint invalid_body (\<lambda>p req st.
       if \<not> valid_checkpoint_request p True then (invalid_body, st)
       else (case checkpoint_input_of (dp_parse_time dp) p False of
           None \<Rightarrow> (invalid_body, st)
         | Some input \<Rightarrow> with_operations dp (\<lambda>_ req st.
             answer write_operations_error (\<lambda>v. write_json 201 (VCheckpoint v))
               (on_db (create_checkpoint (dp_env dp) u input) st)) req st)))"

definition update_checkpoint_handler :: "'s deps \<Rightarrow> 's handler" where
  "update_checkpoint_handler dp =
     with_role dp RoleOrganizer (\<lambda>u. with_body dp checkpoint_fields_of no_checkpoint invalid_body (\<lambda>p req st.
       if \<not> valid_checkpoint_request p False then (invalid_body, st)
       else (case checkpoint_input_of (dp_parse_time dp) p True of
           None \<Rightarrow> (invalid_body, st)
         | Some input \<Rightarrow> with_operations dp (\<lambda>_ req st.
             answer write_operations_error (\<lambda>v. write_json 200 (VCheckpoint v))
               (on_db (update_checkpoint (dp_env dp) u (path_value req ''checkpointId'') input) st)) req st)))"

definition delete_checkpoint_handler :: "'s deps \<Rightarrow> 's handler" where
  "delete_checkpoint_handler dp =
     with_role dp RoleOrganizer (\<lambda>u. with_operations dp (\<lambda>_ req st.
       answer write_operations_error (\<lambda>_. no_content)
         (on_db (delete_checkpoint (dp_env dp) u (path_value req ''checkpointId'')) st)))"

definition get_entitlement_handler :: "'s deps \<Rightarrow> 's handler" where
  "get_entitlement_handler dp =
     with_role dp RoleOrganizer (\<lambda>u. with_operations dp (\<lambda>_ req st.
       answer write_operations_error (\<lambda>v. write_json 200 (VEntitlement v))
         (on_db (get_entitlement (dp_env dp) u (path_value req ''attendeeId'')
            (path_value req ''checkpointId'')) st)))"

definition put_entitlement_handler :: "'s deps \<Rightarrow> 's handler" where
  "put_entitlement_handler dp =
     with_role dp RoleOrganizer (\<lambda>u.
       with_body dp entitlement_fields \<lparr>eq_allowed = None, eq_max = None\<rparr> invalid_body (\<lambda>p req st.
         case (eq_allowed p, eq_max p) of
           (Some allowed, Some most) \<Rightarrow> with_operations dp (\<lambda>_ req st.
             answer write_operations_error (\<lambda>v. write_json 200 (VOverride v))
               (on_db (put_entitlement (dp_env dp) u (path_value req ''attendeeId'')
                  (path_value req ''checkpointId'') allowed most) st)) req st
         | _ \<Rightarrow> (invalid_body, st)))"

definition delete_entitlement_handler :: "'s deps \<Rightarrow> 's handler" where
  "delete_entitlement_handler dp =
     with_role dp RoleOrganizer (\<lambda>u. with_operations dp (\<lambda>_ req st.
       answer write_operations_error (\<lambda>_. no_content)
         (on_db (delete_entitlement (dp_env dp) u (path_value req ''attendeeId'')
            (path_value req ''checkpointId'')) st)))"

definition list_checkpoint_counts_handler :: "'s deps \<Rightarrow> 's handler" where
  "list_checkpoint_counts_handler dp =
     with_role dp RoleOrganizer (\<lambda>u. with_operations dp (\<lambda>rank req st.
       answer write_operations_error (\<lambda>v. write_json 200 (VCounts v))
         (on_db (list_checkpoint_counts (dp_env dp) rank u) st)))"

definition list_redemptions_handler :: "'s deps \<Rightarrow> 's handler" where
  "list_redemptions_handler dp =
     with_role dp RoleOrganizer (\<lambda>u req st.
       case report_limit req of
         None \<Rightarrow> (write_error 400 ''invalid_request'' ''The request query is invalid.'', st)
       | Some limit \<Rightarrow> with_operations dp (\<lambda>_ req st.
           answer write_operations_error (\<lambda>v. write_json 200 (VRedemptions v))
             (on_db (list_redemptions (dp_env dp) u (optional_query req ''checkpointId'') limit) st)) req st)"

subsection \<open>CSV exports\<close>

definition export_header :: "export_kind \<Rightarrow> string list option" where
  "export_header kind =
     (case kind of
        ExportAttendance \<Rightarrow> Some [''redeemed_at'', ''checkpoint_id'', ''checkpoint_slug'',
          ''attendee_id'', ''attendee_display_name'']
      | ExportReconciliation \<Rightarrow> Some [''redemption_id'', ''redeemed_at'', ''checkpoint_id'',
          ''checkpoint_slug'', ''attendee_id'', ''pass_id'', ''scanner_user_id'', ''ordinal'']
      | ExportOther _ \<Rightarrow> None)"

definition export_cells :: "(timestamp \<Rightarrow> string) \<Rightarrow> export_kind \<Rightarrow> redemption_report \<Rightarrow> string list" where
  "export_cells format_time kind r =
     (case rr_checkpoint r of (checkpoint_id, slug, _) \<Rightarrow>
        if kind = ExportAttendance
        then [format_time (rr_at r), checkpoint_id, slug, fst (rr_attendee r), snd (rr_attendee r)]
        else [rr_id r, format_time (rr_at r), checkpoint_id, slug, fst (rr_attendee r),
              fst (rr_pass r), rr_scanner r, itoa (rr_ordinal r)])"

definition redemption_csv ::
    "(timestamp \<Rightarrow> string) \<Rightarrow> export_kind \<Rightarrow> redemption_report list \<Rightarrow> op_error + string" where
  "redemption_csv format_time kind rows =
     (case export_header kind of
        None \<Rightarrow> Inl OpInvalidInput
      | Some header \<Rightarrow>
          Inr (csv_text (header #
            map (\<lambda>r. spreadsheet_safe_record (export_cells format_time kind r)) rows)))"

text \<open>C37. The exports are safe and lossless: an export kind with a header gives a text that an
  RFC 4180 reader turns back into the header and one record per row, in order, with exactly the
  row's cells, each unchanged or behind one apostrophe, so that no cell is a formula to a
  spreadsheet; an unknown kind is refused.\<close>

theorem redemption_csv_roundtrip:
  "case export_header kind of
     None \<Rightarrow> redemption_csv format_time kind rows = Inl OpInvalidInput
   | Some header \<Rightarrow>
       (\<exists>text records. redemption_csv format_time kind rows = Inr text \<and>
          read_csv text = Some (header # records) \<and>
          list_all2 (\<lambda>record row. list_all2 (\<lambda>cell v. cell = v \<or> cell = CHR 0x27 # v) record
              (export_cells format_time kind row)) records rows \<and>
          list_all (list_all (\<lambda>cell. \<not> evaluated cell)) records)"
proof (cases "export_header kind")
  case (Some header)
  let ?records = "map (\<lambda>r. spreadsheet_safe_record (export_cells format_time kind r)) rows"
  have "header \<noteq> []" using Some by (auto simp: export_header_def split: export_kind.splits)
  moreover have "spreadsheet_safe_record (export_cells format_time kind r) \<noteq> []" for r
    by (simp add: spreadsheet_safe_record_def export_cells_def split: prod.split)
  ultimately have "read_csv (csv_text (header # ?records)) = Some (header # ?records)"
    by (intro read_csv_text) auto
  moreover have "list_all2 (\<lambda>record row. list_all2 (\<lambda>cell v. cell = v \<or> cell = CHR 0x27 # v) record
      (export_cells format_time kind row)) ?records rows"
    using safe_cell_text by (simp add: spreadsheet_safe_record_def list.rel_map list.rel_refl)
  moreover have "list_all (list_all (\<lambda>cell. \<not> evaluated cell)) ?records"
    by (simp add: list.pred_map spreadsheet_safe_record_def comp_def safe_cell_not_evaluated list_all_iff)
  ultimately show ?thesis using Some by (auto simp: redemption_csv_def)
qed (simp add: redemption_csv_def)

definition csv_response :: "export_kind \<Rightarrow> string \<Rightarrow> response" where
  "csv_response kind text =
     \<lparr>hs_status = 200,
      hs_headers = [(''Content-Type'', ''text/csv; charset=utf-8''),
        (''Content-Disposition'', ''attachment; filename='' @ [quote] @
          (if kind = ExportReconciliation then ''reconciliation.csv'' else ''attendance.csv'') @ [quote])],
      hs_body = RawBody (byte_string text)\<rparr>"

definition export_redemptions_handler :: "'s deps \<Rightarrow> export_kind \<Rightarrow> 's handler" where
  "export_redemptions_handler dp kind =
     with_role dp RoleOrganizer (\<lambda>u. with_operations dp (\<lambda>_ req st.
       answer write_operations_error
         (\<lambda>rows. case redemption_csv (dp_format_time dp) kind rows of
            Inl err \<Rightarrow> write_operations_error err | Inr text \<Rightarrow> csv_response kind text)
         (on_db (export_redemptions (dp_env dp) u kind (optional_query req ''checkpointId'')) st)))"

section \<open>Passes\<close>

abbreviation with_passes :: "'s deps \<Rightarrow> (pass_service \<Rightarrow> 's handler) \<Rightarrow> 's handler" where
  "with_passes dp k \<equiv> with_dependency not_ready (dp_passes dp) k"

definition issue_pass_handler :: "'s deps \<Rightarrow> 's handler" where
  "issue_pass_handler dp =
     with_role dp RoleOrganizer (\<lambda>u. with_passes dp (\<lambda>ps req st.
       answer write_pass_error (\<lambda>v. write_json 201 (VIssuance v))
         (on_db (issue ps (dp_env dp) (dp_draws dp) u (path_value req ''attendeeId'')) st)))"

definition reissue_pass_handler :: "'s deps \<Rightarrow> 's handler" where
  "reissue_pass_handler dp =
     with_role dp RoleOrganizer (\<lambda>u. with_passes dp (\<lambda>ps req st.
       answer write_pass_error (\<lambda>v. write_json 201 (VIssuance v))
         (on_db (reissue ps (dp_env dp) (dp_draws dp) u (path_value req ''passId'')) st)))"

definition revoke_pass_handler :: "'s deps \<Rightarrow> 's handler" where
  "revoke_pass_handler dp =
     with_role dp RoleOrganizer (\<lambda>u. with_passes dp (\<lambda>_ req st.
       answer write_pass_error (\<lambda>v. write_json 200 (VPass v))
         (on_db (revoke (dp_env dp) u (path_value req ''passId'')) st)))"

definition web_pass_handler :: "'s deps \<Rightarrow> 's handler" where
  "web_pass_handler dp =
     with_role dp RoleApplicant (\<lambda>u. with_passes dp (\<lambda>ps req st.
       answer write_pass_error (\<lambda>v. write_json 200 (VWebPass v))
         (on_db (web_pass ps (dp_env dp) u) st)))"

definition write_claim_error :: "pass_error \<Rightarrow> response" where
  "write_claim_error err =
     (if err = PassNotFound then write_error 404 ''pass_not_found'' ''Pass not found.''
      else internal_error)"

text \<open>The whole seconds of the window, at least one.\<close>

definition retry_after :: "rate_limiter \<Rightarrow> string" where
  "retry_after l = itoa (max 1 (lm_window l div 10 ^ 9))"

definition claim_pass_handler :: "'s deps \<Rightarrow> 's handler" where
  "claim_pass_handler dp req st =
     (let address = request_client_address (dp_split_host dp) (dp_parse_ip dp) (dp_trusted dp)
            (hr_remote req) (hr_header req ''X-Forwarded-For'') in
      case allow address (dp_nanos dp) (as_limiter st) of
        (allowed, l) \<Rightarrow>
          let st' = st\<lparr>as_limiter := l\<rparr> in
          if \<not> allowed
          then ((write_error 429 ''claim_rate_limited'' ''Too many claim attempts. Please try again later.'')
                  \<lparr>hs_headers := [(''Retry-After'', retry_after l), (''Content-Type'', ''application/json'')]\<rparr>,
                st')
          else with_passes dp (\<lambda>ps req st.
            answer write_claim_error (\<lambda>v. write_json 200 (VClaimPass v))
              (on_db (resolve_claim ps (dp_env dp) (path_value req ''claimToken'')) st)) req st')"

section \<open>Scanners\<close>

definition write_checkpoint_error :: "scan_error \<Rightarrow> response" where
  "write_checkpoint_error err =
     (if err = ScanForbidden then write_error 403 ''not_scanner'' ''Scanner access is required.''
      else internal_error)"

definition write_redemption_error :: "bool \<Rightarrow> scan_error \<Rightarrow> response" where
  "write_redemption_error looking err =
     (case err of
        ScanForbidden \<Rightarrow> write_error 403 ''not_scanner'' ''Scanner access is required.''
      | ScanInvalidInput \<Rightarrow> invalid_body
      | ScanIdempotencyConflict \<Rightarrow> write_error 409 ''idempotency_conflict''
          ''The idempotency key belongs to a different redemption operation.''
      | ScanCheckpointNotFound \<Rightarrow> write_error 404 ''checkpoint_not_found'' ''Checkpoint not found.''
      | ScanNotFound \<Rightarrow> if looking then write_error 404 ''pass_not_found'' ''Pass not found.''
          else internal_error
      | ScanInternal \<Rightarrow> internal_error)"

definition list_scanner_checkpoints_handler :: "'s deps \<Rightarrow> 's handler" where
  "list_scanner_checkpoints_handler dp =
     with_role dp RoleScanner (\<lambda>u. with_dependency not_ready (dp_checkpoints dp) (\<lambda>rank req st.
       answer write_checkpoint_error (\<lambda>v. write_json 200 (VScannerCheckpoints v))
         (on_db (list_active (dp_env dp) rank u) st)))"

definition token_fields :: "string option field list" where
  "token_fields = [(''qrToken'', string_pointer (\<lambda>f. f))]"

definition scanner_lookup_handler :: "'s deps \<Rightarrow> 's handler" where
  "scanner_lookup_handler dp =
     with_role dp RoleScanner (\<lambda>u. with_dependency not_ready (dp_redemptions dp) (\<lambda>(hasher, staff).
       with_body dp token_fields None invalid_body (\<lambda>p req st.
         if \<not> filled p then (invalid_body, st)
         else answer (write_redemption_error True) (\<lambda>v. write_json 200 (VLookup v))
           (on_db (lookup hasher (map_option (\<lambda>v. v (dp_env dp)) staff) u
              (trim_space (dereference p))) st))))"

record scan_request =
  sq_token :: "string option"
  sq_checkpoint :: "string option"
  sq_key :: "string option"

definition scan_fields :: "scan_request field list" where
  "scan_fields =
     [(''qrToken'', string_pointer sq_token_update), (''checkpointId'', string_pointer sq_checkpoint_update),
      (''idempotencyKey'', string_pointer sq_key_update)]"

definition scanner_redemption_handler :: "'s deps \<Rightarrow> 's handler" where
  "scanner_redemption_handler dp =
     with_role dp RoleScanner (\<lambda>u. with_dependency not_ready (dp_redemptions dp) (\<lambda>(hasher, _).
       with_body dp scan_fields \<lparr>sq_token = None, sq_checkpoint = None, sq_key = None\<rparr> invalid_body
         (\<lambda>p req st.
            if \<not> filled (sq_token p) \<or> \<not> filled (sq_checkpoint p) \<or> \<not> filled (sq_key p)
            then (invalid_body, st)
            else answer (write_redemption_error False) (\<lambda>v. write_json 200 (VScan v))
              (on_db (redeem hasher (dp_env dp) (dp_entropy dp) u
                 \<lparr>re_token = trim_space (dereference (sq_token p)),
                  re_checkpoint = trim_space (dereference (sq_checkpoint p)),
                  re_key = trim_space (dereference (sq_key p))\<rparr>) st))))"

section \<open>Staff passes\<close>

definition staff_pass_handler :: "'s deps \<Rightarrow> 's handler" where
  "staff_pass_handler dp =
     with_role dp RoleApplicant (\<lambda>u. with_dependency not_ready (dp_staff_passes dp) (\<lambda>(ps, lower) req st.
       answer write_pass_error (\<lambda>v. write_json 200 (VStaffPass v))
         (on_db (ensure_staff_pass ps lower (dp_env dp) (dr_id (dp_draws dp)) u) st)))"

end
