(* ===== verification/Server.thy ===== *)
theory Server
  imports HttpEvent
begin

text \<open>
  The assembled API: the route table of \<^verbatim>\<open>NewHandlerWithDependencies\<close>, its middleware
  (\<^verbatim>\<open>securityHeaders\<close>, \<^verbatim>\<open>cors\<close>) and the theorems about every route at once: what a caller
  without a verified token, or without the route's role, can make the server do.
\<close>

section \<open>Patterns\<close>

text \<open>A pattern of \<^verbatim>\<open>http.ServeMux\<close>: literal segments and wildcards, which match one nonempty
  segment. No two patterns of one method overlap, so their order does not matter.\<close>

datatype segment = Lit string | Wild string

fun match_path :: "segment list \<Rightarrow> string list \<Rightarrow> (string \<times> string) list option" where
  "match_path [] [] = Some []"
| "match_path (Lit l # ps) (s # ss) = (if s = l then match_path ps ss else None)"
| "match_path (Wild n # ps) (s # ss) =
     (if s = [] then None else map_option ((#) (n, s)) (match_path ps ss))"
| "match_path _ _ = None"

text \<open>A \<^verbatim>\<open>GET\<close> pattern also serves \<^verbatim>\<open>HEAD\<close>.\<close>

definition method_matches :: "string \<Rightarrow> string \<Rightarrow> bool" where
  "method_matches pattern m = (m = pattern \<or> pattern = ''GET'' \<and> m = ''HEAD'')"

type_synonym 's route = "string \<times> segment list \<times> 's handler"

definition under :: "string \<Rightarrow> segment list \<Rightarrow> segment list" where
  "under part ps = Lit ''v1'' # Lit part # ps"

definition public_routes :: "string \<Rightarrow> 's deps \<Rightarrow> 's route list" where
  "public_routes version dp =
    [(''GET'', [], reply (write_json 200 (VService ''hackatlantic-ats-api'' version))),
     (''GET'', [Lit ''healthz''], reply (write_json 200 (VHealth ''ok''))),
     (''GET'', [Lit ''versionz''], reply (write_json 200 (VBuild (dp_build dp)))),
     (''GET'', [Lit ''readyz''], ready_handler dp),
     (''GET'', under ''claim'' [Wild ''claimToken''], claim_pass_handler dp)]"

definition me_route :: "'s deps \<Rightarrow> 's route" where
  "me_route dp = (''GET'', under ''me'' [], me_handler dp)"

definition application_routes :: "'s deps \<Rightarrow> 's route list" where
  "application_routes dp =
    [(''GET'', under ''application-forms'' [Lit ''current''], current_application_form_handler dp),
     (''POST'', under ''applications'' [], create_application_handler dp),
     (''GET'', under ''applications'' [Lit ''mine''], list_my_applications_handler dp),
     (''PUT'', under ''applications'' [Wild ''applicationId'', Lit ''draft''], save_application_draft_handler dp),
     (''POST'', under ''applications'' [Wild ''applicationId'', Lit ''submit''], submit_application_handler dp),
     (''PUT'', under ''applications'' [Wild ''applicationId'', Lit ''resume''], upload_application_resume_handler dp),
     (''GET'', under ''applications'' [Wild ''applicationId'', Lit ''resume''], get_applicant_resume_handler dp),
     (''GET'', under ''applications'' [Wild ''applicationId'', Lit ''decision''], get_applicant_decision_handler dp),
     (''GET'', under ''applications'' [Wild ''applicationId'', Lit ''rsvp''], applicant_rsvp_handler dp),
     (''PUT'', under ''applications'' [Wild ''applicationId'', Lit ''rsvp''], applicant_rsvp_handler dp),
     (''GET'', under ''volunteer'' [Lit ''request''], volunteer_request_handler dp),
     (''POST'', under ''volunteer'' [Lit ''request''], volunteer_request_handler dp),
     (''GET'', under ''attendee'' [Lit ''pass''], web_pass_handler dp),
     (''POST'', under ''staff'' [Lit ''pass''], staff_pass_handler dp)]"

definition scanner_routes :: "'s deps \<Rightarrow> 's route list" where
  "scanner_routes dp =
    [(''GET'', under ''checkpoints'' [], list_scanner_checkpoints_handler dp),
     (''POST'', under ''scans'' [Lit ''lookup''], scanner_lookup_handler dp),
     (''POST'', under ''redemptions'' [], scanner_redemption_handler dp)]"

definition reviewer_routes :: "'s deps \<Rightarrow> 's route list" where
  "reviewer_routes dp =
    [(''GET'', under ''reviewer'' [Lit ''assignments''], list_reviewer_applications_handler dp),
     (''GET'', under ''reviewer'' [Lit ''applications'', Wild ''applicationId''], get_reviewer_application_handler dp),
     (''PUT'', under ''reviewer'' [Lit ''applications'', Wild ''applicationId'', Lit ''review''], save_review_draft_handler dp),
     (''POST'', under ''reviewer'' [Lit ''applications'', Wild ''applicationId'', Lit ''review'', Lit ''submit''], submit_review_handler dp)]"

abbreviation admin :: "segment list \<Rightarrow> segment list" where
  "admin \<equiv> under ''admin''"

definition admin_routes :: "'s deps \<Rightarrow> 's route list" where
  "admin_routes dp =
    [(''GET'', admin [Lit ''applications''], list_organizer_applications_handler dp),
     (''GET'', admin [Lit ''applications'', Wild ''applicationId''], get_organizer_application_handler dp),
     (''GET'', admin [Lit ''applications'', Wild ''applicationId'', Lit ''resume''], get_admin_resume_handler dp),
     (''POST'', admin [Lit ''applications'', Wild ''applicationId'', Lit ''assignments''], assign_reviewer_handler dp),
     (''PUT'', admin [Lit ''users'', Wild ''userId'', Lit ''roles'', Lit ''reviewer''], grant_reviewer_role_handler dp),
     (''POST'', admin [Lit ''users'', Lit ''scanner-access'', Lit ''lookup''], lookup_scanner_user_handler dp),
     (''GET'', admin [Lit ''volunteer-requests''], volunteer_queue_handler dp),
     (''PUT'', admin [Lit ''volunteer-requests'', Wild ''userId''], volunteer_review_handler dp),
     (''PUT'', admin [Lit ''users'', Wild ''userId'', Lit ''roles'', Lit ''scanner''], grant_scanner_role_handler dp),
     (''DELETE'', admin [Lit ''users'', Wild ''userId'', Lit ''roles'', Lit ''scanner''], revoke_scanner_role_handler dp),
     (''POST'', admin [Lit ''applications'', Wild ''applicationId'', Lit ''decisions''], record_decision_handler dp),
     (''POST'', admin [Lit ''decisions'', Wild ''decisionId'', Lit ''release''], release_decision_handler dp),
     (''POST'', admin [Lit ''attendees'', Wild ''attendeeId'', Lit ''passes''], issue_pass_handler dp),
     (''POST'', admin [Lit ''passes'', Wild ''passId'', Lit ''reissue''], reissue_pass_handler dp),
     (''POST'', admin [Lit ''passes'', Wild ''passId'', Lit ''revoke''], revoke_pass_handler dp),
     (''GET'', admin [Lit ''activities''], list_activities_handler dp),
     (''POST'', admin [Lit ''activities''], create_activity_handler dp),
     (''PATCH'', admin [Lit ''activities'', Wild ''activityId''], update_activity_handler dp),
     (''DELETE'', admin [Lit ''activities'', Wild ''activityId''], delete_activity_handler dp),
     (''GET'', admin [Lit ''checkpoints''], list_checkpoints_handler dp),
     (''GET'', admin [Lit ''attendance-summary''], attendance_summary_handler dp),
     (''POST'', admin [Lit ''check-in'', Lit ''entrance''], enable_entrance_handler dp),
     (''POST'', admin [Lit ''checkpoints''], create_checkpoint_handler dp),
     (''PATCH'', admin [Lit ''checkpoints'', Wild ''checkpointId''], update_checkpoint_handler dp),
     (''DELETE'', admin [Lit ''checkpoints'', Wild ''checkpointId''], delete_checkpoint_handler dp),
     (''GET'', admin [Lit ''attendees'', Wild ''attendeeId'', Lit ''entitlements'', Wild ''checkpointId''], get_entitlement_handler dp),
     (''PUT'', admin [Lit ''attendees'', Wild ''attendeeId'', Lit ''entitlements'', Wild ''checkpointId''], put_entitlement_handler dp),
     (''DELETE'', admin [Lit ''attendees'', Wild ''attendeeId'', Lit ''entitlements'', Wild ''checkpointId''], delete_entitlement_handler dp),
     (''GET'', admin [Lit ''redemptions'', Lit ''counts''], list_checkpoint_counts_handler dp),
     (''GET'', admin [Lit ''redemptions''], list_redemptions_handler dp),
     (''GET'', admin [Lit ''exports'', Lit ''attendance.csv''], export_redemptions_handler dp ExportAttendance),
     (''GET'', admin [Lit ''exports'', Lit ''reconciliation.csv''], export_redemptions_handler dp ExportReconciliation)]"

definition routes :: "string \<Rightarrow> 's deps \<Rightarrow> 's route list" where
  "routes version dp = public_routes version dp @ me_route dp # application_routes dp @ scanner_routes dp @
     reviewer_routes dp @ admin_routes dp"

section \<open>Dispatch and middleware\<close>

definition route_matches :: "request \<Rightarrow> 's route \<Rightarrow> bool" where
  "route_matches req = (\<lambda>(m, p, _). method_matches m (hr_method req) \<and> match_path p (hr_segments req) \<noteq> None)"

text \<open>\<^verbatim>\<open>http.Error\<close>, which the mux answers with when no pattern fits.\<close>

definition http_error :: "int \<Rightarrow> string \<Rightarrow> (string \<times> string) list \<Rightarrow> response" where
  "http_error status message hs =
     \<lparr>hs_status = status,
      hs_headers = hs @ [(''Content-Type'', ''text/plain; charset=utf-8''),
        (''X-Content-Type-Options'', ''nosniff'')],
      hs_body = RawBody (byte_string (message @ [CHR 0x0A]))\<rparr>"

definition join_comma :: "string list \<Rightarrow> string" where
  "join_comma ss = concat (case ss of [] \<Rightarrow> [] | s # rest \<Rightarrow> s # map (\<lambda>t. '', '' @ t) rest)"

text \<open>The methods some pattern serves at this path, in alphabetical order.\<close>

definition allowed_methods :: "string \<Rightarrow> 's deps \<Rightarrow> request \<Rightarrow> string list" where
  "allowed_methods version dp req =
     filter (\<lambda>m. list_ex (route_matches (req\<lparr>hr_method := m\<rparr>)) (routes version dp))
       [''DELETE'', ''GET'', ''HEAD'', ''PATCH'', ''POST'', ''PUT'']"

definition dispatch :: "string \<Rightarrow> 's deps \<Rightarrow> 's handler" where
  "dispatch version dp req st =
     (case List.find (route_matches req) (routes version dp) of
        Some (_, p, h) \<Rightarrow> h (req\<lparr>hr_path := the (match_path p (hr_segments req))\<rparr>) st
      | None \<Rightarrow>
          (case allowed_methods version dp req of
             [] \<Rightarrow> (http_error 404 ''404 page not found'' [], st)
           | ms \<Rightarrow> (http_error 405 ''Method Not Allowed'' [(''Allow'', join_comma ms)], st)))"

text \<open>The headers a middleware sets before it calls on; a later \<^verbatim>\<open>Header().Set\<close> replaces them.\<close>

definition add_headers :: "(string \<times> string) list \<Rightarrow> response \<Rightarrow> response" where
  "add_headers hs r =
     r\<lparr>hs_headers := filter (\<lambda>(n, _). map_of (hs_headers r) n = None) hs @ hs_headers r\<rparr>"

lemma add_headers_simps [simp]:
  "hs_status (add_headers hs r) = hs_status r" "hs_body (add_headers hs r) = hs_body r"
  by (simp_all add: add_headers_def)

definition allowed_origins :: "'s deps \<Rightarrow> string list" where
  "allowed_origins dp = filter (\<lambda>x. x \<noteq> []) (map trim_space (dp_origins dp))"

definition cors :: "'s deps \<Rightarrow> 's handler \<Rightarrow> 's handler" where
  "cors dp k req st =
     (let origin = hr_header req ''Origin'';
          hs = (if origin \<in> set (allowed_origins dp)
            then [(''Access-Control-Allow-Origin'', origin),
                  (''Access-Control-Allow-Credentials'', ''true''),
                  (''Access-Control-Allow-Headers'', ''Authorization, Content-Type, X-File-Name''),
                  (''Access-Control-Allow-Methods'', ''GET, POST, PUT, PATCH, DELETE, OPTIONS'')]
            else [])
      in if hr_method req = ''OPTIONS'' then (add_headers hs no_content, st)
         else (case k req st of (r, st') \<Rightarrow> (add_headers hs r, st')))"

definition security_headers :: "'s handler \<Rightarrow> 's handler" where
  "security_headers k req st =
     (case k req st of (r, st') \<Rightarrow>
        (add_headers [(''Content-Security-Policy'', ''default-src '' @ [CHR 0x27] @ ''none'' @ [CHR 0x27]),
           (''X-Content-Type-Options'', ''nosniff''), (''X-Frame-Options'', ''DENY''),
           (''Cache-Control'', ''no-store'')] r, st'))"

text \<open>The build information with its defaults, and the whole handler.\<close>

definition build_defaults :: "string \<Rightarrow> build_info \<Rightarrow> build_info" where
  "build_defaults version b =
     \<lparr>bi_version = (if trim_space (bi_version b) = [] then version else bi_version b),
      bi_sha = (if trim_space (bi_sha b) = [] then ''unknown'' else bi_sha b),
      bi_built = (if trim_space (bi_built b) = [] then ''unknown'' else bi_built b),
      bi_environment = (if trim_space (bi_environment b) = [] then ''development'' else bi_environment b)\<rparr>"

definition api :: "string \<Rightarrow> 's deps \<Rightarrow> 's handler" where
  "api version dp =
     (let dp' = dp\<lparr>dp_build := build_defaults version (dp_build dp)\<rparr>
      in security_headers (cors dp' (dispatch version dp')))"

section \<open>Every protected route is guarded\<close>

definition guarded :: "'s deps \<Rightarrow> role set \<Rightarrow> 's handler \<Rightarrow> bool" where
  "guarded dp R h \<longleftrightarrow> (\<exists>r\<in>R. \<exists>k. h = with_role dp r k)"

lemma guarded_with_role [simp]: "r \<in> R \<Longrightarrow> guarded dp R (with_role dp r k)"
  by (auto simp: guarded_def)

lemma guarded_with_applicant [simp]: "RoleApplicant \<in> R \<Longrightarrow> guarded dp R (with_applicant dp k)"
  by (simp add: with_applicant_def)

lemma refusal_status: "hs_status (role_refusal r) = 403"
  by (simp add: role_refusal_def response_defs split: role.split)

lemma with_role_refused_status:
  assumes "case caller dp req st of None \<Rightarrow> True | Some u \<Rightarrow> \<not> has_role u r"
  shows "snd (with_role dp r k req st) = signed_in dp req st"
    and "hs_status (fst (with_role dp r k req st)) \<in> {401, 403, 503}"
  unfolding with_role_refused [OF assms]
  by (simp_all add: refusal_status unauthenticated_def identity_unavailable_def response_defs
      split: option.split)

lemma guarded_refuses:
  assumes "guarded dp R h"
    and "\<forall>r\<in>R. case caller dp req st of None \<Rightarrow> True | Some u \<Rightarrow> \<not> has_role u r"
  shows "snd (h req st) = signed_in dp req st" and "hs_status (fst (h req st)) \<in> {401, 403, 503}"
proof -
  obtain r k where r: "r \<in> R" and h: "h = with_role dp r k" using assms(1) by (auto simp: guarded_def)
  have refused: "case caller dp req st of None \<Rightarrow> True | Some u \<Rightarrow> \<not> has_role u r"
    using assms(2) r by blast
  show "snd (h req st) = signed_in dp req st" "hs_status (fst (h req st)) \<in> {401, 403, 503}"
    unfolding h using with_role_refused_status [OF refused] by blast+
qed

lemma applicant_handlers_guarded [simp]:
  "guarded dp {RoleApplicant} (current_application_form_handler dp)"
  "guarded dp {RoleApplicant} (create_application_handler dp)"
  "guarded dp {RoleApplicant} (list_my_applications_handler dp)"
  "guarded dp {RoleApplicant} (save_application_draft_handler dp)"
  "guarded dp {RoleApplicant} (submit_application_handler dp)"
  "guarded dp {RoleApplicant} (upload_application_resume_handler dp)"
  "guarded dp {RoleApplicant} (get_applicant_resume_handler dp)"
  "guarded dp {RoleApplicant} (get_applicant_decision_handler dp)"
  "guarded dp {RoleApplicant} (applicant_rsvp_handler dp)"
  "guarded dp {RoleApplicant} (volunteer_request_handler dp)"
  "guarded dp {RoleApplicant} (web_pass_handler dp)"
  "guarded dp {RoleApplicant} (staff_pass_handler dp)"
  by (simp_all add:
      current_application_form_handler_def create_application_handler_def
      list_my_applications_handler_def save_application_draft_handler_def
      submit_application_handler_def upload_application_resume_handler_def
      get_applicant_resume_handler_def get_applicant_decision_handler_def applicant_rsvp_handler_def
      volunteer_request_handler_def web_pass_handler_def staff_pass_handler_def)

lemma reviewer_handlers_guarded [simp]:
  "guarded dp {RoleReviewer} (list_reviewer_applications_handler dp)"
  "guarded dp {RoleReviewer} (get_reviewer_application_handler dp)"
  "guarded dp {RoleReviewer} (save_review_draft_handler dp)"
  "guarded dp {RoleReviewer} (submit_review_handler dp)"
  by (simp_all add: list_reviewer_applications_handler_def get_reviewer_application_handler_def
      save_review_draft_handler_def submit_review_handler_def)

lemma scanner_handlers_guarded [simp]:
  "guarded dp {RoleScanner} (list_scanner_checkpoints_handler dp)"
  "guarded dp {RoleScanner} (scanner_lookup_handler dp)"
  "guarded dp {RoleScanner} (scanner_redemption_handler dp)"
  by (simp_all add: list_scanner_checkpoints_handler_def scanner_lookup_handler_def
      scanner_redemption_handler_def)

lemma admin_handlers_guarded [simp]:
  "guarded dp {RoleOrganizer, RoleAdmin} (list_organizer_applications_handler dp)"
  "guarded dp {RoleOrganizer, RoleAdmin} (get_organizer_application_handler dp)"
  "guarded dp {RoleOrganizer, RoleAdmin} (get_admin_resume_handler dp)"
  "guarded dp {RoleOrganizer, RoleAdmin} (assign_reviewer_handler dp)"
  "guarded dp {RoleOrganizer, RoleAdmin} (grant_reviewer_role_handler dp)"
  "guarded dp {RoleOrganizer, RoleAdmin} (lookup_scanner_user_handler dp)"
  "guarded dp {RoleOrganizer, RoleAdmin} (volunteer_queue_handler dp)"
  "guarded dp {RoleOrganizer, RoleAdmin} (volunteer_review_handler dp)"
  "guarded dp {RoleOrganizer, RoleAdmin} (grant_scanner_role_handler dp)"
  "guarded dp {RoleOrganizer, RoleAdmin} (revoke_scanner_role_handler dp)"
  "guarded dp {RoleOrganizer, RoleAdmin} (record_decision_handler dp)"
  "guarded dp {RoleOrganizer, RoleAdmin} (release_decision_handler dp)"
  "guarded dp {RoleOrganizer, RoleAdmin} (issue_pass_handler dp)"
  "guarded dp {RoleOrganizer, RoleAdmin} (reissue_pass_handler dp)"
  "guarded dp {RoleOrganizer, RoleAdmin} (revoke_pass_handler dp)"
  "guarded dp {RoleOrganizer, RoleAdmin} (list_activities_handler dp)"
  "guarded dp {RoleOrganizer, RoleAdmin} (create_activity_handler dp)"
  "guarded dp {RoleOrganizer, RoleAdmin} (update_activity_handler dp)"
  "guarded dp {RoleOrganizer, RoleAdmin} (delete_activity_handler dp)"
  "guarded dp {RoleOrganizer, RoleAdmin} (list_checkpoints_handler dp)"
  "guarded dp {RoleOrganizer, RoleAdmin} (attendance_summary_handler dp)"
  "guarded dp {RoleOrganizer, RoleAdmin} (enable_entrance_handler dp)"
  "guarded dp {RoleOrganizer, RoleAdmin} (create_checkpoint_handler dp)"
  "guarded dp {RoleOrganizer, RoleAdmin} (update_checkpoint_handler dp)"
  "guarded dp {RoleOrganizer, RoleAdmin} (delete_checkpoint_handler dp)"
  "guarded dp {RoleOrganizer, RoleAdmin} (get_entitlement_handler dp)"
  "guarded dp {RoleOrganizer, RoleAdmin} (put_entitlement_handler dp)"
  "guarded dp {RoleOrganizer, RoleAdmin} (delete_entitlement_handler dp)"
  "guarded dp {RoleOrganizer, RoleAdmin} (list_checkpoint_counts_handler dp)"
  "guarded dp {RoleOrganizer, RoleAdmin} (list_redemptions_handler dp)"
  "guarded dp {RoleOrganizer, RoleAdmin} (export_redemptions_handler dp kind)"
  by (simp_all add: list_organizer_applications_handler_def get_organizer_application_handler_def
      get_admin_resume_handler_def assign_reviewer_handler_def grant_reviewer_role_handler_def
      lookup_scanner_user_handler_def volunteer_queue_handler_def volunteer_review_handler_def
      grant_scanner_role_handler_def revoke_scanner_role_handler_def
      record_decision_handler_def release_decision_handler_def issue_pass_handler_def
      reissue_pass_handler_def revoke_pass_handler_def list_activities_handler_def
      create_activity_handler_def update_activity_handler_def delete_activity_handler_def
      list_checkpoints_handler_def attendance_summary_handler_def enable_entrance_handler_def
      create_checkpoint_handler_def update_checkpoint_handler_def delete_checkpoint_handler_def
      get_entitlement_handler_def put_entitlement_handler_def delete_entitlement_handler_def
      list_checkpoint_counts_handler_def list_redemptions_handler_def
      export_redemptions_handler_def)

text \<open>The roles that open a path: whoever has none of them is refused.\<close>

definition required_roles :: "string list \<Rightarrow> role set option" where
  "required_roles segs =
     (case segs of
        v # part # _ \<Rightarrow>
          if v \<noteq> ''v1'' \<or> part = ''me'' \<or> part = ''claim'' then None
          else Some (if part = ''admin'' then {RoleOrganizer, RoleAdmin}
            else if part = ''reviewer'' then {RoleReviewer}
            else if part \<in> {''checkpoints'', ''scans'', ''redemptions''} then {RoleScanner}
            else {RoleApplicant})
      | _ \<Rightarrow> None)"

definition route_guarded :: "'s deps \<Rightarrow> 's route \<Rightarrow> bool" where
  "route_guarded dp = (\<lambda>(_, p, h).
     (case p of
        Lit v # Lit part # _ \<Rightarrow> \<forall>rest R. required_roles (v # part # rest) = Some R \<longrightarrow> guarded dp R h
      | [] \<Rightarrow> True
      | [Lit _] \<Rightarrow> True
      | _ \<Rightarrow> False))"

lemma all_routes_guarded: "list_all (route_guarded dp) (routes version dp)"
  by (simp add: routes_def public_routes_def me_route_def application_routes_def scanner_routes_def
      reviewer_routes_def admin_routes_def route_guarded_def under_def required_roles_def)

lemma route_guarded_roles:
  assumes "route_guarded dp (m, p, h)" and "match_path p (v # part # rest) = Some b"
    and "required_roles (v # part # rest) = Some R"
  shows "guarded dp R h"
proof -
  from assms(1) consider "p = []" | l where "p = [Lit l]" | a c ps where "p = Lit a # Lit c # ps"
    unfolding route_guarded_def
    by (cases p; cases "hd p"; cases "tl p"; cases "hd (tl p)") auto
  then show ?thesis
  proof cases
    case (3 a c ps)
    then have "a = v" "c = part" using assms(2) by (auto split: if_splits)
    then show ?thesis using assms(1,3) by (simp add: 3 route_guarded_def)
  qed (use assms(2) in \<open>auto split: if_splits\<close>)
qed

lemma find_route:
  assumes "List.find (route_matches req) (routes version dp) = Some (m, p, h)"
    and "required_roles (hr_segments req) = Some R"
  shows "guarded dp R h"
proof -
  have "(m, p, h) \<in> set (routes version dp)" and fits: "route_matches req (m, p, h)"
    using assms(1) by (auto simp: find_Some_iff)
  then have "route_guarded dp (m, p, h)"
    using all_routes_guarded [of dp version] by (simp add: list_all_iff)
  moreover obtain b where "match_path p (hr_segments req) = Some b"
    using fits by (auto simp: route_matches_def)
  moreover obtain v part rest where "hr_segments req = v # part # rest"
    using assms(2) by (simp add: required_roles_def split: list.splits)
  ultimately show ?thesis
    using assms(2) route_guarded_roles by metis
qed

lemma caller_request [simp]:
  "caller (dp\<lparr>dp_build := b\<rparr>) req st = caller dp req st"
  "signed_in (dp\<lparr>dp_build := b\<rparr>) req st = signed_in dp req st"
  "caller dp (req\<lparr>hr_path := q\<rparr>) st = caller dp req st"
  "signed_in dp (req\<lparr>hr_path := q\<rparr>) st = signed_in dp req st"
  by (simp_all add: caller_def signed_in_def principal_def verify_token_def sign_in_def
      split: option.split)

lemma dispatch_refuses:
  assumes roles: "required_roles (hr_segments req) = Some R"
    and refused: "\<forall>r\<in>R. case caller dp req st of None \<Rightarrow> True | Some u \<Rightarrow> \<not> has_role u r"
    and run: "dispatch version dp req st = (resp, st')"
  shows "st' \<in> {st, signed_in dp req st}" and "hs_status resp \<in> {401, 403, 404, 405, 503}"
proof -
  have "st' \<in> {st, signed_in dp req st} \<and> hs_status resp \<in> {401, 403, 404, 405, 503}"
  proof (cases "List.find (route_matches req) (routes version dp)")
    case None
    then show ?thesis
      using run by (auto simp: dispatch_def http_error_def split: list.splits)
  next
    case (Some route)
    obtain m p h where route: "route = (m, p, h)" by (cases route)
    let ?req = "req\<lparr>hr_path := the (match_path p (hr_segments req))\<rparr>"
    have "guarded dp R h" using find_route Some roles unfolding route by blast
    then have "snd (h ?req st) = signed_in dp ?req st" "hs_status (fst (h ?req st)) \<in> {401, 403, 503}"
      using guarded_refuses [of dp R h ?req st] refused by simp_all
    then show ?thesis using run Some by (auto simp: dispatch_def route)
  qed
  then show "st' \<in> {st, signed_in dp req st}" "hs_status resp \<in> {401, 403, 404, 405, 503}" by blast+
qed

text \<open>C30. Authorization of the whole API: a request to any path under \<^verbatim>\<open>/v1\<close> other than
  \<^verbatim>\<open>/v1/me\<close> and \<^verbatim>\<open>/v1/claim\<close>, by a caller who proves no identity or who has none of the roles the
  path is for (the organizer or admin role under \<^verbatim>\<open>admin\<close>, the reviewer, scanner or applicant
  role elsewhere), is answered with 401, 403, 404, 405 or 503, or is a preflight; the only change
  it can make is the reconciliation of the caller's own sign-in, and without a verified token it
  changes nothing. The resumes and the limiter stay as they were.\<close>

theorem api_guard:
  assumes "required_roles (hr_segments req) = Some R"
    and "\<forall>r\<in>R. case caller dp req st of None \<Rightarrow> True | Some u \<Rightarrow> \<not> has_role u r"
    and "api version dp req st = (resp, st')"
  shows "(hs_status resp \<in> {401, 403, 404, 405, 503} \<or>
       hs_status resp = 204 \<and> hr_method req = ''OPTIONS'' \<and> hs_body resp = EmptyBody) \<and>
     st' \<in> {st, signed_in dp req st} \<and> (principal dp req = None \<longrightarrow> st' = st) \<and>
     as_store st' = as_store st \<and> as_limiter st' = as_limiter st"
proof -
  let ?dp = "dp\<lparr>dp_build := build_defaults version (dp_build dp)\<rparr>"
  obtain r where run: "cors ?dp (dispatch version ?dp) req st = (r, st')"
    and status: "hs_status resp = hs_status r" "hs_body resp = hs_body r"
    using assms(3) by (auto simp: api_def security_headers_def Let_def split: prod.splits)
  have "(hs_status r \<in> {401, 403, 404, 405, 503} \<or>
       hs_status r = 204 \<and> hr_method req = ''OPTIONS'' \<and> hs_body r = EmptyBody) \<and>
     st' \<in> {st, signed_in dp req st}"
  proof (cases "hr_method req = ''OPTIONS''")
    case True
    then show ?thesis using run by (auto simp: cors_def Let_def no_content_def)
  next
    case False
    then obtain r' where r': "dispatch version ?dp req st = (r', st')" and "hs_status r = hs_status r'"
      using run by (auto simp: cors_def Let_def split: prod.splits)
    then show ?thesis
      using dispatch_refuses [OF assms(1) _ r'] assms(2) by simp
  qed
  then show ?thesis
    using signed_in_none [of dp req st] by (auto simp: status)
qed

section \<open>No pattern hides another\<close>

fun overlap :: "segment list \<Rightarrow> segment list \<Rightarrow> bool" where
  "overlap [] [] = True"
| "overlap (Lit a # ps) (Lit b # qs) = (a = b \<and> overlap ps qs)"
| "overlap (_ # ps) (_ # qs) = overlap ps qs"
| "overlap _ _ = False"

lemma match_path_Some:
  "match_path [] s = Some b \<longleftrightarrow> s = [] \<and> b = []"
  "match_path (Lit l # ps) s = Some b \<longleftrightarrow> (\<exists>ss. s = l # ss \<and> match_path ps ss = Some b)"
  "match_path (Wild n # ps) s = Some b \<longleftrightarrow>
     (\<exists>x ss c. s = x # ss \<and> x \<noteq> [] \<and> match_path ps ss = Some c \<and> b = (n, x) # c)"
  by (cases s; auto)+

lemma match_path_tail: "match_path (u # ps) (x # ss) = Some b \<Longrightarrow> \<exists>c. match_path ps ss = Some c"
  by (cases u) (auto split: if_splits)

lemma match_both_overlap:
  "match_path p s = Some b \<Longrightarrow> match_path q s = Some c \<Longrightarrow> overlap p q"
  by (induction p q arbitrary: s b c rule: overlap.induct) (auto simp: match_path_Some dest!: match_path_tail)

definition apart :: "string \<times> segment list \<Rightarrow> string \<times> segment list \<Rightarrow> bool" where
  "apart x y = (fst x \<noteq> fst y \<or> \<not> overlap (snd x) (snd y))"

definition pattern_of :: "'s route \<Rightarrow> string \<times> segment list" where
  "pattern_of = (\<lambda>(m, p, _). (m, p))"

lemma patterns_apart: "sorted_wrt apart (map pattern_of (routes version dp))"
  unfolding routes_def public_routes_def me_route_def application_routes_def scanner_routes_def
    reviewer_routes_def admin_routes_def list.map append.simps pattern_of_def prod.case under_def
  by code_simp

lemma no_head_patterns: "list_all (\<lambda>x. fst x \<noteq> ''HEAD'') (map pattern_of (routes version dp))"
  unfolding routes_def public_routes_def me_route_def application_routes_def scanner_routes_def
    reviewer_routes_def admin_routes_def list.map append.simps pattern_of_def prod.case under_def
  by code_simp

lemma no_head_route: "(m, p, h) \<in> set (routes version dp) \<Longrightarrow> m \<noteq> ''HEAD''"
  using no_head_patterns [of version dp] by (auto simp: list_all_iff pattern_of_def)

lemma one_route:
  assumes "i < length (routes version dp)" "j < length (routes version dp)"
    and "route_matches req (routes version dp ! i)" "route_matches req (routes version dp ! j)"
  shows "i = j"
proof -
  have clash: False if "i < j" "j < length (routes version dp)"
    "route_matches req (routes version dp ! i)" "route_matches req (routes version dp ! j)" for i j
  proof -
    obtain m p h where i: "routes version dp ! i = (m, p, h)" by (cases "routes version dp ! i")
    obtain n q k where j: "routes version dp ! j = (n, q, k)" by (cases "routes version dp ! j")
    have "m \<noteq> ''HEAD''" using nth_mem [of i "routes version dp"] that(1,2) no_head_route by (simp add: i)
    moreover have "n \<noteq> ''HEAD''" using nth_mem [OF that(2)] no_head_route by (simp add: j)
    moreover have "method_matches m (hr_method req)" "method_matches n (hr_method req)"
      and "overlap p q"
      using that(3,4) match_both_overlap by (auto simp: i j route_matches_def)
    ultimately have "m = n" and "overlap p q" by (auto simp: method_matches_def)
    moreover have "apart (m, p) (n, q)"
      using sorted_wrt_nth_less [OF patterns_apart [of version dp] that(1)] that(1,2)
      by (simp add: i j pattern_of_def)
    ultimately show False by (simp add: apart_def)
  qed
  show ?thesis using clash [of i j] clash [of j i] assms by (cases i j rule: linorder_cases) auto
qed

lemma find_exact:
  assumes "(m, p, h) \<in> set (routes version dp)"
    and "method_matches m (hr_method req)" and "match_path p (hr_segments req) = Some b"
  shows "List.find (route_matches req) (routes version dp) = Some (m, p, h)"
proof -
  have fits: "route_matches req (m, p, h)" using assms(2,3) by (simp add: route_matches_def)
  obtain j where j: "j < length (routes version dp)" "routes version dp ! j = (m, p, h)"
    using assms(1) by (auto simp: in_set_conv_nth)
  have "List.find (route_matches req) (routes version dp) \<noteq> None"
    using assms(1) fits by (auto simp: find_None_iff)
  then obtain i where "i < length (routes version dp)" "route_matches req (routes version dp ! i)"
    and i: "List.find (route_matches req) (routes version dp) = Some (routes version dp ! i)"
    by (auto simp: find_Some_iff)
  then have "i = j" using one_route j fits by metis
  then show ?thesis using i j by simp
qed

text \<open>The route table is unambiguous: a request that fits a pattern is served by exactly that
  pattern's handler, with the values its wildcards bind, whatever else the table holds.\<close>

theorem dispatch_exact:
  assumes "(m, p, h) \<in> set (routes version dp)"
    and "method_matches m (hr_method req)" and "match_path p (hr_segments req) = Some b"
  shows "dispatch version dp req st = h (req\<lparr>hr_path := b\<rparr>) st"
  using find_exact [OF assms] assms(3) by (simp add: dispatch_def)

text \<open>Dependencies with a verifier and a profile source only: every other service is missing.\<close>

definition sample_dependencies :: "unit deps" where
  "sample_dependencies =
     \<lparr>dp_build = \<lparr>bi_version = [], bi_sha = [], bi_built = [], bi_environment = []\<rparr>,
      dp_ready = None, dp_verifier = Some (\<lambda>t. if t = ''t'' then Some ''b'' else None),
      dp_users = Some sample_profiles, dp_staff_roles = None, dp_volunteers = None,
      dp_applications = False, dp_reviews = None, dp_decisions = False, dp_rsvps = False,
      dp_passes = None, dp_staff_passes = None, dp_checkpoints = None, dp_redemptions = None,
      dp_operations = None, dp_resumes = None, dp_origins = [''https://hackatlantic.ca''],
      dp_sign_in = sample_env, dp_env = sample_env, dp_draws = sample_draws,
      dp_entropy = sample_entropy, dp_nanos = 0, dp_parse_json = (\<lambda>_. None),
      dp_parse_time = (\<lambda>_. None), dp_format_time = (\<lambda>_. []), dp_split_host = Some,
      dp_parse_ip = Some, dp_trusted = (\<lambda>_. False)\<rparr>"

definition sample_request :: request where
  "sample_request = \<lparr>hr_method = ''POST'', hr_segments = [''v1'', ''admin'', ''passes'', ''x'', ''revoke''],
     hr_path = [], hr_auth = [''Bearer t''], hr_header = (\<lambda>_. []), hr_query = [],
     hr_remote = ''10.0.0.1'', hr_body = Some []\<rparr>"

definition sample_state :: "unit api_state" where
  "sample_state = \<lparr>as_db = sample_users_db, as_store = (), as_limiter = new_claim_rate_limiter 10 1 10\<rparr>"

lemma sample_caller:
  "case caller sample_dependencies sample_request sample_state of None \<Rightarrow> False
   | Some u \<Rightarrow> \<not> has_role u RoleOrganizer \<and> \<not> has_role u RoleAdmin"
  by code_simp

theorem api_guard_witness:
  "case api ''v'' sample_dependencies sample_request sample_state of (resp, st') \<Rightarrow>
     hs_status resp \<in> {401, 403, 404, 405, 503} \<and>
     st' \<in> {sample_state, signed_in sample_dependencies sample_request sample_state}"
proof -
  obtain resp st' where run: "api ''v'' sample_dependencies sample_request sample_state = (resp, st')"
    by (cases "api ''v'' sample_dependencies sample_request sample_state")
  have "required_roles (hr_segments sample_request) = Some {RoleOrganizer, RoleAdmin}"
    and "hr_method sample_request \<noteq> ''OPTIONS''"
    by (simp_all add: sample_request_def required_roles_def)
  then show ?thesis
    using api_guard [OF _ _ run, of "{RoleOrganizer, RoleAdmin}"] sample_caller
    by (auto simp: run split: option.splits)
qed

theorem dispatch_exact_witness:
  "dispatch ''v'' sample_dependencies sample_request sample_state =
     revoke_pass_handler sample_dependencies (sample_request\<lparr>hr_path := [(''passId'', ''x'')]\<rparr>) sample_state"
proof (rule dispatch_exact)
  show "(''POST'', admin [Lit ''passes'', Wild ''passId'', Lit ''revoke''],
      revoke_pass_handler sample_dependencies) \<in> set (routes ''v'' sample_dependencies)"
    by (simp add: routes_def admin_routes_def)
qed (simp_all add: sample_request_def method_matches_def under_def)

end
