(* ===== verification/Responses.thy ===== *)
theory Responses
  imports Server
begin

text \<open>
  The shape of every answer: which body goes with which status, which headers a handler may set,
  and what the two middlewares add. One lemma per combinator of the handlers, collected in
  \<open>answers\<close>, then one per handler and one for the route table.
\<close>

named_theorems answers

definition handler_headers :: "(string \<times> string) list \<Rightarrow> bool" where
  "handler_headers =
     list_all (\<lambda>(n, v). n \<in> {''Content-Type'', ''Content-Disposition'', ''Content-Length'',
       ''Retry-After'', ''Allow''} \<or> n = ''X-Content-Type-Options'' \<and> v = ''nosniff'')"

definition body_fits :: "response \<Rightarrow> bool" where
  "body_fits r =
     (case hs_body r of
        EmptyBody \<Rightarrow> hs_status r = 204
      | JsonBody _ \<Rightarrow> hs_status r \<in> {200, 201}
      | RawBody _ \<Rightarrow> hs_status r \<in> {200, 404, 405}
      | ErrorBody code message lock \<Rightarrow>
          hs_status r \<in> {400, 401, 403, 404, 409, 413, 422, 429, 500, 503} \<and>
          code \<noteq> [] \<and> message \<noteq> [] \<and> (lock = None \<or> hs_status r = 409))"

definition well_formed :: "response \<Rightarrow> bool" where
  "well_formed r = (body_fits r \<and> handler_headers (hs_headers r))"

definition answers_well :: "'s handler \<Rightarrow> bool" where
  "answers_well h = (\<forall>req st. well_formed (fst (h req st)))"

section \<open>Combinators\<close>

lemma well_formed_writers [answers]:
  "well_formed (write_json s v) = (s \<in> {200, 201})"
  "well_formed (write_error s c m) =
     (s \<in> {400, 401, 403, 404, 409, 413, 422, 429, 500, 503} \<and> c \<noteq> [] \<and> m \<noteq> [])"
  "well_formed (write_error_details s c m l) =
     (s \<in> {400, 401, 403, 404, 409, 413, 422, 429, 500, 503} \<and> c \<noteq> [] \<and> m \<noteq> [] \<and>
      (l = None \<or> s = 409))"
  "well_formed no_content" "well_formed not_ready" "well_formed internal_error"
  "well_formed invalid_body" "well_formed unauthenticated" "well_formed identity_unavailable"
  by (auto simp: well_formed_def body_fits_def handler_headers_def response_defs
      unauthenticated_def identity_unavailable_def)

lemma well_formed_refusal [answers]: "well_formed (role_refusal r)"
  by (cases r) (simp_all add: role_refusal_def answers)

lemma answers_wellI [intro?]: "(\<And>req st. well_formed (fst (h req st))) \<Longrightarrow> answers_well h"
  by (simp add: answers_well_def)

lemma answers_wellD: "answers_well h \<Longrightarrow> well_formed (fst (h req st))"
  by (simp add: answers_well_def)

lemma well_formed_answer:
  "(\<And>err. well_formed (on_error err)) \<Longrightarrow> (\<And>v. well_formed (on_value v)) \<Longrightarrow>
     well_formed (fst (answer on_error on_value rs))"
  by (auto simp: answer_def split: prod.splits sum.splits)

lemma answers_well_role:
  assumes "\<And>u. answers_well (k u)" shows "answers_well (with_role dp r k)"
proof
  fix req st
  show "well_formed (fst (with_role dp r k req st))"
    using assms [THEN answers_wellD]
    by (auto simp: with_role_def require_role_cases answers split: option.splits)
qed

lemma answers_well_applicant: "(\<And>a. answers_well (k a)) \<Longrightarrow> answers_well (with_applicant dp k)"
  by (simp add: with_applicant_def answers_well_role)

lemma answers_well_dependency:
  "well_formed missing \<Longrightarrow> (\<And>x. answers_well (k x)) \<Longrightarrow> answers_well (with_dependency missing dep k)"
  by (auto simp: with_dependency_def answers_well_def reply_def split: option.splits)

lemma answers_well_body:
  "well_formed refused \<Longrightarrow> (\<And>p. answers_well (k p)) \<Longrightarrow> answers_well (with_body dp fs r refused k)"
  by (auto simp: with_body_def answers_well_def reply_def split: option.splits)

lemma answers_well_reply: "well_formed r \<Longrightarrow> answers_well (reply r)"
  by (simp add: answers_well_def reply_def)

text \<open>A called handler inside a handler, and the branches of a handler's body.\<close>

lemma well_formed_if:
  "(b \<Longrightarrow> well_formed (fst x)) \<Longrightarrow> (\<not> b \<Longrightarrow> well_formed (fst y)) \<Longrightarrow> well_formed (fst (if b then x else y))"
  by simp

lemma well_formed_option:
  "well_formed (fst x) \<Longrightarrow> (\<And>v. well_formed (fst (f v))) \<Longrightarrow>
     well_formed (fst (case o' of None \<Rightarrow> x | Some v \<Rightarrow> f v))"
  by (cases o') simp_all

lemma well_formed_pair: "(\<And>a b. well_formed (fst (f a b))) \<Longrightarrow> well_formed (fst (case p of (a, b) \<Rightarrow> f a b))"
  by (cases p) simp

lemma answers_well_pair: "(\<And>a b. answers_well (f a b)) \<Longrightarrow> answers_well (case p of (a, b) \<Rightarrow> f a b)"
  by (cases p) simp

lemma well_formed_fst_pair: "well_formed r \<Longrightarrow> well_formed (fst (r, st))"
  by simp

lemmas answer_rules =
  answers_well_role answers_well_applicant answers_well_dependency answers_well_body
  answers_well_reply answers_well_pair well_formed_answer well_formed_if well_formed_option
  well_formed_pair well_formed_fst_pair

section \<open>Error tables\<close>

lemma error_tables [answers]:
  "well_formed (write_application_error e1)" "well_formed (write_resume_error e2)"
  "well_formed (write_decision_record_error e3)" "well_formed (write_decision_release_error e3)"
  "well_formed (write_applicant_decision_error e3)" "well_formed (write_rsvp_error e4)"
  "well_formed (write_pass_error e5)" "well_formed (write_claim_error e5)"
  "well_formed (write_workflow_error e6)" "well_formed (write_staff_role_error e7)"
  "well_formed (write_volunteer_error e7)" "well_formed (write_operations_error e8)"
  "well_formed (write_checkpoint_error e9)" "well_formed (write_redemption_error b e9)"
  by (simp_all add: answers write_application_error_def write_resume_error_def
      write_decision_record_error_def write_decision_release_error_def
      write_applicant_decision_error_def write_rsvp_error_def write_pass_error_def
      write_claim_error_def write_workflow_error_def write_staff_role_error_def
      write_volunteer_error_def write_operations_error_def write_checkpoint_error_def
      write_redemption_error_def
      split: app_error.split resume_error.split decision_error.split rsvp_error.split
        pass_error.split review_error.split user_error.split op_error.split scan_error.split)

lemma fixed_responses [answers]:
  "well_formed resumes_missing" "well_formed rsvps_missing" "well_formed invalid_rsvp_body"
  "well_formed staff_roles_missing" "well_formed volunteers_missing"
  "well_formed (pdf_response p)" "well_formed (csv_response kind text)"
  by (simp_all add: answers resumes_missing_def rsvps_missing_def invalid_rsvp_body_def
      staff_roles_missing_def volunteers_missing_def)
    (simp_all add: pdf_response_def csv_response_def well_formed_def body_fits_def handler_headers_def)

lemma well_formed_draft_body:
  "well_formed (fst x) \<Longrightarrow> well_formed (fst y) \<Longrightarrow> (\<And>l m. well_formed (fst (f l m))) \<Longrightarrow>
     well_formed (fst (case b of DraftMalformed \<Rightarrow> x | DraftInvalidAnswers \<Rightarrow> y | DraftBody l m \<Rightarrow> f l m))"
  by (cases b) simp_all

lemma well_formed_sum:
  "(\<And>e. well_formed (f e)) \<Longrightarrow> (\<And>v. well_formed (g v)) \<Longrightarrow>
     well_formed (case r of Inl e \<Rightarrow> f e | Inr v \<Rightarrow> g v)"
  by (cases r) simp_all

lemma well_formed_sum_pair:
  "(\<And>e. well_formed (fst (f e))) \<Longrightarrow> (\<And>v. well_formed (fst (g v))) \<Longrightarrow>
     well_formed (fst (case r of Inl e \<Rightarrow> f e | Inr v \<Rightarrow> g v))"
  by (cases r) simp_all

lemma well_formed_call:
  "answers_well (with_dependency missing dep k) \<Longrightarrow> well_formed (fst (with_dependency missing dep k req st))"
  "answers_well (with_body dp fs r refused h) \<Longrightarrow> well_formed (fst (with_body dp fs r refused h req st))"
  by (rule answers_wellD, assumption)+

lemmas handler_rules = answer_rules well_formed_draft_body well_formed_sum
  well_formed_sum_pair well_formed_call answers_wellI

section \<open>Handlers\<close>

lemma organizer_detail_answers [answers]: "well_formed (fst (organizer_detail dp u a st))"
proof -
  have part: "well_formed r" if "optional_part c run absent on_error s = (Inl r, s')"
    "\<And>e. well_formed (on_error e)" for c run absent on_error r s s'
    using that by (auto simp: optional_part_def split: if_splits prod.splits sum.splits)
  show ?thesis
    unfolding organizer_detail_def Let_def
    by (auto simp: answers intro: part dest!: part split: prod.splits sum.splits)
qed

lemma organizer_list_answers [answers]: "answers_well (list_organizer_applications_handler dp)"
  unfolding list_organizer_applications_handler_def Let_def
  by (intro handler_rules; simp add: answers)

lemma organizer_get_answers [answers]: "answers_well (get_organizer_application_handler dp)"
  unfolding get_organizer_application_handler_def
  by (intro handler_rules; simp add: answers)

lemma claim_pass_answers [answers]: "answers_well (claim_pass_handler dp)"
proof
  fix req st
  have "well_formed (write_error 429 c m\<lparr>hs_headers := [(''Retry-After'', v), (''Content-Type'', t)]\<rparr>)"
    if "c \<noteq> []" "m \<noteq> []" for c m v t
    using that by (simp add: well_formed_def body_fits_def handler_headers_def response_defs)
  then show "well_formed (fst (claim_pass_handler dp req st))"
    unfolding claim_pass_handler_def Let_def
    by (intro handler_rules; simp add: answers)
qed

lemma me_answers [answers]: "answers_well (me_handler dp)"
proof
  fix req st
  show "well_formed (fst (me_handler dp req st))"
    unfolding me_handler_def by (intro handler_rules; simp add: answers)
qed

lemma ready_answers [answers]: "answers_well (ready_handler dp)"
  unfolding ready_handler_def by (rule answers_well_reply) (simp add: answers)

lemma intake_handlers_answer [answers]:
  "answers_well (current_application_form_handler dp)"
  "answers_well (create_application_handler dp)"
  "answers_well (list_my_applications_handler dp)"
  "answers_well (save_application_draft_handler dp)"
  "answers_well (submit_application_handler dp)"
  "answers_well (upload_application_resume_handler dp)"
  "answers_well (get_applicant_resume_handler dp)"
  "answers_well (get_admin_resume_handler dp)"
  "answers_well (record_decision_handler dp)"
  "answers_well (release_decision_handler dp)"
  "answers_well (get_applicant_decision_handler dp)"
  "answers_well (applicant_rsvp_handler dp)"
  unfolding
    current_application_form_handler_def
    create_application_handler_def
    list_my_applications_handler_def
    save_application_draft_handler_def
    submit_application_handler_def
    upload_application_resume_handler_def
    get_applicant_resume_handler_def
    get_admin_resume_handler_def
    record_decision_handler_def
    release_decision_handler_def
    get_applicant_decision_handler_def
    applicant_rsvp_handler_def
    Let_def rsvp_answer_def
  by (intro handler_rules; simp add: answers)+

lemma staff_handlers_answer [answers]:
  "answers_well (grant_reviewer_role_handler dp)"
  "answers_well (assign_reviewer_handler dp)"
  "answers_well (list_reviewer_applications_handler dp)"
  "answers_well (get_reviewer_application_handler dp)"
  "answers_well (save_review_draft_handler dp)"
  "answers_well (submit_review_handler dp)"
  "answers_well (lookup_scanner_user_handler dp)"
  "answers_well (grant_scanner_role_handler dp)"
  "answers_well (revoke_scanner_role_handler dp)"
  "answers_well (volunteer_request_handler dp)"
  "answers_well (volunteer_queue_handler dp)"
  "answers_well (volunteer_review_handler dp)"
  unfolding
    grant_reviewer_role_handler_def
    assign_reviewer_handler_def
    list_reviewer_applications_handler_def
    get_reviewer_application_handler_def
    save_review_draft_handler_def
    submit_review_handler_def
    lookup_scanner_user_handler_def
    grant_scanner_role_handler_def
    revoke_scanner_role_handler_def
    volunteer_request_handler_def
    volunteer_queue_handler_def
    volunteer_review_handler_def
    Let_def rsvp_answer_def
  by (intro handler_rules; simp add: answers)+

lemma event_handlers_answer [answers]:
  "answers_well (attendance_summary_handler dp)"
  "answers_well (enable_entrance_handler dp)"
  "answers_well (list_activities_handler dp)"
  "answers_well (create_activity_handler dp)"
  "answers_well (update_activity_handler dp)"
  "answers_well (delete_activity_handler dp)"
  "answers_well (list_checkpoints_handler dp)"
  "answers_well (create_checkpoint_handler dp)"
  "answers_well (update_checkpoint_handler dp)"
  "answers_well (delete_checkpoint_handler dp)"
  "answers_well (get_entitlement_handler dp)"
  "answers_well (put_entitlement_handler dp)"
  "answers_well (delete_entitlement_handler dp)"
  "answers_well (list_checkpoint_counts_handler dp)"
  "answers_well (list_redemptions_handler dp)"
  "answers_well (export_redemptions_handler dp kind)"
  "answers_well (issue_pass_handler dp)"
  "answers_well (reissue_pass_handler dp)"
  "answers_well (revoke_pass_handler dp)"
  "answers_well (web_pass_handler dp)"
  "answers_well (list_scanner_checkpoints_handler dp)"
  "answers_well (scanner_lookup_handler dp)"
  "answers_well (scanner_redemption_handler dp)"
  "answers_well (staff_pass_handler dp)"
  unfolding
    attendance_summary_handler_def
    enable_entrance_handler_def
    list_activities_handler_def
    create_activity_handler_def
    update_activity_handler_def
    delete_activity_handler_def
    list_checkpoints_handler_def
    create_checkpoint_handler_def
    update_checkpoint_handler_def
    delete_checkpoint_handler_def
    get_entitlement_handler_def
    put_entitlement_handler_def
    delete_entitlement_handler_def
    list_checkpoint_counts_handler_def
    list_redemptions_handler_def
    export_redemptions_handler_def
    issue_pass_handler_def
    reissue_pass_handler_def
    revoke_pass_handler_def
    web_pass_handler_def
    list_scanner_checkpoints_handler_def
    scanner_lookup_handler_def
    scanner_redemption_handler_def
    staff_pass_handler_def
    Let_def rsvp_answer_def
  by (intro handler_rules; simp add: answers)+

section \<open>The whole API\<close>

lemma routes_answer: "list_all (\<lambda>(_, _, h). answers_well h) (routes version dp)"
  by (simp add: routes_def public_routes_def me_route_def application_routes_def scanner_routes_def
      reviewer_routes_def admin_routes_def answers_well_reply answers)

lemma dispatch_answers: "answers_well (dispatch version dp)"
proof
  fix req st
  have nosniff: "well_formed (http_error s m hs)"
    if "s \<in> {404, 405}" "handler_headers hs" for s m hs
    using that by (auto simp: http_error_def well_formed_def body_fits_def handler_headers_def)
  show "well_formed (fst (dispatch version dp req st))"
  proof (cases "List.find (route_matches req) (routes version dp)")
    case None
    then show ?thesis
      by (auto simp: dispatch_def nosniff handler_headers_def split: list.split)
  next
    case (Some route)
    obtain m p h where route: "route = (m, p, h)" by (cases route)
    then have "(m, p, h) \<in> set (routes version dp)" using Some by (auto simp: find_Some_iff)
    then have "answers_well h"
      using routes_answer [of version dp] by (auto simp: list_all_iff)
    then show ?thesis using Some answers_wellD by (simp add: dispatch_def route)
  qed
qed

lemma map_of_filter_fst: "map_of (filter (\<lambda>(m, _). P m) hs) n = (if P n then map_of hs n else None)"
  by (induction hs) auto

lemma body_fits_add [simp]: "body_fits (add_headers hs r) = body_fits r"
  by (simp add: body_fits_def split: body.split)

lemma header_after_add:
  "map_of (hs_headers (add_headers hs r)) n =
     (case map_of (hs_headers r) n of Some v \<Rightarrow> Some v | None \<Rightarrow> map_of hs n)"
  by (simp add: add_headers_def map_of_filter_fst map_add_def split: option.split)

lemma handler_header_cases:
  assumes "handler_headers hs" and "map_of hs n = Some v"
  shows "n \<in> {''Content-Type'', ''Content-Disposition'', ''Content-Length'', ''Retry-After'', ''Allow''} \<or>
    n = ''X-Content-Type-Options'' \<and> v = ''nosniff''"
proof -
  have "(n, v) \<in> set hs" using assms(2) by (rule map_of_SomeD)
  from bspec [OF assms(1) [unfolded handler_headers_def list_all_iff] this] show ?thesis by simp
qed

lemma handler_header_absent:
  "handler_headers hs \<Longrightarrow> map_of hs ''X-Frame-Options'' = None"
  "handler_headers hs \<Longrightarrow> map_of hs ''Cache-Control'' = None"
  "handler_headers hs \<Longrightarrow> map_of hs ''Access-Control-Allow-Origin'' = None"
  "handler_headers hs \<Longrightarrow> map_of hs ''X-Content-Type-Options'' \<in> {None, Some ''nosniff''}"
  "handler_headers hs \<Longrightarrow> map_of hs ''X-Request-ID'' = None"
  "handler_headers hs \<Longrightarrow> map_of hs ''Content-Security-Policy'' = None"
proof -
  assume hs: "handler_headers hs"
  note cases = handler_header_cases [OF hs]
  show "map_of hs ''X-Frame-Options'' = None" "map_of hs ''Cache-Control'' = None"
    "map_of hs ''Access-Control-Allow-Origin'' = None" "map_of hs ''X-Request-ID'' = None"
    "map_of hs ''Content-Security-Policy'' = None"
    by (rule option.exhaust [of "map_of hs _"], assumption, drule cases, simp)+
  show "map_of hs ''X-Content-Type-Options'' \<in> {None, Some ''nosniff''}"
    by (cases "map_of hs ''X-Content-Type-Options''") (simp, frule cases, simp)
qed

text \<open>Every answer is a handler's, or that of the mux or the preflight, with the headers of the two
  middlewares.\<close>

definition cors_headers :: "'s deps \<Rightarrow> request \<Rightarrow> (string \<times> string) list" where
  "cors_headers dp req =
     (if hr_header req ''Origin'' \<in> set (allowed_origins dp)
      then [(''Access-Control-Allow-Origin'', hr_header req ''Origin''),
            (''Access-Control-Allow-Credentials'', ''true''),
            (''Access-Control-Allow-Headers'', ''Authorization, Content-Type, X-File-Name''),
            (''Access-Control-Allow-Methods'', ''GET, POST, PUT, PATCH, DELETE, OPTIONS'')]
      else [])"

lemma api_answer:
  obtains r where "well_formed r"
    and "fst (api version dp req st) = add_headers
      [(''Content-Security-Policy'', ''default-src '' @ [CHR 0x27] @ ''none'' @ [CHR 0x27]),
           (''X-Content-Type-Options'', ''nosniff''), (''X-Frame-Options'', ''DENY''),
           (''Cache-Control'', ''no-store'')] (add_headers (cors_headers dp req) r)"
proof -
  let ?dp = "dp\<lparr>dp_build := build_defaults version (dp_build dp)\<rparr>"
  have origins: "allowed_origins ?dp = allowed_origins dp" by (simp add: allowed_origins_def)
  obtain r st' where r: "well_formed r"
    and run: "cors ?dp (dispatch version ?dp) req st = (add_headers (cors_headers dp req) r, st')"
  proof (cases "hr_method req = ''OPTIONS''")
    case True
    then show thesis
      using that [of no_content] by (simp add: cors_def cors_headers_def Let_def answers origins)
  next
    case False
    obtain r st' where "dispatch version ?dp req st = (r, st')" by fastforce
    moreover from this have "well_formed r" using answers_wellD [OF dispatch_answers, of version ?dp req st] by simp
    ultimately show thesis using that [of r] False by (simp add: cors_def cors_headers_def Let_def origins)
  qed
  then show thesis using that [OF r] by (simp add: api_def security_headers_def Let_def)
qed

text \<open>C31. Every answer of the API has the right shape, whatever the request, the state and the
  dependencies: the status and the body belong together (JSON with 200 or 201, files with 200,
  nothing with 204, an error object with a code and a message with one of the documented error
  statuses, a lock version only with 409), the four security headers are always there with their
  values, and the response names an origin for cross-origin access exactly when the request's origin
  is a configured one.\<close>

theorem api_response_shape:
  "case api version dp req st of (resp, _) \<Rightarrow>
     body_fits resp \<and>
     map_of (hs_headers resp) ''Content-Security-Policy'' =
       Some (''default-src '' @ [CHR 0x27] @ ''none'' @ [CHR 0x27]) \<and>
     map_of (hs_headers resp) ''X-Content-Type-Options'' = Some ''nosniff'' \<and>
     map_of (hs_headers resp) ''X-Frame-Options'' = Some ''DENY'' \<and>
     map_of (hs_headers resp) ''Cache-Control'' = Some ''no-store'' \<and>
     map_of (hs_headers resp) ''Access-Control-Allow-Origin'' =
       (if hr_header req ''Origin'' \<in> set (allowed_origins dp) then Some (hr_header req ''Origin'') else None)"
proof -
  let ?resp = "fst (api version dp req st)"
  obtain r where r: "well_formed r" and resp: "?resp = add_headers
      [(''Content-Security-Policy'', ''default-src '' @ [CHR 0x27] @ ''none'' @ [CHR 0x27]),
           (''X-Content-Type-Options'', ''nosniff''), (''X-Frame-Options'', ''DENY''),
           (''Cache-Control'', ''no-store'')] (add_headers (cors_headers dp req) r)"
    by (rule api_answer)
  have plain: "handler_headers (hs_headers r)" and fits: "body_fits r"
    using r by (simp_all add: well_formed_def)
  note absent = handler_header_absent [OF plain]
  have "body_fits (?resp)" using fits by (simp add: resp)
  moreover have "map_of (hs_headers (?resp)) ''X-Content-Type-Options'' = Some ''nosniff''"
  proof (cases "map_of (hs_headers r) ''X-Content-Type-Options''")
    case None
    then show ?thesis by (simp add: resp header_after_add cors_headers_def)
  next
    case (Some v)
    then show ?thesis using absent(4) by (simp add: resp header_after_add)
  qed
  ultimately show ?thesis
    by (simp add: case_prod_beta) (simp add: resp header_after_add cors_headers_def absent(1-3,6))
qed

end
