(* ===== verification/Migrations.thy ===== *)
theory Migrations
  imports Prelude Sha256 "HOL-Library.Char_ord" "HOL-Library.List_Lexorder"
begin

text \<open>
  The forward-only migration runner of package \<^verbatim>\<open>migrations\<close>: one transaction that reads the
  ledger of applied versions, compares checksums, executes what is missing in the order of the
  file names and records it. What a migration's SQL does is a parameter; it may move the ledger
  between the schemas, as migration 2 does, but not change its rows.
\<close>

section \<open>The catalog\<close>

type_synonym ledger = "(string \<times> string option) list"

text \<open>The two ledgers, each \<open>None\<close> when its table does not exist, whether the schema
  \<^verbatim>\<open>ats\<close> exists, and everything else. A row without a checksum is of a ledger older than the
  checksum column.\<close>

record 'd catalog =
  cg_ats :: "ledger option"
  cg_public :: "ledger option"
  cg_schema :: bool
  cg_rest :: 'd

datatype ledger_table = AtsLedger | PublicLedger

datatype migration_error =
    MgNoLedger
  | MgUnattested string
  | MgEdited string
  | MgExec string
  | MgRecord string

definition initialize_ledger :: "'d catalog \<Rightarrow> 'd catalog" where
  "initialize_ledger c =
     (if cg_public c \<noteq> None then c
      else c\<lparr>cg_schema := True, cg_ats := (case cg_ats c of None \<Rightarrow> Some [] | Some rows \<Rightarrow> Some rows)\<rparr>)"

definition ledger_table :: "'d catalog \<Rightarrow> migration_error + ledger_table" where
  "ledger_table c =
     (if cg_ats c \<noteq> None then Inr AtsLedger
      else if cg_public c \<noteq> None then Inr PublicLedger
      else Inl MgNoLedger)"

definition table_rows :: "ledger_table \<Rightarrow> 'd catalog \<Rightarrow> ledger" where
  "table_rows t c = (case (case t of AtsLedger \<Rightarrow> cg_ats c | PublicLedger \<Rightarrow> cg_public c) of
     None \<Rightarrow> [] | Some rows \<Rightarrow> rows)"

text \<open>The version is the primary key.\<close>

definition record_migration :: "ledger_table \<Rightarrow> string \<Rightarrow> string \<Rightarrow> 'd catalog \<Rightarrow> migration_error + 'd catalog" where
  "record_migration t version checksum c =
     (if version \<in> fst ` set (table_rows t c) then Inl (MgRecord version)
      else let rows = table_rows t c @ [(version, Some checksum)] in
        Inr (case t of AtsLedger \<Rightarrow> c\<lparr>cg_ats := Some rows\<rparr> | PublicLedger \<Rightarrow> c\<lparr>cg_public := Some rows\<rparr>))"

section \<open>Checksums\<close>

text \<open>\<^verbatim>\<open>bytes.ReplaceAll(source, "\r\n", "\n")\<close>.\<close>

fun normalize_breaks :: "bytes \<Rightarrow> bytes" where
  "normalize_breaks (a # b # s) =
     (if a = 13 \<and> b = 10 then 10 # normalize_breaks s else a # normalize_breaks (b # s))"
| "normalize_breaks s = s"

definition hex_char :: "nat \<Rightarrow> char" where
  "hex_char n = ''0123456789abcdef'' ! n"

definition hex_encode :: "bytes \<Rightarrow> string" where
  "hex_encode bs = concat (map (\<lambda>b. [hex_char (unat b div 16), hex_char (unat b mod 16)]) bs)"

definition migration_checksum :: "bytes \<Rightarrow> string" where
  "migration_checksum source = hex_encode (sha256 (normalize_breaks source))"

section \<open>Applying\<close>

type_synonym migration = "string \<times> bytes"
type_synonym 'd execute = "bytes \<Rightarrow> 'd catalog \<Rightarrow> 'd catalog option"

definition apply_migration :: "'d execute \<Rightarrow> migration \<Rightarrow> 'd catalog \<Rightarrow> migration_error + 'd catalog" where
  "apply_migration execute = (\<lambda>(version, source) c.
     bindE (ledger_table c) (\<lambda>t.
     case map_of (table_rows t c) version of
       Some None \<Rightarrow> Inl (MgUnattested version)
     | Some (Some h) \<Rightarrow> if h \<noteq> migration_checksum source then Inl (MgEdited version) else Inr c
     | None \<Rightarrow>
         bindE (from_option (MgExec version) (execute source c)) (\<lambda>c1.
         bindE (ledger_table c1) (\<lambda>t1.
         record_migration t1 version (migration_checksum source) c1))))"

fun apply_all :: "'d execute \<Rightarrow> migration list \<Rightarrow> 'd catalog \<Rightarrow> migration_error + 'd catalog" where
  "apply_all execute [] c = Inr c"
| "apply_all execute (m # ms) c = bindE (apply_migration execute m c) (apply_all execute ms)"

text \<open>\<^verbatim>\<open>Apply\<close>: one transaction, which an error rolls back.\<close>

definition apply_migrations ::
    "'d execute \<Rightarrow> migration list \<Rightarrow> 'd catalog \<Rightarrow> (migration_error + unit) \<times> 'd catalog" where
  "apply_migrations execute files c =
     (case apply_all execute (sort_key fst files) (initialize_ledger c) of
        Inl err \<Rightarrow> (Inl err, c)
      | Inr c' \<Rightarrow> (Inr (), c'))"

section \<open>What applying does\<close>

text \<open>The rows in effect.\<close>

definition ledger_rows :: "'d catalog \<Rightarrow> ledger" where
  "ledger_rows c = (case ledger_table c of Inl _ \<Rightarrow> [] | Inr t \<Rightarrow> table_rows t c)"

definition has_ledger :: "'d catalog \<Rightarrow> bool" where
  "has_ledger c \<longleftrightarrow> cg_ats c \<noteq> None \<or> cg_public c \<noteq> None"

text \<open>A table lives in a schema, and no two rows share a version.\<close>

definition catalog_ok :: "'d catalog \<Rightarrow> bool" where
  "catalog_ok c \<longleftrightarrow> (cg_ats c \<noteq> None \<longrightarrow> cg_schema c) \<and> distinct (map fst (ledger_rows c))"

text \<open>What the SQL of the embedded files does to the ledger: migration 2 may move it into the schema
  \<^verbatim>\<open>ats\<close> with its rows, the others do not name it.\<close>

definition keeps_ledger :: "'d execute \<Rightarrow> bytes set \<Rightarrow> bool" where
  "keeps_ledger execute sources \<longleftrightarrow>
     (\<forall>source\<in>sources. \<forall>c c'. execute source c = Some c' \<longrightarrow> has_ledger c \<longrightarrow> catalog_ok c \<longrightarrow>
        has_ledger c' \<and> catalog_ok c' \<and> ledger_rows c' = ledger_rows c)"

lemma ledger_table_has: "has_ledger c \<Longrightarrow> \<exists>t. ledger_table c = Inr t \<and> ledger_rows c = table_rows t c"
  by (auto simp: has_ledger_def ledger_table_def ledger_rows_def)

lemma initialize_ok:
  assumes "catalog_ok c"
  shows "catalog_ok (initialize_ledger c)" and "has_ledger (initialize_ledger c)"
    and "ledger_rows (initialize_ledger c) = ledger_rows c"
  using assms
  by (auto simp: initialize_ledger_def catalog_ok_def has_ledger_def ledger_rows_def ledger_table_def
      table_rows_def split: option.splits)

lemma initialize_idle: "catalog_ok c \<Longrightarrow> has_ledger c \<Longrightarrow> initialize_ledger c = c"
  by (cases c) (auto simp: initialize_ledger_def catalog_ok_def has_ledger_def split: option.splits)

lemma record_migration_Inr:
  assumes "record_migration t version h c = Inr c'" and "ledger_table c = Inr t" and "catalog_ok c"
  shows "ledger_rows c' = ledger_rows c @ [(version, Some h)]" and "catalog_ok c'" and "has_ledger c'"
proof -
  have new: "version \<notin> fst ` set (table_rows t c)"
    and c': "c' = (case t of AtsLedger \<Rightarrow> c\<lparr>cg_ats := Some (table_rows t c @ [(version, Some h)])\<rparr>
      | PublicLedger \<Rightarrow> c\<lparr>cg_public := Some (table_rows t c @ [(version, Some h)])\<rparr>)"
    using assms(1) by (auto simp: record_migration_def Let_def split: if_split_asm)
  show rows: "ledger_rows c' = ledger_rows c @ [(version, Some h)]"
    using assms(2) unfolding c'
    by (cases t) (auto simp: ledger_rows_def ledger_table_def table_rows_def split: if_split_asm)
  show "has_ledger c'" unfolding c' by (cases t) (auto simp: has_ledger_def)
  have "cg_ats c' \<noteq> None \<longrightarrow> cg_schema c'"
    using assms(2,3) unfolding c'
    by (cases t) (auto simp: catalog_ok_def ledger_table_def split: if_split_asm)
  moreover have "ledger_rows c = table_rows t c" using assms(2) by (simp add: ledger_rows_def)
  ultimately show "catalog_ok c'"
    using assms(3) new rows by (simp add: catalog_ok_def)
qed

lemma apply_migration_Inr:
  assumes k: "keeps_ledger execute sources" "source \<in> sources" and c: "has_ledger c" "catalog_ok c"
    and run: "apply_migration execute (version, source) c = Inr c'"
  obtains (recorded) "map_of (ledger_rows c) version = Some (Some (migration_checksum source))" and "c' = c"
    | (applied) "map_of (ledger_rows c) version = None"
      and "ledger_rows c' = ledger_rows c @ [(version, Some (migration_checksum source))]"
      and "catalog_ok c'" and "has_ledger c'" and "execute source c \<noteq> None"
proof -
  obtain t where t: "ledger_table c = Inr t" "ledger_rows c = table_rows t c"
    using ledger_table_has [OF c(1)] by blast
  show thesis
  proof (cases "map_of (ledger_rows c) version")
    case None
    then obtain c1 t1 where e: "execute source c = Some c1" "ledger_table c1 = Inr t1"
      and r: "record_migration t1 version (migration_checksum source) c1 = Inr c'"
      using run t by (auto simp: apply_migration_def)
    have "catalog_ok c1" "ledger_rows c1 = ledger_rows c"
      using k e(1) c unfolding keeps_ledger_def by blast+
    with record_migration_Inr [OF r e(2)] None e(1) show thesis by (intro applied) simp_all
  next
    case (Some h)
    then show thesis
      using run t by (intro recorded) (auto simp: apply_migration_def split: option.split_asm if_split_asm)
  qed
qed

definition record_of :: "migration \<Rightarrow> string \<times> string option" where
  "record_of = (\<lambda>(version, source). (version, Some (migration_checksum source)))"

definition pending :: "ledger \<Rightarrow> migration list \<Rightarrow> migration list" where
  "pending rows ms = filter (\<lambda>m. fst m \<notin> fst ` set rows) ms"

text \<open>The rows recorded before agree with the files, and the missing ones are appended in order.\<close>

definition attested :: "ledger \<Rightarrow> migration list \<Rightarrow> bool" where
  "attested rows ms \<longleftrightarrow> (\<forall>m\<in>set ms. fst m \<in> fst ` set rows \<longrightarrow> map_of rows (fst m) = Some (snd (record_of m)))"

lemma fst_record_of [simp]: "fst (record_of m) = fst m" and snd_record_of: "snd (record_of (v, s)) = Some (migration_checksum s)"
  by (simp_all add: record_of_def split: prod.split)

lemma map_of_first: "x \<in> fst ` set xs \<Longrightarrow> map_of (xs @ ys) x = map_of xs x"
  by (induction xs) auto

lemma apply_all_Inr:
  assumes "keeps_ledger execute sources" and "has_ledger c" "catalog_ok c" and "distinct (map fst ms)"
    and "apply_all execute ms c = Inr c'" and "snd ` set ms \<subseteq> sources"
  shows "has_ledger c' \<and> catalog_ok c' \<and> attested (ledger_rows c) ms \<and>
    ledger_rows c' = ledger_rows c @ map record_of (pending (ledger_rows c) ms) \<and>
    (pending (ledger_rows c) ms = [] \<longrightarrow> c' = c)"
  using assms(2-)
proof (induction ms arbitrary: c)
  case Nil
  then show ?case by (simp add: pending_def attested_def)
next
  case (Cons m ms)
  obtain v s where m: "m = (v, s)" by (cases m)
  obtain c1 where c1: "apply_migration execute (v, s) c = Inr c1" and rest: "apply_all execute ms c1 = Inr c'"
    using Cons.prems(4) by (auto simp: m bindE_Inr)
  have v: "v \<notin> fst ` set ms" and ms: "distinct (map fst ms)" using Cons.prems(3) by (auto simp: m)
  have s: "s \<in> sources" "snd ` set ms \<subseteq> sources" using Cons.prems(5) by (auto simp: m)
  from assms(1) s(1) Cons.prems(1,2) c1 show ?case
  proof (cases rule: apply_migration_Inr)
    case recorded
    then have "v \<in> fst ` set (ledger_rows c)" by (metis image_eqI fst_conv map_of_SomeD)
    then show ?thesis
      using Cons.IH [OF Cons.prems(1,2) ms _ s(2)] rest recorded
      by (auto simp: m pending_def attested_def snd_record_of)
  next
    case applied
    have fresh: "v \<notin> fst ` set (ledger_rows c)" using applied(1) by (simp add: map_of_eq_None_iff)
    have "pending (ledger_rows c1) ms = pending (ledger_rows c) ms"
      using v by (auto simp: pending_def applied(2) intro!: filter_cong)
    moreover have "attested (ledger_rows c) ms" if "attested (ledger_rows c1) ms"
    proof -
      have "map_of (ledger_rows c) (fst m) = Some (snd (record_of m))"
        if "m \<in> set ms" "fst m \<in> fst ` set (ledger_rows c)" for m
        using \<open>attested (ledger_rows c1) ms\<close> that map_of_first [OF that(2)]
        unfolding attested_def applied(2) set_append image_Un by (metis UnI1)
      then show ?thesis by (simp add: attested_def)
    qed
    ultimately show ?thesis
      using Cons.IH [OF applied(4,3) ms rest s(2)] fresh applied(2)
      by (auto simp: m pending_def attested_def record_of_def)
  qed
qed

lemma apply_all_attested:
  assumes "has_ledger c" and "attested (ledger_rows c) ms" and "fst ` set ms \<subseteq> fst ` set (ledger_rows c)"
  shows "apply_all execute ms c = Inr c"
  using assms(2,3)
proof (induction ms)
  case (Cons m ms)
  obtain v s where m: "m = (v, s)" by (cases m)
  obtain t where t: "ledger_table c = Inr t" "ledger_rows c = table_rows t c"
    using ledger_table_has [OF assms(1)] by blast
  have "map_of (ledger_rows c) v = Some (Some (migration_checksum s))"
    using Cons.prems by (auto simp: attested_def m snd_record_of)
  then have "apply_migration execute m c = Inr c" using t by (simp add: apply_migration_def m)
  moreover have "apply_all execute ms c = Inr c"
    using Cons.prems by (intro Cons.IH) (auto simp: attested_def)
  ultimately show ?case by simp
qed simp

lemma pending_sort: "pending rows (sort_key f ms) = sort_key f (pending rows ms)"
  by (simp add: pending_def filter_sort)

lemma attested_set: "set xs = set ys \<Longrightarrow> attested rows xs = attested rows ys"
  by (simp add: attested_def)

lemma recorded_all:
  assumes "attested rows ms" and "distinct (map fst ms)"
  shows "attested (rows @ map record_of (pending rows ms)) ms"
    and "fst ` set ms \<subseteq> fst ` set (rows @ map record_of (pending rows ms))"
proof -
  have "map_of (map record_of (pending rows ms)) (fst m) = Some (snd (record_of m))"
    if "m \<in> set ms" "fst m \<notin> fst ` set rows" for m
  proof (rule map_of_is_SomeI)
    have "map fst (map record_of (pending rows ms)) = map fst (pending rows ms)" by simp
    then show "distinct (map fst (map record_of (pending rows ms)))"
      using assms(2) by (simp only:) (simp add: pending_def distinct_map_filter)
    show "(fst m, snd (record_of m)) \<in> set (map record_of (pending rows ms))"
      using that by (force simp: pending_def record_of_def split: prod.split)
  qed
  then show "attested (rows @ map record_of (pending rows ms)) ms"
    using assms(1) unfolding attested_def
    by (auto simp: map_of_first map_add_def map_of_eq_None_iff [THEN iffD2] split: option.split)
  show "fst ` set ms \<subseteq> fst ` set (rows @ map record_of (pending rows ms))"
  proof
    fix x
    assume "x \<in> fst ` set ms"
    then obtain m where m: "m \<in> set ms" "x = fst m" by blast
    then have "x \<in> fst ` set rows \<or> record_of m \<in> set (map record_of (pending rows ms))"
      by (auto simp: pending_def)
    then show "x \<in> fst ` set (rows @ map record_of (pending rows ms))"
      using m(2) fst_record_of [of m] unfolding set_append image_Un by (metis UnI1 UnI2 image_eqI)
  qed
qed

section \<open>What is executed\<close>

text \<open>The ledger a run starts with, and the row a migration leaves behind.\<close>

definition with_ledger :: "'d catalog \<Rightarrow> 'd catalog" where
  "with_ledger c = (if has_ledger c then c else c\<lparr>cg_schema := True, cg_ats := Some []\<rparr>)"

definition with_record :: "migration \<Rightarrow> 'd catalog \<Rightarrow> 'd catalog" where
  "with_record m c =
     (case cg_ats c of
        Some rows \<Rightarrow> c\<lparr>cg_ats := Some (rows @ [record_of m])\<rparr>
      | None \<Rightarrow> c\<lparr>cg_public := map_option (\<lambda>rows. rows @ [record_of m]) (cg_public c)\<rparr>)"

text \<open>The SQL of each migration in turn, each followed by its row; no value if one of them fails.\<close>

fun run_pending :: "'d execute \<Rightarrow> migration list \<Rightarrow> 'd catalog \<Rightarrow> 'd catalog option" where
  "run_pending execute [] c = Some c"
| "run_pending execute (m # ms) c =
     Option.bind (execute (snd m) c) (\<lambda>c1. run_pending execute ms (with_record m c1))"

lemma with_ledger_eq: "catalog_ok c \<Longrightarrow> initialize_ledger c = with_ledger c"
  by (cases "has_ledger c")
    (simp_all add: with_ledger_def initialize_idle, simp add: initialize_ledger_def has_ledger_def)

lemma record_migration_eq:
  assumes "ledger_table c = Inr t" and "version \<notin> fst ` set (ledger_rows c)"
  shows "record_migration t version (migration_checksum source) c = Inr (with_record (version, source) c)"
  using assms
  by (cases t) (auto simp: record_migration_def with_record_def ledger_rows_def ledger_table_def table_rows_def
      record_of_def Let_def split: if_split_asm option.split)

lemma attested_append:
  assumes "v \<notin> fst ` set ms"
  shows "attested (rows @ [(v, h)]) ms \<longleftrightarrow> attested rows ms"
proof -
  have other: "fst m \<noteq> v" if "m \<in> set ms" for m using assms that by force
  have "fst m \<in> fst ` set (rows @ [(v, h)]) \<longleftrightarrow> fst m \<in> fst ` set rows" if "m \<in> set ms" for m
    using other [OF that] by auto
  then show ?thesis unfolding attested_def using map_of_first by (metis (no_types, lifting))
qed

text \<open>Going through the files in order is running the pending ones, unless a recorded one does not
  match its file.\<close>

lemma apply_all_runs:
  assumes "keeps_ledger execute sources" and "has_ledger c" "catalog_ok c" and "distinct (map fst ms)"
    and "snd ` set ms \<subseteq> sources"
  shows "case apply_all execute ms c of
      Inr c' \<Rightarrow> attested (ledger_rows c) ms \<and> run_pending execute (pending (ledger_rows c) ms) c = Some c'
    | Inl _ \<Rightarrow> \<not> (attested (ledger_rows c) ms \<and> run_pending execute (pending (ledger_rows c) ms) c \<noteq> None)"
  using assms(2-)
proof (induction ms arbitrary: c)
  case Nil
  then show ?case by (simp add: pending_def attested_def)
next
  case (Cons m ms)
  obtain v s where m: "m = (v, s)" by (cases m)
  have sm: "snd m = s" by (simp add: m)
  have v: "v \<notin> fst ` set ms" "distinct (map fst ms)" and s: "s \<in> sources" "snd ` set ms \<subseteq> sources"
    using Cons.prems(3,4) by (auto simp: m)
  obtain t where t: "ledger_table c = Inr t" "ledger_rows c = table_rows t c"
    using ledger_table_has [OF Cons.prems(1)] by blast
  show ?case
  proof (cases "map_of (ledger_rows c) v")
    case (Some h)
    then have known: "v \<in> fst ` set (ledger_rows c)" by (metis image_eqI fst_conv map_of_SomeD)
    then have tail: "pending (ledger_rows c) (m # ms) = pending (ledger_rows c) ms" by (simp add: m pending_def)
    show ?thesis
    proof (cases "h = Some (migration_checksum s)")
      case True
      then have "apply_migration execute m c = Inr c" using Some t by (simp add: m apply_migration_def)
      moreover have "attested (ledger_rows c) (m # ms) = attested (ledger_rows c) ms"
        using Some True by (auto simp: attested_def m snd_record_of)
      ultimately show ?thesis using Cons.IH [OF Cons.prems(1,2) v(2) s(2)] by (simp only: tail) simp
    next
      case False
      then have "isl (apply_migration execute m c)"
        using Some t by (cases h) (simp_all add: m apply_migration_def)
      moreover have "\<not> attested (ledger_rows c) (m # ms)"
        using Some False known by (simp add: attested_def m snd_record_of)
      ultimately show ?thesis by (auto simp: isl_def)
    qed
  next
    case None
    then have new: "v \<notin> fst ` set (ledger_rows c)" by (simp add: map_of_eq_None_iff)
    then have tail: "pending (ledger_rows c) (m # ms) = m # pending (ledger_rows c) ms"
      and att: "attested (ledger_rows c) (m # ms) = attested (ledger_rows c) ms"
      by (simp_all add: m pending_def attested_def)
    show ?thesis
    proof (cases "execute s c")
      case None
      then have "apply_migration execute m c = Inl (MgExec v)"
        using \<open>map_of (ledger_rows c) v = None\<close> t by (simp add: m apply_migration_def)
      then show ?thesis using None by (simp add: tail) (simp add: m)
    next
      case (Some c1)
      have c1: "has_ledger c1" "catalog_ok c1" "ledger_rows c1 = ledger_rows c"
        using assms(1) Some Cons.prems(1,2) s(1) unfolding keeps_ledger_def by blast+
      obtain t1 where t1: "ledger_table c1 = Inr t1" using ledger_table_has [OF c1(1)] by blast
      let ?c2 = "with_record m c1"
      have r: "record_migration t1 v (migration_checksum s) c1 = Inr ?c2"
        unfolding m by (rule record_migration_eq [OF t1]) (simp add: c1(3) new)
      have c2: "ledger_rows ?c2 = ledger_rows c @ [(v, Some (migration_checksum s))]" "catalog_ok ?c2" "has_ledger ?c2"
        using record_migration_Inr [OF r t1 c1(2)] by (simp_all add: c1(3))
      have "apply_migration execute m c = Inr ?c2"
        using \<open>map_of (ledger_rows c) v = None\<close> t Some t1 r by (simp add: m apply_migration_def)
      moreover have "pending (ledger_rows ?c2) ms = pending (ledger_rows c) ms"
        using v(1) by (auto simp: pending_def c2(1) intro!: filter_cong)
      moreover have "attested (ledger_rows ?c2) ms = attested (ledger_rows c) ms"
        unfolding c2(1) by (rule attested_append [OF v(1)])
      ultimately show ?thesis
        using Cons.IH [OF c2(3,2) v(2) s(2)] Some unfolding tail att by (simp add: sm split: sum.splits)
    qed
  qed
qed

text \<open>C38. The migration runner is a checked, forward-only, idempotent update, provided no file's SQL
  edits the rows of the ledger. It succeeds exactly when every migration recorded before has the
  checksum of its file (an edited or unattested one is refused) and the SQL of every missing one
  runs. Then the database is what running precisely the missing migrations makes of it, one after
  the other in the order of their names, each once and followed by its row: the ledger has grown by
  their rows and by nothing else, every file is recorded, and running it again changes nothing. If
  it fails, the database is as it was.\<close>

theorem apply_migrations_spec:
  assumes "keeps_ledger execute (snd ` set files)" and "catalog_ok c" and "distinct (map fst files)"
  shows "case apply_migrations execute files c of
      (Inl _, c') \<Rightarrow> c' = c \<and>
        \<not> (attested (ledger_rows c) files \<and>
           run_pending execute (sort_key fst (pending (ledger_rows c) files)) (with_ledger c) \<noteq> None)
    | (Inr _, c') \<Rightarrow> attested (ledger_rows c) files \<and>
        run_pending execute (sort_key fst (pending (ledger_rows c) files)) (with_ledger c) = Some c' \<and>
        ledger_rows c' = ledger_rows c @ map record_of (sort_key fst (pending (ledger_rows c) files)) \<and>
        catalog_ok c' \<and> attested (ledger_rows c') files \<and> fst ` set files \<subseteq> fst ` set (ledger_rows c') \<and>
        apply_migrations execute files c' = (Inr (), c')"
proof -
  note init = initialize_ok [OF assms(2)]
  have d: "distinct (map fst (sort_key fst files))" and sub: "snd ` set (sort_key fst files) \<subseteq> snd ` set files"
    using assms(3) by (simp_all add: distinct_map)
  note runs = apply_all_runs [OF assms(1) init(2,1) d sub, unfolded init(3), unfolded pending_sort with_ledger_eq [OF assms(2)]
      attested_set [OF set_sort]]
  show ?thesis
  proof (cases "apply_all execute (sort_key fst files) (with_ledger c)")
    case (Inl err)
    then show ?thesis using runs by (simp add: apply_migrations_def with_ledger_eq [OF assms(2)])
  next
    case (Inr c')
    then have all: "apply_all execute (sort_key fst files) (initialize_ledger c) = Inr c'"
      by (simp add: with_ledger_eq [OF assms(2)])
    have f: "has_ledger c'" "catalog_ok c'" "attested (ledger_rows c) (sort_key fst files)"
      "ledger_rows c' = ledger_rows c @ map record_of (pending (ledger_rows c) (sort_key fst files))"
      using apply_all_Inr [OF assms(1) init(2,1) d all sub] by (simp_all add: init(3))
    note rec = recorded_all [OF f(3) d, folded f(4)]
    have again: "apply_all execute (sort_key fst files) (initialize_ledger c') = Inr c'"
      using apply_all_attested [OF f(1) rec] initialize_idle [OF f(2,1)] by simp
    show ?thesis
      using runs Inr all again f rec attested_set [of "sort_key fst files" files]
      by (simp add: apply_migrations_def pending_sort)
  qed
qed

definition sample_execute :: "nat list execute" where
  "sample_execute source c = Some (c\<lparr>cg_rest := cg_rest c @ [length source]\<rparr>)"

definition sample_catalog :: "nat list catalog" where
  "sample_catalog = \<lparr>cg_ats = None, cg_public = Some [], cg_schema = False, cg_rest = []\<rparr>"

definition sample_files :: "migration list" where
  "sample_files = [(''000002_b.sql'', [2, 3]), (''000001_a.sql'', [1])]"

theorem apply_migrations_spec_witness:
  "\<exists>c'. apply_migrations sample_execute sample_files sample_catalog = (Inr (), c') \<and>
     fst ` set sample_files \<subseteq> fst ` set (ledger_rows c') \<and>
     apply_migrations sample_execute sample_files c' = (Inr (), c')"
proof -
  have k: "keeps_ledger sample_execute (snd ` set sample_files)"
    by (auto simp: keeps_ledger_def sample_execute_def has_ledger_def catalog_ok_def ledger_rows_def
        ledger_table_def table_rows_def split: ledger_table.splits)
  have c: "catalog_ok sample_catalog"
    by (simp add: sample_catalog_def catalog_ok_def ledger_rows_def ledger_table_def table_rows_def)
  have d: "distinct (map fst sample_files)" by (simp add: sample_files_def)
  have "sort_key fst sample_files = rev sample_files"
    by (simp add: sample_files_def less_char_def)
  then have "\<not> isl (fst (apply_migrations sample_execute sample_files sample_catalog))"
    by (simp add: apply_migrations_def sample_files_def sample_catalog_def initialize_ledger_def
        apply_migration_def ledger_table_def table_rows_def sample_execute_def record_migration_def)
  then obtain c' where run: "apply_migrations sample_execute sample_files sample_catalog = (Inr (), c')"
    by (metis isl_def old.unit.exhaust prod.collapse sum.collapse(2))
  from apply_migrations_spec [OF k c d] have "fst ` set sample_files \<subseteq> fst ` set (ledger_rows c') \<and>
     apply_migrations sample_execute sample_files c' = (Inr (), c')"
    unfolding run prod.case sum.case by blast
  with run show ?thesis by blast
qed

end
