(* ===== verification/Telemetry.thy ===== *)
theory Telemetry
  imports Responses Migrations
begin

text \<open>
  Package \<^verbatim>\<open>observability\<close>: which providers a start configures, the log fan-out, and the middleware
  around the whole API that counts requests, names lifecycle events and writes one log line per
  request. The OpenTelemetry SDK is a set of lists what was recorded is appended to; its tracer and
  its propagator are functions of \<open>watch\<close>.
\<close>

section \<open>What may be exported\<close>

definition safe_methods :: "string list" where
  "safe_methods = [''GET'', ''HEAD'', ''POST'', ''PUT'', ''PATCH'', ''DELETE'', ''OPTIONS'', ''CONNECT'', ''TRACE'']"

definition safe_method :: "string \<Rightarrow> string" where
  "safe_method m = (if m \<in> set safe_methods then m else ''OTHER'')"

definition lifecycle_event :: "string \<Rightarrow> string \<Rightarrow> int \<Rightarrow> string" where
  "lifecycle_event m route status =
     (if status < 200 \<or> status \<ge> 300 then []
      else (case map_of
          [(''POST POST /v1/applications/{applicationId}/submit'', ''application.submitted''),
           (''POST POST /v1/admin/decisions/{decisionId}/release'', ''decision.released''),
           (''POST POST /v1/admin/attendees/{attendeeId}/passes'', ''pass.issued''),
           (''POST POST /v1/redemptions'', ''redemption.completed'')] (m @ '' '' @ route) of
         None \<Rightarrow> [] | Some event \<Rightarrow> event))"

text \<open>The loop of \<^verbatim>\<open>safeRequestID\<close> is over runes; every byte of a rune outside ASCII is refused too.\<close>

definition id_char :: "char \<Rightarrow> bool" where
  "id_char c = (let n = of_char c :: nat in
     97 \<le> n \<and> n \<le> 122 \<or> 65 \<le> n \<and> n \<le> 90 \<or> 48 \<le> n \<and> n \<le> 57 \<or> c = CHR ''-'' \<or> c = CHR ''_'')"

definition safe_request_id :: "string \<Rightarrow> string" where
  "safe_request_id candidate =
     (if candidate = [] \<or> length candidate > 128 \<or> \<not> list_all id_char candidate then [] else candidate)"

text \<open>\<^verbatim>\<open>strconv.FormatInt(n, 36)\<close>.\<close>

fun digits36 :: "nat \<Rightarrow> string" where
  "digits36 n =
     (if n < 36 then [''0123456789abcdefghijklmnopqrstuvwxyz'' ! n]
      else digits36 (n div 36) @ [''0123456789abcdefghijklmnopqrstuvwxyz'' ! (n mod 36)])"

declare digits36.simps [simp del]

definition format_int36 :: "int \<Rightarrow> string" where
  "format_int36 i = (if i < 0 then CHR ''-'' # digits36 (nat (- i)) else digits36 (nat i))"

text \<open>\<open>random\<close> is the answer of \<^verbatim>\<open>rand.Read\<close> for 16 bytes, \<open>nanos\<close> the clock.\<close>

definition new_request_id :: "bytes option \<Rightarrow> int \<Rightarrow> string" where
  "new_request_id random nanos =
     (case random of None \<Rightarrow> format_int36 nanos | Some bs \<Rightarrow> hex_encode bs)"

section \<open>Providers\<close>

type_synonym getenv = "string \<Rightarrow> string"

definition signal_endpoint_configured :: "getenv \<Rightarrow> string \<Rightarrow> bool" where
  "signal_endpoint_configured env signal \<longleftrightarrow>
     trim_space (env ''OTEL_EXPORTER_OTLP_ENDPOINT'') \<noteq> [] \<or>
     trim_space (env (''OTEL_EXPORTER_OTLP_'' @ signal @ ''_ENDPOINT'')) \<noteq> []"

record telemetry_config =
  tc_version :: string
  tc_sha :: string
  tc_environment :: string

text \<open>Whether the SDK could build the resource, an exporter, the instruments.\<close>

datatype telemetry_error = ResourceFailed | TraceFailed | MetricFailed | LogFailed | InstrumentFailed

record providers =
  pv_traces :: bool
  pv_metrics :: bool
  pv_logs :: bool
  pv_resource :: "(string \<times> string) list"

definition new_telemetry ::
    "(telemetry_error \<Rightarrow> bool) \<Rightarrow> getenv \<Rightarrow> string \<Rightarrow> telemetry_config \<Rightarrow> telemetry_error + providers" where
  "new_telemetry fails env instance_id c =
     (let environment = (if trim_space (tc_environment c) = [] then ''development'' else tc_environment c);
          version = (if trim_space (tc_version c) = [] then ''dev'' else tc_version c);
          traces = signal_endpoint_configured env ''TRACES'';
          metrics = signal_endpoint_configured env ''METRICS'';
          logs = signal_endpoint_configured env ''LOGS''
      in if fails ResourceFailed then Inl ResourceFailed
         else if traces \<and> fails TraceFailed then Inl TraceFailed
         else if metrics \<and> fails MetricFailed then Inl MetricFailed
         else if logs \<and> fails LogFailed then Inl LogFailed
         else if fails InstrumentFailed then Inl InstrumentFailed
         else Inr \<lparr>pv_traces = traces, pv_metrics = metrics, pv_logs = logs,
           pv_resource = [(''service.name'', ''hackatlantic-ats-api''), (''service.version'', version),
             (''deployment.environment.name'', environment), (''service.instance.id'', instance_id),
             (''vcs.ref.head.revision'', trim_space (tc_sha c))]\<rparr>)"

text \<open>\<^verbatim>\<open>Shutdown\<close> flushes every provider there is and reports the first failure.\<close>

definition shutdown_telemetry :: "providers \<Rightarrow> 'e option \<Rightarrow> 'e option \<Rightarrow> 'e option \<Rightarrow> 'e option" where
  "shutdown_telemetry p logs metrics traces =
     (case List.find (\<lambda>r. r \<noteq> None)
        ((if pv_logs p then [logs] else []) @ (if pv_metrics p then [metrics] else []) @
         (if pv_traces p then [traces] else [])) of
        None \<Rightarrow> None | Some r \<Rightarrow> r)"

section \<open>Instruments\<close>

datatype instrument_kind = Counter | Histogram "int list" | UpDownCounter | Gauge

record instrument =
  in_name :: string
  in_kind :: instrument_kind
  in_unit :: string

text \<open>A meter: the instruments it has made, the last first, and the gauges with a callback.\<close>

record meter =
  me_instruments :: "instrument list"
  me_observed :: "string list list"

text \<open>\<open>makes\<close> says which instruments the SDK makes; the first it cannot make ends the setup.\<close>

fun make_instruments :: "(instrument \<Rightarrow> bool) \<Rightarrow> instrument list \<Rightarrow> meter \<Rightarrow> bool \<times> meter" where
  "make_instruments makes [] m = (True, m)"
| "make_instruments makes (i # is) m =
     (if makes i then make_instruments makes is (m\<lparr>me_instruments := i # me_instruments m\<rparr>) else (False, m))"

definition register_callback :: "bool \<Rightarrow> instrument list \<Rightarrow> bool \<times> meter \<Rightarrow> bool \<times> meter" where
  "register_callback registers gauges = (\<lambda>(made, m).
     if made \<and> registers then (True, m\<lparr>me_observed := map in_name gauges # me_observed m\<rparr>) else (False, m))"

definition up_gauge :: instrument where
  "up_gauge = \<lparr>in_name = ''hackatlantic.telemetry.up'', in_kind = Gauge, in_unit = []\<rparr>"

definition request_instruments :: "instrument list" where
  "request_instruments =
     [\<lparr>in_name = ''http.server.requests'', in_kind = Counter, in_unit = ''{request}''\<rparr>,
      \<lparr>in_name = ''http.server.duration'',
        in_kind = Histogram [25, 50, 100, 250, 500, 750, 1000, 1500, 2500, 5000, 10000], in_unit = ''ms''\<rparr>,
      \<lparr>in_name = ''http.server.active_requests'', in_kind = UpDownCounter, in_unit = ''{request}''\<rparr>,
      \<lparr>in_name = ''ats.lifecycle.events'', in_kind = Counter, in_unit = ''{event}''\<rparr>]"

definition create_instruments :: "(instrument \<Rightarrow> bool) \<Rightarrow> bool \<Rightarrow> meter \<Rightarrow> bool \<times> meter" where
  "create_instruments makes registers m =
     register_callback registers [up_gauge] (make_instruments makes (request_instruments @ [up_gauge]) m)"

definition pool_gauges :: "instrument list" where
  "pool_gauges =
     map (\<lambda>n. \<lparr>in_name = ''db.client.connections.'' @ n, in_kind = Gauge, in_unit = ''{connection}''\<rparr>)
       [''open'', ''in_use'', ''max'']"

definition register_pool_metrics :: "(instrument \<Rightarrow> bool) \<Rightarrow> bool \<Rightarrow> meter \<Rightarrow> bool \<times> meter" where
  "register_pool_metrics makes registers m =
     register_callback registers pool_gauges (make_instruments makes pool_gauges m)"

text \<open>What the callbacks observe; the pool's statistics are 32-bit counts.\<close>

definition observe_up :: "(string \<times> int) list" where
  "observe_up = [(in_name up_gauge, 1)]"

record pool_stat =
  ps_total :: "32 word"
  ps_acquired :: "32 word"
  ps_most :: "32 word"

definition observe_pool :: "pool_stat \<Rightarrow> (string \<times> int) list" where
  "observe_pool st = zip (map in_name pool_gauges) [sint (ps_total st), sint (ps_acquired st), sint (ps_most st)]"

lemma make_instruments_all:
  "make_instruments makes is m = (True, m') \<longleftrightarrow>
     list_all makes is \<and> m' = m\<lparr>me_instruments := rev is @ me_instruments m\<rparr>"
  by (induction "is" arbitrary: m) auto

text \<open>Every gauge that is observed was made, and an observation names exactly those gauges.\<close>

lemma observed_gauges_made:
  assumes "create_instruments makes registers \<lparr>me_instruments = [], me_observed = []\<rparr> = (True, m)"
    and "register_pool_metrics makes' registers' m = (True, m')"
  shows "set (concat (me_observed m')) \<subseteq> in_name ` set (me_instruments m')"
    and "me_observed m' = [map fst (observe_pool st), map fst observe_up]"
    and "distinct (map in_name (me_instruments m'))"
  using assms
  by (auto simp: create_instruments_def register_pool_metrics_def register_callback_def make_instruments_all
      observe_pool_def observe_up_def pool_gauges_def request_instruments_def up_gauge_def
      split: prod.split_asm if_split_asm)

section \<open>The log fan-out\<close>

text \<open>A handler of \<^verbatim>\<open>log/slog\<close>: the levels it takes, and what handling a record does to the sinks
  \<open>'w\<close>; the flag says that it succeeded.\<close>

record ('l, 'r, 'w) log_handler =
  lh_enabled :: "'l \<Rightarrow> bool"
  lh_handle :: "'l \<Rightarrow> 'r \<Rightarrow> 'w \<Rightarrow> bool \<times> 'w"

definition multi_enabled :: "('l, 'r, 'w) log_handler list \<Rightarrow> 'l \<Rightarrow> bool" where
  "multi_enabled hs level = list_ex (\<lambda>h. lh_enabled h level) hs"

fun multi_handle :: "('l, 'r, 'w) log_handler list \<Rightarrow> 'l \<Rightarrow> 'r \<Rightarrow> 'w \<Rightarrow> bool \<times> 'w" where
  "multi_handle [] level r w = (True, w)"
| "multi_handle (h # hs) level r w =
     (if lh_enabled h level
      then (case lh_handle h level r w of (ok, w') \<Rightarrow> if ok then multi_handle hs level r w' else (False, w'))
      else multi_handle hs level r w)"

text \<open>Deriving a logger derives every handler.\<close>

definition multi_with_attrs ::
    "('a \<Rightarrow> ('l, 'r, 'w) log_handler \<Rightarrow> ('l, 'r, 'w) log_handler) \<Rightarrow> 'a \<Rightarrow>
       ('l, 'r, 'w) log_handler list \<Rightarrow> ('l, 'r, 'w) log_handler list" where
  "multi_with_attrs with_attrs attrs hs = map (with_attrs attrs) hs"

definition multi_with_group ::
    "(string \<Rightarrow> ('l, 'r, 'w) log_handler \<Rightarrow> ('l, 'r, 'w) log_handler) \<Rightarrow> string \<Rightarrow>
       ('l, 'r, 'w) log_handler list \<Rightarrow> ('l, 'r, 'w) log_handler list" where
  "multi_with_group with_group name hs = map (with_group name) hs"

definition telemetry_logger ::
    "providers \<Rightarrow> ('l, 'r, 'w) log_handler \<Rightarrow> ('l, 'r, 'w) log_handler \<Rightarrow> ('l, 'r, 'w) log_handler" where
  "telemetry_logger p base otel =
     (if \<not> pv_logs p then base
      else \<lparr>lh_enabled = multi_enabled [base, otel], lh_handle = multi_handle [base, otel]\<rparr>)"

section \<open>The writer that remembers the status\<close>

text \<open>\<open>sw_sent\<close> lists the status lines passed on to the connection.\<close>

record status_writer =
  sw_status :: int
  sw_bytes :: int
  sw_sent :: "int list"

definition write_header :: "int \<Rightarrow> status_writer \<Rightarrow> status_writer" where
  "write_header status w =
     (if sw_status w \<noteq> 0 then w
      else if 100 \<le> status \<and> status < 200 then w\<lparr>sw_sent := sw_sent w @ [status]\<rparr>
      else w\<lparr>sw_status := status, sw_sent := sw_sent w @ [status]\<rparr>)"

definition write_bytes :: "int \<Rightarrow> status_writer \<Rightarrow> status_writer" where
  "write_bytes written w =
     (let w' = (if sw_status w = 0 then write_header 200 w else w)
      in w'\<lparr>sw_bytes := sw_bytes w' + written\<rparr>)"

text \<open>How a handler sends its response; \<open>body_size\<close> is the number of bytes the connection takes.\<close>

definition send_response :: "(body \<Rightarrow> int) \<Rightarrow> response \<Rightarrow> status_writer \<Rightarrow> status_writer" where
  "send_response body_size r w =
     (let w' = write_header (hs_status r) w
      in if hs_body r = EmptyBody then w' else write_bytes (body_size (hs_body r)) w')"

section \<open>The middleware\<close>

record request_attributes =
  ra_method :: string
  ra_route :: string
  ra_class :: string

record span =
  sn_parent :: "string option"
  sn_method :: string
  sn_name :: string
  sn_status :: int
  sn_failed :: bool

record log_line =
  lg_request :: string
  lg_trace :: string
  lg_method :: string
  lg_route :: string
  lg_status :: int
  lg_bytes :: int
  lg_micros :: int

record telemetry =
  tm_active :: int
  tm_requests :: "request_attributes list"
  tm_durations :: "(int \<times> request_attributes) list"
  tm_events :: "string list"
  tm_spans :: "span list"
  tm_log :: "log_line list"

text \<open>What one request draws: the randomness and the clock of a new request id, the microseconds
  elapsed at the histogram and at the log line, the parent the trace headers name, and the trace id
  the tracer gives a span.\<close>

record watch =
  wa_random :: "bytes option"
  wa_nanos :: int
  wa_measured :: int
  wa_logged :: int
  wa_parent :: "(string \<Rightarrow> string) \<Rightarrow> string option"
  wa_trace :: "string option \<Rightarrow> string"

definition request_id :: "watch \<Rightarrow> request \<Rightarrow> string" where
  "request_id w req =
     (let i = safe_request_id (hr_header req ''X-Request-ID'')
      in if i = [] then new_request_id (wa_random w) (wa_nanos w) else i)"

definition url_path_of :: "request \<Rightarrow> string" where
  "url_path_of req =
     (if hr_segments req = [] then ''/'' else concat (map (\<lambda>s. CHR ''/'' # s) (hr_segments req)))"

definition no_trace :: string where
  "no_trace = replicate 32 (CHR ''0'')"

text \<open>\<open>pattern\<close> is what the mux writes to \<^verbatim>\<open>request.Pattern\<close>. Requests under \<^verbatim>\<open>/v1/claim/\<close> have
  no span: their URL holds a credential.\<close>

definition http_middleware ::
    "watch \<Rightarrow> (body \<Rightarrow> int) \<Rightarrow> (request \<Rightarrow> string) \<Rightarrow> 's handler \<Rightarrow> request \<Rightarrow> 's api_state \<Rightarrow> telemetry \<Rightarrow>
       response \<times> 's api_state \<times> telemetry" where
  "http_middleware w body_size pattern next_handler req st tm =
     (let requestID = request_id w req;
          m = safe_method (hr_method req);
          traced = \<not> has_prefix ''/v1/claim/'' (url_path_of req);
          parent = (if traced then wa_parent w (hr_header req) else None);
          tm1 = tm\<lparr>tm_active := tm_active tm + 1\<rparr>
      in case next_handler req st of (r, st') \<Rightarrow>
        let writer = send_response body_size r \<lparr>sw_status = 0, sw_bytes = 0, sw_sent = []\<rparr>;
            status = (if sw_status writer = 0 then 200 else sw_status writer);
            route = (if pattern req = [] then ''unmatched'' else pattern req);
            attributes = \<lparr>ra_method = m, ra_route = route, ra_class = itoa (status div 100) @ ''xx''\<rparr>;
            event = lifecycle_event (hr_method req) route status;
            tm2 = tm1\<lparr>tm_requests := tm_requests tm1 @ [attributes],
              tm_durations := tm_durations tm1 @ [(wa_measured w, attributes)],
              tm_events := tm_events tm1 @ (if event \<noteq> [] then [event] else []),
              tm_spans := tm_spans tm1 @ (if traced
                then [\<lparr>sn_parent = parent, sn_method = m, sn_name = route, sn_status = status,
                       sn_failed = (status \<ge> 500)\<rparr>] else []),
              tm_log := tm_log tm1 @ [\<lparr>lg_request = requestID,
                lg_trace = (if traced then wa_trace w parent else no_trace), lg_method = m, lg_route = route,
                lg_status = status, lg_bytes = sw_bytes writer, lg_micros = wa_logged w\<rparr>]\<rparr>
        in (add_headers [(''X-Request-ID'', requestID)] r, st', tm2\<lparr>tm_active := tm_active tm2 - 1\<rparr>))"

text \<open>The text of a pattern, as it is registered, and the pattern a request is served under: none
  for a preflight, which does not reach the mux, or when the mux refuses the request.\<close>

definition pattern_text :: "string \<Rightarrow> segment list \<Rightarrow> string" where
  "pattern_text m p = m @ '' '' @
     (if p = [] then ''/{$}''
      else concat (map (\<lambda>s. CHR ''/'' # (case s of Lit l \<Rightarrow> l | Wild n \<Rightarrow> ''{'' @ n @ ''}'')) p))"

definition matched_pattern :: "string \<Rightarrow> 's deps \<Rightarrow> request \<Rightarrow> string" where
  "matched_pattern version dp req =
     (if hr_method req = ''OPTIONS'' then []
      else (case List.find (route_matches req) (routes version dp) of
              None \<Rightarrow> [] | Some (m, p, _) \<Rightarrow> pattern_text m p))"

definition observed_api ::
    "string \<Rightarrow> 's deps \<Rightarrow> watch \<Rightarrow> (body \<Rightarrow> int) \<Rightarrow> request \<Rightarrow> 's api_state \<Rightarrow> telemetry \<Rightarrow>
       response \<times> 's api_state \<times> telemetry" where
  "observed_api version dp w body_size =
     http_middleware w body_size (matched_pattern version dp) (api version dp)"

section \<open>Request identifiers\<close>

lemma id_char_digit [simp]: "n < 36 \<Longrightarrow> id_char (''0123456789abcdefghijklmnopqrstuvwxyz'' ! n)"
proof -
  have "\<forall>i\<in>set [0..<36]. id_char (''0123456789abcdefghijklmnopqrstuvwxyz'' ! i)" by code_simp
  then show "n < 36 \<Longrightarrow> ?thesis" by simp
qed

lemma digits36_safe: "list_all id_char (digits36 n)"
  by (induction n rule: digits36.induct) (subst digits36.simps, auto simp del: digits36.simps)

lemma hex_char_safe [simp]: "n < 16 \<Longrightarrow> id_char (hex_char n)"
proof -
  have "\<forall>i\<in>set [0..<16]. id_char (hex_char i)" by code_simp
  then show "n < 16 \<Longrightarrow> ?thesis" by simp
qed

lemma hex_encode_safe: "list_all id_char (hex_encode bs)"
proof -
  have "unat b div 16 < 16" for b :: "8 word"
  proof (rule less_mult_imp_div_less)
    have "unat b < 2 ^ LENGTH(8)" by (rule unsigned_less)
    then show "unat b < 16 * 16" by simp
  qed
  then show ?thesis by (induction bs) (simp_all add: hex_encode_def)
qed

lemma request_id_safe: "list_all id_char (request_id w req)"
proof -
  have "id_char (CHR ''-'')" by code_simp
  then show ?thesis
    by (auto simp: request_id_def Let_def safe_request_id_def new_request_id_def format_int36_def
        digits36_safe hex_encode_safe split: option.split)
qed

section \<open>What one request leaves in the telemetry\<close>

definition route_text :: "'s route \<Rightarrow> string" where
  "route_text = (\<lambda>(m, p, _). pattern_text m p)"

lemma matched_pattern_cases:
  "matched_pattern version dp req \<in> set ([] # map route_text (routes version dp))"
proof (cases "List.find (route_matches req) (routes version dp)")
  case (Some x)
  then have "x \<in> set (routes version dp)" by (auto simp: find_Some_iff)
  then show ?thesis using Some by (auto simp: matched_pattern_def route_text_def split: prod.split)
qed (simp add: matched_pattern_def)

lemma sent_status:
  assumes "body_fits r"
  shows "sw_status (send_response body_size r \<lparr>sw_status = 0, sw_bytes = 0, sw_sent = []\<rparr>) = hs_status r"
    and "hs_status r div 100 \<in> {2, 4, 5}" and "hs_status r \<noteq> 0"
  using assms by (auto simp: body_fits_def send_response_def write_header_def write_bytes_def Let_def
      split: body.split_asm)

text \<open>The patterns of the four lifecycle events.\<close>

definition lifecycle_patterns :: "(segment list \<times> string) list" where
  "lifecycle_patterns =
     [(under ''applications'' [Wild ''applicationId'', Lit ''submit''], ''application.submitted''),
      (admin [Lit ''decisions'', Wild ''decisionId'', Lit ''release''], ''decision.released''),
      (admin [Lit ''attendees'', Wild ''attendeeId'', Lit ''passes''], ''pass.issued''),
      (under ''redemptions'' [], ''redemption.completed'')]"

definition lifecycle_of :: "request \<Rightarrow> string list" where
  "lifecycle_of req =
     (if hr_method req \<noteq> ''POST'' then []
      else map snd (filter (\<lambda>(p, _). match_path p (hr_segments req) \<noteq> None) lifecycle_patterns))"

text \<open>Over the whole route table: which methods there are, and that the event of a \<^verbatim>\<open>POST\<close> pattern's
  text is the event of the pattern.\<close>

lemma pattern_events:
  "list_all (\<lambda>(m, p). m \<in> set [''DELETE'', ''GET'', ''PATCH'', ''POST'', ''PUT''] \<and>
     pattern_text m p \<noteq> [] \<and>
     lifecycle_event ''POST'' (pattern_text m p) 200 =
       (if m = ''POST'' then case map_of lifecycle_patterns p of None \<Rightarrow> [] | Some e \<Rightarrow> e else []))
     (map pattern_of (routes version dp))"
  unfolding routes_def public_routes_def me_route_def application_routes_def scanner_routes_def
    reviewer_routes_def admin_routes_def list.map append.simps pattern_of_def prod.case under_def
  by code_simp

lemma lifecycle_routes: "(p, e) \<in> set lifecycle_patterns \<Longrightarrow> \<exists>h. (''POST'', p, h) \<in> set (routes version dp)"
  by (auto simp: lifecycle_patterns_def routes_def application_routes_def scanner_routes_def admin_routes_def)

lemma lifecycle_event_success:
  "lifecycle_event m route status = (if 200 \<le> status \<and> status < 300 then lifecycle_event m route 200 else [])"
  by (simp add: lifecycle_event_def)

lemma lifecycle_event_unmatched: "lifecycle_event m ''unmatched'' status = []"
proof -
  have "last (m @ '' unmatched'') = CHR ''d''" by simp
  moreover have "last k \<noteq> CHR ''d''"
    if "k \<in> {''POST POST /v1/applications/{applicationId}/submit'',
       ''POST POST /v1/admin/decisions/{decisionId}/release'',
       ''POST POST /v1/admin/attendees/{attendeeId}/passes'', ''POST POST /v1/redemptions''}" for k
    using that by auto
  ultimately show ?thesis unfolding lifecycle_event_def by (auto simp del: append_Cons last_append)
qed

lemma lifecycle_event_method:
  "m \<in> set [''DELETE'', ''GET'', ''HEAD'', ''PATCH'', ''PUT'', ''OPTIONS''] \<Longrightarrow> lifecycle_event m route status = []"
  by (auto simp: lifecycle_event_def)

lemma lifecycle_event_api:
  assumes "route = (if matched_pattern version dp req = [] then ''unmatched'' else matched_pattern version dp req)"
  shows "(if lifecycle_event (hr_method req) route 200 \<noteq> [] then [lifecycle_event (hr_method req) route 200] else []) =
    lifecycle_of req"
proof (cases "List.find (route_matches req) (routes version dp)")
  case None
  have "match_path p (hr_segments req) = None"
    if pe: "(p, e) \<in> set lifecycle_patterns" and post: "hr_method req = ''POST''" for p e
  proof (rule ccontr)
    assume "match_path p (hr_segments req) \<noteq> None"
    moreover obtain h where "(''POST'', p, h) \<in> set (routes version dp)" using lifecycle_routes [OF pe, of version dp] by blast
    ultimately show False using None post by (auto simp: find_None_iff route_matches_def method_matches_def)
  qed
  then have "lifecycle_of req = []" by (auto simp: lifecycle_of_def filter_empty_conv)
  moreover have "route = ''unmatched''" using None assms by (simp add: matched_pattern_def)
  ultimately show ?thesis by (simp add: lifecycle_event_unmatched)
next
  case (Some x)
  obtain m p h where x: "x = (m, p, h)" by (cases x)
  have mem: "(m, p, h) \<in> set (routes version dp)" and fits: "route_matches req (m, p, h)"
    using Some by (auto simp: find_Some_iff x)
  have facts: "m \<in> set [''DELETE'', ''GET'', ''PATCH'', ''POST'', ''PUT'']" "pattern_text m p \<noteq> []"
    "lifecycle_event ''POST'' (pattern_text m p) 200 =
       (if m = ''POST'' then case map_of lifecycle_patterns p of None \<Rightarrow> [] | Some e \<Rightarrow> e else [])"
    using pattern_events [of version dp] mem by (auto simp: list_all_iff pattern_of_def)
  have verb: "method_matches m (hr_method req)" using fits by (simp add: route_matches_def)
  show ?thesis
  proof (cases "hr_method req = ''POST''")
    case False
    then have "hr_method req \<in> set [''DELETE'', ''GET'', ''HEAD'', ''PATCH'', ''PUT'', ''OPTIONS'']"
      using facts(1) verb by (auto simp: method_matches_def)
    from lifecycle_event_method [OF this] False show ?thesis by (simp add: lifecycle_of_def)
  next
    case True
    then have m: "m = ''POST''" using verb by (auto simp: method_matches_def)
    have route: "route = pattern_text m p"
      using Some x True assms facts(2) by (simp add: matched_pattern_def)
    have "q = p" if qe: "(q, e) \<in> set lifecycle_patterns" and q: "match_path q (hr_segments req) \<noteq> None" for q e
    proof -
      obtain k where "(''POST'', q, k) \<in> set (routes version dp)" using lifecycle_routes [OF qe, of version dp] by blast
      from find_exact [OF this, of req] q True Some x show ?thesis by (auto simp: method_matches_def)
    qed
    moreover have "match_path p (hr_segments req) \<noteq> None" using fits by (simp add: route_matches_def)
    ultimately have "filter (\<lambda>(q, _). match_path q (hr_segments req) \<noteq> None) lifecycle_patterns =
        filter (\<lambda>(q, _). q = p) lifecycle_patterns"
      by (intro filter_cong) auto
    moreover have "map snd (filter (\<lambda>(q, _). q = p) lifecycle_patterns) =
        (case map_of lifecycle_patterns p of None \<Rightarrow> [] | Some e \<Rightarrow> [e])" (is ?one)
      and "\<forall>e\<in>snd ` set lifecycle_patterns. e \<noteq> []"
      by (auto simp: lifecycle_patterns_def under_def)
    ultimately show ?thesis
      using True facts(3) m route by (auto simp: lifecycle_of_def split: option.splits dest!: map_of_SomeD)
  qed
qed

section \<open>Properties\<close>

text \<open>C40. What the telemetry learns of a request: the answer and the state are the API's, with the
  request's identifier added; exactly one metric point and one log line are written, whose method and
  route are from the fixed lists (a route template, never a path), whose status class is one of
  three and whose identifier has only safe characters; a claim request leaves no span; the count of
  active requests is restored; and a lifecycle event is counted exactly for a successful
  \<^verbatim>\<open>POST\<close> to one of its four routes.\<close>

theorem exported_telemetry_bounded:
  "case api version dp req st of (r, st') \<Rightarrow>
   (\<exists>a l. observed_api version dp w body_size req st tm =
        (add_headers [(''X-Request-ID'', lg_request l)] r, st',
         tm\<lparr>tm_requests := tm_requests tm @ [a], tm_durations := tm_durations tm @ [(wa_measured w, a)],
           tm_events := tm_events tm @ (if 200 \<le> hs_status r \<and> hs_status r < 300 then lifecycle_of req else []),
           tm_spans := tm_spans tm @ (if has_prefix ''/v1/claim/'' (url_path_of req) then []
             else [\<lparr>sn_parent = wa_parent w (hr_header req), sn_method = ra_method a, sn_name = ra_route a,
                    sn_status = hs_status r, sn_failed = (500 \<le> hs_status r)\<rparr>]),
           tm_log := tm_log tm @ [l]\<rparr>) \<and>
      ra_method a \<in> set (''OTHER'' # safe_methods) \<and>
      ra_route a \<in> set (''unmatched'' # map route_text (routes version dp)) \<and>
      ra_class a \<in> {''2xx'', ''4xx'', ''5xx''} \<and>
      lg_method l = ra_method a \<and> lg_route l = ra_route a \<and> lg_status l = hs_status r \<and>
      list_all id_char (lg_request l) \<and>
      map_of (hs_headers (add_headers [(''X-Request-ID'', lg_request l)] r)) ''X-Request-ID'' = Some (lg_request l))"
proof -
  obtain r st' where run: "api version dp req st = (r, st')" by fastforce
  obtain r0 where r0: "well_formed r0" and r: "r = add_headers
      [(''Content-Security-Policy'', ''default-src '' @ [CHR 0x27] @ ''none'' @ [CHR 0x27]),
           (''X-Content-Type-Options'', ''nosniff''), (''X-Frame-Options'', ''DENY''),
           (''Cache-Control'', ''no-store'')] (add_headers (cors_headers dp req) r0)"
    using api_answer [of version dp req st] run by (metis fst_conv)
  have fits: "body_fits r" and absent: "map_of (hs_headers r) ''X-Request-ID'' = None"
    using r0 handler_header_absent(5) by (auto simp: r well_formed_def header_after_add cors_headers_def)
  note status = sent_status [OF fits]
  define route where
    "route = (if matched_pattern version dp req = [] then ''unmatched'' else matched_pattern version dp req)"
  define a where "a = \<lparr>ra_method = safe_method (hr_method req), ra_route = route,
      ra_class = itoa (hs_status r div 100) @ ''xx''\<rparr>"
  define traced where "traced = (\<not> has_prefix ''/v1/claim/'' (url_path_of req))"
  define l where "l = \<lparr>lg_request = request_id w req,
      lg_trace = (if traced then wa_trace w (if traced then wa_parent w (hr_header req) else None) else no_trace),
      lg_method = safe_method (hr_method req), lg_route = route, lg_status = hs_status r,
      lg_bytes = sw_bytes (send_response body_size r \<lparr>sw_status = 0, sw_bytes = 0, sw_sent = []\<rparr>),
      lg_micros = wa_logged w\<rparr>"
  have event: "(if lifecycle_event (hr_method req) route (hs_status r) \<noteq> []
      then [lifecycle_event (hr_method req) route (hs_status r)] else []) =
      (if 200 \<le> hs_status r \<and> hs_status r < 300 then lifecycle_of req else [])"
    using lifecycle_event_api [OF route_def] lifecycle_event_success [of "hr_method req" route "hs_status r"]
    by (auto split: if_splits)
  have "itoa 2 = ''2''" "itoa 4 = ''4''" "itoa 5 = ''5''" by code_simp+
  then have "ra_class a \<in> {''2xx'', ''4xx'', ''5xx''}" using status(2) by (auto simp: a_def)
  moreover have "ra_route a \<in> set (''unmatched'' # map route_text (routes version dp))"
    using matched_pattern_cases [of version dp req] by (auto simp: a_def route_def)
  ultimately show ?thesis unfolding run prod.case event [symmetric]
    by (intro exI [of _ a] exI [of _ l] conjI)
       (simp_all add: observed_api_def http_middleware_def run status Let_def a_def l_def traced_def
          request_id_safe safe_method_def header_after_add absent flip: route_def)
qed

end
