(* ===== verification/Settings.thy ===== *)
theory Settings
  imports Telemetry
begin

text \<open>
  The start of the API: \<^verbatim>\<open>cmd/server/main.go\<close> from the environment to the dependencies of the
  handler, with \<^verbatim>\<open>database.Open\<close>. Each refusal of \<^verbatim>\<open>main\<close> (a logged error and exit 1) is a
  value of \<open>startup_error\<close>; the listener and the shutdown are left out.
\<close>

section \<open>Values of the environment\<close>

definition comma_separated :: "string \<Rightarrow> string list" where
  "comma_separated raw = filter (\<lambda>v. v \<noteq> []) (map trim_space (split_char (CHR '','') raw))"

text \<open>\<^verbatim>\<open>strconv.ParseInt(raw, 10, 32)\<close>: an optional sign and digits within 32 bits.\<close>

definition parse_env_int32 :: "string \<Rightarrow> int option" where
  "parse_env_int32 s = parse_int_in (- (2 ^ 31)) (2 ^ 31)
     (case s of c # d # cs \<Rightarrow> if c = CHR ''+'' \<and> d \<noteq> CHR ''-'' then d # cs else s | _ \<Rightarrow> s)"

definition int32_env :: "getenv \<Rightarrow> string \<Rightarrow> int \<Rightarrow> int" where
  "int32_env env name fallback =
     (let raw = env name in
      if raw = [] then fallback
      else (case parse_env_int32 raw of None \<Rightarrow> fallback | Some v \<Rightarrow> if v < 1 then fallback else v))"

text \<open>\<open>parse\<close> is \<^verbatim>\<open>time.ParseDuration\<close>, in nanoseconds.\<close>

definition duration_env :: "(string \<Rightarrow> int option) \<Rightarrow> getenv \<Rightarrow> string \<Rightarrow> int \<Rightarrow> int" where
  "duration_env parse env name fallback =
     (let raw = env name in
      if raw = [] then fallback
      else (case parse raw of None \<Rightarrow> fallback | Some v \<Rightarrow> if v \<le> 0 then fallback else v))"

definition or_default :: "string \<Rightarrow> string \<Rightarrow> string" where
  "or_default v fallback = (if v = [] then fallback else v)"

section \<open>The database pool\<close>

record database_config =
  dc_url :: string
  dc_role :: string
  dc_max_conns :: int
  dc_query_timeout :: int
  dc_transaction_timeout :: int

datatype database_error = UrlRequired | MaxConnsInvalid | TimeoutInvalid | UrlUnparsable

text \<open>What the pool is configured with; the two server-side timeouts are milliseconds.\<close>

record 'u pool_config =
  po_url :: 'u
  po_max_conns :: int
  po_min_conns :: int
  po_max_lifetime :: int
  po_max_idle :: int
  po_health_check :: int
  po_statement_timeout :: int
  po_lock_timeout :: int
  po_role :: "string option"
  po_query_timeout :: int
  po_transaction_timeout :: int

abbreviation second :: int where "second \<equiv> 10 ^ 9"

definition open_pool :: "(string \<Rightarrow> 'u option) \<Rightarrow> database_config \<Rightarrow> database_error + 'u pool_config" where
  "open_pool parse_db_url c =
     (if dc_url c = [] then Inl UrlRequired
      else let most = (if dc_max_conns c = 0 then 10 else dc_max_conns c) in
        if most < 1 then Inl MaxConnsInvalid
        else let q = (if dc_query_timeout c = 0 then 5 * second else dc_query_timeout c);
                 t = (if dc_transaction_timeout c = 0 then 15 * second else dc_transaction_timeout c) in
          if q \<le> 0 \<or> t \<le> 0 then Inl TimeoutInvalid
          else (case parse_db_url (dc_url c) of
              None \<Rightarrow> Inl UrlUnparsable
            | Some u \<Rightarrow> Inr \<lparr>po_url = u, po_max_conns = most, po_min_conns = 0,
                po_max_lifetime = 30 * 60 * second, po_max_idle = 5 * 60 * second,
                po_health_check = 60 * second, po_statement_timeout = q div 10 ^ 6,
                po_lock_timeout = q div 10 ^ 6,
                po_role = (let r = trim_space (dc_role c) in if r = [] then None else Some r),
                po_query_timeout = q, po_transaction_timeout = t\<rparr>))"

text \<open>\<^verbatim>\<open>AfterConnect\<close>: a connection is used only when \<^verbatim>\<open>SET ROLE\<close> made the role current.
  \<open>set_role\<close> and \<open>current_user\<close> are the two statements on the connection.\<close>

definition after_connect ::
    "(string \<Rightarrow> 'c \<Rightarrow> 'c option) \<Rightarrow> ('c \<Rightarrow> string option) \<Rightarrow> 'u pool_config \<Rightarrow> 'c \<Rightarrow> 'c option" where
  "after_connect set_role current_user po c =
     (case po_role po of
        None \<Rightarrow> Some c
      | Some r \<Rightarrow> Option.bind (set_role r c) (\<lambda>c'. if current_user c' = Some r then Some c' else None))"

text \<open>A positive timeout below a millisecond is no timeout to PostgreSQL.\<close>

lemma short_timeout_disabled:
  assumes "0 < dc_query_timeout c" "dc_query_timeout c < 10 ^ 6" and "open_pool parse_db_url c = Inr po"
  shows "po_statement_timeout po = 0 \<and> po_lock_timeout po = 0"
  using assms by (auto simp: open_pool_def Let_def split: if_split_asm option.split_asm)

section \<open>Groups of settings\<close>

definition validate_load_test_authentication :: "string \<Rightarrow> string \<Rightarrow> bool" where
  "validate_load_test_authentication environment secret =
     (\<not> (trim_space secret \<noteq> [] \<and> trim_space environment \<noteq> ''staging''))"

datatype resume_store = DiskStore string | BucketStore spaces_config

definition load_resume_store :: "disk_faults \<Rightarrow> getenv \<Rightarrow> store_error + resume_store" where
  "load_resume_store w env =
     (let c = \<lparr>sp_endpoint = trim_space (env ''SPACES_ENDPOINT''), sp_region = trim_space (env ''SPACES_REGION''),
               sp_bucket = trim_space (env ''SPACES_BUCKET''),
               sp_key_id = trim_space (env ''SPACES_ACCESS_KEY_ID''),
               sp_secret = trim_space (env ''SPACES_SECRET_ACCESS_KEY'')\<rparr> in
      if sp_endpoint c \<noteq> [] \<or> sp_region c \<noteq> [] \<or> sp_bucket c \<noteq> [] \<or> sp_key_id c \<noteq> [] \<or> sp_secret c \<noteq> []
      then bindE (new_spaces_store c) (\<lambda>c'. Inr (BucketStore c'))
      else bindE (new_file_store w (or_default (trim_space (env ''RESUME_STORAGE_DIRECTORY'')) ''.data/resumes''))
             (\<lambda>root. Inr (DiskStore root)))"

record clerk_settings =
  ks_secret :: string
  ks_issuer :: string
  ks_parties :: "string list"
  ks_jwks :: string

text \<open>\<open>Inr None\<close>: authentication is not configured.\<close>

definition load_clerk_settings :: "getenv \<Rightarrow> unit + clerk_settings option" where
  "load_clerk_settings env =
     (let k = \<lparr>ks_secret = trim_space (env ''CLERK_SECRET_KEY''), ks_issuer = trim_space (env ''CLERK_ISSUER_URL''),
               ks_parties = comma_separated (env ''CLERK_AUTHORIZED_PARTIES''),
               ks_jwks = trim_space (env ''CLERK_JWKS_URL'')\<rparr> in
      if ks_secret k = [] \<and> ks_issuer k = [] \<and> ks_parties k = [] \<and> ks_jwks k = [] then Inr None
      else if ks_secret k = [] \<or> ks_issuer k = [] \<or> ks_parties k = [] then Inl ()
      else Inr (Some k))"

datatype pass_settings_error = PeppersRequired | PeppersSame

definition load_pass_settings :: "getenv \<Rightarrow> pass_settings_error + pass_config" where
  "load_pass_settings env =
     (let c = \<lparr>cf_staff_expires = None, cf_qr_pepper = trim_space (env ''QR_TOKEN_PEPPER''),
               cf_claim_pepper = trim_space (env ''CLAIM_TOKEN_PEPPER''),
               cf_base_url = trim_space (env ''APP_BASE_URL'')\<rparr> in
      if cf_qr_pepper c = [] \<or> cf_claim_pepper c = [] then Inl PeppersRequired
      else if cf_qr_pepper c = cf_claim_pepper c then Inl PeppersSame
      else Inr c)"

section \<open>Starting\<close>

text \<open>
  What the start reads from outside: the parsers of the libraries, the disk and the bucket client
  as \<open>Files\<close> has them, the answer of the key endpoint, the token library, the Clerk API with its
  secret key, and the clock. \<open>rt_exporters\<close> says which parts of the telemetry the SDK cannot make,
  \<open>rt_instance\<close> is the id drawn for the process, \<open>rt_metrics\<close> whether the pool's gauges could be made.
\<close>

record ('u, 'n, 'k) runtime =
  rt_exporters :: "telemetry_error \<Rightarrow> bool"
  rt_instance :: "bytes option \<times> int"
  rt_metrics :: bool
  rt_duration :: "string \<Rightarrow> int option"
  rt_db_url :: "string \<Rightarrow> 'u option"
  rt_url :: "string \<Rightarrow> url option"
  rt_cidr :: "string \<Rightarrow> 'n option"
  rt_disk :: disk_faults
  rt_issuer :: "string \<Rightarrow> (string \<times> string \<times> string) option"
  rt_keys :: "bytes \<Rightarrow> ('k \<times> nat) option"
  rt_fetch :: "string \<Rightarrow> (int \<times> bytes) option"
  rt_token :: "string \<Rightarrow> 'k \<Rightarrow> string \<Rightarrow> session_claims option"
  rt_clerk :: "string \<Rightarrow> string \<Rightarrow> clerk_user option"
  rt_claims :: "bytes \<Rightarrow> load_claims option"
  rt_seconds :: int

datatype startup_error =
    LoadTestNotStaging
  | TelemetryConfig telemetry_error
  | DatabaseConfig database_error
  | MetricsFailed
  | PassSettings pass_settings_error
  | PassConfig config_error
  | ProxyConfig
  | ResumeStoreConfig store_error
  | ClerkTogether
  | ClerkConfig auth_config_error
  | LoadTestSecret

text \<open>\<^verbatim>\<open>clerkDependencies\<close>: the verifier and the profile source, or none when Clerk is not
  configured. Neither \<^verbatim>\<open>NewClerkProfileSource\<close>, given a secret key, nor
  \<^verbatim>\<open>NewLoadTestProfileSource\<close>, given a source, can fail.\<close>

definition clerk_dependencies ::
    "('u, 'n, 'k) runtime \<Rightarrow> getenv \<Rightarrow> bool \<Rightarrow> startup_error + (verifier \<times> profile_source) option" where
  "clerk_dependencies rt env load_test =
     bindE (wrap_err (\<lambda>_. ClerkTogether) (load_clerk_settings env)) (\<lambda>settings.
     case settings of
       None \<Rightarrow> Inr None
     | Some k \<Rightarrow>
         bindE (wrap_err ClerkConfig (new_jwt_verifier (rt_issuer rt) (rt_keys rt) (rt_fetch rt)
             \<lparr>cc_issuer = ks_issuer k, cc_parties = ks_parties k, cc_jwks_url = ks_jwks k\<rparr>)) (\<lambda>jv.
         let profiles = clerk_profile (rt_clerk rt (ks_secret k)) in
         Inr (Some (jwt_verify (rt_token rt) jv,
                    if load_test then load_test_profile profiles else profiles))))"

text \<open>With a load-test secret the verifier is wrapped; \<open>d\<close> is what \<^verbatim>\<open>clerkDependencies\<close> gave.\<close>

definition wrap_verifier ::
    "('u, 'n, 'k) runtime \<Rightarrow> string \<Rightarrow> (verifier \<times> profile_source) option \<Rightarrow>
       startup_error + (verifier \<times> profile_source) option" where
  "wrap_verifier rt secret d =
     (case d of
        None \<Rightarrow> Inr None
      | Some (v, p) \<Rightarrow>
          if secret = [] then Inr (Some (v, p))
          else (case new_load_test_verifier secret of
              None \<Rightarrow> Inl LoadTestSecret
            | Some key \<Rightarrow> Inr (Some (load_test_verify v key (rt_seconds rt) (rt_claims rt), p))))"

record ('u, 'n) server =
  srv_address :: string
  srv_build :: build_info
  srv_telemetry :: providers
  srv_pool :: "'u pool_config"
  srv_passes :: pass_service
  srv_limiter :: rate_limiter
  srv_trusted :: "'n list"
  srv_store :: resume_store
  srv_auth :: "(verifier \<times> profile_source) option"
  srv_origins :: "string list"

definition database_settings :: "('u, 'n, 'k) runtime \<Rightarrow> getenv \<Rightarrow> database_config" where
  "database_settings rt env =
     \<lparr>dc_url = env ''DATABASE_URL'', dc_role = env ''DATABASE_ROLE'',
      dc_max_conns = int32_env env ''DATABASE_MAX_CONNS'' 10,
      dc_query_timeout = duration_env (rt_duration rt) env ''DATABASE_QUERY_TIMEOUT'' (5 * second),
      dc_transaction_timeout =
        duration_env (rt_duration rt) env ''DATABASE_TRANSACTION_TIMEOUT'' (15 * second)\<rparr>"

definition deployment_environment :: "getenv \<Rightarrow> string" where
  "deployment_environment env = or_default (trim_space (env ''DEPLOYMENT_ENVIRONMENT'')) ''development''"

definition load_test_secret :: "getenv \<Rightarrow> string" where
  "load_test_secret env = trim_space (env ''LOAD_TEST_AUTH_SECRET'')"

definition configure ::
    "string \<Rightarrow> string \<Rightarrow> string \<Rightarrow> ('u, 'n, 'k) runtime \<Rightarrow> getenv \<Rightarrow> startup_error + ('u, 'n) server" where
  "configure version git_sha built_at rt env =
     (if \<not> validate_load_test_authentication (deployment_environment env) (load_test_secret env)
      then Inl LoadTestNotStaging
      else let build = \<lparr>bi_version = or_default (trim_space (env ''APP_VERSION'')) version,
             bi_sha = or_default (trim_space (env ''GIT_SHA'')) git_sha, bi_built = built_at,
             bi_environment = deployment_environment env\<rparr> in
      bindE (wrap_err TelemetryConfig (new_telemetry (rt_exporters rt) env (case_prod new_request_id (rt_instance rt))
          \<lparr>tc_version = bi_version build, tc_sha = bi_sha build, tc_environment = bi_environment build\<rparr>)) (\<lambda>telemetry.
      bindE (wrap_err DatabaseConfig (open_pool (rt_db_url rt) (database_settings rt env))) (\<lambda>pool.
      if \<not> rt_metrics rt then Inl MetricsFailed
      else bindE (wrap_err PassSettings (load_pass_settings env)) (\<lambda>settings.
      bindE (wrap_err PassConfig (new_service (rt_url rt) settings)) (\<lambda>service.
      bindE (from_option ProxyConfig
          (trust_proxy_cidrs (rt_cidr rt) (comma_separated (env ''TRUSTED_PROXY_CIDRS'')))) (\<lambda>trusted.
      bindE (wrap_err ResumeStoreConfig (load_resume_store (rt_disk rt) env)) (\<lambda>store.
      bindE (clerk_dependencies rt env (load_test_secret env \<noteq> [])) (\<lambda>d.
      bindE (wrap_verifier rt (load_test_secret env) d) (\<lambda>authentication.
      Inr \<lparr>srv_address = or_default (env ''HTTP_ADDRESS'') '':8080'',
           srv_build = build, srv_telemetry = telemetry,
           srv_pool = pool, srv_passes = service, srv_limiter = new_claim_rate_limiter 0 0 0,
           srv_trusted = trusted, srv_store = store, srv_auth = authentication,
           srv_origins = comma_separated (env ''CORS_ALLOWED_ORIGINS'')\<rparr>)))))))))"

section \<open>What a started server has\<close>

lemma settings_enabled:
  assumes "load_clerk_settings env = Inr (Some k)"
  shows "ks_secret k \<noteq> [] \<and> ks_issuer k \<noteq> [] \<and> ks_parties k \<noteq> []"
  using assms by (auto simp: load_clerk_settings_def Let_def split: if_split_asm)

lemma new_jwt_verifier_parts:
  assumes "new_jwt_verifier parse_issuer parse fetch c = Inr jv"
  obtains location where "jwks_url_of parse_issuer c = Inr location"
    and "jwks_refresh parse (fetch location) = Some (jv_keys jv)" and "jv_issuer jv = cc_issuer c"
    and "jv_parties jv = filter (\<lambda>p. p \<noteq> []) (map trim_space (cc_parties c))"
  using assms by (auto simp: new_jwt_verifier_def Let_def split: if_split_asm)

lemma clerk_dependencies_Some:
  assumes "clerk_dependencies rt env load_test = Inr (Some (v, p))"
  obtains k jv where "load_clerk_settings env = Inr (Some k)"
    and "new_jwt_verifier (rt_issuer rt) (rt_keys rt) (rt_fetch rt)
          \<lparr>cc_issuer = ks_issuer k, cc_parties = ks_parties k, cc_jwks_url = ks_jwks k\<rparr> = Inr jv"
    and "v = jwt_verify (rt_token rt) jv"
    and "p = (let q = clerk_profile (rt_clerk rt (ks_secret k)) in if load_test then load_test_profile q else q)"
  using assms by (auto simp: clerk_dependencies_def Let_def split: option.split_asm)

lemma configure_parts:
  assumes "configure version sha built rt env = Inr srv"
  shows "validate_load_test_authentication (deployment_environment env) (load_test_secret env)"
    and "open_pool (rt_db_url rt) (database_settings rt env) = Inr (srv_pool srv)"
    and "service_ok (srv_passes srv)"
    and "\<exists>d. clerk_dependencies rt env (load_test_secret env \<noteq> []) = Inr d \<and>
      wrap_verifier rt (load_test_secret env) d = Inr (srv_auth srv)"
  using assms by (auto simp: configure_def Let_def split: if_split_asm) (erule new_service_ok)

lemma open_pool_bounds:
  assumes "open_pool parse_db_url c = Inr po"
  shows "1 \<le> po_max_conns po" and "0 < po_query_timeout po" and "0 < po_transaction_timeout po"
  using assms by (auto simp: open_pool_def Let_def split: if_split_asm option.split_asm)

lemma deployment_environment_trimmed: "trim_space (deployment_environment env) = deployment_environment env"
proof (cases "trim_space (env ''DEPLOYMENT_ENVIRONMENT'') = []")
  case True
  have "trim_space ''development'' = ''development''" by code_simp
  with True show ?thesis by (simp add: deployment_environment_def or_default_def)
next
  case False
  then show ?thesis by (simp add: deployment_environment_def or_default_def trim_space_idem)
qed

lemma comma_separated_trimmed: "v \<in> set (comma_separated raw) \<Longrightarrow> trim_space v = v"
  by (auto simp: comma_separated_def trim_space_idem)

lemma comma_separated_clean:
  "filter (\<lambda>p. p \<noteq> []) (map trim_space (comma_separated raw)) = comma_separated raw"
proof -
  have "map trim_space (comma_separated raw) = comma_separated raw"
    by (rule map_idI) (rule comma_separated_trimmed)
  then show ?thesis by (simp add: comma_separated_def)
qed

lemma load_clerk_settings_Some:
  "load_clerk_settings env = Inr (Some k) \<Longrightarrow>
     k = \<lparr>ks_secret = trim_space (env ''CLERK_SECRET_KEY''), ks_issuer = trim_space (env ''CLERK_ISSUER_URL''),
          ks_parties = comma_separated (env ''CLERK_AUTHORIZED_PARTIES''),
          ks_jwks = trim_space (env ''CLERK_JWKS_URL'')\<rparr>"
  by (simp add: load_clerk_settings_def Let_def split: if_split_asm)

text \<open>Where the signing keys must come from: the configured URL, or the well-known path below the issuer
  without its trailing slashes.\<close>

definition key_location :: "(string \<Rightarrow> (string \<times> string \<times> string) option) \<Rightarrow> getenv \<Rightarrow> string \<Rightarrow> bool" where
  "key_location parse_issuer env location \<longleftrightarrow>
     (if trim_space (env ''CLERK_JWKS_URL'') \<noteq> [] then location = trim_space (env ''CLERK_JWKS_URL'')
      else \<exists>scheme host base n. parse_issuer (trim_space (env ''CLERK_ISSUER_URL'')) =
               Some (scheme, host, base @ replicate n (CHR ''/'')) \<and>
             scheme \<noteq> [] \<and> host \<noteq> [] \<and> (base = [] \<or> last base \<noteq> CHR ''/'') \<and>
             location = base @ ''/.well-known/jwks.json'')"

lemma trailing_split:
  "\<exists>n. s = rev (dropWhile (\<lambda>x. x = a) (rev s)) @ replicate n a \<and>
    (rev (dropWhile (\<lambda>x. x = a) (rev s)) = [] \<or> last (rev (dropWhile (\<lambda>x. x = a) (rev s))) \<noteq> a)"
proof -
  let ?t = "takeWhile (\<lambda>x. x = a) (rev s)" and ?d = "dropWhile (\<lambda>x. x = a) (rev s)"
  have "?t = replicate (length ?t) a" by (rule replicate_eqI) (auto dest: set_takeWhileD)
  then have "rev ?t = replicate (length ?t) a" by (metis rev_replicate)
  moreover have "s = rev ?d @ rev ?t" by (simp flip: rev_append)
  moreover have "?d = [] \<or> hd ?d \<noteq> a" using hd_dropWhile [of "\<lambda>x. x = a" "rev s"] by blast
  ultimately show ?thesis by (metis last_rev rev_is_Nil_conv)
qed

lemma jwks_url_located:
  assumes "jwks_url_of parse_issuer \<lparr>cc_issuer = trim_space (env ''CLERK_ISSUER_URL''), cc_parties = ps,
      cc_jwks_url = trim_space (env ''CLERK_JWKS_URL'')\<rparr> = Inr location"
  shows "key_location parse_issuer env location"
proof (cases "trim_space (env ''CLERK_JWKS_URL'') = []")
  case True
  then obtain scheme host written where i: "parse_issuer (trim_space (env ''CLERK_ISSUER_URL'')) = Some (scheme, host, written)"
      "scheme \<noteq> []" "host \<noteq> []"
    and l: "location = rev (dropWhile (\<lambda>x. x = CHR ''/'') (rev written)) @ ''/.well-known/jwks.json''"
    using assms by (auto simp: jwks_url_of_def split: option.split_asm if_split_asm)
  obtain n where "written = rev (dropWhile (\<lambda>x. x = CHR ''/'') (rev written)) @ replicate n (CHR ''/'')"
    and "rev (dropWhile (\<lambda>x. x = CHR ''/'') (rev written)) = [] \<or>
      last (rev (dropWhile (\<lambda>x. x = CHR ''/'') (rev written))) \<noteq> CHR ''/''"
    using trailing_split [of written "CHR ''/''"] by blast
  with i l True show ?thesis unfolding key_location_def by (metis (no_types, lifting))
next
  case False
  then show ?thesis using assms by (simp add: key_location_def jwks_url_of_def)
qed

lemma jwks_refresh_Some:
  "jwks_refresh parse got = Some keys \<longleftrightarrow>
     (\<exists>body n. got = Some (200, body) \<and> int (length body) \<le> 1048576 \<and> parse body = Some (keys, n) \<and> 0 < n)"
  by (auto simp: jwks_refresh_def max_jwks_size_def split: option.split if_split_asm)

lemma pool_size:
  assumes "open_pool parse_db_url (database_settings rt env) = Inr po"
  shows "po_max_conns po = (case parse_env_int32 (env ''DATABASE_MAX_CONNS'') of
      None \<Rightarrow> 10 | Some n \<Rightarrow> if n < 1 then 10 else n)"
proof -
  have none: "parse_env_int32 [] = None" by code_simp
  have "po_max_conns po = int32_env env ''DATABASE_MAX_CONNS'' 10"
    using assms by (auto simp: open_pool_def database_settings_def Let_def split: if_split_asm option.split_asm)
      (auto simp: int32_env_def Let_def split: if_split_asm option.split_asm)
  then show ?thesis by (auto simp: int32_env_def Let_def none split: option.split)
qed

lemma parse_env_int32_bounds: "parse_env_int32 s = Some n \<Longrightarrow> n < 2 ^ 31"
  by (auto simp: parse_env_int32_def parse_int_in_def split: option.split_asm if_split_asm)

lemma wrap_verifier_plain [simp]: "wrap_verifier rt [] d = Inr d"
  by (auto simp: wrap_verifier_def split: option.split)

lemma outside_staging:
  assumes run: "configure version sha built rt env = Inr srv" and "deployment_environment env \<noteq> ''staging''"
  shows "load_test_secret env = []" and "clerk_dependencies rt env False = Inr (srv_auth srv)"
proof -
  show secret: "load_test_secret env = []"
    using configure_parts(1) [OF run] assms(2)
    by (auto simp: validate_load_test_authentication_def deployment_environment_trimmed load_test_secret_def
        trim_space_idem)
  show "clerk_dependencies rt env False = Inr (srv_auth srv)"
    using configure_parts(4) [OF run] secret by simp
qed

text \<open>C39. Outside staging a started server has no load-test identities. Without Clerk settings it has no
  verifier at all. With them a token is accepted exactly when the token library accepts it under the
  configured issuer and the keys that the key endpoint of this configuration answered, with at least
  one key in at most a megabyte, and it names a configured party; profiles come from Clerk under the
  configured secret. The two peppers differ, and the pool has as many connections as configured, ten
  when the setting is missing or unusable, and never more than 32 bits hold.\<close>

theorem no_synthetic_identity_outside_staging:
  assumes "configure version sha built rt env = Inr srv" and "deployment_environment env \<noteq> ''staging''"
  shows "service_ok (srv_passes srv) \<and>
    po_max_conns (srv_pool srv) = (case parse_env_int32 (env ''DATABASE_MAX_CONNS'') of
      None \<Rightarrow> 10 | Some n \<Rightarrow> if n < 1 then 10 else n) \<and>
    1 \<le> po_max_conns (srv_pool srv) \<and> po_max_conns (srv_pool srv) < 2 ^ 31 \<and>
    0 < po_query_timeout (srv_pool srv) \<and> 0 < po_transaction_timeout (srv_pool srv) \<and>
    (case srv_auth srv of
       None \<Rightarrow> trim_space (env ''CLERK_SECRET_KEY'') = [] \<and> trim_space (env ''CLERK_ISSUER_URL'') = [] \<and>
         comma_separated (env ''CLERK_AUTHORIZED_PARTIES'') = [] \<and> trim_space (env ''CLERK_JWKS_URL'') = []
     | Some (verify, profiles) \<Rightarrow>
         profiles = clerk_profile (rt_clerk rt (trim_space (env ''CLERK_SECRET_KEY''))) \<and>
         (\<exists>location body keys n. key_location (rt_issuer rt) env location \<and>
            rt_fetch rt location = Some (200, body) \<and> int (length body) \<le> 1048576 \<and>
            rt_keys rt body = Some (keys, n) \<and> 0 < n \<and>
            (\<forall>raw s. verify raw = Some s \<longleftrightarrow> raw \<noteq> [] \<and> s \<noteq> [] \<and>
               (\<exists>c. rt_token rt (trim_space (env ''CLERK_ISSUER_URL'')) keys raw = Some c \<and> cl_subject c = s \<and>
                  cl_party c \<in> set (comma_separated (env ''CLERK_AUTHORIZED_PARTIES''))))))"
    (is "_ \<and> _ \<and> _ \<and> _ \<and> _ \<and> _ \<and> ?auth")
proof (intro conjI)
  show "service_ok (srv_passes srv)" using configure_parts(3) [OF assms(1)] .
  note pool = configure_parts(2) [OF assms(1)]
  show "1 \<le> po_max_conns (srv_pool srv)" "0 < po_query_timeout (srv_pool srv)"
    "0 < po_transaction_timeout (srv_pool srv)"
    using open_pool_bounds [OF pool] .
  show size: "po_max_conns (srv_pool srv) = (case parse_env_int32 (env ''DATABASE_MAX_CONNS'') of
      None \<Rightarrow> 10 | Some n \<Rightarrow> if n < 1 then 10 else n)"
    by (rule pool_size [OF pool])
  show "po_max_conns (srv_pool srv) < 2 ^ 31"
    unfolding size by (auto dest: parse_env_int32_bounds split: option.split)
  note d = outside_staging(2) [OF assms]
  show ?auth
  proof (cases "srv_auth srv")
    case None
    with d have "load_clerk_settings env = Inr None"
      by (auto simp: clerk_dependencies_def Let_def split: option.split_asm)
    then show ?thesis using None by (simp add: load_clerk_settings_def Let_def split: if_split_asm)
  next
    case (Some a)
    obtain v p where a: "a = (v, p)" by (cases a)
    from d Some a have "clerk_dependencies rt env False = Inr (Some (v, p))" by simp
    then obtain k jv where k: "load_clerk_settings env = Inr (Some k)"
      and jv: "new_jwt_verifier (rt_issuer rt) (rt_keys rt) (rt_fetch rt)
          \<lparr>cc_issuer = ks_issuer k, cc_parties = ks_parties k, cc_jwks_url = ks_jwks k\<rparr> = Inr jv"
      and v: "v = jwt_verify (rt_token rt) jv" and p: "p = clerk_profile (rt_clerk rt (ks_secret k))"
      by (rule clerk_dependencies_Some) auto
    note k = load_clerk_settings_Some [OF k]
    obtain location where l: "jwks_url_of (rt_issuer rt) \<lparr>cc_issuer = ks_issuer k, cc_parties = ks_parties k,
          cc_jwks_url = ks_jwks k\<rparr> = Inr location"
      and keys: "jwks_refresh (rt_keys rt) (rt_fetch rt location) = Some (jv_keys jv)"
      and parts: "jv_issuer jv = ks_issuer k" "jv_parties jv = ks_parties k"
      by (rule new_jwt_verifier_parts [OF jv]) (simp add: k comma_separated_clean)
    have "key_location (rt_issuer rt) env location" using l by (intro jwks_url_located) (simp add: k)
    moreover obtain body n where "rt_fetch rt location = Some (200, body)" "int (length body) \<le> 1048576"
        "rt_keys rt body = Some (jv_keys jv, n)" "0 < n"
      using keys by (auto simp: jwks_refresh_Some)
    moreover have "v raw = Some s \<longleftrightarrow> raw \<noteq> [] \<and> s \<noteq> [] \<and>
        (\<exists>c. rt_token rt (ks_issuer k) (jv_keys jv) raw = Some c \<and> cl_subject c = s \<and>
           cl_party c \<in> set (ks_parties k))" for raw s
      unfolding v parts [symmetric] by (auto simp: jwt_verify_def split: option.split if_split_asm)
    ultimately show ?thesis using Some a p by (simp add: k) blast
  qed
qed

section \<open>A configured server\<close>

definition sample_runtime :: "(unit, unit, unit) runtime" where
  "sample_runtime =
     \<lparr>rt_exporters = (\<lambda>_. False), rt_instance = (None, 0), rt_metrics = True, rt_duration = (\<lambda>_. None), rt_db_url = (\<lambda>_. Some ()),
      rt_url = sample_url, rt_cidr = (\<lambda>_. Some ()),
      rt_disk = \<lparr>df_fails = (\<lambda>_. False), df_written = 0, df_random = []\<rparr>,
      rt_issuer = (\<lambda>s. Some (''https'', ''id.ca'', s)), rt_keys = (\<lambda>_. Some ((), 1)),
      rt_fetch = (\<lambda>_. Some (200, [])),
      rt_token = (\<lambda>_ _ raw. Some \<lparr>cl_subject = raw, cl_party = ''app''\<rparr>), rt_clerk = (\<lambda>_ _. None),
      rt_claims = (\<lambda>_. None), rt_seconds = 0\<rparr>"

definition sample_getenv :: getenv where
  "sample_getenv name = (case map_of
     [(''DATABASE_URL'', ''postgres://db''), (''QR_TOKEN_PEPPER'', sample_pepper (CHR ''Q'')),
      (''CLAIM_TOKEN_PEPPER'', sample_pepper (CHR ''C'')), (''CLERK_SECRET_KEY'', ''sk''),
      (''CLERK_ISSUER_URL'', ''https://id.ca''), (''CLERK_AUTHORIZED_PARTIES'', '' app, '')] name of
     None \<Rightarrow> [] | Some v \<Rightarrow> v)"

theorem no_synthetic_identity_outside_staging_witness:
  "\<exists>srv verify profiles keys. configure ''dev'' ''unknown'' ''unknown'' sample_runtime sample_getenv = Inr srv \<and>
     service_ok (srv_passes srv) \<and> srv_auth srv = Some (verify, profiles) \<and> verify ''t'' = Some ''t'' \<and>
     rt_token sample_runtime ''https://id.ca'' keys ''t'' = Some \<lparr>cl_subject = ''t'', cl_party = ''app''\<rparr>"
proof -
  have "case configure ''dev'' ''unknown'' ''unknown'' sample_runtime sample_getenv of Inl _ \<Rightarrow> False
     | Inr srv \<Rightarrow> (case srv_auth srv of None \<Rightarrow> False | Some (verify, _) \<Rightarrow> verify ''t'' = Some ''t'')"
    by code_simp
  then obtain srv verify profiles
    where run: "configure ''dev'' ''unknown'' ''unknown'' sample_runtime sample_getenv = Inr srv"
      and a: "srv_auth srv = Some (verify, profiles)" and accepts: "verify ''t'' = Some ''t''"
    by (auto split: sum.splits option.splits)
  have "deployment_environment sample_getenv \<noteq> ''staging''" by code_simp
  from no_synthetic_identity_outside_staging [OF run this] a run accepts show ?thesis
    by (auto simp: sample_runtime_def)
qed

end
