(* ===== verification/Seed.thy ===== *)
theory Seed
  imports Operations
begin

text \<open>
  The development fixture of \<^verbatim>\<open>cmd/seed-intake\<close>: an organizer, a scanner, the one active cycle
  with its published form and an entrance checkpoint, in one transaction. Running it again at the
  same instant changes nothing, and it opens the intake unless the form was referenced before it
  was published.
\<close>

section \<open>The fixture\<close>

definition fixture_organizer :: string where "fixture_organizer = ''60000000-0000-4000-8000-000000000001''"
definition fixture_cycle :: string where "fixture_cycle = ''60000000-0000-4000-8000-000000000002''"
definition fixture_form :: string where "fixture_form = ''60000000-0000-4000-8000-000000000006''"
definition fixture_scanner :: string where "fixture_scanner = ''60000000-0000-4000-8000-000000000004''"
definition fixture_checkpoint :: string where "fixture_checkpoint = ''60000000-0000-4000-8000-000000000005''"
definition fixture_organizer_clerk :: string where "fixture_organizer_clerk = ''user_dev_intake_organizer''"
definition fixture_scanner_clerk :: string where "fixture_scanner_clerk = ''user_dev_intake_scanner''"

text \<open>The option with the en dash is in UTF-8.\<close>

definition fixture_form_schema :: form_document where
  "fixture_form_schema = \<lparr>fd_resume_required = False, fd_resume_after = Some ''school'',
     fd_questions = Some
      [\<lparr>qd_key = Some ''fullName'', qd_label = Some ''Name'',
        qd_type = Some ''string'', qd_required = Some True, qd_help = None,
        qd_section = Some ''Build your profile'', qd_control = Some ''text'',
        qd_options = [], qd_max_words = None, qd_show_when = None\<rparr>,
       \<lparr>qd_key = Some ''email'', qd_label = Some ''Email'',
        qd_type = Some ''string'', qd_required = Some True, qd_help = Some ''Verified through your signed-in account.'',
        qd_section = Some ''Build your profile'', qd_control = Some ''email'',
        qd_options = [], qd_max_words = None, qd_show_when = None\<rparr>,
       \<lparr>qd_key = Some ''school'', qd_label = Some ''School'',
        qd_type = Some ''string'', qd_required = Some True, qd_help = None,
        qd_section = Some ''Build your profile'', qd_control = Some ''text'',
        qd_options = [], qd_max_words = None, qd_show_when = None\<rparr>,
       \<lparr>qd_key = Some ''dietaryRestrictions'', qd_label = Some ''Dietary restrictions'',
        qd_type = Some ''string'', qd_required = Some True, qd_help = Some ''Enter None if you do not have any.'',
        qd_section = Some ''Build your profile'', qd_control = Some ''text'',
        qd_options = [], qd_max_words = None, qd_show_when = None\<rparr>,
       \<lparr>qd_key = Some ''hackAtlanticExcitement'', qd_label = Some ''What are you most excited about at Hack Atlantic?'',
        qd_type = Some ''string'', qd_required = Some True, qd_help = Some ''Maximum 100 words.'',
        qd_section = Some ''Hackathon Specific Questions'', qd_control = Some ''textarea'',
        qd_options = [], qd_max_words = Some 100, qd_show_when = None\<rparr>,
       \<lparr>qd_key = Some ''priorHackathonExperience'', qd_label = Some ''Prior hackathon experience'',
        qd_type = Some ''string'', qd_required = Some True, qd_help = None,
        qd_section = Some ''Hackathon Specific Questions'', qd_control = Some ''select'',
        qd_options = [''This is my first'', ''1'' @ [CHR 0xE2, CHR 0x80, CHR 0x93] @ ''3'', ''3+''], qd_max_words = None, qd_show_when = None\<rparr>,
       \<lparr>qd_key = Some ''desiredTeammateNames'', qd_label = Some ''Desired teammate names (Optional)'',
        qd_type = Some ''string'', qd_required = Some False, qd_help = None,
        qd_section = Some ''Hackathon Specific Questions'', qd_control = Some ''text'',
        qd_options = [], qd_max_words = None, qd_show_when = None\<rparr>,
       \<lparr>qd_key = Some ''hardwareProject'', qd_label = Some ''Are you looking to make a hardware project?'',
        qd_type = Some ''boolean'', qd_required = Some True, qd_help = None,
        qd_section = Some ''Hackathon Specific Questions'', qd_control = None,
        qd_options = [], qd_max_words = None, qd_show_when = None\<rparr>,
       \<lparr>qd_key = Some ''hardwareEquipment'', qd_label = Some ''What equipment are you looking to use?'',
        qd_type = Some ''string'', qd_required = Some True, qd_help = None,
        qd_section = Some ''Hackathon Specific Questions'', qd_control = Some ''textarea'',
        qd_options = [], qd_max_words = None, qd_show_when = Some \<lparr>cd_key = Some ''hardwareProject'', cd_equals = Some True\<rparr>\<rparr>]\<rparr>"

lemma fixture_form_parses: "\<not> isl (parse_published_form (Some fixture_form_schema))"
  by code_simp

section \<open>Statements\<close>

text \<open>\<^verbatim>\<open>INSERT ... ON CONFLICT DO UPDATE\<close> on one table.\<close>

definition upsert_rows :: "('r \<Rightarrow> bool) \<Rightarrow> ('r \<Rightarrow> 'r) \<Rightarrow> 'r \<Rightarrow> 'r list \<Rightarrow> 'r list" where
  "upsert_rows P f x rs = (if list_ex P rs then upd_rows P f rs else rs @ [x])"

definition seed_intake_fixture_user ::
    "env \<Rightarrow> uuid \<Rightarrow> string \<Rightarrow> string \<Rightarrow> string option \<Rightarrow> db \<Rightarrow> db_error + uuid \<times> db" where
  "seed_intake_fixture_user e i clerk email name d =
     (if email = [] then Inl CheckViolation
      else case List.find (\<lambda>u. u_clerk u = clerk) (users d) of
        Some u \<Rightarrow> Inr (u_id u, d\<lparr>users := upd_rows (\<lambda>x. u_clerk x = clerk)
            (\<lambda>x. x\<lparr>u_email := email, u_name := name, u_updated := now e\<rparr>) (users d)\<rparr>)
      | None \<Rightarrow>
          if user_exists i d then Inl UniqueViolation
          else Inr (i, d\<lparr>users := users d @ [\<lparr>u_id = i, u_clerk = clerk, u_email = email, u_name = name,
                 u_created = now e, u_updated = now e\<rparr>]\<rparr>))"

definition other_active_cycle_exists :: "uuid \<Rightarrow> db \<Rightarrow> bool" where
  "other_active_cycle_exists i d = list_ex (\<lambda>c. cy_active c \<and> cy_id c \<noteq> i) (cycles d)"

abbreviation day :: int where "day \<equiv> 86400 * 10 ^ 6"

text \<open>The slug is unique and so is the active cycle.\<close>

definition ensure_intake_fixture_cycle :: "env \<Rightarrow> uuid \<Rightarrow> string \<Rightarrow> string \<Rightarrow> db \<Rightarrow> db_error + db" where
  "ensure_intake_fixture_cycle e i slug name d =
     (let r = \<lparr>cy_id = i, cy_slug = slug, cy_name = name, cy_opens = now e - day,
               cy_closes = now e + 365 * day, cy_active = True\<rparr>
      in if list_ex (\<lambda>c. cy_id c \<noteq> i \<and> cy_slug c = slug) (cycles d) \<or> other_active_cycle_exists i d
         then Inl UniqueViolation
         else Inr (d\<lparr>cycles := upsert_rows (\<lambda>c. cy_id c = i) (\<lambda>_. r) r (cycles d)\<rparr>))"

text \<open>A form that is published or referenced stays as it is.\<close>

definition ensure_intake_fixture_form ::
    "env \<Rightarrow> uuid \<Rightarrow> uuid \<Rightarrow> form_document \<Rightarrow> uuid \<Rightarrow> db \<Rightarrow> db_error + db" where
  "ensure_intake_fixture_form e i cycle doc by d =
     (case List.find (\<lambda>f. fm_cycle f = cycle \<and> fm_version f = 2) (forms d) of
        Some f \<Rightarrow>
          if fm_published f = None \<and> \<not> list_ex (\<lambda>a. ap_form a = fm_id f) (applications d)
          then Inr (d\<lparr>forms := upd_rows (\<lambda>x. fm_cycle x = cycle \<and> fm_version x = 2)
                 (\<lambda>x. x\<lparr>fm_schema := Some doc, fm_published := Some (now e)\<rparr>) (forms d)\<rparr>)
          else Inr d
      | None \<Rightarrow>
          if i \<in> fm_id ` set (forms d) then Inl UniqueViolation
          else if cycle \<notin> cy_id ` set (cycles d) \<or> \<not> user_exists by d then Inl ForeignKeyViolation
          else Inr (d\<lparr>forms := forms d @ [\<lparr>fm_id = i, fm_cycle = cycle, fm_version = 2,
                 fm_schema = Some doc, fm_published = Some (now e), fm_by = by\<rparr>]\<rparr>))"

definition seed_checkpoint :: "env \<Rightarrow> uuid \<Rightarrow> uuid \<Rightarrow> db \<Rightarrow> db_error + db" where
  "seed_checkpoint e i cycle d =
     (if list_ex (\<lambda>x. ck_cycle x = cycle \<and> ck_slug x = ''event-entry'') (checkpoints d)
      then Inr (d\<lparr>checkpoints := upd_rows (\<lambda>x. ck_cycle x = cycle \<and> ck_slug x = ''event-entry'')
             (\<lambda>x. x\<lparr>ck_name := ''Event entry'', ck_allowed := True, ck_max := 1, ck_active := True,
                    ck_updated := now e\<rparr>) (checkpoints d)\<rparr>)
      else insert_checkpoint \<lparr>ck_id = i, ck_cycle = cycle, ck_activity = None, ck_slug = ''event-entry'',
             ck_name = ''Event entry'', ck_opens = None, ck_closes = None, ck_allowed = True, ck_max = 1,
             ck_active = True, ck_created = now e, ck_updated = now e\<rparr> d)"

section \<open>Seeding\<close>

datatype seed_error = SeedBadId | SeedOtherCycle | SeedDatabase db_error

abbreviation s_db :: "db_error + 'a \<Rightarrow> seed_error + 'a" where
  "s_db \<equiv> wrap_err SeedDatabase"

definition seed_rows :: "env \<Rightarrow> uuid \<Rightarrow> uuid \<Rightarrow> uuid \<Rightarrow> uuid \<Rightarrow> uuid \<Rightarrow> db \<Rightarrow> seed_error + unit \<times> db" where
  "seed_rows e organizer0 cycle form scanner0 checkpoint d =
     bindE (s_db (seed_intake_fixture_user e organizer0 fixture_organizer_clerk
         ''dev-intake-organizer@example.test'' (Some ''Development Intake Organizer'') d)) (\<lambda>(organizer, d1).
     bindE (s_db (assign_user_role e organizer RoleOrganizer (Some organizer) d1)) (\<lambda>d2.
     bindE (s_db (seed_intake_fixture_user e scanner0 fixture_scanner_clerk
         ''dev-intake-scanner@example.test'' (Some ''Development Scanner'') d2)) (\<lambda>(scanner, d3).
     bindE (s_db (insert_role e scanner RoleScanner (Some organizer) d3)) (\<lambda>(_, d4).
     if other_active_cycle_exists cycle d4 then Inl SeedOtherCycle
     else bindE (s_db (ensure_intake_fixture_cycle e cycle ''dev-intake'' ''HackAtlantic Development Intake'' d4)) (\<lambda>d5.
     bindE (s_db (ensure_intake_fixture_form e form cycle fixture_form_schema organizer d5)) (\<lambda>d6.
     bindE (s_db (seed_checkpoint e checkpoint cycle d6)) (\<lambda>d7. Inr ((), d7))))))))"

definition seed :: "env \<Rightarrow> (db, seed_error, unit) tx" where
  "seed e d =
     (case (parse_uuid e fixture_organizer, parse_uuid e fixture_cycle, parse_uuid e fixture_form,
            parse_uuid e fixture_scanner, parse_uuid e fixture_checkpoint) of
        (Some organizer, Some cycle, Some form, Some scanner, Some checkpoint) \<Rightarrow>
          transact (seed_rows e organizer cycle form scanner checkpoint) d
      | _ \<Rightarrow> (Inl SeedBadId, d))"

section \<open>Seeding twice\<close>

lemma find_filter: "List.find P xs = (case filter P xs of [] \<Rightarrow> None | x # _ \<Rightarrow> Some x)"
  by (induction xs) auto

lemma upd_rows_fixed: "(\<And>x. x \<in> set xs \<Longrightarrow> P x \<Longrightarrow> f x = x) \<Longrightarrow> upd_rows P f xs = xs"
  by (induction xs) auto

lemma upsert_rows_again:
  assumes "P x" "f x = x" "\<And>y. P y \<Longrightarrow> P (f y) \<and> f (f y) = f y"
  shows "upsert_rows P f x (upsert_rows P f x rs) = upsert_rows P f x rs"
proof -
  have "list_ex P (upsert_rows P f x rs)"
    using assms(1,3) by (auto simp: upsert_rows_def list_ex_iff set_upd_rows)
  moreover have "f y = y" if "y \<in> set (upsert_rows P f x rs)" "P y" for y
    using that assms by (auto simp: upsert_rows_def list_ex_iff set_upd_rows split: if_split_asm)
  ultimately show ?thesis by (simp add: upsert_rows_def [of P f x "upsert_rows P f x rs"] upd_rows_fixed)
qed

text \<open>The rows of one Clerk user, and that they hold the seeded values.\<close>

definition rows_of :: "string \<Rightarrow> db \<Rightarrow> user_row list" where
  "rows_of clerk d = filter (\<lambda>u. u_clerk u = clerk) (users d)"

definition settled :: "env \<Rightarrow> string \<Rightarrow> string \<Rightarrow> string option \<Rightarrow> uuid \<Rightarrow> db \<Rightarrow> bool" where
  "settled e clerk email name j d \<longleftrightarrow> email \<noteq> [] \<and> rows_of clerk d \<noteq> [] \<and> u_id (hd (rows_of clerk d)) = j \<and>
     list_all (\<lambda>u. u_email u = email \<and> u_name u = name \<and> u_updated u = now e) (rows_of clerk d)"

lemma seed_user_settled:
  assumes "settled e clerk email name j d"
  shows "seed_intake_fixture_user e i clerk email name d = Inr (j, d)"
proof -
  obtain u us where rows: "filter (\<lambda>u. u_clerk u = clerk) (users d) = u # us" and j: "u_id u = j" and "email \<noteq> []"
    using assms by (cases "rows_of clerk d") (auto simp: settled_def rows_of_def)
  have "upd_rows (\<lambda>x. u_clerk x = clerk) (\<lambda>x. x\<lparr>u_email := email, u_name := name, u_updated := now e\<rparr>) (users d) = users d"
    using assms by (intro upd_rows_fixed) (auto simp: settled_def rows_of_def list_all_iff)
  then show ?thesis using rows j \<open>email \<noteq> []\<close> by (simp add: seed_intake_fixture_user_def find_filter)
qed

lemma seed_user_Inr:
  assumes "seed_intake_fixture_user e i clerk email name d = Inr (j, d')"
  shows "settled e clerk email name j d'" and "\<And>c. c \<noteq> clerk \<Longrightarrow> rows_of c d' = rows_of c d"
    and "\<exists>us. d' = d\<lparr>users := us\<rparr>" and "\<And>k. user_exists k d \<Longrightarrow> user_exists k d'" and "user_exists j d'"
proof -
  let ?f = "\<lambda>x. x\<lparr>u_email := email, u_name := name, u_updated := now e\<rparr>"
  have "settled e clerk email name j d' \<and> (\<forall>c. c \<noteq> clerk \<longrightarrow> rows_of c d' = rows_of c d) \<and>
    (\<exists>us. d' = d\<lparr>users := us\<rparr>) \<and> (\<forall>k. user_exists k d \<longrightarrow> user_exists k d') \<and> user_exists j d'"
  proof (cases "filter (\<lambda>u. u_clerk u = clerk) (users d)")
    case Nil
    then show ?thesis using assms
      by (auto simp: seed_intake_fixture_user_def find_filter settled_def rows_of_def user_exists_iff
          split: if_split_asm)
  next
    case (Cons u us)
    then have u: "u \<in> set (users d)" by (metis filter_is_subset list.set_intros(1) subset_iff)
    have out: "j = u_id u" "d' = d\<lparr>users := upd_rows (\<lambda>x. u_clerk x = clerk) ?f (users d)\<rparr>" "email \<noteq> []"
      using assms Cons by (auto simp: seed_intake_fixture_user_def find_filter split: if_split_asm)
    have ids: "u_id ` set (users d') = u_id ` set (users d)" by (simp add: out(2) image_upd_rows)
    have "rows_of c d' = rows_of c d" if "c \<noteq> clerk" for c
      using that by (simp add: rows_of_def out(2) filter_upd_rows) (auto intro!: upd_rows_idle)
    moreover have "rows_of clerk d' = map ?f (u # us)"
    proof -
      have "\<forall>x\<in>set (u # us). u_clerk x = clerk" unfolding Cons [symmetric] by simp
      moreover have "rows_of clerk d' = upd_rows (\<lambda>x. u_clerk x = clerk) ?f (u # us)"
        unfolding Cons [symmetric] by (simp add: rows_of_def out(2) filter_upd_rows)
      ultimately show ?thesis by (simp add: upd_rows_def)
    qed
    ultimately show ?thesis
      using out ids u by (auto simp: settled_def user_exists_iff list_all_iff)
  qed
  then show "settled e clerk email name j d'" "\<And>c. c \<noteq> clerk \<Longrightarrow> rows_of c d' = rows_of c d"
    "\<exists>us. d' = d\<lparr>users := us\<rparr>" "\<And>k. user_exists k d \<Longrightarrow> user_exists k d'" "user_exists j d'"
    by blast+
qed

lemma seeded_role_Inr:
  assumes "insert_role e i r by d = Inr (c, d')"
  shows "has_role_row i r d'" and "\<exists>rs. d' = d\<lparr>user_roles := user_roles d @ rs\<rparr>" and "stored_role r"
  using assms by (auto simp: insert_role_def has_role_row_def split: if_split_asm intro: exI [of _ "[]"])

lemma insert_role_again: "has_role_row i r d \<Longrightarrow> stored_role r \<Longrightarrow> insert_role e i r by d = Inr (False, d)"
  by (simp add: insert_role_def)

lemma ensure_cycle_Inr:
  assumes "ensure_intake_fixture_cycle e i slug name d = Inr d'"
  shows "\<exists>cs. d' = d\<lparr>cycles := cs\<rparr>" and "\<not> other_active_cycle_exists i d'"
    and "ensure_intake_fixture_cycle e i slug name d' = Inr d'"
    and "\<exists>c\<in>set (cycles d'). cy_id c = i \<and> window_open (now e) c"
    and "\<And>c. c \<in> set (cycles d') \<Longrightarrow> window_open (now e) c \<Longrightarrow> cy_id c = i"
proof -
  define r where "r = \<lparr>cy_id = i, cy_slug = slug, cy_name = name, cy_opens = now e - day,
               cy_closes = now e + 365 * day, cy_active = True\<rparr>"
  have r: "cy_id r = i" "window_open (now e) r" by (simp_all add: r_def window_open_def)
  let ?up = "upsert_rows (\<lambda>c. cy_id c = i) (\<lambda>_. r) r"
  note def = ensure_intake_fixture_cycle_def [of e i slug name, unfolded Let_def, folded r_def]
  have fits: "\<not> list_ex (\<lambda>c. cy_id c \<noteq> i \<and> cy_slug c = slug) (cycles d)" "\<not> other_active_cycle_exists i d"
    and d': "d' = d\<lparr>cycles := ?up (cycles d)\<rparr>"
    using assms by (auto simp: def split: if_split_asm)
  have mem: "set (?up (cycles d)) = insert r {c \<in> set (cycles d). cy_id c \<noteq> i}"
    by (auto simp: upsert_rows_def list_ex_iff set_upd_rows r(1))
  have other: "\<not> list_ex (\<lambda>c. cy_id c \<noteq> i \<and> cy_slug c = slug) (cycles d')" "\<not> other_active_cycle_exists i d'"
    using fits by (auto simp: d' mem list_ex_iff other_active_cycle_exists_def r(1))
  moreover have "?up (?up (cycles d)) = ?up (cycles d)" by (rule upsert_rows_again) (simp_all add: r(1))
  ultimately show "\<not> other_active_cycle_exists i d'" "ensure_intake_fixture_cycle e i slug name d' = Inr d'"
    by (simp_all add: def d')
  show "\<exists>cs. d' = d\<lparr>cycles := cs\<rparr>" using d' by blast
  show "\<exists>c\<in>set (cycles d'). cy_id c = i \<and> window_open (now e) c"
    by (simp add: d' mem r)
  show "cy_id c = i" if "c \<in> set (cycles d')" "window_open (now e) c" for c
    using other(2) that by (auto simp: other_active_cycle_exists_def list_ex_iff window_open_def)
qed

definition cycle_form :: "uuid \<Rightarrow> form_row \<Rightarrow> bool" where
  "cycle_form cycle f \<longleftrightarrow> fm_cycle f = cycle \<and> fm_version f = 2"

lemma ensure_form_Inr:
  assumes "ensure_intake_fixture_form e i cycle doc by d = Inr d'"
  shows "\<exists>fs. d' = d\<lparr>forms := fs\<rparr>" and "ensure_intake_fixture_form e i cycle doc by d' = Inr d'"
    and "\<exists>f\<in>set (forms d'). cycle_form cycle f \<and>
      (fm_published f \<noteq> None \<or> f \<in> set (forms d) \<and> (\<exists>a\<in>set (applications d). ap_form a = fm_id f))"
    and "\<And>f. f \<in> set (forms d) \<Longrightarrow> \<not> cycle_form cycle f \<Longrightarrow> f \<in> set (forms d')"
proof -
  let ?f = "\<lambda>x. x\<lparr>fm_schema := Some doc, fm_published := Some (now e)\<rparr>"
  have "(\<exists>fs. d' = d\<lparr>forms := fs\<rparr>) \<and> ensure_intake_fixture_form e i cycle doc by d' = Inr d' \<and>
    (\<exists>f\<in>set (forms d'). cycle_form cycle f \<and>
      (fm_published f \<noteq> None \<or> f \<in> set (forms d) \<and> (\<exists>a\<in>set (applications d). ap_form a = fm_id f))) \<and>
    (\<forall>f\<in>set (forms d). \<not> cycle_form cycle f \<longrightarrow> f \<in> set (forms d'))"
  proof (cases "filter (cycle_form cycle) (forms d)")
    case Nil
    then show ?thesis using assms
      by (auto simp: ensure_intake_fixture_form_def find_filter cycle_form_def [abs_def] split: if_split_asm)
  next
    case (Cons f fs)
    have "f \<in> set (filter (cycle_form cycle) (forms d))" unfolding Cons by simp
    then have f: "f \<in> set (forms d)" "cycle_form cycle f" by simp_all
    show ?thesis
    proof (cases "fm_published f = None \<and> \<not> list_ex (\<lambda>a. ap_form a = fm_id f) (applications d)")
      case True
      have d': "d' = d\<lparr>forms := upd_rows (cycle_form cycle) ?f (forms d)\<rparr>"
        using assms Cons True by (simp add: ensure_intake_fixture_form_def find_filter cycle_form_def [abs_def])
      have "filter (cycle_form cycle) (forms d') = upd_rows (cycle_form cycle) ?f (f # fs)"
        by (simp add: d' filter_upd_rows cycle_form_def flip: Cons)
      then have "ensure_intake_fixture_form e i cycle doc by d' = Inr d'"
        using f(2) by (simp add: ensure_intake_fixture_form_def find_filter cycle_form_def [abs_def])
      moreover have "?f f \<in> set (forms d')" using f using upd_rows_hit [where P = "cycle_form cycle" and f = ?f, OF f] by (simp add: d')
      ultimately show ?thesis using f(2) by (auto simp: d' cycle_form_def upd_rows_miss intro!: bexI [of _ "?f f"])
    next
      case False
      then have "d' = d"
        using assms Cons
        by (auto simp: ensure_intake_fixture_form_def find_filter cycle_form_def [abs_def] split: if_split_asm)
      then show ?thesis using assms f False by (auto simp: list_ex_iff intro: exI [of _ "forms d"])
    qed
  qed
  then show "\<exists>fs. d' = d\<lparr>forms := fs\<rparr>" "ensure_intake_fixture_form e i cycle doc by d' = Inr d'"
    "\<exists>f\<in>set (forms d'). cycle_form cycle f \<and>
      (fm_published f \<noteq> None \<or> f \<in> set (forms d) \<and> (\<exists>a\<in>set (applications d). ap_form a = fm_id f))"
    "\<And>f. f \<in> set (forms d) \<Longrightarrow> \<not> cycle_form cycle f \<Longrightarrow> f \<in> set (forms d')"
    by blast+
qed

lemma seed_checkpoint_Inr:
  assumes "seed_checkpoint e i cycle d = Inr d'"
  shows "\<exists>cs. d' = d\<lparr>checkpoints := cs\<rparr>" and "seed_checkpoint e i cycle d' = Inr d'"
    and "\<exists>c\<in>set (checkpoints d'). ck_cycle c = cycle \<and> ck_slug c = ''event-entry'' \<and> ck_active c \<and> ck_allowed c"
proof -
  let ?P = "\<lambda>x. ck_cycle x = cycle \<and> ck_slug x = ''event-entry''"
  let ?f = "\<lambda>x. x\<lparr>ck_name := ''Event entry'', ck_allowed := True, ck_max := 1, ck_active := True, ck_updated := now e\<rparr>"
  define cs where "cs = checkpoints d'"
  have d': "d' = d\<lparr>checkpoints := cs\<rparr>" and some: "\<exists>c\<in>set cs. ?P c" and all: "\<forall>c\<in>set cs. ?P c \<longrightarrow> ?f c = c"
    using assms unfolding cs_def
    by (auto simp: seed_checkpoint_def insert_checkpoint_def list_ex_iff bex_upd_rows
        split: if_split_asm elim!: upd_rowsE)
  show "\<exists>cs. d' = d\<lparr>checkpoints := cs\<rparr>" using d' by blast
  have "upd_rows ?P ?f cs = cs" using all by (intro upd_rows_fixed) blast
  then show "seed_checkpoint e i cycle d' = Inr d'" using some by (auto simp: seed_checkpoint_def d' list_ex_iff)
  obtain c where "c \<in> set cs" "?P c" "?f c = c" using some all by blast
  then show "\<exists>c\<in>set (checkpoints d'). ck_cycle c = cycle \<and> ck_slug c = ''event-entry'' \<and> ck_active c \<and> ck_allowed c"
    by (intro bexI [of _ c]) (auto simp: d' dest: arg_cong [of _ _ ck_active] arg_cong [of _ _ ck_allowed])
qed

section \<open>What seeding leaves\<close>

lemma fixture_clerks: "fixture_organizer_clerk \<noteq> fixture_scanner_clerk"
  by (simp add: fixture_organizer_clerk_def fixture_scanner_clerk_def)

lemma table_updates [simp]:
  "rows_of c (d\<lparr>user_roles := x\<rparr>) = rows_of c d" "rows_of c (d\<lparr>cycles := y\<rparr>) = rows_of c d"
  "rows_of c (d\<lparr>forms := z\<rparr>) = rows_of c d" "rows_of c (d\<lparr>checkpoints := w\<rparr>) = rows_of c d"
  "has_role_row i r (d\<lparr>users := u\<rparr>) = has_role_row i r d" "has_role_row i r (d\<lparr>cycles := y\<rparr>) = has_role_row i r d"
  "has_role_row i r (d\<lparr>forms := z\<rparr>) = has_role_row i r d"
  "has_role_row i r (d\<lparr>checkpoints := w\<rparr>) = has_role_row i r d"
  "other_active_cycle_exists i (d\<lparr>forms := z\<rparr>) = other_active_cycle_exists i d"
  "other_active_cycle_exists i (d\<lparr>checkpoints := w\<rparr>) = other_active_cycle_exists i d"
  by (simp_all add: rows_of_def has_role_row_def other_active_cycle_exists_def)

lemma settled_rows: "rows_of clerk d = rows_of clerk d' \<Longrightarrow> settled e clerk email name j d = settled e clerk email name j d'"
  by (simp add: settled_def)

lemma has_role_row_append: "has_role_row i r d \<Longrightarrow> has_role_row i r (d\<lparr>user_roles := user_roles d @ rs\<rparr>)"
  by (simp add: has_role_row_def)

lemma ensure_cycle_frame [simp]:
  "ensure_intake_fixture_cycle e i slug name (d\<lparr>forms := z\<rparr>) =
     map_sum id (\<lambda>d. d\<lparr>forms := z\<rparr>) (ensure_intake_fixture_cycle e i slug name d)"
  "ensure_intake_fixture_cycle e i slug name (d\<lparr>checkpoints := w\<rparr>) =
     map_sum id (\<lambda>d. d\<lparr>checkpoints := w\<rparr>) (ensure_intake_fixture_cycle e i slug name d)"
  by (simp_all add: ensure_intake_fixture_cycle_def Let_def)

lemma ensure_form_frame [simp]:
  "ensure_intake_fixture_form e i c doc by (d\<lparr>checkpoints := w\<rparr>) =
     map_sum id (\<lambda>d. d\<lparr>checkpoints := w\<rparr>) (ensure_intake_fixture_form e i c doc by d)"
  by (simp add: ensure_intake_fixture_form_def user_exists_def split: option.split)

text \<open>Both runs step by step.\<close>

lemma seed_rows_Inr:
  assumes "seed_rows e i1 cycle form i2 checkpoint d = Inr (u, d')"
  shows "seed_rows e i1 cycle form i2 checkpoint d' = Inr ((), d')"
    and "\<exists>o1 s1. has_role_row o1 RoleOrganizer d' \<and> has_role_row s1 RoleScanner d' \<and>
      u_id (hd (rows_of fixture_organizer_clerk d')) = o1 \<and> u_id (hd (rows_of fixture_scanner_clerk d')) = s1"
    and "applications d' = applications d"
    and "\<exists>c\<in>set (cycles d'). cy_id c = cycle \<and> window_open (now e) c"
    and "\<And>c. c \<in> set (cycles d') \<Longrightarrow> window_open (now e) c \<Longrightarrow> cy_id c = cycle"
    and "\<exists>f\<in>set (forms d'). cycle_form cycle f \<and>
      (fm_published f \<noteq> None \<or> f \<in> set (forms d) \<and> (\<exists>a\<in>set (applications d). ap_form a = fm_id f))"
    and "\<exists>c\<in>set (checkpoints d'). ck_cycle c = cycle \<and> ck_slug c = ''event-entry'' \<and> ck_active c \<and> ck_allowed c"
proof -
  obtain j1 d1 d2 j2 d3 c d4 d5 d6 where
    r1: "seed_intake_fixture_user e i1 fixture_organizer_clerk
         ''dev-intake-organizer@example.test'' (Some ''Development Intake Organizer'') d = Inr (j1, d1)"
    and r2: "insert_role e j1 RoleOrganizer (Some j1) d1 = Inr (c, d2)"
    and r3: "seed_intake_fixture_user e i2 fixture_scanner_clerk
         ''dev-intake-scanner@example.test'' (Some ''Development Scanner'') d2 = Inr (j2, d3)"
    and r4: "\<exists>c. insert_role e j2 RoleScanner (Some j1) d3 = Inr (c, d4)"
    and r5: "ensure_intake_fixture_cycle e cycle ''dev-intake'' ''HackAtlantic Development Intake'' d4 = Inr d5"
    and r6: "ensure_intake_fixture_form e form cycle fixture_form_schema j1 d5 = Inr d6"
    and r7: "seed_checkpoint e checkpoint cycle d6 = Inr d'"
    using assms by (auto simp: seed_rows_def assign_user_role_def split: if_split_asm)
  obtain us1 rs1 us2 rs2 cs fs ks where
    d1: "d1 = d\<lparr>users := us1\<rparr>" and d2: "d2 = d1\<lparr>user_roles := user_roles d1 @ rs1\<rparr>"
    and d3: "d3 = d2\<lparr>users := us2\<rparr>" and d4: "d4 = d3\<lparr>user_roles := user_roles d3 @ rs2\<rparr>"
    and d5: "d5 = d4\<lparr>cycles := cs\<rparr>" and d6: "d6 = d5\<lparr>forms := fs\<rparr>" and d': "d' = d6\<lparr>checkpoints := ks\<rparr>"
    using seed_user_Inr(3) [OF r1] seeded_role_Inr(2) [OF r2] seed_user_Inr(3) [OF r3] r4 seeded_role_Inr(2)
      ensure_cycle_Inr(1) [OF r5] ensure_form_Inr(1) [OF r6] seed_checkpoint_Inr(1) [OF r7] by metis
  note after = d5 d6 d'
  have org: "settled e fixture_organizer_clerk
         ''dev-intake-organizer@example.test'' (Some ''Development Intake Organizer'') j1 d'"
  proof -
    have "rows_of fixture_organizer_clerk d' = rows_of fixture_organizer_clerk d1"
      using seed_user_Inr(2) [OF r3 fixture_clerks] by (simp add: after d4) (simp add: d2)
    with seed_user_Inr(1) [OF r1] settled_rows show ?thesis by blast
  qed
  have scan: "settled e fixture_scanner_clerk
         ''dev-intake-scanner@example.test'' (Some ''Development Scanner'') j2 d'"
  proof -
    have "rows_of fixture_scanner_clerk d' = rows_of fixture_scanner_clerk d3" by (simp add: after d4)
    with seed_user_Inr(1) [OF r3] settled_rows show ?thesis by blast
  qed
  have "has_role_row j1 RoleOrganizer d3" using seeded_role_Inr(1) [OF r2] by (simp add: d3)
  then have "has_role_row j1 RoleOrganizer d4" unfolding d4 by (rule has_role_row_append)
  moreover have "has_role_row j2 RoleScanner d4" using r4 seeded_role_Inr(1) by blast
  ultimately have roles: "has_role_row j1 RoleOrganizer d'" "has_role_row j2 RoleScanner d'" by (simp_all add: after)
  have cycle: "ensure_intake_fixture_cycle e cycle ''dev-intake'' ''HackAtlantic Development Intake'' d' = Inr d'"
    using ensure_cycle_Inr(3) [OF r5] by (simp add: d6 d')
  have form: "ensure_intake_fixture_form e form cycle fixture_form_schema j1 d' = Inr d'"
    using ensure_form_Inr(2) [OF r6] by (simp add: d')
  have only: "\<not> other_active_cycle_exists cycle d'" using ensure_cycle_Inr(2) [OF r5] by (simp add: d6 d')
  show "seed_rows e i1 cycle form i2 checkpoint d' = Inr ((), d')"
    using seed_checkpoint_Inr(2) [OF r7] only
    by (simp add: seed_rows_def assign_user_role_def seed_user_settled [OF org] seed_user_settled [OF scan]
        insert_role_again roles stored_role_def cycle form)
  show "\<exists>o1 s1. has_role_row o1 RoleOrganizer d' \<and> has_role_row s1 RoleScanner d' \<and>
      u_id (hd (rows_of fixture_organizer_clerk d')) = o1 \<and> u_id (hd (rows_of fixture_scanner_clerk d')) = s1"
    using roles org scan by (auto simp: settled_def)
  show "applications d' = applications d" by (simp add: after d4 d3 d2 d1)
  show "\<exists>c\<in>set (cycles d'). cy_id c = cycle \<and> window_open (now e) c"
    using ensure_cycle_Inr(4) [OF r5] by (simp add: d6 d')
  show "cy_id c = cycle" if "c \<in> set (cycles d')" "window_open (now e) c" for c
    using ensure_cycle_Inr(5) [OF r5, of c] that by (simp add: d6 d')
  show "\<exists>f\<in>set (forms d'). cycle_form cycle f \<and>
      (fm_published f \<noteq> None \<or> f \<in> set (forms d) \<and> (\<exists>a\<in>set (applications d). ap_form a = fm_id f))"
    using ensure_form_Inr(3) [OF r6] by (simp add: d' d5 d4 d3 d2 d1)
  show "\<exists>c\<in>set (checkpoints d'). ck_cycle c = cycle \<and> ck_slug c = ''event-entry'' \<and> ck_active c \<and> ck_allowed c"
    by (rule seed_checkpoint_Inr(3) [OF r7])
qed

lemma sort_key_Cons:
  assumes "x \<in> set xs"
  obtains y ys where "sort_key k xs = y # ys"
  using assms by (cases "sort_key k xs") (auto dest: arg_cong [of _ _ set])

text \<open>Seeding is idempotent, makes the fixture's organizer and scanner what they are called, opens
  the entrance and, unless an application refers to an unpublished form, opens the intake: the
  current form is a published version of the fixture's cycle.\<close>

theorem seed_spec:
  assumes "seed e d = (Inr (), d')"
    and "\<forall>f\<in>set (forms d). (\<exists>a\<in>set (applications d). ap_form a = fm_id f) \<longrightarrow> fm_published f \<noteq> None"
  shows "seed e d' = (Inr (), d') \<and> applications d' = applications d \<and>
    has_role_row (u_id (hd (rows_of fixture_organizer_clerk d'))) RoleOrganizer d' \<and>
    has_role_row (u_id (hd (rows_of fixture_scanner_clerk d'))) RoleScanner d' \<and>
    (\<exists>cycle row. parse_uuid e fixture_cycle = Some cycle \<and>
       get_current_application_form e d' = Some row \<and> cf_cycle row = cycle \<and>
       (\<exists>c\<in>set (checkpoints d'). ck_cycle c = cycle \<and> ck_slug c = ''event-entry'' \<and> ck_active c \<and> ck_allowed c))"
proof -
  obtain i1 cycle form i2 checkpoint where ids: "parse_uuid e fixture_organizer = Some i1"
    "parse_uuid e fixture_cycle = Some cycle" "parse_uuid e fixture_form = Some form"
    "parse_uuid e fixture_scanner = Some i2" "parse_uuid e fixture_checkpoint = Some checkpoint"
    and run: "seed_rows e i1 cycle form i2 checkpoint d = Inr ((), d')"
    using assms(1) by (auto simp: seed_def transact_Inr split: option.split_asm)
  note facts = seed_rows_Inr [OF run]
  have again: "seed e d' = (Inr (), d')" using facts(1) ids by (simp add: seed_def transact_Inr)
  obtain row where row: "get_current_application_form e d' = Some row" "cf_cycle row = cycle"
  proof -
    let ?open = "concat (map (\<lambda>c. filter (\<lambda>f. fm_cycle f = cy_id c \<and> fm_published f \<noteq> None) (forms d'))
          (filter (window_open (now e)) (cycles d')))"
    obtain f where "f \<in> set (forms d')" "cycle_form cycle f" "fm_published f \<noteq> None"
      using facts(6) assms(2) by blast
    moreover obtain c where "c \<in> set (cycles d')" "cy_id c = cycle" "window_open (now e) c" using facts(4) by blast
    ultimately have "f \<in> set ?open" unfolding cycle_form_def by fastforce
    then obtain g gs where g: "sort_key (\<lambda>f. - fm_version f) ?open = g # gs" by (rule sort_key_Cons)
    have "set (sort_key (\<lambda>f. - fm_version f) ?open) = set ?open" by (rule set_sort)
    then have "g \<in> set ?open" unfolding g by auto
    then obtain c where "c \<in> set (cycles d')" "window_open (now e) c" "fm_cycle g = cy_id c" by auto
    then have "fm_cycle g = cycle" using facts(5) by metis
    then show thesis using that g by (simp add: get_current_application_form_def)
  qed
  from facts(2) have "has_role_row (u_id (hd (rows_of fixture_organizer_clerk d'))) RoleOrganizer d'"
    "has_role_row (u_id (hd (rows_of fixture_scanner_clerk d'))) RoleScanner d'" by metis+
  with again facts(3,7) ids(2) row show ?thesis by simp
qed

definition seed_env :: env where
  "seed_env = sample_env\<lparr>parse_uuid := (\<lambda>s. map_of [(fixture_organizer, 1), (fixture_cycle, 2),
     (fixture_scanner, 4), (fixture_checkpoint, 5), (fixture_form, 6)] s)\<rparr>"

theorem seed_spec_witness:
  "\<exists>d' row. seed seed_env empty_db = (Inr (), d') \<and> seed seed_env d' = (Inr (), d') \<and>
     get_current_application_form seed_env d' = Some row \<and> cf_cycle row = 2"
proof -
  have "\<not> isl (fst (seed seed_env empty_db))" by code_simp
  then obtain d' where run: "seed seed_env empty_db = (Inr (), d')"
    by (metis isl_def prod.collapse sum.collapse(2) old.unit.exhaust)
  have "parse_uuid seed_env fixture_cycle = Some 2" by code_simp
  with seed_spec [OF run] run show ?thesis by (auto simp: empty_db_def)
qed

end
