(* ===== verification/Commands.thy ===== *)
theory Commands
  imports Settings Seed
begin

text \<open>
  The one-shot commands \<^verbatim>\<open>cmd/migrate\<close>, \<^verbatim>\<open>cmd/bootstrap-organizer\<close> and
  \<^verbatim>\<open>cmd/seed-intake\<close>: each opens the pool with the default limits, pings the database and runs
  one operation of its package. The deadlines the pool puts on a context are here too.
\<close>

section \<open>Deadlines\<close>

text \<open>\<^verbatim>\<open>context.WithTimeout\<close>: the deadline in nanoseconds, never later than the parent's.\<close>

definition with_timeout :: "int option \<Rightarrow> int \<Rightarrow> int \<Rightarrow> int" where
  "with_timeout parent t d = (case parent of None \<Rightarrow> t + d | Some p \<Rightarrow> min p (t + d))"

definition query_context :: "'u pool_config \<Rightarrow> int option \<Rightarrow> int \<Rightarrow> int" where
  "query_context po parent t = with_timeout parent t (po_query_timeout po)"

definition transaction_context :: "'u pool_config \<Rightarrow> int option \<Rightarrow> int \<Rightarrow> int" where
  "transaction_context po parent t = with_timeout parent t (po_transaction_timeout po)"

text \<open>\<open>reachable\<close> says whether the database answers a ping before a deadline.\<close>

definition pool_ping :: "('u pool_config \<Rightarrow> int \<Rightarrow> bool) \<Rightarrow> 'u pool_config \<Rightarrow> int option \<Rightarrow> int \<Rightarrow> bool" where
  "pool_ping reachable po parent t = reachable po (query_context po parent t)"

lemma deadlines_bounded:
  assumes "open_pool parse_db_url c = Inr po"
  shows "query_context po parent t \<le> t + po_query_timeout po" "t < t + po_query_timeout po"
    and "transaction_context po parent t \<le> t + po_transaction_timeout po" "t < t + po_transaction_timeout po"
    and "parent = Some p \<Longrightarrow> query_context po parent t \<le> p \<and> transaction_context po parent t \<le> p"
  using assms by (auto simp: query_context_def transaction_context_def with_timeout_def open_pool_def Let_def
      split: if_split_asm option.split_asm option.split)

section \<open>Opening the database\<close>

text \<open>A failure ends the process with \<^verbatim>\<open>log.Fatalf\<close>.\<close>

datatype command_error =
    Usage
  | ConfigureDatabase database_error
  | ConnectDatabase
  | ApplyFailed migration_error
  | BootstrapFailed user_error
  | SeedFailed seed_error

record 'u command_world =
  cw_db_url :: "string \<Rightarrow> 'u option"
  cw_reachable :: "'u pool_config \<Rightarrow> int \<Rightarrow> bool"
  cw_start :: int
  cw_ping :: int

text \<open>Every command has thirty seconds; only the URL of the database is configured.\<close>

definition command_timeout :: int where
  "command_timeout = 30 * second"

definition url_only :: "getenv \<Rightarrow> database_config" where
  "url_only env = \<lparr>dc_url = env ''DATABASE_URL'', dc_role = [], dc_max_conns = 0, dc_query_timeout = 0,
     dc_transaction_timeout = 0\<rparr>"

definition with_database ::
    "'u command_world \<Rightarrow> getenv \<Rightarrow> ('s \<Rightarrow> (command_error + 'a) \<times> 's) \<Rightarrow> 's \<Rightarrow> (command_error + 'a) \<times> 's" where
  "with_database w env run s =
     (case open_pool (cw_db_url w) (url_only env) of
        Inl err \<Rightarrow> (Inl (ConfigureDatabase err), s)
      | Inr po \<Rightarrow>
          if pool_ping (cw_reachable w) po (Some (cw_start w + command_timeout)) (cw_ping w) then run s
          else (Inl ConnectDatabase, s))"

section \<open>The commands\<close>

definition migrate_main ::
    "'u command_world \<Rightarrow> getenv \<Rightarrow> 'd execute \<Rightarrow> migration list \<Rightarrow> 'd catalog \<Rightarrow>
       (command_error + unit) \<times> 'd catalog" where
  "migrate_main w env execute files =
     with_database w env (\<lambda>c. apfst (wrap_err ApplyFailed) (apply_migrations execute files c))"

text \<open>\<open>args\<close> are \<^verbatim>\<open>os.Args\<close>, the program's name first.\<close>

definition bootstrap_main ::
    "'u command_world \<Rightarrow> getenv \<Rightarrow> env \<Rightarrow> string list \<Rightarrow> db \<Rightarrow> (command_error + unit) \<times> db" where
  "bootstrap_main w env e args d =
     (case args of
        [_, subject] \<Rightarrow>
          if subject = [] then (Inl Usage, d)
          else with_database w env (\<lambda>d. apfst (map_sum BootstrapFailed (\<lambda>_. ()))
                 (bootstrap_first_organizer e subject d)) d
      | _ \<Rightarrow> (Inl Usage, d))"

definition seed_main :: "'u command_world \<Rightarrow> getenv \<Rightarrow> env \<Rightarrow> db \<Rightarrow> (command_error + unit) \<times> db" where
  "seed_main w env e = with_database w env (\<lambda>d. apfst (wrap_err SeedFailed) (seed e d))"

section \<open>What a command leaves behind\<close>

lemma with_database_Inr:
  assumes "with_database w env run s = (Inr x, s')"
  shows "run s = (Inr x, s')"
    and "\<exists>u. cw_db_url w (env ''DATABASE_URL'') = Some u \<and> env ''DATABASE_URL'' \<noteq> []"
  using assms by (auto simp: with_database_def url_only_def open_pool_def Let_def
      split: sum.split_asm if_split_asm option.split_asm)

lemma with_database_Inl:
  assumes "with_database w env run s = (Inl err, s')" and "\<And>y t. run s = (Inl y, t) \<Longrightarrow> t = s"
  shows "s' = s"
  using assms by (auto simp: with_database_def split: sum.split_asm if_split_asm)

lemma wrapped_failure:
  assumes "apfst (wrap_err f) p = (Inl y, t)"
  shows "\<exists>x. p = (Inl x, t)"
  using assms by (cases p; cases "fst p") auto

lemma seed_Inl: "seed e d = (Inl err, d') \<Longrightarrow> d' = d"
  unfolding seed_def by (auto split: option.split_asm dest: transact_Inl [THEN iffD1])

text \<open>A command that exits with an error has changed nothing.\<close>

lemma failed_command_changes_nothing:
  shows "migrate_main w env execute files c = (Inl err, c') \<Longrightarrow> c' = c"
    and "bootstrap_main w env e args d = (Inl err, d') \<Longrightarrow> d' = d"
    and "seed_main w env e d = (Inl err, d') \<Longrightarrow> d' = d"
proof -
  show "c' = c" if "migrate_main w env execute files c = (Inl err, c')"
    using that unfolding migrate_main_def
    by (rule with_database_Inl) (auto simp: apply_migrations_def split: sum.split_asm)
  show "d' = d" if "bootstrap_main w env e args d = (Inl err, d')"
  proof -
    have "t = d" if "apfst (map_sum BootstrapFailed (\<lambda>_. ())) (bootstrap_first_organizer e subject d) = (Inl y, t)"
      for subject y t
      using that bootstrap_Inl [of e subject d _ t]
      by (cases "bootstrap_first_organizer e subject d") (auto simp: map_sum_def split: sum.split_asm)
    note run = this
    have "d' = d" if "with_database w env (\<lambda>d. apfst (map_sum BootstrapFailed (\<lambda>_. ()))
        (bootstrap_first_organizer e subject d)) d = (Inl err, d')" for subject
      using that by (rule with_database_Inl) (rule run)
    with that show ?thesis by (simp add: bootstrap_main_def split: list.split_asm if_split_asm)
  qed
  show "d' = d" if "seed_main w env e d = (Inl err, d')"
    using that unfolding seed_main_def
    by (rule with_database_Inl) (drule wrapped_failure, erule exE, erule seed_Inl)
qed

text \<open>The limits of a command's pool are the defaults.\<close>

lemma command_limits:
  assumes "open_pool parse_db_url (url_only env) = Inr po"
  shows "po_max_conns po = 10" "po_query_timeout po = 5 * second" "po_transaction_timeout po = 15 * second"
    and "po_role po = None" "po_statement_timeout po = 5000"
  using assms by (auto simp: open_pool_def url_only_def Let_def split: if_split_asm option.split_asm)

end
