(* ===== verification/Statements.thy ===== *)
theory Statements
  imports Redemptions
begin

text \<open>
  The generated statements of \<^verbatim>\<open>database/sqlc/passes.sql.go\<close> and
  \<^verbatim>\<open>redemptions.sql.go\<close>: a second formulation of what \<^verbatim>\<open>passes/service.go\<close> and
  \<^verbatim>\<open>redemptions/service.go\<close> write inline. A join is the list of the combined rows, a
  \<^verbatim>\<open>:one\<close> query its first row. Under the primary keys both formulations give the same answers.
\<close>

section \<open>Rows and joins\<close>

fun first_row :: "'r list \<Rightarrow> 'r option" where
  "first_row [] = None"
| "first_row (r # rs) = Some r"

text \<open>\<^verbatim>\<open>attendees JOIN applications\<close> with the condition on the decision, and \<^verbatim>\<open>passes\<close> before it.\<close>

definition accepted_rows :: "db \<Rightarrow> (attendee_row \<times> application_row) list" where
  "accepted_rows d =
     filter (\<lambda>(t, a). ap_id a = ad_application t \<and> ap_status a = StAccepted \<and> ap_released a \<noteq> None)
       (List.product (attendees d) (applications d))"

definition pass_rows :: "db \<Rightarrow> (pass_row \<times> attendee_row) list" where
  "pass_rows d =
     map (\<lambda>(p, t, a). (p, t))
       (filter (\<lambda>(p, t, a). ad_id t = pa_attendee p) (List.product (passes d) (accepted_rows d)))"

record web_pass_row =
  wr_id :: uuid
  wr_attendee :: uuid
  wr_name :: string
  wr_status :: pass_status
  wr_issued :: timestamp
  wr_revoked :: "timestamp option"

record summary_row =
  su_attendee :: uuid
  su_pass :: "uuid option"
  su_name :: string
  su_status :: "pass_status option"
  su_issued :: "timestamp option"
  su_revoked :: "timestamp option"

record issue_row =
  ir_id :: uuid
  ir_user :: uuid
  ir_name :: string
  ir_email :: string

record mutation_row =
  mr_pass :: pass_row
  mr_user :: uuid
  mr_name :: string
  mr_email :: string

record resolved_row =
  rv_pass :: uuid
  rv_attendee :: uuid
  rv_name :: string
  rv_state :: pass_status
  rv_issued :: timestamp

section \<open>Statements on passes\<close>

definition get_active_pass_for_attendee :: "uuid \<Rightarrow> db \<Rightarrow> pass_row option" where
  "get_active_pass_for_attendee i d =
     first_row (filter (\<lambda>p. pa_attendee p = i \<and> pa_status p = PassActive) (passes d))"

text \<open>The \<^verbatim>\<open>LEFT JOIN\<close>: an attendee without an active pass has one row of nulls.\<close>

definition summary_rows :: "uuid \<Rightarrow> db \<Rightarrow> (attendee_row \<times> pass_row option) list" where
  "summary_rows application d =
     concat (map (\<lambda>t. case filter (\<lambda>p. pa_attendee p = ad_id t \<and> pa_status p = PassActive) (passes d) of
           [] \<Rightarrow> [(t, None)] | ps \<Rightarrow> map (\<lambda>p. (t, Some p)) ps)
       (filter (\<lambda>t. ad_application t = application) (attendees d)))"

definition get_organizer_pass_summary :: "uuid \<Rightarrow> db \<Rightarrow> summary_row option" where
  "get_organizer_pass_summary application d =
     first_row (map (\<lambda>(t, p). \<lparr>su_attendee = ad_id t, su_pass = map_option pa_id p, su_name = ad_name t,
         su_status = map_option pa_status p, su_issued = map_option pa_issued p,
         su_revoked = Option.bind p pa_revoked\<rparr>) (summary_rows application d))"

definition get_pass_attendee :: "uuid \<Rightarrow> db \<Rightarrow> uuid option" where
  "get_pass_attendee i d = first_row (map pa_attendee (filter (\<lambda>p. pa_id p = i) (passes d)))"

definition get_web_pass_for_attendee :: "uuid \<Rightarrow> db \<Rightarrow> web_pass_row option" where
  "get_web_pass_for_attendee user d =
     first_row (map (\<lambda>(p, t). \<lparr>wr_id = pa_id p, wr_attendee = pa_attendee p, wr_name = ad_name t,
         wr_status = pa_status p, wr_issued = pa_issued p, wr_revoked = pa_revoked p\<rparr>)
       (filter (\<lambda>(p, t). ad_user t = user \<and> pa_status p = PassActive) (pass_rows d)))"

text \<open>The id of the row is the column's default, a random UUID of the database.\<close>

definition generated_insert_pass :: "env \<Rightarrow> uuid \<Rightarrow> bytes \<Rightarrow> bytes \<Rightarrow> db \<Rightarrow> db_error + pass_row \<times> db" where
  "generated_insert_pass e attendee qr claim d = insert_pass e (fresh e 0) attendee qr claim d"

definition insert_pass_issued_audit :: "env \<Rightarrow> uuid \<Rightarrow> uuid \<Rightarrow> string \<Rightarrow> db \<Rightarrow> db_error + db" where
  "insert_pass_issued_audit e actor pass attendee d =
     insert_audit e (Some actor) ''pass_issued'' ''pass'' pass (JObject [(''attendeeId'', JString attendee)]) d"

definition insert_pass_link_email ::
    "env \<Rightarrow> uuid \<Rightarrow> string \<Rightarrow> json \<Rightarrow> string \<Rightarrow> db \<Rightarrow> db_error + db" where
  "insert_pass_link_email e user email template key d =
     insert_outbox e ''pass_link'' user email ''pass_link'' template key d"

definition insert_pass_reissued_audit :: "env \<Rightarrow> uuid \<Rightarrow> uuid \<Rightarrow> string \<Rightarrow> string \<Rightarrow> db \<Rightarrow> db_error + db" where
  "insert_pass_reissued_audit e actor pass attendee replacement d =
     insert_audit e (Some actor) ''pass_reissued'' ''pass'' pass
       (JObject [(''attendeeId'', JString attendee), (''replacementPassId'', JString replacement)]) d"

definition insert_pass_revoked_audit :: "env \<Rightarrow> uuid \<Rightarrow> uuid \<Rightarrow> string \<Rightarrow> db \<Rightarrow> db_error + db" where
  "insert_pass_revoked_audit e actor pass attendee d =
     insert_audit e (Some actor) ''pass_revoked'' ''pass'' pass (JObject [(''attendeeId'', JString attendee)]) d"

definition lock_accepted_attendee_for_issue :: "uuid \<Rightarrow> db \<Rightarrow> issue_row option" where
  "lock_accepted_attendee_for_issue i d =
     first_row (map (\<lambda>(t, a). \<lparr>ir_id = ad_id t, ir_user = ad_user t, ir_name = ad_name t, ir_email = ad_email t\<rparr>)
       (filter (\<lambda>(t, a). ad_id t = i) (accepted_rows d)))"

definition lock_active_pass_for_mutation :: "uuid \<Rightarrow> db \<Rightarrow> mutation_row option" where
  "lock_active_pass_for_mutation i d =
     first_row (map (\<lambda>(p, t). \<lparr>mr_pass = p, mr_user = ad_user t, mr_name = ad_name t, mr_email = ad_email t\<rparr>)
       (filter (\<lambda>(p, t). pa_id p = i \<and> pa_status p = PassActive) (pass_rows d)))"

definition replace_active_pass :: "env \<Rightarrow> uuid \<Rightarrow> uuid \<Rightarrow> db \<Rightarrow> db_error + db" where
  "replace_active_pass e replacement i d =
     (let hit = (\<lambda>p. pa_id p = i \<and> pa_status p = PassActive) in
      if replacement = i \<and> list_ex hit (passes d) then Inl CheckViolation
      else Inr (d\<lparr>passes := upd_rows hit
        (\<lambda>p. p\<lparr>pa_status := PassReplaced, pa_revoked := Some (now e), pa_replaced_by := Some replacement\<rparr>)
        (passes d)\<rparr>))"

definition resolved_from :: "pass_row \<times> attendee_row \<Rightarrow> resolved_row" where
  "resolved_from = (\<lambda>(p, t). \<lparr>rv_pass = pa_id p, rv_attendee = pa_attendee p, rv_name = ad_name t,
     rv_state = pa_status p, rv_issued = pa_issued p\<rparr>)"

definition resolve_active_pass_by_claim :: "bytes \<Rightarrow> db \<Rightarrow> resolved_row option" where
  "resolve_active_pass_by_claim h d =
     first_row (map resolved_from (filter (\<lambda>(p, t). pa_claim p = h \<and> pa_status p = PassActive) (pass_rows d)))"

definition revoke_active_pass :: "env \<Rightarrow> uuid \<Rightarrow> db \<Rightarrow> db" where
  "revoke_active_pass e i d =
     d\<lparr>passes := upd_rows (\<lambda>p. pa_id p = i \<and> pa_status p = PassActive)
        (\<lambda>p. p\<lparr>pa_status := PassRevoked, pa_revoked := Some (now e)\<rparr>) (passes d)\<rparr>"

section \<open>Statements on redemptions\<close>

definition count_committed_redemptions :: "uuid \<Rightarrow> uuid \<Rightarrow> db \<Rightarrow> int" where
  "count_committed_redemptions attendee checkpoint d =
     int (length (filter (\<lambda>r. rd_attendee r = attendee \<and> rd_checkpoint r = checkpoint) (redemptions d)))"

definition find_redemption_request_for_update :: "uuid \<Rightarrow> db \<Rightarrow> request_row option" where
  "find_redemption_request_for_update key d = first_row (filter (\<lambda>r. rq_key r = key) (requests d))"

definition get_attendee_entitlement :: "uuid \<Rightarrow> uuid \<Rightarrow> uuid \<Rightarrow> db \<Rightarrow> (bool \<times> int) option" where
  "get_attendee_entitlement attendee checkpoint cycle d =
     first_row (map (\<lambda>x. (en_allowed x, en_max x))
       (filter (\<lambda>x. en_attendee x = attendee \<and> en_checkpoint x = checkpoint \<and> en_cycle x = cycle) (entitlements d)))"

definition generated_insert_redemption ::
    "env \<Rightarrow> uuid \<Rightarrow> uuid \<Rightarrow> uuid \<Rightarrow> uuid \<Rightarrow> uuid \<Rightarrow> 32 word \<Rightarrow> uuid \<Rightarrow> uuid \<Rightarrow> db \<Rightarrow> db_error + db" where
  "generated_insert_redemption e i pass attendee checkpoint cycle ordinal scanner key d =
     insert_redemption \<lparr>rd_id = i, rd_pass = pass, rd_attendee = attendee, rd_checkpoint = checkpoint,
       rd_cycle = cycle, rd_ordinal = sint ordinal, rd_scanner = scanner, rd_key = key, rd_at = now e\<rparr> d"

text \<open>The parameter is the text of the outcome, which a check constraint restricts.\<close>

definition scan_of_string :: "string \<Rightarrow> scan_outcome option" where
  "scan_of_string x = List.find (\<lambda>y. string_of_scan y = x)
     [Redeemed, AlreadyExhausted, NotEntitled, OutsideWindow, InvalidPass, RevokedPass]"

definition generated_insert_request ::
    "env \<Rightarrow> uuid \<Rightarrow> uuid \<Rightarrow> uuid \<Rightarrow> bytes \<Rightarrow> uuid option \<Rightarrow> uuid option \<Rightarrow> string \<Rightarrow> string option \<Rightarrow>
       string option \<Rightarrow> string \<Rightarrow> uuid option \<Rightarrow> db \<Rightarrow> db_error + db" where
  "generated_insert_request e key scanner checkpoint qr pass attendee outcome name status checkpoint_name redemption d =
     bindE (from_option CheckViolation (scan_of_string outcome)) (\<lambda>x.
       insert_request \<lparr>rq_id = fresh e 0, rq_key = key, rq_scanner = scanner, rq_checkpoint = checkpoint, rq_qr = qr,
         rq_pass = pass, rq_attendee = attendee, rq_outcome = x, rq_name = name, rq_pass_status = status,
         rq_checkpoint_name = checkpoint_name, rq_redemption = redemption, rq_created = now e\<rparr> d)"

definition list_active_checkpoints :: "(string \<Rightarrow> nat) \<Rightarrow> db \<Rightarrow> (uuid \<times> string) list" where
  "list_active_checkpoints rank d =
     map (\<lambda>c. (ck_id c, ck_name c))
       (sort_key (\<lambda>c. rank (ck_name c)) (sort_key ck_id (filter ck_active (checkpoints d))))"

record locked_checkpoint =
  lc_id :: uuid
  lc_cycle :: uuid
  lc_name :: string
  lc_opens :: "timestamp option"
  lc_closes :: "timestamp option"
  lc_allowed :: bool
  lc_max :: int
  lc_active :: bool

definition lock_checkpoint_for_redemption :: "uuid \<Rightarrow> db \<Rightarrow> locked_checkpoint option" where
  "lock_checkpoint_for_redemption i d =
     first_row (map (\<lambda>c. \<lparr>lc_id = ck_id c, lc_cycle = ck_cycle c, lc_name = ck_name c, lc_opens = ck_opens c,
         lc_closes = ck_closes c, lc_allowed = ck_allowed c, lc_max = ck_max c, lc_active = ck_active c\<rparr>)
       (filter (\<lambda>c. ck_id c = i) (checkpoints d)))"

definition lock_pass_for_redemption :: "bytes \<Rightarrow> db \<Rightarrow> locked_pass option" where
  "lock_pass_for_redemption qr d =
     first_row (map (\<lambda>(p, t, a). \<lparr>lp_id = pa_id p, lp_attendee = pa_attendee p, lp_cycle = ad_cycle t,
         lp_name = ad_name t, lp_status = pa_status p,
         lp_eligible = (ap_status a = StAccepted \<and> ap_released a \<noteq> None)\<rparr>)
       (filter (\<lambda>(p, t, a). ad_id t = pa_attendee p \<and> ap_id a = ad_application t \<and> pa_qr p = qr)
         (List.product (passes d) (List.product (attendees d) (applications d)))))"

definition resolve_active_pass_by_qr :: "bytes \<Rightarrow> db \<Rightarrow> resolved_row option" where
  "resolve_active_pass_by_qr h d =
     first_row (map resolved_from (filter (\<lambda>(p, t). pa_qr p = h \<and> pa_status p = PassActive) (pass_rows d)))"

section \<open>Agreement with the inline statements\<close>

text \<open>The primary keys and unique indexes the joins rest on.\<close>

definition keys_ok :: "db \<Rightarrow> bool" where
  "keys_ok d \<longleftrightarrow> distinct_on pa_id (passes d) \<and> distinct_on pa_qr (passes d) \<and> distinct_on pa_claim (passes d) \<and>
     distinct_on ad_id (attendees d) \<and> distinct_on ap_id (applications d)"

lemma first_row_filter: "first_row (filter P xs) = List.find P xs"
  by (induction xs) auto

lemma first_row_map: "first_row (map f xs) = map_option f (first_row xs)"
  by (cases xs) auto

lemma filter_by_key:
  assumes "distinct_on k xs"
  shows "filter (\<lambda>x. k x = i \<and> Q x) xs = (case List.find (\<lambda>x. k x = i \<and> Q x) xs of None \<Rightarrow> [] | Some x \<Rightarrow> [x])"
  using assms by (induction xs) (auto simp: filter_empty_conv image_iff split: option.split dest!: find_SomeD)

lemma concat_if: "concat (map (\<lambda>x. if P x then [x] else []) xs) = filter P xs"
  by (induction xs) auto

lemma filter_product:
  "filter P (List.product xs ys) = concat (map (\<lambda>x. map (Pair x) (filter (\<lambda>y. P (x, y)) ys)) xs)"
  by (induction xs) (simp_all add: filter_map comp_def)

lemma first_row_append: "first_row (xs @ ys) = (case first_row xs of None \<Rightarrow> first_row ys | Some x \<Rightarrow> Some x)"
  by (cases xs) auto

lemma first_concat_key:
  assumes "distinct_on k xs" and "\<And>x. x \<in> set xs \<Longrightarrow> k x \<noteq> v \<Longrightarrow> f x = []"
  shows "first_row (concat (map f xs)) = (case List.find (\<lambda>x. k x = v) xs of None \<Rightarrow> None | Some x \<Rightarrow> first_row (f x))"
  using assms
proof (induction xs)
  case (Cons x xs)
  show ?case
  proof (cases "k x = v")
    case True
    then have "concat (map f xs) = []" using Cons.prems by (force simp: image_iff)
    then have "concat (map f (x # xs)) = f x" unfolding list.map concat.simps by (metis append_Nil2)
    then have first: "first_row (concat (map f (x # xs))) = first_row (f x)" by (rule arg_cong)
    show ?thesis unfolding first using True by simp
  next
    case False
    then show ?thesis using Cons by simp
  qed
qed simp

lemma holders:
  assumes "distinct_on ap_id (applications d)"
  shows "map fst (accepted_rows d) = filter (released_acceptance d) (attendees d)"
proof -
  have "map fst (map (Pair t) (filter (\<lambda>a. ap_id a = ad_application t \<and> ap_status a = StAccepted \<and> ap_released a \<noteq> None)
      (applications d))) = (if released_acceptance d t then [t] else [])" for t
    unfolding filter_by_key [OF assms, where Q = "\<lambda>a. ap_status a = StAccepted \<and> ap_released a \<noteq> None"]
      released_acceptance_def
    by (auto simp: list_ex_iff find_None_iff dest: find_SomeD split: option.split)
  then have "map fst (accepted_rows d) =
      concat (map (\<lambda>t. if released_acceptance d t then [t] else []) (attendees d))"
    by (simp add: accepted_rows_def filter_product map_concat comp_def)
  then show ?thesis by (simp only: concat_if)
qed

definition holder_pairs :: "db \<Rightarrow> pass_row list \<Rightarrow> (pass_row \<times> attendee_row) list" where
  "holder_pairs d ps = concat (map (\<lambda>p. case pass_holder d p of None \<Rightarrow> [] | Some t \<Rightarrow> [(p, t)]) ps)"

lemma pass_rows_holders:
  assumes "keys_ok d"
  shows "pass_rows d = holder_pairs d (passes d)"
proof -
  have "map (\<lambda>x. (p, fst x)) (filter (\<lambda>(t, a). ad_id t = pa_attendee p) (accepted_rows d)) =
      (case pass_holder d p of None \<Rightarrow> [] | Some t \<Rightarrow> [(p, t)])" for p
  proof -
    have "map fst (filter (\<lambda>(t, a). ad_id t = pa_attendee p) (accepted_rows d)) =
        filter (\<lambda>t. ad_id t = pa_attendee p) (map fst (accepted_rows d))"
      by (simp add: filter_map comp_def case_prod_unfold)
    also have "\<dots> = filter (\<lambda>t. ad_id t = pa_attendee p \<and> released_acceptance d t) (attendees d)"
      using holders assms by (simp add: keys_ok_def conj_commute)
    also have "\<dots> = (case pass_holder d p of None \<Rightarrow> [] | Some t \<Rightarrow> [t])"
      unfolding pass_holder_def using assms by (intro filter_by_key) (simp add: keys_ok_def)
    finally have "map (Pair p) (map fst (filter (\<lambda>(t, a). ad_id t = pa_attendee p) (accepted_rows d))) =
        map (Pair p) (case pass_holder d p of None \<Rightarrow> [] | Some t \<Rightarrow> [t])" by simp
    then show ?thesis by (simp add: comp_def split: option.splits)
  qed
  then show ?thesis
    by (simp add: pass_rows_def filter_product holder_pairs_def map_concat comp_def case_prod_unfold)
qed

lemma first_holder:
  assumes "distinct_on k ps"
  shows "first_row (filter (\<lambda>(p, t). k p = v \<and> R p) (holder_pairs d ps)) =
    (case List.find (\<lambda>p. k p = v \<and> R p) ps of None \<Rightarrow> None | Some p \<Rightarrow> map_option (Pair p) (pass_holder d p))"
  using assms
proof (induction ps)
  case Nil
  then show ?case by (simp add: holder_pairs_def)
next
  case (Cons p ps)
  have split: "holder_pairs d (p # ps) =
      (case pass_holder d p of None \<Rightarrow> [] | Some t \<Rightarrow> [(p, t)]) @ holder_pairs d ps"
    by (simp add: holder_pairs_def)
  have none: "filter (\<lambda>(q, t). k q = v \<and> R q) (holder_pairs d ps) = []" if "k p = v"
    using that Cons.prems by (auto simp: holder_pairs_def filter_empty_conv image_iff split: option.split_asm)
  show ?case
  proof (cases "k p = v \<and> R p")
    case True
    then show ?thesis using none by (simp add: split split: option.split)
  next
    case False
    then show ?thesis using Cons by (auto simp: split split: option.split)
  qed
qed

text \<open>The queries whose inline form is a definition of its own.\<close>

lemma pass_queries_agree:
  assumes "keys_ok d"
  shows "get_active_pass_for_attendee i d = active_pass_of i d"
    and "get_pass_attendee i d = pass_attendee_id i d"
    and "lock_accepted_attendee_for_issue i d = map_option (\<lambda>t. \<lparr>ir_id = ad_id t, ir_user = ad_user t,
          ir_name = ad_name t, ir_email = ad_email t\<rparr>) (lock_accepted_attendee i d)"
    and "lock_active_pass_for_mutation i d = map_option (\<lambda>(p, t). \<lparr>mr_pass = p, mr_user = ad_user t,
          mr_name = ad_name t, mr_email = ad_email t\<rparr>) (lock_active_pass i d)"
    and "lock_pass_for_redemption qr d = lock_pass_by_qr_hash qr d"
proof -
  note keys = assms [unfolded keys_ok_def]
  show "get_active_pass_for_attendee i d = active_pass_of i d"
    by (simp add: get_active_pass_for_attendee_def active_pass_of_def first_row_filter)
  show "get_pass_attendee i d = pass_attendee_id i d"
    by (simp add: get_pass_attendee_def pass_attendee_id_def first_row_map first_row_filter)
  have "map fst (filter (\<lambda>(t, a). ad_id t = i) (accepted_rows d)) =
      filter (\<lambda>t. ad_id t = i \<and> released_acceptance d t) (attendees d)"
  proof -
    have "map fst (filter (\<lambda>(t, a). ad_id t = i) (accepted_rows d)) =
        filter (\<lambda>t. ad_id t = i) (map fst (accepted_rows d))"
      by (simp add: filter_map comp_def case_prod_unfold)
    then show ?thesis using holders keys by (simp add: conj_commute)
  qed
  moreover have "lock_accepted_attendee_for_issue i d = map_option (\<lambda>t. \<lparr>ir_id = ad_id t, ir_user = ad_user t,
      ir_name = ad_name t, ir_email = ad_email t\<rparr>) (first_row (map fst (filter (\<lambda>(t, a). ad_id t = i) (accepted_rows d))))"
    by (simp add: lock_accepted_attendee_for_issue_def first_row_map option.map_comp comp_def case_prod_unfold)
  ultimately show "lock_accepted_attendee_for_issue i d = map_option (\<lambda>t. \<lparr>ir_id = ad_id t, ir_user = ad_user t,
      ir_name = ad_name t, ir_email = ad_email t\<rparr>) (lock_accepted_attendee i d)"
    by (simp only: first_row_filter lock_accepted_attendee_def)
  show "lock_active_pass_for_mutation i d = map_option (\<lambda>(p, t). \<lparr>mr_pass = p, mr_user = ad_user t,
          mr_name = ad_name t, mr_email = ad_email t\<rparr>) (lock_active_pass i d)"
    using first_holder [of pa_id "passes d" i "\<lambda>p. pa_status p = PassActive" d] keys
    by (simp add: lock_active_pass_for_mutation_def lock_active_pass_def first_row_map
        pass_rows_holders [OF assms])
  show "lock_pass_for_redemption qr d = lock_pass_by_qr_hash qr d"
  proof -
    let ?row = "\<lambda>(p, t, a). \<lparr>lp_id = pa_id p, lp_attendee = pa_attendee p, lp_cycle = ad_cycle t,
         lp_name = ad_name t, lp_status = pa_status p,
         lp_eligible = (ap_status a = StAccepted \<and> ap_released a \<noteq> None)\<rparr>"
    let ?apps = "\<lambda>p t. filter (\<lambda>a. ad_id t = pa_attendee p \<and> ap_id a = ad_application t \<and> pa_qr p = qr) (applications d)"
    define pairs where "pairs p = concat (map (\<lambda>t. map (Pair t) (?apps p t)) (attendees d))" for p :: pass_row
    have "lock_pass_for_redemption qr d = map_option ?row (first_row (concat (map (\<lambda>p. map (Pair p) (pairs p)) (passes d))))"
      by (simp add: lock_pass_for_redemption_def filter_product first_row_map pairs_def)
    also have "first_row (concat (map (\<lambda>p. map (Pair p) (pairs p)) (passes d))) =
        (case List.find (\<lambda>p. pa_qr p = qr) (passes d) of None \<Rightarrow> None | Some p \<Rightarrow> map_option (Pair p) (first_row (pairs p)))"
      using keys by (subst first_concat_key [of pa_qr _ qr]) (auto simp: first_row_map pairs_def split: option.split)
    finally have rows: "lock_pass_for_redemption qr d = map_option ?row
      (case List.find (\<lambda>p. pa_qr p = qr) (passes d) of None \<Rightarrow> None | Some p \<Rightarrow> map_option (Pair p) (first_row (pairs p)))" .
    have "first_row (pairs p) = (case List.find (\<lambda>t. ad_id t = pa_attendee p) (attendees d) of None \<Rightarrow> None
        | Some t \<Rightarrow> map_option (Pair t) (List.find (\<lambda>a. ap_id a = ad_application t) (applications d)))"
      if "pa_qr p = qr" for p
      using keys that unfolding pairs_def
      by (subst first_concat_key [of ad_id _ "pa_attendee p"])
         (auto simp: first_row_map first_row_filter dest: find_SomeD split: option.split)
    note pair = this
    show ?thesis
    proof (cases "List.find (\<lambda>p. pa_qr p = qr) (passes d)")
      case None
      then show ?thesis by (simp add: rows lock_pass_by_qr_hash_def)
    next
      case (Some p)
      then have "pa_qr p = qr" by (auto dest: find_SomeD)
      then show ?thesis using Some pair [of p] by (simp add: rows lock_pass_by_qr_hash_def split: option.split)
    qed
  qed
qed

text \<open>The views the services build, over the generated rows.\<close>

definition web_view :: "pass_service \<Rightarrow> env \<Rightarrow> web_pass_row \<Rightarrow> pass_view \<times> string" where
  "web_view s e r =
     (\<lparr>pv_id = uuid_text e (wr_id r), pv_attendee = uuid_text e (wr_attendee r), pv_name = wr_name r,
       pv_status = wr_status r, pv_issued = wr_issued r, pv_revoked = wr_revoked r\<rparr>,
      derived_qr_credential s (wr_id r))"

definition claim_view :: "env \<Rightarrow> resolved_row \<Rightarrow> string \<times> string \<times> pass_status \<times> timestamp" where
  "claim_view e r = (uuid_text e (rv_pass r), rv_name r, rv_state r, rv_issued r)"

definition summary_view :: "env \<Rightarrow> summary_row \<Rightarrow> string \<times> pass_view option" where
  "summary_view e r =
     (uuid_text e (su_attendee r),
      case (su_pass r, su_status r, su_issued r) of
        (Some i, Some status, Some issued) \<Rightarrow>
          Some \<lparr>pv_id = uuid_text e i, pv_attendee = uuid_text e (su_attendee r), pv_name = su_name r,
            pv_status = status, pv_issued = issued, pv_revoked = su_revoked r\<rparr>
      | _ \<Rightarrow> None)"

lemma web_rows:
  "filter (\<lambda>(p, t). ad_user t = i \<and> pa_status p = PassActive) (holder_pairs d ps) =
     concat (map (\<lambda>p. case pass_holder d p of
          Some t \<Rightarrow> if ad_user t = i \<and> pa_status p = PassActive then [(p, t)] else [] | None \<Rightarrow> []) ps)"
  by (induction ps) (auto simp: holder_pairs_def split: option.split)

lemma first_row_case:
  assumes "\<And>p t. f (g (p, t)) = h p t"
  shows "map_option f (map_option g (first_row xs)) = (case xs of [] \<Rightarrow> None | (p, t) # _ \<Rightarrow> Some (h p t))"
  using assms by (cases xs) (auto split: prod.split)

lemma active_pass_rows:
  "filter (\<lambda>p. pa_attendee p = a \<and> pa_status p = PassActive) (passes d) = p # ps \<Longrightarrow>
   active_pass_of a d = Some p \<and> pa_attendee p = a"
  "filter (\<lambda>p. pa_attendee p = a \<and> pa_status p = PassActive) (passes d) = [] \<Longrightarrow> active_pass_of a d = None"
  using first_row_filter [of "\<lambda>p. pa_attendee p = a \<and> pa_status p = PassActive" "passes d"]
  by (auto simp: active_pass_of_def dest: Cons_eq_filterD [OF sym])

lemma web_pass_generated:
  assumes "keys_ok d"
  shows "fst (web_pass s e actor d) =
    (if \<not> has_role actor RoleApplicant then Inl PassForbidden
     else bindE (from_option PassInternal (parse_uuid e (user_id actor))) (\<lambda>i.
          from_option PassNotFound (map_option (web_view s e) (get_web_pass_for_attendee i d))))"
proof -
  have row: "map_option (web_view s e) (get_web_pass_for_attendee i d) =
      (case concat (map (\<lambda>p. case pass_holder d p of
                      Some t \<Rightarrow> if ad_user t = i \<and> pa_status p = PassActive then [(p, t)] else []
                    | None \<Rightarrow> []) (passes d)) of
               [] \<Rightarrow> None
             | (p, t) # _ \<Rightarrow> Some (pass_from e p (ad_name t), derived_qr_credential s (pa_id p)))" for i
    unfolding get_web_pass_for_attendee_def pass_rows_holders [OF assms] web_rows first_row_map
    by (rule first_row_case) (auto simp: web_view_def pass_from_def)
  show ?thesis unfolding web_pass_def query_def fst_conv row by simp
qed

lemma resolve_claim_generated:
  assumes "keys_ok d"
  shows "fst (resolve_claim s e token d) =
    (if \<not> valid_credential token claim_prefix then Inl PassNotFound
     else from_option PassNotFound (map_option (claim_view e)
       (resolve_active_pass_by_claim (credential_hash s (ps_claim s) ''claim'' token) d)))"
proof -
  have row: "resolve_active_pass_by_claim h d =
      (case List.find (\<lambda>p. pa_claim p = h \<and> pa_status p = PassActive) (passes d) of None \<Rightarrow> None
       | Some p \<Rightarrow> map_option (\<lambda>t. resolved_from (p, t)) (pass_holder d p))" for h
    using first_holder [of pa_claim "passes d" h "\<lambda>p. pa_status p = PassActive" d] assms
    by (simp add: resolve_active_pass_by_claim_def first_row_map pass_rows_holders keys_ok_def option.map_comp
        comp_def split: option.split)
  show ?thesis
    by (simp add: resolve_claim_def query_def row Let_def claim_view_def [abs_def] resolved_from_def option.map_comp
        comp_def split: option.split)
qed

lemma summary_generated:
  assumes "keys_ok d"
  shows "fst (summary_for_application e actor application d) =
    (if \<not> has_role actor RoleOrganizer then Inl PassForbidden
     else bindE (from_option PassNotFound (parse_uuid e application)) (\<lambda>i.
          from_option PassNotFound (map_option (summary_view e) (get_organizer_pass_summary i d))))"
proof -
  have row: "map_option (summary_view e) (get_organizer_pass_summary i d) =
      map_option (\<lambda>t. (uuid_text e (ad_id t), map_option (\<lambda>p. pass_from e p (ad_name t)) (active_pass_of (ad_id t) d)))
        (List.find (\<lambda>t. ad_application t = i) (attendees d))" for i
  proof (cases "filter (\<lambda>t. ad_application t = i) (attendees d)")
    case Nil
    then show ?thesis
      using first_row_filter [of "\<lambda>t. ad_application t = i" "attendees d"]
      by (simp add: get_organizer_pass_summary_def summary_rows_def)
  next
    case (Cons t ts)
    then have "List.find (\<lambda>t. ad_application t = i) (attendees d) = Some t"
      using first_row_filter [of "\<lambda>t. ad_application t = i" "attendees d"] by simp
    then show ?thesis
      using active_pass_rows [of "ad_id t" d] Cons
      by (cases "filter (\<lambda>p. pa_attendee p = ad_id t \<and> pa_status p = PassActive) (passes d)")
        (auto simp: get_organizer_pass_summary_def summary_rows_def summary_view_def pass_from_def)
  qed
  show ?thesis unfolding row by (auto simp: summary_for_application_def query_def from_option_def bindE_def
      split: option.split)
qed

section \<open>Agreement of the writes and of the reads of the ledger\<close>

lemma pass_writes_agree:
  shows "revoke_active_pass e i d = mark_revoked e i d"
    and "list_ex (\<lambda>p. pa_id p = i \<and> pa_status p = PassActive) (passes d) \<Longrightarrow>
      replace_active_pass e j i d = replace_pass e i j d"
    and "generated_insert_pass e a qr claim d = insert_pass e (fresh e 0) a qr claim d"
  by (simp_all add: revoke_active_pass_def mark_revoked_def replace_active_pass_def replace_pass_def
      generated_insert_pass_def)

text \<open>Without an active row under the id, the generated update changes nothing, whatever the
  replacement is: the check constraint of a row is only tested on a row that is written.\<close>

lemma replace_active_pass_none:
  assumes "\<not> list_ex (\<lambda>p. pa_id p = i \<and> pa_status p = PassActive) (passes d)"
  shows "replace_active_pass e j i d = Inr d"
proof -
  have "upd_rows (\<lambda>p. pa_id p = i \<and> pa_status p = PassActive) f (passes d) = passes d" for f
    using assms by (auto simp: upd_rows_def list_ex_iff intro!: map_idI)
  then show ?thesis using assms by (simp add: replace_active_pass_def)
qed

lemma pass_audits_agree:
  shows "insert_pass_audit e ''pass_issued'' actor i a r d =
      p_db (insert_pass_issued_audit e actor i (uuid_text e a) d)"
    and "insert_pass_audit e ''pass_revoked'' actor i a r d =
      p_db (insert_pass_revoked_audit e actor i (uuid_text e a) d)"
    and "insert_pass_audit e ''pass_reissued'' actor i a (Some j) d =
      p_db (insert_pass_reissued_audit e actor i (uuid_text e a) (uuid_text e j) d)"
  by (simp_all add: insert_pass_audit_def insert_pass_issued_audit_def insert_pass_revoked_audit_def
      insert_pass_reissued_audit_def Let_def)

lemma queue_pass_link_generated:
  "queue_pass_link s e t i d = insert_pass_link_email e (ad_user t) (ad_email t)
     (JObject ((''passId'', JString (uuid_text e i)) #
        (if web_pass_url s = [] then [] else [(''webPassUrl'', JString (web_pass_url s))])))
     (pass_link_key e i) d"
  by (simp add: queue_pass_link_def insert_pass_link_email_def)

lemma scan_of_string [simp]: "scan_of_string (string_of_scan x) = Some x"
  by (cases x) (simp_all add: scan_of_string_def string_of_scan_def)

lemma ledger_reads_agree:
  shows "count_committed_redemptions a c d = int (count_redemptions a c d)"
    and "find_redemption_request_for_update key d = find_redemption_request key d"
    and "effective_entitlement p k d = resolve_entitlement (ck_allowed k) (ck_max k)
      (get_attendee_entitlement (lp_attendee p) (ck_id k) (lp_cycle p) d)"
    and "lock_checkpoint_for_redemption i d = map_option (\<lambda>c. \<lparr>lc_id = ck_id c, lc_cycle = ck_cycle c,
      lc_name = ck_name c, lc_opens = ck_opens c, lc_closes = ck_closes c, lc_allowed = ck_allowed c,
      lc_max = ck_max c, lc_active = ck_active c\<rparr>) (lock_checkpoint i d)"
    and "fst (list_active e rank actor d) = (if \<not> has_role actor RoleScanner then Inl ScanForbidden
      else Inr (map (\<lambda>(i, n). (uuid_text e i, n)) (list_active_checkpoints rank d)))"
  by (simp_all add: count_committed_redemptions_def count_redemptions_def count_rows_def
      find_redemption_request_for_update_def find_redemption_request_def first_row_filter first_row_map
      effective_entitlement_def get_attendee_entitlement_def lock_checkpoint_for_redemption_def
      lock_checkpoint_def list_active_def list_active_checkpoints_def query_def)

end
