(* ===== verification/Spec2Isabelle.thy ===== *)
theory Spec2Isabelle
  imports Journey Commands Statements
begin

text \<open>
  A verification development for the HackAtlantic ATS, the Go API under \<^verbatim>\<open>src/api\<close> that runs the
  applications, reviews, decisions, passes and the event of a hackathon.

  \<^bold>\<open>The program.\<close> Every request enters through the middlewares and the route table of
  \<^verbatim>\<open>internal/httpapi\<close>, is authenticated by \<^verbatim>\<open>internal/auth\<close>, resolved to a local user with roles by
  \<^verbatim>\<open>internal/users\<close>, decoded by a handler and handed to one service. A service runs one query or one
  PostgreSQL transaction over the tables of the schema \<^verbatim>\<open>ats\<close>; the services share nothing but those
  tables and the resume store. An application is a draft under an optimistic lock until it is
  submitted; reviewers submit reviews; an organizer records a decision and releases it; the applicant
  responds; a confirmed attendee gets a pass whose QR and claim credentials are derived from its id
  with HMAC; scanners redeem the pass at checkpoints, each attempt under an idempotency key. Staff get
  passes of their own. Around it stand the start-up (\<^verbatim>\<open>cmd/server\<close>), the telemetry
  (\<^verbatim>\<open>internal/observability\<close>), the migration runner (\<^verbatim>\<open>migrations\<close>) and three one-shot commands.

  \<^bold>\<open>How it is modelled.\<close> The database is the record \<open>db\<close> of \<^verbatim>\<open>Schema\<close>, one list of row records per
  table in insertion order. A statement is a function to \<open>db_error + 'a\<close>, with the constraints it can
  violate as its errors. A service operation is \<open>env \<Rightarrow> arguments \<Rightarrow> db \<Rightarrow> (error + result) \<times> db\<close>, built
  with \<open>transact\<close> (an error rolls back) or \<open>query\<close> (nothing is written). \<open>env\<close> carries what an
  operation reads from outside: the instant \<open>now\<close>, the random UUIDs \<open>fresh\<close> in the order they are
  drawn, and the parsers of libraries. Inputs carry nanoseconds; stored timestamps are microseconds, as
  PostgreSQL keeps them. UUIDs and bytes are words; strings are lists of bytes as in Go. Handlers are
  \<open>request \<Rightarrow> 's api_state \<Rightarrow> response \<times> 's api_state\<close>, where \<open>'s\<close> is the resume store. Each operation is
  given in the serial order that its row locks impose.

  \<^bold>\<open>Theories, in the order they build on each other.\<close>
  \<^item> \<^verbatim>\<open>Prelude\<close>: results, rows, transactions, and the locale \<open>transaction_contract\<close>.
  \<^item> \<^verbatim>\<open>GoStrings\<close>: the functions of \<^verbatim>\<open>strings\<close>, \<^verbatim>\<open>strconv\<close> and \<^verbatim>\<open>unicode/utf8\<close> the code calls, trimming
    by UTF-8 white space included.
  \<^item> \<^verbatim>\<open>Forms\<close> (\<^verbatim>\<open>applications/service.go\<close>, the pure half): published forms and the validation of answers.
  \<^item> \<^verbatim>\<open>Schema\<close> (\<^verbatim>\<open>database/sqlc/models.go\<close>, the migrations): rows, enumerations, \<open>db\<close>, audit events.
  \<^item> \<^verbatim>\<open>Users\<close> (\<^verbatim>\<open>users/*.go\<close>, \<^verbatim>\<open>sqlc/identity.sql.go\<close>): sign-in, roles, the organizer bootstrap, the scanner
    lookup, volunteer access.
  \<^item> \<^verbatim>\<open>Applications\<close> (\<^verbatim>\<open>applications/service.go\<close>, \<^verbatim>\<open>sqlc/applications.sql.go\<close>): current form, create,
    list, save, submit, and the outbox.
  \<^item> \<^verbatim>\<open>Decisions\<close> (\<^verbatim>\<open>decisions/service.go\<close>, \<^verbatim>\<open>rsvps/service.go\<close> and their statements).
  \<^item> \<^verbatim>\<open>Sha256\<close> and \<^verbatim>\<open>Credentials\<close> (\<^verbatim>\<open>passes/service.go\<close>): SHA-256 and HMAC written out on words, base64, the
    derived credentials and their hashes.
  \<^item> \<^verbatim>\<open>Passes\<close>, \<^verbatim>\<open>StaffPasses\<close> (\<^verbatim>\<open>passes/service.go\<close>, \<^verbatim>\<open>passes/staff.go\<close>).
  \<^item> \<^verbatim>\<open>Redemptions\<close> (\<^verbatim>\<open>entitlements\<close>, \<^verbatim>\<open>checkpoints\<close>, \<^verbatim>\<open>redemptions/service.go\<close>), \<^verbatim>\<open>Journey\<close> (passes and
    redemptions together), \<^verbatim>\<open>Statements\<close> (the generated and uncalled statements of \<^verbatim>\<open>passes.sql.go\<close> and
    \<^verbatim>\<open>redemptions.sql.go\<close>).
  \<^item> \<^verbatim>\<open>Reviews\<close> (\<^verbatim>\<open>reviews/service.go\<close>), \<^verbatim>\<open>Operations\<close> (\<^verbatim>\<open>operations/*.go\<close>), \<^verbatim>\<open>Seed\<close>
    (\<^verbatim>\<open>cmd/seed-intake\<close>).
  \<^item> \<^verbatim>\<open>Files\<close>, \<^verbatim>\<open>Resumes\<close> (\<^verbatim>\<open>resumes/storage.go\<close>, \<^verbatim>\<open>resumes/service.go\<close>): the directory store step by step
    with the faults of the system calls, the bucket store, uploads and downloads.
  \<^item> \<^verbatim>\<open>Auth\<close> (\<^verbatim>\<open>auth/*.go\<close>), \<^verbatim>\<open>RateLimit\<close> (the claim limiter of \<^verbatim>\<open>httpapi/passes.go\<close>), \<^verbatim>\<open>Csv\<close> (the export
    cells of \<^verbatim>\<open>httpapi/operations.go\<close>).
  \<^item> \<^verbatim>\<open>Http\<close>, \<^verbatim>\<open>HttpIntake\<close>, \<^verbatim>\<open>HttpStaff\<close>, \<^verbatim>\<open>HttpEvent\<close>, \<^verbatim>\<open>Server\<close>, \<^verbatim>\<open>Responses\<close> (\<^verbatim>\<open>httpapi/*.go\<close>): requests and
    responses, one definition per handler, the route table, CORS and security headers, and the shape of
    every answer.
  \<^item> \<^verbatim>\<open>Migrations\<close> (\<^verbatim>\<open>migrations/migrations.go\<close>), \<^verbatim>\<open>Telemetry\<close> (\<^verbatim>\<open>observability.go\<close>), \<^verbatim>\<open>Settings\<close>
    (\<^verbatim>\<open>cmd/server/main.go\<close>, \<^verbatim>\<open>database/pool.go\<close>), \<^verbatim>\<open>Commands\<close> (\<^verbatim>\<open>cmd/migrate\<close>,
    \<^verbatim>\<open>cmd/bootstrap-organizer\<close>, the \<^verbatim>\<open>main\<close> of \<^verbatim>\<open>cmd/seed-intake\<close>).

  \<^bold>\<open>Interfaces.\<close> \<open>transaction_contract\<close> states what a family of calls promises: a failing call changes
  nothing, and a successful one keeps an invariant; its lemmas lift this to runs. It is interpreted for
  the writing operations of \<^verbatim>\<open>Users\<close>, \<^verbatim>\<open>Applications\<close>, \<^verbatim>\<open>Passes\<close>, \<^verbatim>\<open>Reviews\<close>, \<^verbatim>\<open>Redemptions\<close> and
  \<^verbatim>\<open>Operations\<close>. \<open>token_hasher\<close> is the interface \<^verbatim>\<open>QRTokenHasher\<close> through which the redemption service
  sees the pass service. \<open>object_store\<close> is the interface \<^verbatim>\<open>ObjectStore\<close> of the resumes, interpreted on
  the directory store.

  \<^bold>\<open>What the lemmas show.\<close> For the operations that write: the conditions of success, the exact new
  state, the audit events and mails, and what does not change; for drafts, reviews, responses and uploads
  also every refusal in the order of the guards. Across operations: the life
  cycles of volunteer requests and reviews, the ledger of redemptions as a bounded counter with answers
  by key over every run of calls and under any interleaving with administration, and the path from an
  issued pass to its redemption and its revocation. For the edges: credentials, files and exports read
  back, the validation of forms and answers agrees with a declarative reading, the limiter is bounded, no
  request passes without its identity and role, every answer has its shape, the runner applies every
  migration once, and telemetry exports only what it may. Each numbered property stands in the theory of
  its component, under a text that states it. Lemmas beside them say that the fixture can be planted
  twice (\<^verbatim>\<open>Seed\<close>), that a failing command changes nothing (\<^verbatim>\<open>Commands\<close>), and that the generated
  statements agree with the inline ones under the primary keys (\<^verbatim>\<open>Statements\<close>).

  \<^bold>\<open>Bounds.\<close> \<open>redeem\<close> tries three transactions, the constant of the code, and \<^verbatim>\<open>Journey\<close>
  says when that is enough.
  \<open>file_put\<close> draws at most the ten thousand names \<^verbatim>\<open>os.CreateTemp\<close> tries. Every other recursion is
  structural or has a measure. Counters of SQL are \<open>int\<close>, cut to 32 bits where the code converts them.

  \<^bold>\<open>Parameters.\<close> Code outside the repository is an argument of the definitions that use it: UUID, URL,
  mail-address, CIDR, duration and JSON parsing, Unicode case mapping, the JWT library, the Clerk API and
  its key endpoint, the S3 client, PostgreSQL's collation, \<^verbatim>\<open>ILIKE\<close>, the text form of \<^verbatim>\<open>jsonb\<close> and its
  input conversion of an answer (which may normalise a number or refuse a value), the effect of
  a migration's SQL, and the OpenTelemetry SDK. A property that needs a law of one of them has it as a
  hypothesis and a witness with a concrete function.

  \<^bold>\<open>Not modelled.\<close>
  \<^item> The JSON text of a response: an answer carries the value that is encoded.
  \<^item> The redirects of \<^verbatim>\<open>http.ServeMux\<close> for unclean paths, the listener, signals and graceful shutdown.
  \<^item> PostgreSQL's refusal of a NUL byte or of invalid UTF-8 in a \<^verbatim>\<open>text\<close> column (an internal error); a draft's
    answers, which are \<^verbatim>\<open>jsonb\<close>, have that refusal.
  \<^item> Cancellation and expiry of contexts inside an operation: deadlines are computed in \<^verbatim>\<open>Commands\<close>, but
    no operation is cut off in the middle; PostgreSQL would roll such a transaction back.
  \<^item> Interleavings inside a transaction. Two calls that wait on each other's row locks appear in the order
    they commit; a race this hides is that of an upload with a submission, where \<^verbatim>\<open>Upload\<close> checks
    the draft and writes the row in two statements.
  \<^item> \<^verbatim>\<open>InsertRedemptionAudit\<close> of \<^verbatim>\<open>redemptions.sql.go\<close>, which no code calls and which uses one parameter
    both as a UUID and as text.
  \<^item> \<^verbatim>\<open>sqlc/db.go\<close> and \<^verbatim>\<open>sqlc/querier.go\<close> (generated glue), the packages that hold only a comment, the
    role constant of \<^verbatim>\<open>attendees\<close> (part of an error text only), the web client, the tests
    and the deployment files.
\<close>

end
